(* ===== verification/Go_Prelude.thy ===== *)
theory Go_Prelude
  imports Main "HOL-Library.Word" "HOL-Library.Char_ord" "HOL-Library.List_Lexorder" "HOL-Library.AList" "HOL-Library.Multiset"
begin

unbundle bit_operations_syntax

text \<open>
  What the components share: the Go values and library functions the source
  uses, as executable HOL functions, with the lemmas that carry the component
  proofs.

  \<^item> Go strings are byte strings, here \<open>string\<close> (a list of 8-bit characters); \<open><\<close> on
    strings is the byte-wise lexicographic order of \<open>HOL-Library.List_Lexorder\<close>.
  \<^item> Go \<open>int\<close> and \<open>int64\<close> are \<open>int\<close>; where the source increments a value that can
    be at its upper bound the two's complement wrap-around is written out with
    \<open>wrap64\<close>.
  \<^item> A Go \<open>map\<close> is an association list without repeated keys; the list order is the
    (arbitrary) iteration order.
  \<^item> An \<open>error\<close> is a value of \<open>go_error\<close>: the format of the \<open>fmt.Errorf\<close> call and its
    arguments, or the error of a cancelled context.
\<close>

named_theorems go_simps \<open>rewrite rules for the Go library functions\<close>
named_theorems norm_simps \<open>normal forms: functions that normalise are idempotent\<close>

section \<open>Errors\<close>

datatype go_arg = Astr string | Aint int | Astrs "string list"

datatype go_error =
    CtxErr string
  | Errorf string "go_arg list"
  | Wrapf string "go_arg list" go_error

text \<open>A \<open>context.Context\<close> is seen through \<open>ctx.Err()\<close>: \<open>None\<close> while it is live.\<close>

type_synonym ctx = "go_error option"

text \<open>Methods start by checking the context and then the receiver.\<close>

definition with_receiver :: "ctx \<Rightarrow> string \<Rightarrow> 's option \<Rightarrow> ('s \<Rightarrow> go_error + 'a) \<Rightarrow> go_error + 'a" where
  "with_receiver ctx nilmsg recv body =
     (case ctx of Some e \<Rightarrow> Inl e
      | None \<Rightarrow> (case recv of None \<Rightarrow> Inl (Errorf nilmsg []) | Some s \<Rightarrow> body s))"

lemma with_receiver_live [simp]: "with_receiver None m (Some s) body = body s"
  by (simp add: with_receiver_def)

section \<open>Integers\<close>

definition maxInt64 :: int where
  "maxInt64 = 2 ^ 63 - 1"

definition wrap64 :: "int \<Rightarrow> int" where
  "wrap64 x = (x + 2 ^ 63) mod 2 ^ 64 - 2 ^ 63"

lemma wrap64_id: "- (2 ^ 63) \<le> x \<Longrightarrow> x \<le> maxInt64 \<Longrightarrow> wrap64 x = x"
  by (simp add: wrap64_def maxInt64_def)

lemma wrap64_Suc: "0 \<le> x \<Longrightarrow> x < maxInt64 \<Longrightarrow> wrap64 (x + 1) = x + 1"
  by (rule wrap64_id) (simp_all add: maxInt64_def)

lemma wrap64_max: "wrap64 (maxInt64 + 1) = - (2 ^ 63)"
  by (simp add: wrap64_def maxInt64_def)

section \<open>Strings\<close>

definition HasPrefix :: "string \<Rightarrow> string \<Rightarrow> bool" where
  "HasPrefix s p \<longleftrightarrow> take (length p) s = p"

lemma HasPrefix_append [simp]: "HasPrefix (p @ s) p"
  by (simp add: HasPrefix_def)

lemma HasPrefix_iff: "HasPrefix s p \<longleftrightarrow> (\<exists>r. s = p @ r)"
  by (metis HasPrefix_def append_eq_conv_conj)

definition CutPrefix :: "string \<Rightarrow> string \<Rightarrow> string option" where
  "CutPrefix s p = (if HasPrefix s p then Some (drop (length p) s) else None)"

lemma CutPrefix_append [simp]: "CutPrefix (p @ s) p = Some s"
  by (simp add: CutPrefix_def)

lemma CutPrefix_Some: "CutPrefix s p = Some r \<longleftrightarrow> s = p @ r"
  by (auto simp: CutPrefix_def HasPrefix_iff)

subsection \<open>strings.TrimSpace\<close>

text \<open>The UTF-8 encodings of the Unicode white space characters.\<close>

definition go_space_runes :: "string list" where
  "go_space_runes =
     [[CHR 0x09], [CHR 0x0A], [CHR 0x0B], [CHR 0x0C], [CHR 0x0D], [CHR 0x20],
      [CHR 0xC2, CHR 0x85], [CHR 0xC2, CHR 0xA0], [CHR 0xE1, CHR 0x9A, CHR 0x80],
      [CHR 0xE2, CHR 0x80, CHR 0x80], [CHR 0xE2, CHR 0x80, CHR 0x81],
      [CHR 0xE2, CHR 0x80, CHR 0x82], [CHR 0xE2, CHR 0x80, CHR 0x83],
      [CHR 0xE2, CHR 0x80, CHR 0x84], [CHR 0xE2, CHR 0x80, CHR 0x85],
      [CHR 0xE2, CHR 0x80, CHR 0x86], [CHR 0xE2, CHR 0x80, CHR 0x87],
      [CHR 0xE2, CHR 0x80, CHR 0x88], [CHR 0xE2, CHR 0x80, CHR 0x89],
      [CHR 0xE2, CHR 0x80, CHR 0x8A], [CHR 0xE2, CHR 0x80, CHR 0xA8],
      [CHR 0xE2, CHR 0x80, CHR 0xA9], [CHR 0xE2, CHR 0x80, CHR 0xAF],
      [CHR 0xE2, CHR 0x81, CHR 0x9F], [CHR 0xE3, CHR 0x80, CHR 0x80]]"

function trim_runes :: "string list \<Rightarrow> string \<Rightarrow> string" where
  "trim_runes ws s =
     (case find (\<lambda>w. w \<noteq> [] \<and> HasPrefix s w) ws of
        None \<Rightarrow> s
      | Some w \<Rightarrow> trim_runes ws (drop (length w) s))"
  by pat_completeness auto
termination
  by (relation "measure (\<lambda>(ws, s). length s)")
    (auto simp: find_Some_iff HasPrefix_iff)

declare trim_runes.simps [simp del]

definition TrimSpace :: "string \<Rightarrow> string" where
  "TrimSpace s =
     rev (trim_runes (map rev go_space_runes) (rev (trim_runes go_space_runes s)))"

text \<open>No string of \<open>ws\<close> is at the head of \<open>s\<close>.\<close>

definition no_lead :: "string list \<Rightarrow> string \<Rightarrow> bool" where
  "no_lead ws s \<longleftrightarrow> (\<forall>w \<in> set ws. w \<noteq> [] \<longrightarrow> \<not> HasPrefix s w)"

lemma trim_runes_id: "no_lead ws s \<Longrightarrow> trim_runes ws s = s"
  by (subst trim_runes.simps) (auto simp: no_lead_def find_None_iff split: option.split dest: find_Some_iff [THEN iffD1])

lemma no_lead_trim_runes: "no_lead ws (trim_runes ws s)"
proof (induction ws s rule: trim_runes.induct)
  case (1 ws s)
  show ?case
  proof (cases "find (\<lambda>w. w \<noteq> [] \<and> HasPrefix s w) ws")
    case None
    then have "trim_runes ws s = s" by (subst trim_runes.simps) simp
    with None show ?thesis by (auto simp: no_lead_def find_None_iff)
  next
    case (Some w)
    with 1 show ?thesis by (subst trim_runes.simps) simp
  qed
qed

lemma trim_runes_suffix: "\<exists>u. s = u @ trim_runes ws s"
proof (induction ws s rule: trim_runes.induct)
  case (1 ws s)
  show ?case
  proof (cases "find (\<lambda>w. w \<noteq> [] \<and> HasPrefix s w) ws")
    case None
    then show ?thesis by (subst trim_runes.simps) simp
  next
    case (Some w)
    from 1[OF Some] obtain u where "drop (length w) s = u @ trim_runes ws (drop (length w) s)"
      by blast
    then have "s = (take (length w) s @ u) @ trim_runes ws (drop (length w) s)"
      by (metis append.assoc append_take_drop_id)
    moreover from Some have "trim_runes ws s = trim_runes ws (drop (length w) s)"
      by (subst trim_runes.simps) simp
    ultimately show ?thesis by metis
  qed
qed

lemma no_lead_append: "no_lead ws (s @ t) \<Longrightarrow> no_lead ws s"
  by (auto simp: no_lead_def HasPrefix_iff)

lemma TrimSpace_idem [simp, norm_simps]: "TrimSpace (TrimSpace s) = TrimSpace s"
proof -
  let ?t = "trim_runes go_space_runes s"
  let ?r = "trim_runes (map rev go_space_runes) (rev ?t)"
  obtain u where "rev ?t = u @ ?r"
    using trim_runes_suffix by blast
  then have "?t = rev ?r @ rev u"
    by (metis rev_append rev_rev_ident)
  then have "no_lead go_space_runes (rev ?r)"
    using no_lead_trim_runes no_lead_append by metis
  then show ?thesis
    by (simp add: TrimSpace_def trim_runes_id no_lead_trim_runes)
qed

lemma TrimSpace_Nil [simp]: "TrimSpace [] = []"
  by code_simp

text \<open>Strings of printable ASCII characters are left alone.\<close>

definition plain_char :: "char \<Rightarrow> bool" where
  "plain_char c \<longleftrightarrow> 0x21 \<le> (of_char c :: nat) \<and> (of_char c :: nat) \<le> 0x7E"

lemma no_lead_plain:
  assumes "\<And>w. w \<in> set ws \<Longrightarrow> w \<noteq> [] \<Longrightarrow> \<not> plain_char (hd w)" and "s = [] \<or> plain_char (hd s)"
  shows "no_lead ws s"
  using assms by (fastforce simp: no_lead_def HasPrefix_iff)

lemma space_runes_not_plain:
  "list_all (\<lambda>w. w \<noteq> [] \<and> \<not> plain_char (hd w) \<and> \<not> plain_char (last w)) go_space_runes"
  by code_simp

lemma TrimSpace_plain_ends:
  assumes "s = [] \<or> (plain_char (hd s) \<and> plain_char (last s))"
  shows "TrimSpace s = s"
proof -
  have "no_lead go_space_runes s"
    by (rule no_lead_plain) (use space_runes_not_plain assms in \<open>auto simp: list_all_iff\<close>)
  moreover have "no_lead (map rev go_space_runes) (rev s)"
    by (rule no_lead_plain) (use space_runes_not_plain assms in \<open>auto simp: list_all_iff hd_rev\<close>)
  ultimately show ?thesis by (simp add: TrimSpace_def trim_runes_id)
qed

lemma TrimSpace_plain: "list_all plain_char s \<Longrightarrow> TrimSpace s = s"
  by (rule TrimSpace_plain_ends) (cases s; auto simp: list_all_iff)

subsection \<open>strings.Cut, strings.Split\<close>

fun Cut :: "string \<Rightarrow> string \<Rightarrow> (string \<times> string) option" where
  "Cut [] sep = (if sep = [] then Some ([], []) else None)"
| "Cut (c # cs) sep =
     (if HasPrefix (c # cs) sep then Some ([], drop (length sep) (c # cs))
      else map_option (\<lambda>(a, b). (c # a, b)) (Cut cs sep))"

lemma Cut_Some: "Cut s sep = Some (a, b) \<Longrightarrow> s = a @ sep @ b"
  by (induction s arbitrary: a) (auto simp: HasPrefix_iff split: if_splits)

text \<open>A separator whose first character does not occur before it is found where it stands.\<close>

lemma Cut_append:
  assumes "sep = c # r" and "c \<notin> set a"
  shows "Cut (a @ sep @ b) sep = Some (a, b)"
  using assms(2)
proof (induction a)
  case Nil
  have "Cut ([] @ (c # r) @ b) sep = Some ([], drop (length sep) ((c # r) @ b))"
    using assms(1) by (simp add: HasPrefix_def)
  then show ?case using assms(1) by simp
next
  case (Cons x a)
  then have "\<not> HasPrefix (x # a @ sep @ b) sep"
    using assms(1) by (auto simp: HasPrefix_iff)
  with Cons show ?case by simp
qed

fun split_on :: "char \<Rightarrow> string \<Rightarrow> string list" where
  "split_on c [] = [[]]"
| "split_on c (x # xs) =
     (if x = c then [] # split_on c xs
      else (case split_on c xs of [] \<Rightarrow> [[x]] | y # ys \<Rightarrow> (x # y) # ys))"

lemma split_on_nonempty [simp]: "split_on c s \<noteq> []"
  by (induction s) (auto split: list.splits)

lemma split_on_none: "c \<notin> set s \<Longrightarrow> split_on c s = [s]"
  by (induction s) auto

lemma split_on_append: "c \<notin> set a \<Longrightarrow> split_on c (a @ c # b) = a # split_on c b"
  by (induction a) auto

subsection \<open>strconv.Itoa and strconv.Atoi\<close>

definition digit_char :: "nat \<Rightarrow> char" where
  "digit_char d = char_of (48 + d)"

definition char_digit :: "char \<Rightarrow> nat option" where
  "char_digit c = (let n = of_char c in if 48 \<le> n \<and> n \<le> (57 :: nat) then Some (n - 48) else None)"

lemma char_digit_digit_char [simp]: "d < 10 \<Longrightarrow> char_digit (digit_char d) = Some d"
  by (simp add: char_digit_def digit_char_def)

fun dec_digits :: "nat \<Rightarrow> string" where
  "dec_digits n = (if n < 10 then [digit_char n] else dec_digits (n div 10) @ [digit_char (n mod 10)])"

declare dec_digits.simps [simp del]

definition Itoa :: "int \<Rightarrow> string" where
  "Itoa i = (if i < 0 then CHR ''-'' # dec_digits (nat (- i)) else dec_digits (nat i))"

fun parse_digits :: "nat \<Rightarrow> string \<Rightarrow> nat option" where
  "parse_digits acc [] = Some acc"
| "parse_digits acc (c # cs) =
     (case char_digit c of None \<Rightarrow> None | Some d \<Rightarrow> parse_digits (acc * 10 + d) cs)"

definition parse_udec :: "string \<Rightarrow> nat option" where
  "parse_udec s = (if s = [] then None else parse_digits 0 s)"

text \<open>\<open>Atoi\<close> takes an optional sign and decimal digits and rejects what \<open>int64\<close> cannot hold.\<close>

definition Atoi :: "string \<Rightarrow> int option" where
  "Atoi s =
     (case s of
        [] \<Rightarrow> None
      | c # cs \<Rightarrow>
          (let (neg, ds) = (if c = CHR ''-'' then (True, cs) else if c = CHR ''+'' then (False, cs) else (False, s))
           in case parse_udec ds of
                None \<Rightarrow> None
              | Some n \<Rightarrow>
                  (let v = (if neg then - int n else int n)
                   in if - (2 ^ 63) \<le> v \<and> v \<le> maxInt64 then Some v else None)))"

lemma parse_digits_append:
  "parse_digits acc (a @ b) = (case parse_digits acc a of None \<Rightarrow> None | Some n \<Rightarrow> parse_digits n b)"
  by (induction a arbitrary: acc) (auto split: option.splits)

lemma parse_dec_digits: "parse_digits 0 (dec_digits n) = Some n"
proof (induction n rule: dec_digits.induct)
  case (1 n)
  show ?case
  proof (cases "n < 10")
    case True
    then show ?thesis by (subst dec_digits.simps) simp
  next
    case False
    have "parse_digits 0 (dec_digits (n div 10) @ [digit_char (n mod 10)]) = Some (n div 10 * 10 + n mod 10)"
      using 1[OF False] by (simp add: parse_digits_append)
    with False show ?thesis by (subst dec_digits.simps) (simp add: mult.commute)
  qed
qed

lemma dec_digits_chars: "c \<in> set (dec_digits n) \<Longrightarrow> \<exists>d < 10. c = digit_char d"
proof (induction n rule: dec_digits.induct)
  case (1 n)
  show ?case
  proof (cases "n < 10")
    case True
    with "1.prems" show ?thesis by (subst (asm) dec_digits.simps) auto
  next
    case False
    with "1.prems" have "c \<in> set (dec_digits (n div 10)) \<or> c = digit_char (n mod 10)"
      by (subst (asm) dec_digits.simps) auto
    moreover have "n mod 10 < 10" by simp
    ultimately show ?thesis using "1.IH"[OF False] by blast
  qed
qed

lemma dec_digits_nonempty [simp]: "dec_digits n \<noteq> []"
  by (subst dec_digits.simps) simp

lemma of_char_digit_char: "d < 10 \<Longrightarrow> (of_char (digit_char d) :: nat) = 48 + d"
  by (simp add: digit_char_def)

lemma dec_digits_no_char:
  assumes "(of_char c :: nat) < 48 \<or> 57 < (of_char c :: nat)"
  shows "c \<notin> set (dec_digits n)"
  using assms by (auto dest!: dec_digits_chars simp: of_char_digit_char)

lemma Itoa_nonempty [simp]: "Itoa i \<noteq> []"
  by (simp add: Itoa_def)

lemma Atoi_Itoa:
  assumes "- (2 ^ 63) \<le> i" and "i \<le> maxInt64"
  shows "Atoi (Itoa i) = Some i"
proof (cases "i < 0")
  case True
  with assms show ?thesis
    by (simp add: Atoi_def Itoa_def parse_udec_def parse_dec_digits)
next
  case False
  obtain c cs where ds: "dec_digits (nat i) = c # cs"
    by (cases "dec_digits (nat i)") auto
  have "CHR ''-'' \<notin> set (dec_digits (nat i))" and "CHR ''+'' \<notin> set (dec_digits (nat i))"
    by (rule dec_digits_no_char; simp)+
  then have "c \<noteq> CHR ''-''" and "c \<noteq> CHR ''+''"
    using ds by auto
  with False assms ds show ?thesis
    using parse_dec_digits[of "nat i"] by (simp add: Atoi_def Itoa_def parse_udec_def)
qed

section \<open>FNV-1a, 64 bit\<close>

text \<open>\<open>hash/fnv\<close>: each byte is xored into the state, which is then multiplied by the prime.\<close>

definition fnv_offset :: "64 word" where
  "fnv_offset = 14695981039346656037"

definition fnv_prime :: "64 word" where
  "fnv_prime = 1099511628211"

fun fnv_write :: "64 word \<Rightarrow> string \<Rightarrow> 64 word" where
  "fnv_write h [] = h"
| "fnv_write h (c # cs) = fnv_write ((h XOR of_nat (of_char c)) * fnv_prime) cs"

lemma fnv_write_append: "fnv_write h (a @ b) = fnv_write (fnv_write h a) b"
  by (induction a arbitrary: h) auto

definition New64a :: "string \<Rightarrow> nat" where
  "New64a bytes = unat (fnv_write fnv_offset bytes)"

lemma New64a_bound: "New64a s < 2 ^ 64"
  using unsigned_less[of "fnv_write fnv_offset s", where ?'a = nat] by (simp add: New64a_def)

section \<open>Maps\<close>

type_synonym ('k, 'v) gomap = "('k \<times> 'v) list"

text \<open>\<open>m[k]\<close> gives the zero value for a missing key; \<open>m[k] = v\<close> overwrites.\<close>

definition gm_get :: "'v \<Rightarrow> ('k, 'v) gomap \<Rightarrow> 'k \<Rightarrow> 'v" where
  "gm_get zero m k = (case map_of m k of None \<Rightarrow> zero | Some v \<Rightarrow> v)"

definition gm_has :: "('k, 'v) gomap \<Rightarrow> 'k \<Rightarrow> bool" where
  "gm_has m k \<longleftrightarrow> map_of m k \<noteq> None"

definition gm_set :: "'k \<Rightarrow> 'v \<Rightarrow> ('k, 'v) gomap \<Rightarrow> ('k, 'v) gomap" where
  "gm_set k v m = AList.update k v m"

lemma map_of_gm_set [simp]: "map_of (gm_set k v m) = (map_of m)(k \<mapsto> v)"
  by (simp add: gm_set_def update_conv')

lemma gm_get_set [simp]: "gm_get z (gm_set k v m) j = (if j = k then v else gm_get z m j)"
  by (simp add: gm_get_def)

lemma gm_has_set [simp]: "gm_has (gm_set k v m) j \<longleftrightarrow> j = k \<or> gm_has m j"
  by (simp add: gm_has_def)

lemma gm_get_Nil [simp]: "gm_get z [] k = z"
  by (simp add: gm_get_def)

lemma gm_has_Nil [simp]: "\<not> gm_has [] k"
  by (simp add: gm_has_def)

lemma keys_gm_set [simp]: "fst ` set (gm_set k v m) = insert k (fst ` set m)"
  by (simp add: gm_set_def dom_update)

lemma set_gm_setD: "(k, v) \<in> set (gm_set j w m) \<Longrightarrow> (k, v) = (j, w) \<or> (k, v) \<in> set m"
  by (induction m) (auto simp: gm_set_def split: if_splits)

lemma distinct_gm_set: "distinct (map fst m) \<Longrightarrow> distinct (map fst (gm_set k v m))"
  by (simp add: gm_set_def distinct_update)

section \<open>Slices\<close>

text \<open>\<open>if limit > 0 && len(xs) > limit { xs = xs[:limit] }\<close>\<close>

definition limit_slice :: "int \<Rightarrow> 'a list \<Rightarrow> 'a list" where
  "limit_slice limit xs = (if limit > 0 \<and> int (length xs) > limit then take (nat limit) xs else xs)"

lemma limit_slice_take: "limit > 0 \<Longrightarrow> limit_slice limit xs = take (nat limit) xs"
  by (auto simp: limit_slice_def)

lemma limit_slice_none: "limit \<le> 0 \<Longrightarrow> limit_slice limit xs = xs"
  by (simp add: limit_slice_def)

lemma set_limit_slice: "x \<in> set (limit_slice limit xs) \<Longrightarrow> x \<in> set xs"
  by (auto simp: limit_slice_def dest: in_set_takeD split: if_splits)

lemma length_limit_slice: "limit > 0 \<Longrightarrow> int (length (limit_slice limit xs)) \<le> limit"
  by (simp add: limit_slice_take)

lemma nth_limit_slice: "i < length (limit_slice limit xs) \<Longrightarrow> limit_slice limit xs ! i = xs ! i"
  by (auto simp: limit_slice_def split: if_splits)

lemma length_limit_slice_le: "length (limit_slice limit xs) \<le> length xs"
  by (simp add: limit_slice_def)

lemma distinct_limit_slice: "distinct xs \<Longrightarrow> distinct (limit_slice limit xs)"
  by (simp add: limit_slice_def)

lemma sorted_wrt_limit_slice: "sorted_wrt P xs \<Longrightarrow> sorted_wrt P (limit_slice limit xs)"
  by (simp add: limit_slice_def sorted_wrt_take)

text \<open>
  The copying loops of the source stop once they hold \<open>limit\<close> elements:
  \<open>out = append(out, x); if limit > 0 && len(out) >= limit { break }\<close>.
  \<open>collect\<close> is that loop over the elements that pass the filter; \<open>n\<close> counts what \<open>out\<close> holds.
\<close>

fun collect :: "('a \<Rightarrow> bool) \<Rightarrow> int \<Rightarrow> nat \<Rightarrow> 'a list \<Rightarrow> 'a list" where
  "collect P limit n [] = []"
| "collect P limit n (x # xs) =
     (if \<not> P x then collect P limit n xs
      else x # (if limit > 0 \<and> int (Suc n) \<ge> limit then [] else collect P limit (Suc n) xs))"

lemma collect_none: "limit \<le> 0 \<Longrightarrow> collect P limit n xs = filter P xs"
  by (induction xs arbitrary: n) auto

lemma collect_take:
  assumes "limit > 0"
  shows "int n < limit \<Longrightarrow> collect P limit n xs = take (nat limit - n) (filter P xs)"
proof (induction xs arbitrary: n)
  case (Cons x xs)
  show ?case
  proof (cases "P x \<and> int (Suc n) < limit")
    case True
    then have "nat limit - n = Suc (nat limit - Suc n)" by linarith
    with True Cons show ?thesis by simp
  next
    case False
    with Cons.prems have "P x \<Longrightarrow> nat limit - n = 1" by linarith
    with False Cons show ?thesis by auto
  qed
qed simp

lemma collect_eq: "collect P limit 0 xs = limit_slice limit (filter P xs)"
proof (cases "limit > 0")
  case True
  with collect_take[OF True, of 0] show ?thesis by (simp add: limit_slice_take)
qed (simp add: limit_slice_none collect_none)

lemma set_collect: "x \<in> set (collect P limit 0 xs) \<Longrightarrow> x \<in> set xs \<and> P x"
  by (auto simp: collect_eq dest: set_limit_slice)

lemma collect_rel:
  assumes "list_all2 R xs ys" "\<And>x y. R x y \<Longrightarrow> P x \<longleftrightarrow> Q y"
  shows "list_all2 R (collect P limit n xs) (collect Q limit n ys)"
  using assms(1) by (induction arbitrary: n) (auto simp: assms(2))

text \<open>Collecting group by group loses nothing.\<close>

lemma concat_by_key:
  assumes "distinct ps" "\<And>e. e \<in> set es \<Longrightarrow> key e \<in> set ps"
  shows "mset (concat (map (\<lambda>p. filter P (filter (\<lambda>e. key e = p) es)) ps)) = mset (filter P es)"
  unfolding filter_filter using assms(2)
proof (induction es)
  case (Cons e es)
  let ?F = "\<lambda>es p. filter (\<lambda>x. key x = p \<and> P x) es"
  have one: "mset (concat (map (?F (e # es)) qs)) =
      mset (concat (map (?F es) qs)) + (if key e \<in> set qs \<and> P e then {#e#} else {#})" if "distinct qs" for qs
    using that by (induction qs) auto
  have "key e \<in> set ps" "mset (concat (map (?F es) ps)) = mset (filter P es)" using Cons by simp_all
  then show ?case unfolding one[OF assms(1)] by simp
qed simp

text \<open>A running maximum.\<close>

lemma le_fold_max: "(t :: int) \<le> fold max xs a \<longleftrightarrow> t \<le> a \<or> (\<exists>x \<in> set xs. t \<le> x)"
  by (induction xs arbitrary: a) auto

lemma fold_max_ge: "(a :: int) \<le> fold max xs a"
  by (simp add: le_fold_max)

section \<open>Sorting with a comparison function\<close>

text \<open>
  \<open>sort.SliceStable(xs, less)\<close> as a stable insertion sort. \<open>sort.Slice\<close> is used by the source
  only where elements that \<open>less\<close> does not tell apart are equal, so the same function models it.
\<close>

fun insert_by :: "('a \<Rightarrow> 'a \<Rightarrow> bool) \<Rightarrow> 'a \<Rightarrow> 'a list \<Rightarrow> 'a list" where
  "insert_by lt x [] = [x]"
| "insert_by lt x (y # ys) = (if lt y x then y # insert_by lt x ys else x # y # ys)"

fun slice_stable :: "('a \<Rightarrow> 'a \<Rightarrow> bool) \<Rightarrow> 'a list \<Rightarrow> 'a list" where
  "slice_stable lt [] = []"
| "slice_stable lt (x # xs) = insert_by lt x (slice_stable lt xs)"

lemma mset_insert_by [simp]: "mset (insert_by lt x xs) = add_mset x (mset xs)"
  by (induction xs) auto

lemma mset_slice_stable [simp]: "mset (slice_stable lt xs) = mset xs"
  by (induction xs) auto

lemma set_insert_by [simp]: "set (insert_by lt x xs) = insert x (set xs)"
  by (induction xs) auto

lemma set_slice_stable [simp]: "set (slice_stable lt xs) = set xs"
  by (induction xs) auto

lemma length_slice_stable [simp]: "length (slice_stable lt xs) = length xs"
  by (metis mset_slice_stable size_mset)

lemma distinct_slice_stable [simp]: "distinct (slice_stable lt xs) = distinct xs"
  by (metis mset_slice_stable mset_eq_imp_distinct_iff)

lemma distinct_map_slice_stable: "distinct (map f (slice_stable lt xs)) = distinct (map f xs)"
  by (simp add: distinct_map)

text \<open>The contract a comparison function owes the sort: a strict weak order.\<close>

locale sort_less =
  fixes lt :: "'a \<Rightarrow> 'a \<Rightarrow> bool"
  assumes lt_asym: "lt a b \<Longrightarrow> \<not> lt b a"
    and lt_between: "lt a b \<Longrightarrow> lt a c \<or> lt c b"
begin

lemma not_lt_trans: "\<not> lt b a \<Longrightarrow> \<not> lt c b \<Longrightarrow> \<not> lt c a"
  using lt_between by blast

lemma lt_trans: "lt a b \<Longrightarrow> lt b c \<Longrightarrow> lt a c"
  using lt_asym lt_between by blast

lemma sorted_insert_by:
  "sorted_wrt (\<lambda>a b. \<not> lt b a) xs \<Longrightarrow> sorted_wrt (\<lambda>a b. \<not> lt b a) (insert_by lt x xs)"
  by (induction xs) (auto dest: lt_asym lt_trans not_lt_trans)

lemma sorted_slice_stable: "sorted_wrt (\<lambda>a b. \<not> lt b a) (slice_stable lt xs)"
  by (induction xs) (auto intro: sorted_insert_by)

text \<open>Elements that the order does not tell apart keep their order.\<close>

definition same :: "'a \<Rightarrow> 'a \<Rightarrow> bool" where
  "same a b \<longleftrightarrow> \<not> lt a b \<and> \<not> lt b a"

lemma same_not_lt: "same z a \<Longrightarrow> same z b \<Longrightarrow> \<not> lt a b"
  unfolding same_def using lt_between by blast

lemma filter_insert_by:
  "filter (same z) (insert_by lt x xs) = (if same z x then x # filter (same z) xs else filter (same z) xs)"
  by (induction xs) (auto dest: same_not_lt)

lemma slice_stable_stable: "filter (same z) (slice_stable lt xs) = filter (same z) xs"
  by (induction xs) (auto simp: filter_insert_by)

end

text \<open>Comparing by a key in a linear order is such an order.\<close>

lemma sort_less_by_key:
  fixes key :: "'a \<Rightarrow> 'b :: linorder"
  assumes "\<And>a b. lt a b \<longleftrightarrow> key a < key b"
  shows "sort_less lt"
  by unfold_locales (auto simp: assms)

end
