(* ===== verification/Log_Partition.thy ===== *)
theory Log_Partition
  imports Go_Prelude "HOL-Library.Product_Lexorder"
begin

text \<open>
  Partitions, the write-ordering keys of the command and event logs, and the
  offsets kept per partition (\<open>internal/core/logmodel/partition.go\<close>,
  \<open>offset_snapshot.go\<close>): normalisation, the order used when partitions are listed,
  lag, and the two target computations of the projection workers.
\<close>

section \<open>Partitions\<close>

definition PartitionGlobal :: string where "PartitionGlobal = ''global''"
definition PartitionBoard :: string where "PartitionBoard = ''board''"
definition PartitionThread :: string where "PartitionThread = ''thread''"
definition PartitionPost :: string where "PartitionPost = ''post''"
definition PartitionPoll :: string where "PartitionPoll = ''poll''"
definition PartitionUser :: string where "PartitionUser = ''user''"
definition PartitionMail :: string where "PartitionMail = ''mail''"
definition PartitionChat :: string where "PartitionChat = ''chat''"
definition PartitionReview :: string where "PartitionReview = ''review''"

lemmas partition_kinds = PartitionGlobal_def PartitionBoard_def PartitionThread_def PartitionPost_def
  PartitionPoll_def PartitionUser_def PartitionMail_def PartitionChat_def PartitionReview_def

text \<open>A struct of two strings; a datatype rather than a record so that it can be a \<open>linorder\<close>.\<close>

datatype partition = Partition (pKind: string) (pKey: string)

instantiation partition :: linorder
begin

definition less_partition :: "partition \<Rightarrow> partition \<Rightarrow> bool" where
  "less_partition p q \<longleftrightarrow> (pKind p, pKey p) < (pKind q, pKey q)"

definition less_eq_partition :: "partition \<Rightarrow> partition \<Rightarrow> bool" where
  "less_eq_partition p q \<longleftrightarrow> (pKind p, pKey p) \<le> (pKind q, pKey q)"

instance
  by standard (auto simp: less_partition_def less_eq_partition_def partition.expand)

end

definition zero_partition :: partition where
  "zero_partition = Partition [] []"

definition Partition_Normalize :: "partition \<Rightarrow> partition" where
  "Partition_Normalize p =
     Partition (if pKind p = [] then PartitionGlobal else pKind p)
               (if pKey p = [] then PartitionGlobal else pKey p)"

definition NormalizePartitionFields :: "string \<Rightarrow> string \<Rightarrow> string \<times> string" where
  "NormalizePartitionFields kind key =
     (let p = Partition_Normalize (Partition (TrimSpace kind) (TrimSpace key)) in (pKind p, pKey p))"

definition Partition_Less :: "partition \<Rightarrow> partition \<Rightarrow> bool" where
  "Partition_Less p other =
     (let p = Partition_Normalize p; other = Partition_Normalize other
      in if pKind p = pKind other then pKey p < pKey other else pKind p < pKind other)"

definition SortPartitions :: "partition list \<Rightarrow> partition list" where
  "SortPartitions = slice_stable Partition_Less"

lemma PartitionGlobal_nonempty [simp]: "PartitionGlobal \<noteq> []"
  by (simp add: PartitionGlobal_def)

lemma Normalize_idem [simp, norm_simps]: "Partition_Normalize (Partition_Normalize p) = Partition_Normalize p"
  by (simp add: Partition_Normalize_def)

lemma Normalize_nonempty [simp]:
  "pKind (Partition_Normalize p) \<noteq> []" "pKey (Partition_Normalize p) \<noteq> []"
  by (simp_all add: Partition_Normalize_def)

lemma Normalize_id: "pKind p \<noteq> [] \<Longrightarrow> pKey p \<noteq> [] \<Longrightarrow> Partition_Normalize p = p"
  by (simp add: Partition_Normalize_def)

lemma Normalize_not_zero [simp]: "Partition_Normalize p \<noteq> zero_partition"
  by (simp add: Partition_Normalize_def zero_partition_def)

lemma Partition_Less_key: "Partition_Less p q \<longleftrightarrow> Partition_Normalize p < Partition_Normalize q"
  by (auto simp: Partition_Less_def Let_def less_partition_def)

interpretation partition_order: sort_less Partition_Less
  by (rule sort_less_by_key) (rule Partition_Less_key)

section \<open>Command partition offsets\<close>

record command_partition_offset =
  cpo_Partition :: partition
  cpo_TailOffset :: int
  cpo_CommittedOffset :: int

definition CommandPartitionOffset_Normalize :: "command_partition_offset \<Rightarrow> command_partition_offset" where
  "CommandPartitionOffset_Normalize off =
     (let tail = (if cpo_TailOffset off < 0 then 0 else cpo_TailOffset off);
          com = (if cpo_CommittedOffset off < 0 then 0 else cpo_CommittedOffset off)
      in off\<lparr>cpo_Partition := Partition_Normalize (cpo_Partition off),
             cpo_TailOffset := tail,
             cpo_CommittedOffset := (if com > tail then tail else com)\<rparr>)"

definition CommandPartitionOffset_Lag :: "command_partition_offset \<Rightarrow> int" where
  "CommandPartitionOffset_Lag off =
     (let off = CommandPartitionOffset_Normalize off
      in cpo_TailOffset off - cpo_CommittedOffset off)"

fun max_tails :: "(partition, int) gomap \<Rightarrow> (partition \<times> int) list \<Rightarrow> (partition, int) gomap" where
  "max_tails tails [] = tails"
| "max_tails tails ((p, n) # rest) =
     max_tails (if \<not> gm_has tails p \<or> n > gm_get 0 tails p then gm_set p n tails else tails) rest"

text \<open>\<open>tails[a] == tails[b] ? a.Less(b) : tails[a] > tails[b]\<close>\<close>

definition tail_less :: "(partition, int) gomap \<Rightarrow> partition \<Rightarrow> partition \<Rightarrow> bool" where
  "tail_less tails a b =
     (if gm_get 0 tails a = gm_get 0 tails b then Partition_Less a b
      else gm_get 0 tails a > gm_get 0 tails b)"

definition CommandPartitionsByTailOffset :: "command_partition_offset list \<Rightarrow> int \<Rightarrow> partition list" where
  "CommandPartitionsByTailOffset offsets limit =
     (let tails = max_tails [] (map (\<lambda>off. (Partition_Normalize (cpo_Partition off), cpo_TailOffset off)) offsets)
      in limit_slice limit (slice_stable (tail_less tails) (map fst tails)))"

definition lag_less :: "command_partition_offset \<Rightarrow> command_partition_offset \<Rightarrow> bool" where
  "lag_less a b =
     (let la = CommandPartitionOffset_Lag a; lb = CommandPartitionOffset_Lag b
      in if la = lb then
           (if cpo_TailOffset a = cpo_TailOffset b then Partition_Less (cpo_Partition a) (cpo_Partition b)
            else cpo_TailOffset a > cpo_TailOffset b)
         else la > lb)"

definition SortCommandPartitionOffsetsByLag :: "command_partition_offset list \<Rightarrow> command_partition_offset list" where
  "SortCommandPartitionOffsetsByLag = slice_stable lag_less"

fun lagging_loop :: "partition list \<Rightarrow> command_partition_offset list \<Rightarrow> command_partition_offset list" where
  "lagging_loop seen [] = []"
| "lagging_loop seen (off # offs) =
     (let off = CommandPartitionOffset_Normalize off
      in if CommandPartitionOffset_Lag off \<le> 0 then lagging_loop seen offs
         else if cpo_Partition off \<in> set seen then lagging_loop seen offs
         else off # lagging_loop (cpo_Partition off # seen) offs)"

definition LaggingCommandPartitionOffsets :: "command_partition_offset list \<Rightarrow> command_partition_offset list" where
  "LaggingCommandPartitionOffsets offsets = lagging_loop [] offsets"

text \<open>\<open>CommandPartitionOffsetSnapshot.clone\<close> (\<open>offset_snapshot.go\<close>) and its two callers.\<close>

definition snapshot_clone :: "command_partition_offset list \<Rightarrow> int \<Rightarrow> command_partition_offset list" where
  "snapshot_clone s limit = map CommandPartitionOffset_Normalize (limit_slice limit s)"

definition NewCommandPartitionOffsetSnapshot :: "command_partition_offset list \<Rightarrow> int \<Rightarrow> command_partition_offset list" where
  "NewCommandPartitionOffsetSnapshot offsets limit = snapshot_clone offsets limit"

definition ListCommandPartitionOffsets_snapshot ::
  "ctx \<Rightarrow> command_partition_offset list \<Rightarrow> int \<Rightarrow> go_error + command_partition_offset list" where
  "ListCommandPartitionOffsets_snapshot ctx s limit =
     (case ctx of Some e \<Rightarrow> Inl e | None \<Rightarrow> Inr (snapshot_clone s limit))"

section \<open>Event partition offsets\<close>

record event_partition_offset =
  epo_Partition :: partition
  epo_LastOffset :: int

definition EventPartitionOffset_Normalize :: "event_partition_offset \<Rightarrow> event_partition_offset" where
  "EventPartitionOffset_Normalize off =
     off\<lparr>epo_Partition := Partition_Normalize (epo_Partition off),
         epo_LastOffset := (if epo_LastOffset off < 0 then 0 else epo_LastOffset off)\<rparr>"

definition EventPartitionsByLastOffset :: "event_partition_offset list \<Rightarrow> int \<Rightarrow> partition list" where
  "EventPartitionsByLastOffset offsets limit =
     (let tails = max_tails [] (map (\<lambda>off. let off = EventPartitionOffset_Normalize off
                                           in (epo_Partition off, epo_LastOffset off)) offsets)
      in limit_slice limit (slice_stable (tail_less tails) (map fst tails)))"

definition last_offset_less :: "event_partition_offset \<Rightarrow> event_partition_offset \<Rightarrow> bool" where
  "last_offset_less a b =
     (if epo_LastOffset a = epo_LastOffset b then Partition_Less (epo_Partition a) (epo_Partition b)
      else epo_LastOffset a > epo_LastOffset b)"

definition SortEventPartitionOffsetsByLastOffset :: "event_partition_offset list \<Rightarrow> event_partition_offset list" where
  "SortEventPartitionOffsetsByLastOffset = slice_stable last_offset_less"

fun target_loop :: "partition list \<Rightarrow> (partition, int) gomap \<Rightarrow> event_partition_offset list \<Rightarrow> (partition, int) gomap" where
  "target_loop wanted targets [] = targets"
| "target_loop wanted targets (off # offs) =
     (let off = EventPartitionOffset_Normalize off
      in if epo_Partition off \<notin> set wanted then target_loop wanted targets offs
         else if epo_LastOffset off > gm_get 0 targets (epo_Partition off)
         then target_loop wanted (gm_set (epo_Partition off) (epo_LastOffset off) targets) offs
         else target_loop wanted targets offs)"

fun fill_targets :: "partition list \<Rightarrow> (partition, int) gomap \<Rightarrow> (partition, int) gomap" where
  "fill_targets [] targets = targets"
| "fill_targets (p # ps) targets =
     fill_targets ps (let p = Partition_Normalize p in if gm_has targets p then targets else gm_set p 0 targets)"

definition EventProjectionTargetOffsets ::
  "partition list \<Rightarrow> event_partition_offset list \<Rightarrow> (partition, int) gomap" where
  "EventProjectionTargetOffsets partitions offsets =
     fill_targets partitions (target_loop (map Partition_Normalize partitions) [] offsets)"

fun normalized_offsets :: "(partition, int) gomap \<Rightarrow> (partition \<times> int) list \<Rightarrow> (partition, int) gomap" where
  "normalized_offsets acc [] = acc"
| "normalized_offsets acc ((p, n) # rest) =
     normalized_offsets
       (let p = Partition_Normalize p in if n > gm_get 0 acc p then gm_set p n acc else acc) rest"

definition PartitionOffsetsReached :: "(partition, int) gomap \<Rightarrow> (partition, int) gomap \<Rightarrow> bool" where
  "PartitionOffsetsReached offsets targets =
     (let norm = normalized_offsets [] offsets
      in list_all (\<lambda>(p, t). t \<le> 0 \<or> \<not> gm_get 0 norm (Partition_Normalize p) < t) targets)"

section \<open>Lemmas\<close>

subsection \<open>Normal forms and lag\<close>

lemma CommandPartitionOffset_Normalize_sel [simp]:
  "cpo_Partition (CommandPartitionOffset_Normalize off) = Partition_Normalize (cpo_Partition off)"
  "cpo_TailOffset (CommandPartitionOffset_Normalize off) = max 0 (cpo_TailOffset off)"
  "cpo_CommittedOffset (CommandPartitionOffset_Normalize off) =
     min (max 0 (cpo_TailOffset off)) (max 0 (cpo_CommittedOffset off))"
  by (auto simp: CommandPartitionOffset_Normalize_def Let_def)

lemma EventPartitionOffset_Normalize_sel [simp]:
  "epo_Partition (EventPartitionOffset_Normalize off) = Partition_Normalize (epo_Partition off)"
  "epo_LastOffset (EventPartitionOffset_Normalize off) = max 0 (epo_LastOffset off)"
  by (auto simp: EventPartitionOffset_Normalize_def)

lemma command_partition_offset_eqI:
  "cpo_Partition a = cpo_Partition b \<Longrightarrow> cpo_TailOffset a = cpo_TailOffset b \<Longrightarrow>
   cpo_CommittedOffset a = cpo_CommittedOffset b \<Longrightarrow> a = (b :: command_partition_offset)"
  by (cases a, cases b) simp

lemma CommandPartitionOffset_Normalize_idem [simp, norm_simps]:
  "CommandPartitionOffset_Normalize (CommandPartitionOffset_Normalize off) = CommandPartitionOffset_Normalize off"
  by (rule command_partition_offset_eqI) auto

lemma Lag_Normalize [simp]: "CommandPartitionOffset_Lag (CommandPartitionOffset_Normalize off) = CommandPartitionOffset_Lag off"
  by (simp add: CommandPartitionOffset_Lag_def)

lemma Lag_eq:
  "CommandPartitionOffset_Lag off = max 0 (max 0 (cpo_TailOffset off) - max 0 (cpo_CommittedOffset off))"
  by (auto simp: CommandPartitionOffset_Lag_def)

lemma Lag_nonneg [simp]: "0 \<le> CommandPartitionOffset_Lag off"
  by (simp add: Lag_eq)

subsection \<open>The comparison functions are strict weak orders\<close>

lemma lag_less_key:
  "lag_less a b \<longleftrightarrow>
     (- CommandPartitionOffset_Lag a, - cpo_TailOffset a, Partition_Normalize (cpo_Partition a))
     < (- CommandPartitionOffset_Lag b, - cpo_TailOffset b, Partition_Normalize (cpo_Partition b))"
  by (auto simp: lag_less_def Partition_Less_key Let_def)

interpretation lag_order: sort_less lag_less
  by (rule sort_less_by_key) (rule lag_less_key)

lemma last_offset_less_key:
  "last_offset_less a b \<longleftrightarrow>
     (- epo_LastOffset a, Partition_Normalize (epo_Partition a)) < (- epo_LastOffset b, Partition_Normalize (epo_Partition b))"
  by (auto simp: last_offset_less_def Partition_Less_key)

interpretation last_offset_order: sort_less last_offset_less
  by (rule sort_less_by_key) (rule last_offset_less_key)

lemma tail_less_key:
  "tail_less tails a b \<longleftrightarrow>
     (- gm_get 0 tails a, Partition_Normalize a) < (- gm_get 0 tails b, Partition_Normalize b)"
  by (auto simp: tail_less_def Partition_Less_key)

interpretation tail_order: sort_less "tail_less tails" for tails
  by (rule sort_less_by_key) (rule tail_less_key)

subsection \<open>Largest tail per partition\<close>

lemma max_tails_has [simp]: "gm_has (max_tails t xs) p \<longleftrightarrow> gm_has t p \<or> p \<in> fst ` set xs"
  by (induction t xs rule: max_tails.induct) auto

lemma max_tails_keys: "fst ` set (max_tails t xs) = fst ` set t \<union> fst ` set xs"
proof (induction t xs rule: max_tails.induct)
  case (2 t p n rest)
  have "gm_has t p \<Longrightarrow> p \<in> fst ` set t"
    by (auto simp: gm_has_def dest: map_of_SomeD intro: image_eqI[where x = "(p, _)"])
  with 2 show ?case by auto
qed simp

lemma max_tails_distinct: "distinct (map fst t) \<Longrightarrow> distinct (map fst (max_tails t xs))"
  by (induction t xs rule: max_tails.induct) (auto simp: distinct_gm_set)

lemma max_tails_mono: "gm_has t p \<Longrightarrow> gm_get 0 t p \<le> gm_get 0 (max_tails t xs) p"
proof (induction t xs rule: max_tails.induct)
  case (2 t q n rest)
  let ?t = "if \<not> gm_has t q \<or> n > gm_get 0 t q then gm_set q n t else t"
  have "gm_get 0 t p \<le> gm_get 0 ?t p" and "gm_has ?t p" using "2.prems" by auto
  with "2.IH" show ?case by simp
qed simp

lemma max_tails_ge: "(p, n) \<in> set xs \<Longrightarrow> n \<le> gm_get 0 (max_tails t xs) p"
proof (induction t xs rule: max_tails.induct)
  case (2 t q m rest)
  let ?t = "if \<not> gm_has t q \<or> m > gm_get 0 t q then gm_set q m t else t"
  show ?case
  proof (cases "(p, n) \<in> set rest")
    case False
    with "2.prems" have "p = q" "n = m" by auto
    then have "n \<le> gm_get 0 ?t p" and "gm_has ?t p" by auto
    then show ?thesis using max_tails_mono[of ?t p rest] by simp
  qed (use "2.IH" in simp)
qed simp

lemma max_tails_in:
  "gm_has (max_tails t xs) p \<Longrightarrow>
     (gm_has t p \<and> gm_get 0 (max_tails t xs) p = gm_get 0 t p) \<or> (p, gm_get 0 (max_tails t xs) p) \<in> set xs"
  by (induction t xs rule: max_tails.induct) (auto split: if_splits)

lemma gm_get_max_tails:
  assumes "p \<in> fst ` set xs"
  shows "gm_get 0 (max_tails [] xs) p = Max {n. (p, n) \<in> set xs}"
proof (rule Max_eqI [symmetric])
  have "{n. (p, n) \<in> set xs} \<subseteq> snd ` set xs" by force
  then show "finite {n. (p, n) \<in> set xs}" by (rule finite_subset) simp
next
  fix n assume "n \<in> {n. (p, n) \<in> set xs}"
  then show "n \<le> gm_get 0 (max_tails [] xs) p" by (simp add: max_tails_ge)
next
  show "gm_get 0 (max_tails [] xs) p \<in> {n. (p, n) \<in> set xs}"
    using assms max_tails_in[of "[]" xs p] by simp
qed

text \<open>
  The common part of the two listings: all partitions once, larger tails first, and what a limit cuts
  off is never larger than what it keeps.
\<close>

lemma by_tail_listing:
  fixes xs :: "(partition \<times> int) list" and limit :: int
  defines "tails \<equiv> max_tails [] xs"
  defines "res \<equiv> limit_slice limit (slice_stable (tail_less tails) (map fst tails))"
  shows "distinct res" and "set res \<subseteq> fst ` set xs" and "limit \<le> 0 \<Longrightarrow> set res = fst ` set xs"
    and "sorted_wrt (\<lambda>p q. gm_get 0 tails q \<le> gm_get 0 tails p) res"
    and "\<And>p q. p \<in> set res \<Longrightarrow> q \<in> fst ` set xs \<Longrightarrow> q \<notin> set res \<Longrightarrow> gm_get 0 tails q \<le> gm_get 0 tails p"
proof -
  let ?full = "slice_stable (tail_less tails) (map fst tails)"
  have keys: "set ?full = fst ` set xs"
    using max_tails_keys[of "[]" xs] by (simp add: tails_def)
  have "distinct (map fst tails)"
    unfolding tails_def by (rule max_tails_distinct) simp
  then show "distinct res" by (simp add: res_def distinct_limit_slice)
  show "set res \<subseteq> fst ` set xs" using keys by (auto simp: res_def dest!: set_limit_slice)
  show "limit \<le> 0 \<Longrightarrow> set res = fst ` set xs" using keys by (simp add: res_def limit_slice_none)
  have full_sorted: "sorted_wrt (\<lambda>p q. gm_get 0 tails q \<le> gm_get 0 tails p) ?full"
    by (rule sorted_wrt_mono_rel [OF _ tail_order.sorted_slice_stable]) (auto simp: tail_less_def split: if_splits)
  then show "sorted_wrt (\<lambda>p q. gm_get 0 tails q \<le> gm_get 0 tails p) res"
    unfolding res_def by (rule sorted_wrt_limit_slice)
  show "gm_get 0 tails q \<le> gm_get 0 tails p"
    if "p \<in> set res" "q \<in> fst ` set xs" "q \<notin> set res" for p q
  proof -
    have r: "res = take (nat limit) ?full"
      using that keys by (auto simp: res_def limit_slice_def split: if_splits)
    have "q \<in> set (drop (nat limit) ?full)"
      using that keys r by (metis Un_iff append_take_drop_id set_append)
    moreover have "sorted_wrt (\<lambda>p q. gm_get 0 tails q \<le> gm_get 0 tails p) (res @ drop (nat limit) ?full)"
      using full_sorted r by simp
    ultimately show ?thesis using that by (simp add: sorted_wrt_append)
  qed
qed

subsection \<open>Loops over offsets\<close>

lemma lagging_loop_props:
  "distinct (map cpo_Partition (lagging_loop seen offs)) \<and>
   set (map cpo_Partition (lagging_loop seen offs)) \<inter> set seen = {} \<and>
   (\<forall>off \<in> set (lagging_loop seen offs). 0 < CommandPartitionOffset_Lag off \<and>
      off \<in> CommandPartitionOffset_Normalize ` set offs)"
  by (induction seen offs rule: lagging_loop.induct) (auto simp: Let_def)

lemma lagging_loop_complete:
  "off \<in> set offs \<Longrightarrow> 0 < CommandPartitionOffset_Lag off \<Longrightarrow>
   Partition_Normalize (cpo_Partition off) \<in> set seen \<union> cpo_Partition ` set (lagging_loop seen offs)"
proof (induction seen offs rule: lagging_loop.induct)
  case (2 seen x offs)
  show ?case
  proof (cases "off = x")
    case True
    with "2.prems" show ?thesis by (simp add: Let_def)
  next
    case False
    with "2.prems" have "off \<in> set offs" by simp
    with "2.prems" "2.IH" show ?thesis by (auto simp: Let_def)
  qed
qed simp

lemma target_loop_get:
  "gm_get 0 (target_loop wanted t offs) p =
     (if p \<in> set wanted
      then fold max (map (\<lambda>off. max 0 (epo_LastOffset off))
             (filter (\<lambda>off. Partition_Normalize (epo_Partition off) = p) offs)) (gm_get 0 t p)
      else gm_get 0 t p)"
proof (induction wanted t offs rule: target_loop.induct)
  case (2 wanted t off offs)
  then show ?case
    by (cases "Partition_Normalize (epo_Partition off) = p") (auto simp: Let_def not_less max.absorb1 max.absorb2)
qed simp

lemma target_loop_has: "gm_has (target_loop wanted t offs) p \<Longrightarrow> gm_has t p \<or> p \<in> set wanted"
  by (induction wanted t offs rule: target_loop.induct) (auto simp: Let_def split: if_splits)

lemma fill_targets_map_of:
  "map_of (fill_targets ps t) p =
     (if map_of t p \<noteq> None then map_of t p else if p \<in> Partition_Normalize ` set ps then Some 0 else None)"
  by (induction ps arbitrary: t) (auto simp: Let_def gm_has_def)

lemma normalized_offsets_get:
  "gm_get 0 (normalized_offsets acc xs) p =
     fold max (map snd (filter (\<lambda>(q, n). Partition_Normalize q = p) xs)) (gm_get 0 acc p)"
  by (induction acc xs rule: normalized_offsets.induct) (auto simp: Let_def not_less max.absorb1 max.absorb2)

section \<open>Properties\<close>

text \<open>
  Ordering a backlog by lag permutes the offsets, puts larger lags first, and keeps the order of
  offsets that the comparison does not tell apart; every lag lies between 0 and the tail.
\<close>

theorem SortCommandPartitionOffsetsByLag_correct:
  "mset (SortCommandPartitionOffsetsByLag offs) = mset offs \<and>
   sorted_wrt (\<lambda>a b. CommandPartitionOffset_Lag b \<le> CommandPartitionOffset_Lag a) (SortCommandPartitionOffsetsByLag offs) \<and>
   filter (lag_order.same z) (SortCommandPartitionOffsetsByLag offs) = filter (lag_order.same z) offs \<and>
   0 \<le> CommandPartitionOffset_Lag z \<and> CommandPartitionOffset_Lag z \<le> max 0 (cpo_TailOffset z)"
proof -
  have "sorted_wrt (\<lambda>a b. CommandPartitionOffset_Lag b \<le> CommandPartitionOffset_Lag a) (slice_stable lag_less offs)"
    by (rule sorted_wrt_mono_rel [OF _ lag_order.sorted_slice_stable])
      (auto simp: lag_less_def Let_def split: if_splits)
  then show ?thesis
    by (simp add: SortCommandPartitionOffsetsByLag_def lag_order.slice_stable_stable Lag_eq)
qed

definition largest_tail :: "command_partition_offset list \<Rightarrow> partition \<Rightarrow> int" where
  "largest_tail offs p = Max {cpo_TailOffset off | off. off \<in> set offs \<and> Partition_Normalize (cpo_Partition off) = p}"

lemma largest_tail_eq:
  fixes offs :: "command_partition_offset list"
  defines "xs \<equiv> map (\<lambda>off. (Partition_Normalize (cpo_Partition off), cpo_TailOffset off)) offs"
  assumes "p \<in> fst ` set xs"
  shows "gm_get 0 (max_tails [] xs) p = largest_tail offs p"
proof -
  have "{n. (p, n) \<in> set xs} = {cpo_TailOffset off | off. off \<in> set offs \<and> Partition_Normalize (cpo_Partition off) = p}"
    by (auto simp: xs_def image_iff)
  with gm_get_max_tails[OF assms(2)] show ?thesis by (simp add: largest_tail_def)
qed

text \<open>
  Listing command partitions by tail offset gives each partition once under its normalised name,
  orders them by their largest tail, and a positive limit keeps only partitions whose tail is at
  least that of every partition it drops.
\<close>

theorem CommandPartitionsByTailOffset_correct:
  fixes offs :: "command_partition_offset list" and limit :: int
  defines "res \<equiv> CommandPartitionsByTailOffset offs limit"
  defines "all \<equiv> (\<lambda>off. Partition_Normalize (cpo_Partition off)) ` set offs"
  shows "distinct res \<and> set res \<subseteq> all \<and>
    (set res = all \<or> 0 < limit \<and> int (length res) \<le> limit) \<and>
    sorted_wrt (\<lambda>p q. largest_tail offs q \<le> largest_tail offs p) res \<and>
    \<not> (\<exists>p q. p \<in> set res \<and> q \<in> all \<and> q \<notin> set res \<and> largest_tail offs p < largest_tail offs q)"
proof -
  define xs where "xs = map (\<lambda>off. (Partition_Normalize (cpo_Partition off), cpo_TailOffset off)) offs"
  have res: "res = limit_slice limit (slice_stable (tail_less (max_tails [] xs)) (map fst (max_tails [] xs)))"
    by (simp add: res_def CommandPartitionsByTailOffset_def xs_def Let_def)
  have all: "all = fst ` set xs"
    by (auto simp: all_def xs_def image_iff)
  note L = by_tail_listing[where xs = xs and limit = limit, folded res]
  have eq: "\<And>p. p \<in> all \<Longrightarrow> gm_get 0 (max_tails [] xs) p = largest_tail offs p"
    using largest_tail_eq[of _ offs] all by (simp add: xs_def)
  have sub: "set res \<subseteq> all" using L(2) all by simp
  have "sorted_wrt (\<lambda>p q. largest_tail offs q \<le> largest_tail offs p) res"
    using L(4) sub eq by (metis (mono_tags, lifting) sorted_wrt_mono_rel subsetD)
  moreover have "set res = all \<or> 0 < limit \<and> int (length res) \<le> limit"
    using L(3) all res by (cases "limit > 0") (auto simp: length_limit_slice)
  moreover have "\<not> largest_tail offs p < largest_tail offs q" if "p \<in> set res" "q \<in> all" "q \<notin> set res" for p q
  proof -
    have "p \<in> all" using that(1) sub by blast
    then show ?thesis using L(5)[of p q] that all eq[of p] eq[of q] by simp
  qed
  ultimately show ?thesis using L(1) sub by blast
qed

text \<open>
  The lagging offsets are the normalised inputs with a positive lag, one for each partition that has one.
\<close>

theorem LaggingCommandPartitionOffsets_correct:
  "distinct (map cpo_Partition (LaggingCommandPartitionOffsets offs)) \<and>
   set (LaggingCommandPartitionOffsets offs) \<subseteq>
     CommandPartitionOffset_Normalize ` {off \<in> set offs. 0 < CommandPartitionOffset_Lag off} \<and>
   cpo_Partition ` set (LaggingCommandPartitionOffsets offs) =
     (\<lambda>off. Partition_Normalize (cpo_Partition off)) ` {off \<in> set offs. 0 < CommandPartitionOffset_Lag off}"
proof -
  let ?res = "lagging_loop [] offs" and ?lag = "{off \<in> set offs. 0 < CommandPartitionOffset_Lag off}"
  have sub: "set ?res \<subseteq> CommandPartitionOffset_Normalize ` ?lag"
    using lagging_loop_props[of "[]" offs] by force
  then have "cpo_Partition ` set ?res \<subseteq> (\<lambda>off. Partition_Normalize (cpo_Partition off)) ` ?lag"
    by force
  moreover have "(\<lambda>off. Partition_Normalize (cpo_Partition off)) ` ?lag \<subseteq> cpo_Partition ` set ?res"
    using lagging_loop_complete[of _ offs "[]"] by auto
  ultimately have "cpo_Partition ` set ?res = (\<lambda>off. Partition_Normalize (cpo_Partition off)) ` ?lag"
    by (rule subset_antisym)
  with sub lagging_loop_props[of "[]" offs] show ?thesis
    unfolding LaggingCommandPartitionOffsets_def by blast
qed

text \<open>
  The projection target of a partition is the largest last offset reported for it (0 when none is),
  and it is defined for exactly the requested partitions.
\<close>

theorem EventProjectionTargetOffsets_correct:
  "map_of (EventProjectionTargetOffsets ps offs) p =
     (if p \<in> Partition_Normalize ` set ps
      then Some (Max (insert 0 {epo_LastOffset off | off. off \<in> set offs \<and> Partition_Normalize (epo_Partition off) = p}))
      else None)"
proof -
  let ?t = "target_loop (map Partition_Normalize ps) [] offs"
  let ?fs = "filter (\<lambda>off. Partition_Normalize (epo_Partition off) = p) offs"
  have maps: "map_of (EventProjectionTargetOffsets ps offs) p =
      (if map_of ?t p \<noteq> None then map_of ?t p else if p \<in> Partition_Normalize ` set ps then Some 0 else None)"
    by (simp add: EventProjectionTargetOffsets_def fill_targets_map_of)
  have out: "p \<notin> Partition_Normalize ` set ps \<Longrightarrow> map_of ?t p = None"
    using target_loop_has[of "map Partition_Normalize ps" "[]" offs p] by (auto simp: gm_has_def)
  have inn: "gm_get 0 ?t p = fold max (map (\<lambda>off. max 0 (epo_LastOffset off)) ?fs) 0"
    if "p \<in> Partition_Normalize ` set ps" using that by (simp add: target_loop_get)
  have "fold max (map (\<lambda>off. max 0 (epo_LastOffset off)) ?fs) 0 = Max (set (0 # map epo_LastOffset ?fs))"
  proof -
    have "t \<le> fold max (map (\<lambda>off. max 0 (epo_LastOffset off)) ?fs) 0 \<longleftrightarrow> t \<le> fold max (map epo_LastOffset ?fs) 0" for t
      by (auto simp: le_fold_max)
    then have "fold max (map (\<lambda>off. max 0 (epo_LastOffset off)) ?fs) 0 = fold max (map epo_LastOffset ?fs) 0"
      by (meson order_antisym order_refl)
    then show ?thesis by (simp only: Max.set_eq_fold)
  qed
  also have "set (0 # map epo_LastOffset ?fs) =
      insert 0 {epo_LastOffset off | off. off \<in> set offs \<and> Partition_Normalize (epo_Partition off) = p}"
    by auto
  finally show ?thesis using maps out inn by (auto simp: gm_get_def split: option.splits)
qed

text \<open>
  A projection has reached its targets exactly when every positive target is met by an offset
  recorded for the same partition, whatever spelling of the partition either side uses.
\<close>

theorem PartitionOffsetsReached_iff:
  "PartitionOffsetsReached offsets targets =
     list_all (\<lambda>(p, t). t \<le> 0 \<or> list_ex (\<lambda>(q, n). Partition_Normalize q = Partition_Normalize p \<and> t \<le> n) offsets) targets"
  by (simp add: PartitionOffsetsReached_def Let_def normalized_offsets_get not_less le_fold_max
      list_all_iff list_ex_iff) (fastforce)

end
