(* ===== verification/Subject_Codec.thy ===== *)
theory Subject_Codec
  imports Log_Partition
begin

text \<open>
  Broker subjects (\<open>internal/core/logmodel/subjects.go\<close>): partition kinds and keys
  travel in subject names as unpadded URL-safe base64 tokens separated by dots.
  The theory models \<open>base64.RawURLEncoding\<close>, the token functions and the subject
  functions, states the contract of a token codec as a locale and interprets it on
  the base64 functions.
\<close>

section \<open>base64.RawURLEncoding\<close>

definition enc64 :: "nat \<Rightarrow> char" where
  "enc64 i =
     (if i < 26 then char_of (65 + i)
      else if i < 52 then char_of (97 + (i - 26))
      else if i < 62 then char_of (48 + (i - 52))
      else if i = 62 then CHR ''-'' else CHR ''_'')"

definition dec64 :: "char \<Rightarrow> nat option" where
  "dec64 c =
     (let n = of_char c in
      if 65 \<le> n \<and> n \<le> 90 then Some (n - 65)
      else if 97 \<le> n \<and> n \<le> 122 then Some (n - 97 + 26)
      else if 48 \<le> n \<and> n \<le> 57 then Some (n - 48 + 52)
      else if n = 45 then Some 62 else if n = (95 :: nat) then Some 63 else None)"

fun b64_encode :: "string \<Rightarrow> string" where
  "b64_encode [] = []"
| "b64_encode [a] = (let a = of_char a in [enc64 (a div 4), enc64 (a mod 4 * 16)])"
| "b64_encode [a, b] =
     (let a = of_char a; b = of_char b
      in [enc64 (a div 4), enc64 (a mod 4 * 16 + b div 16), enc64 (b mod 16 * 4)])"
| "b64_encode (a # b # c # r) =
     (let a' = of_char a; b' = of_char b; c' = of_char c
      in [enc64 (a' div 4), enc64 (a' mod 4 * 16 + b' div 16), enc64 (b' mod 16 * 4 + c' div 64), enc64 (c' mod 64)]
         @ b64_encode r)"

text \<open>
  The decoder skips carriage returns and newlines, rejects every other character outside the alphabet,
  rejects a single left-over character and ignores the unused low bits of the last character.
\<close>

fun b64_digits :: "string \<Rightarrow> nat list option" where
  "b64_digits [] = Some []"
| "b64_digits (c # cs) =
     (if c = CHR 0x0A \<or> c = CHR 0x0D then b64_digits cs
      else (case dec64 c of None \<Rightarrow> None | Some d \<Rightarrow> map_option ((#) d) (b64_digits cs)))"

fun b64_bytes :: "nat list \<Rightarrow> string option" where
  "b64_bytes [] = Some []"
| "b64_bytes [x] = None"
| "b64_bytes [x, y] = Some [char_of (x * 4 + y div 16)]"
| "b64_bytes [x, y, z] = Some [char_of (x * 4 + y div 16), char_of (y mod 16 * 16 + z div 4)]"
| "b64_bytes (x # y # z # w # r) =
     map_option ((@) [char_of (x * 4 + y div 16), char_of (y mod 16 * 16 + z div 4), char_of (z mod 4 * 64 + w)])
       (b64_bytes r)"

definition b64_decode :: "string \<Rightarrow> string option" where
  "b64_decode s = (case b64_digits s of None \<Rightarrow> None | Some ds \<Rightarrow> b64_bytes ds)"

section \<open>Tokens and subjects\<close>

definition EncodeSubjectToken :: "string \<Rightarrow> string" where
  "EncodeSubjectToken v = b64_encode v"

definition DecodeSubjectToken :: "string \<Rightarrow> string option" where
  "DecodeSubjectToken v = b64_decode v"

definition PartitionKey :: "partition \<Rightarrow> string" where
  "PartitionKey p =
     (let p = Partition_Normalize p
      in EncodeSubjectToken (pKind p) @ ''.'' @ EncodeSubjectToken (pKey p))"

definition ParsePartitionKey :: "string \<Rightarrow> partition option" where
  "ParsePartitionKey raw =
     (case split_on CHR ''.'' raw of
        [a, b] \<Rightarrow>
          (case DecodeSubjectToken a of
             None \<Rightarrow> None
           | Some kind \<Rightarrow>
               (case DecodeSubjectToken b of
                  None \<Rightarrow> None
                | Some key \<Rightarrow> Some (Partition_Normalize (Partition kind key))))
      | _ \<Rightarrow> None)"

definition BrokerSubject :: "string \<Rightarrow> partition \<Rightarrow> string" where
  "BrokerSubject prefix p = prefix @ ''.'' @ PartitionKey p"

definition BrokerSubjectWildcard :: "string \<Rightarrow> string" where
  "BrokerSubjectWildcard prefix = prefix @ ''.>''"

definition ParseBrokerSubject :: "string \<Rightarrow> string \<Rightarrow> partition option" where
  "ParseBrokerSubject prefix subject =
     (case CutPrefix subject (prefix @ ''.'') of None \<Rightarrow> None | Some rest \<Rightarrow> ParsePartitionKey rest)"

fun normalize_scopes_loop :: "string list \<Rightarrow> string list \<Rightarrow> string list" where
  "normalize_scopes_loop out [] = out"
| "normalize_scopes_loop out (raw # rest) =
     (let scope = TrimSpace raw
      in if scope = [] \<or> scope \<in> set out then normalize_scopes_loop out rest
         else normalize_scopes_loop (out @ [scope]) rest)"

definition NormalizeScopes :: "string list \<Rightarrow> string list" where
  "NormalizeScopes scopes = sort (normalize_scopes_loop [] scopes)"

section \<open>Lemmas\<close>

lemma of_char_enc64:
  "i < 64 \<Longrightarrow> (of_char (enc64 i) :: nat) =
     (if i < 26 then 65 + i else if i < 52 then 71 + i else if i < 62 then i - 4 else if i = 62 then 45 else 95)"
  by (simp add: enc64_def)

lemma dec64_enc64 [simp]: "i < 64 \<Longrightarrow> dec64 (enc64 i) = Some i"
  by (auto simp: dec64_def of_char_enc64 Let_def)

lemma enc64_not [simp]:
  assumes "i < 64"
  shows "enc64 i \<noteq> CHR 0x0A" "enc64 i \<noteq> CHR 0x0D" "enc64 i \<noteq> CHR ''.''" "CHR ''.'' \<noteq> enc64 i"
proof -
  have "(of_char (enc64 i) :: nat) \<notin> {10, 13, 46}"
    using assms by (auto simp: of_char_enc64)
  then show "enc64 i \<noteq> CHR 0x0A" "enc64 i \<noteq> CHR 0x0D" and ne: "enc64 i \<noteq> CHR ''.''"
    by auto
  show "CHR ''.'' \<noteq> enc64 i" using ne by (rule not_sym)
qed

lemma b64_digits_enc64 [simp]:
  "d < 64 \<Longrightarrow> b64_digits (enc64 d # s) = map_option ((#) d) (b64_digits s)"
  by simp

lemma byte_parts [simp]:
  "(of_char c :: nat) div 4 < 64" "(of_char c :: nat) div 16 < 16" "(of_char c :: nat) div 64 < 4"
  using nat_of_char_less_256[of c] by linarith+

lemma two_digits [simp]:
  "(a :: nat) mod 4 * 16 < 64" "b div 16 < 16 \<Longrightarrow> a mod 4 * 16 + b div 16 < 64"
  "(b :: nat) mod 16 * 4 < 64" "c div 64 < 4 \<Longrightarrow> b mod 16 * 4 + c div 64 < 64"
proof -
  have "a mod 4 < 4" and "b mod 16 < 16" by simp_all
  then show "a mod 4 * 16 < 64" "b div 16 < 16 \<Longrightarrow> a mod 4 * 16 + b div 16 < 64"
    "b mod 16 * 4 < 64" "c div 64 < 4 \<Longrightarrow> b mod 16 * 4 + c div 64 < 64"
    by linarith+
qed

text \<open>Reassembling a byte from the six-bit groups it was cut into.\<close>

lemma join_first: "b div 16 < 16 \<Longrightarrow> (a :: nat) div 4 * 4 + (a mod 4 * 16 + b div 16) div 16 = a"
proof -
  assume "b div 16 < 16"
  then have "(a mod 4 * 16 + b div 16) div 16 = a mod 4" by linarith
  then show ?thesis using div_mult_mod_eq[of a 4] by simp
qed

lemma join_first_last: "(a :: nat) div 4 * 4 + (a mod 4 * 16) div 16 = a"
  using join_first[of 0 a] by simp

lemma join_second:
  "b div 16 < 16 \<Longrightarrow> c div 64 < 4 \<Longrightarrow>
   ((a :: nat) mod 4 * 16 + b div 16) mod 16 * 16 + (b mod 16 * 4 + c div 64) div 4 = b"
proof -
  assume "b div 16 < 16" "c div 64 < 4"
  then have "(a mod 4 * 16 + b div 16) mod 16 = b div 16" and "(b mod 16 * 4 + c div 64) div 4 = b mod 16"
    by (simp add: mod_mult_self3, linarith)
  then show ?thesis using div_mult_mod_eq[of b 16] by simp
qed

lemma join_second_last:
  "b div 16 < 16 \<Longrightarrow> ((a :: nat) mod 4 * 16 + b div 16) mod 16 * 16 + (b mod 16 * 4) div 4 = b"
  using join_second[of b 0 a] by simp

lemma join_third: "c div 64 < 4 \<Longrightarrow> ((b :: nat) mod 16 * 4 + c div 64) mod 4 * 64 + c mod 64 = c"
proof -
  assume "c div 64 < 4"
  then have "(b mod 16 * 4 + c div 64) mod 4 = c div 64" by (simp add: mod_mult_self3)
  then show ?thesis using div_mult_mod_eq[of c 64] by simp
qed

lemmas join_bytes = join_first join_first_last join_second join_second_last join_third

lemma b64_decode_encode: "b64_decode (b64_encode s) = Some s"
proof (induction s rule: b64_encode.induct)
  case (4 a b c r)
  from 4[OF refl refl refl] obtain ds where "b64_digits (b64_encode r) = Some ds" and "b64_bytes ds = Some r"
    by (auto simp: b64_decode_def split: option.splits)
  then show ?case by (simp add: b64_decode_def Let_def join_bytes)
qed (simp_all add: b64_decode_def Let_def join_bytes)

lemma b64_encode_no_dot: "CHR ''.'' \<notin> set (b64_encode s)"
  by (induction s rule: b64_encode.induct) (auto simp: Let_def)

section \<open>The contract of a token codec\<close>

locale token_codec =
  fixes enc :: "string \<Rightarrow> string" and dec :: "string \<Rightarrow> string option" and sep :: char
  assumes dec_enc: "dec (enc s) = Some s"
    and enc_no_sep: "sep \<notin> set (enc s)"
begin

lemma enc_inj: "enc a = enc b \<longleftrightarrow> a = b"
  using dec_enc by (metis option.inject)

lemma split_pair: "split_on sep (enc a @ sep # enc b) = [enc a, enc b]"
  by (simp add: split_on_append split_on_none enc_no_sep)

lemma split_terminated: "split_on sep (concat (map (\<lambda>x. enc x @ [sep]) xs)) = map enc xs @ [[]]"
  by (induction xs) (simp_all add: split_on_append enc_no_sep)

text \<open>Tokens joined with the separator determine their parts.\<close>

lemma join_inj:
  "length xs = length ys \<Longrightarrow>
   concat (map (\<lambda>x. sep # enc x) xs) = concat (map (\<lambda>x. sep # enc x) ys) \<longleftrightarrow> xs = ys"
proof (induction xs ys rule: list_induct2)
  case (Cons x xs y ys)
  have "enc x @ concat (map (\<lambda>x. sep # enc x) xs) = enc y @ concat (map (\<lambda>x. sep # enc x) ys)
      \<Longrightarrow> enc x = enc y"
  proof -
    assume eq: "enc x @ concat (map (\<lambda>x. sep # enc x) xs) = enc y @ concat (map (\<lambda>x. sep # enc x) ys)"
    have tw: "takeWhile (\<lambda>c. sep \<noteq> c) (enc z @ concat (map (\<lambda>x. sep # enc x) zs)) = enc z" for z zs
    proof -
      have "\<And>c. c \<in> set (enc z) \<Longrightarrow> sep \<noteq> c" using enc_no_sep by blast
      then show ?thesis by (cases zs) (simp_all add: takeWhile_append2 takeWhile_eq_all_conv)
    qed
    show "enc x = enc y" using tw[of x xs] tw[of y ys] eq by simp
  qed
  then have "x = y" if "concat (map (\<lambda>x. sep # enc x) (x # xs)) = concat (map (\<lambda>x. sep # enc x) (y # ys))"
    using that enc_inj by simp
  with Cons show ?case by auto
qed simp

end

interpretation subject_token: token_codec EncodeSubjectToken DecodeSubjectToken "CHR ''.''"
  by unfold_locales
    (simp_all add: EncodeSubjectToken_def DecodeSubjectToken_def b64_decode_encode b64_encode_no_dot)

section \<open>Properties\<close>

text \<open>
  Every byte string survives the trip through a subject token, and the token holds no dot,
  so it is one level of a broker subject.
\<close>

theorem SubjectToken_roundtrip:
  "DecodeSubjectToken (EncodeSubjectToken s) = Some s \<and> CHR ''.'' \<notin> set (EncodeSubjectToken s)"
  using subject_token.dec_enc subject_token.enc_no_sep by blast

text \<open>
  C39: parsing the broker subject of a partition gives back its normal form, and two partitions share
  a subject exactly when they have the same normal form.
\<close>

theorem BrokerSubject_roundtrip:
  "ParseBrokerSubject prefix (BrokerSubject prefix p) = Some (Partition_Normalize p) \<and>
   (BrokerSubject prefix p = BrokerSubject prefix q \<longleftrightarrow> Partition_Normalize p = Partition_Normalize q)"
proof -
  have key: "ParsePartitionKey (PartitionKey p) = Some (Partition_Normalize p)" for p
    using subject_token.split_pair
    by (simp add: ParsePartitionKey_def PartitionKey_def Let_def subject_token.dec_enc)
  have "ParseBrokerSubject prefix (BrokerSubject prefix p) = Some (Partition_Normalize p)"
    using CutPrefix_append[of "prefix @ ''.''" "PartitionKey p"]
    by (simp add: ParseBrokerSubject_def BrokerSubject_def key)
  moreover have "PartitionKey p = PartitionKey q \<longleftrightarrow> Partition_Normalize p = Partition_Normalize q"
    using key by (metis PartitionKey_def Normalize_idem option.inject)
  ultimately show ?thesis by (simp add: BrokerSubject_def)
qed

lemma normalize_scopes_loop_set:
  "set (normalize_scopes_loop out ss) = set out \<union> (TrimSpace ` set ss - {[]})"
  by (induction out ss rule: normalize_scopes_loop.induct) (auto simp: Let_def)

lemma normalize_scopes_loop_distinct:
  "distinct out \<Longrightarrow> distinct (normalize_scopes_loop out ss)"
  by (induction out ss rule: normalize_scopes_loop.induct) (auto simp: Let_def)

text \<open>
  Scope lists are brought to a canonical form: sorted, without repetitions, holding exactly the
  non-blank trimmed scopes, so that lists naming the same scopes become equal.
\<close>

theorem NormalizeScopes_canonical:
  "sorted (NormalizeScopes ss) \<and> distinct (NormalizeScopes ss) \<and>
   set (NormalizeScopes ss) = TrimSpace ` set ss - {[]} \<and>
   (NormalizeScopes ss = NormalizeScopes ts \<longleftrightarrow> TrimSpace ` set ss - {[]} = TrimSpace ` set ts - {[]})"
proof -
  have props: "sorted (NormalizeScopes us) \<and> distinct (NormalizeScopes us) \<and>
      set (NormalizeScopes us) = TrimSpace ` set us - {[]}" for us
    by (simp add: NormalizeScopes_def normalize_scopes_loop_distinct normalize_scopes_loop_set)
  then show ?thesis using sorted_distinct_set_unique by metis
qed

end
