(* ===== verification/Command_Records.thy ===== *)
theory Command_Records
  imports Subject_Codec
begin

text \<open>
  The records of the command log (\<open>internal/core/logmodel/source_position.go\<close>, \<open>receipts.go\<close>,
  \<open>records.go\<close>): broker source positions and their validation, command receipts (the keys that
  make a retried command idempotent), their message ids for broker de-duplication, and the
  deterministic enqueue time.
\<close>

section \<open>Source and commit positions\<close>

record source_position =
  sp_Backend :: string
  sp_Topic :: string
  sp_PhysicalPartition :: int
  sp_PhysicalOffset :: int
  sp_CommitOffset :: int
  sp_LogicalPartition :: partition
  sp_LogicalOffset :: int

definition zero_source_position :: source_position where
  "zero_source_position = \<lparr>sp_Backend = [], sp_Topic = [], sp_PhysicalPartition = 0, sp_PhysicalOffset = 0,
     sp_CommitOffset = 0, sp_LogicalPartition = zero_partition, sp_LogicalOffset = 0\<rparr>"

definition SourcePosition_IsZero :: "source_position \<Rightarrow> bool" where
  "SourcePosition_IsZero p \<longleftrightarrow> p = zero_source_position"

definition SourcePosition_Normalize :: "source_position \<Rightarrow> source_position" where
  "SourcePosition_Normalize p =
     p\<lparr>sp_Backend := TrimSpace (sp_Backend p), sp_Topic := TrimSpace (sp_Topic p),
       sp_LogicalPartition := (if sp_LogicalPartition p \<noteq> zero_partition
                               then Partition_Normalize (sp_LogicalPartition p) else sp_LogicalPartition p)\<rparr>"

text \<open>Functions that return only an \<open>error\<close> give \<open>None\<close> for \<open>nil\<close>.\<close>

definition SourcePosition_ValidateFor :: "source_position \<Rightarrow> partition \<Rightarrow> int \<Rightarrow> go_error option" where
  "SourcePosition_ValidateFor p part offset =
     (if SourcePosition_IsZero p then None
      else let p = SourcePosition_Normalize p; part = Partition_Normalize part
        in if sp_Backend p = [] then Some (Errorf ''command log source position: backend is required'' [])
        else if sp_Topic p = [] then Some (Errorf ''command log source position: topic is required'' [])
        else if sp_PhysicalPartition p < 0 then
          Some (Errorf ''command log source position: physical partition %d is negative'' [Aint (sp_PhysicalPartition p)])
        else if sp_PhysicalOffset p < 0 then
          Some (Errorf ''command log source position: physical offset %d is negative'' [Aint (sp_PhysicalOffset p)])
        else if sp_CommitOffset p \<le> sp_PhysicalOffset p then
          Some (Errorf ''command log source position: commit offset %d must advance physical offset %d''
            [Aint (sp_CommitOffset p), Aint (sp_PhysicalOffset p)])
        else if sp_LogicalPartition p \<noteq> part then
          Some (Errorf ''command log source position: logical partition %s/%s does not match record partition %s/%s''
            [Astr (pKind (sp_LogicalPartition p)), Astr (pKey (sp_LogicalPartition p)), Astr (pKind part), Astr (pKey part)])
        else if sp_LogicalOffset p \<noteq> offset then
          Some (Errorf ''command log source position: logical offset %d does not match record offset %d''
            [Aint (sp_LogicalOffset p), Aint offset])
        else None)"

record commit_position =
  cp_Partition :: partition
  cp_Offset :: int
  cp_SourcePosition :: source_position

definition CommitPosition_Normalize :: "commit_position \<Rightarrow> commit_position" where
  "CommitPosition_Normalize p =
     p\<lparr>cp_Partition := Partition_Normalize (cp_Partition p),
       cp_SourcePosition := SourcePosition_Normalize (cp_SourcePosition p)\<rparr>"

definition CommitPosition_Validate :: "commit_position \<Rightarrow> go_error option" where
  "CommitPosition_Validate p =
     (let p = CommitPosition_Normalize p
      in if cp_Offset p \<le> 0 then Some (Errorf ''command log commit position: offset is required'' [])
         else SourcePosition_ValidateFor (cp_SourcePosition p) (cp_Partition p) (cp_Offset p))"

section \<open>Command-log records\<close>

record command_log_record =
  clr_Partition :: partition
  clr_Offset :: int
  clr_SourcePosition :: source_position
  clr_ActorID :: string
  clr_CID :: string
  clr_Command :: string
  clr_Payload :: string
  clr_EnqueuedAt :: int

definition SourcePosition_ValidateForRecord :: "source_position \<Rightarrow> command_log_record \<Rightarrow> go_error option" where
  "SourcePosition_ValidateForRecord p rec = SourcePosition_ValidateFor p (clr_Partition rec) (clr_Offset rec)"

definition SameCommandLogRecordIdentity :: "command_log_record \<Rightarrow> command_log_record \<Rightarrow> bool" where
  "SameCommandLogRecordIdentity existing requested \<longleftrightarrow>
     Partition_Normalize (clr_Partition existing) = Partition_Normalize (clr_Partition requested) \<and>
     clr_ActorID existing = clr_ActorID requested \<and>
     clr_CID existing = clr_CID requested \<and>
     clr_Command existing = clr_Command requested \<and>
     clr_EnqueuedAt existing = clr_EnqueuedAt requested \<and>
     clr_Payload existing = clr_Payload requested"

text \<open>The payload of an event is \<open>any\<close> in the source: a type parameter.\<close>

record 'p event_append =
  ea_ID :: string
  ea_Kind :: string
  ea_Scopes :: "string list"
  ea_Payload :: 'p
  ea_CompatibilitySeq :: int
  ea_PartitionOffset :: int
  ea_TS :: int

definition EventAppendTimestamp :: "int \<Rightarrow> int \<Rightarrow> int" where
  "EventAppendTimestamp ts fallback = (if ts > 0 then ts else fallback)"

section \<open>Receipts\<close>

record receipt_key =
  rk_Partition :: partition
  rk_ActorID :: string
  rk_CID :: string

definition NewCommandReceiptKey :: "partition \<Rightarrow> string \<Rightarrow> string \<Rightarrow> receipt_key option" where
  "NewCommandReceiptKey p actorID cid =
     (let cid = TrimSpace cid
      in if cid = [] then None
         else Some \<lparr>rk_Partition = Partition_Normalize p, rk_ActorID = actorID, rk_CID = cid\<rparr>)"

definition syntheticPrefix :: string where
  "syntheticPrefix = ''budgie:command-log:''"

definition SyntheticCommandLogCID :: "partition \<Rightarrow> int \<Rightarrow> string" where
  "SyntheticCommandLogCID p offset =
     (let p = Partition_Normalize p
      in syntheticPrefix @ pKind p @ '':'' @ pKey p @ '':'' @ Itoa offset)"

definition EffectiveCommandLogCID :: "command_log_record \<Rightarrow> go_error + string" where
  "EffectiveCommandLogCID rec =
     (if clr_CID rec \<noteq> [] then Inr (clr_CID rec)
      else if clr_Offset rec \<le> 0 then Inl (Errorf ''command log record missing offset'' [])
      else Inr (SyntheticCommandLogCID (clr_Partition rec) (clr_Offset rec)))"

definition CommandReceiptMessageID :: "string \<Rightarrow> partition \<Rightarrow> string \<Rightarrow> string \<Rightarrow> string" where
  "CommandReceiptMessageID prefix p actorID cid =
     (case NewCommandReceiptKey p actorID cid of
        None \<Rightarrow> []
      | Some key \<Rightarrow>
          prefix @ ''.id.'' @ EncodeSubjectToken (pKind (rk_Partition key)) @
          ''.'' @ EncodeSubjectToken (pKey (rk_Partition key)) @
          ''.'' @ EncodeSubjectToken (rk_ActorID key) @
          ''.'' @ EncodeSubjectToken (rk_CID key))"

definition deterministicCommandReceiptBaseUnixMS :: int where
  "deterministicCommandReceiptBaseUnixMS = 1704067200000"

definition deterministicCommandReceiptWindowMS :: nat where
  "deterministicCommandReceiptWindowMS = 10 * 365 * 24 * 60 * 60 * 1000"

definition DeterministicCommandReceiptEnqueuedAt ::
  "partition \<Rightarrow> string \<Rightarrow> string \<Rightarrow> string \<Rightarrow> string \<Rightarrow> int" where
  "DeterministicCommandReceiptEnqueuedAt p actorID cid command payload =
     (let p = Partition_Normalize p;
          sum = New64a (pKind p @ [CHR 0x00] @ pKey p @ [CHR 0x00] @ actorID @ [CHR 0x00] @ cid @ [CHR 0x00]
                        @ command @ [CHR 0x00] @ payload)
      in wrap64 (deterministicCommandReceiptBaseUnixMS + int (sum mod deterministicCommandReceiptWindowMS) + 1))"

section \<open>Lemmas\<close>

lemma SourcePosition_Normalize_idem [simp, norm_simps]:
  "SourcePosition_Normalize (SourcePosition_Normalize p) = SourcePosition_Normalize p"
  by (simp add: SourcePosition_Normalize_def)

lemma CommitPosition_Normalize_idem [simp, norm_simps]:
  "CommitPosition_Normalize (CommitPosition_Normalize p) = CommitPosition_Normalize p"
  by (simp add: CommitPosition_Normalize_def)

lemma NewCommandReceiptKey_Normalize [simp]:
  "NewCommandReceiptKey (Partition_Normalize p) actorID cid = NewCommandReceiptKey p actorID cid"
  by (simp add: NewCommandReceiptKey_def Let_def)

lemma NewCommandReceiptKey_Some:
  "NewCommandReceiptKey p actorID cid = Some key \<longleftrightarrow>
     TrimSpace cid \<noteq> [] \<and> key = \<lparr>rk_Partition = Partition_Normalize p, rk_ActorID = actorID, rk_CID = TrimSpace cid\<rparr>"
  by (auto simp: NewCommandReceiptKey_def Let_def)

lemma SyntheticCommandLogCID_nonempty [simp]: "SyntheticCommandLogCID p n \<noteq> []"
  by (simp add: SyntheticCommandLogCID_def syntheticPrefix_def Let_def)

lemma dec_digits_inj: "dec_digits m = dec_digits n \<longleftrightarrow> m = n"
  using parse_dec_digits by (metis option.inject)

lemma Synthetic_inj:
  "0 \<le> m \<Longrightarrow> 0 \<le> n \<Longrightarrow> SyntheticCommandLogCID p m = SyntheticCommandLogCID p n \<longleftrightarrow> m = n"
  by (simp add: SyntheticCommandLogCID_def Let_def Itoa_def dec_digits_inj eq_nat_nat_iff)

lemma message_id_join:
  "CommandReceiptMessageID prefix p actorID cid =
     (case NewCommandReceiptKey p actorID cid of
        None \<Rightarrow> []
      | Some key \<Rightarrow> prefix @ ''.id'' @ concat (map (\<lambda>x. CHR ''.'' # EncodeSubjectToken x)
          [pKind (rk_Partition key), pKey (rk_Partition key), rk_ActorID key, rk_CID key]))"
  by (simp add: CommandReceiptMessageID_def split: option.splits)

section \<open>Properties\<close>

text \<open>
  under one prefix, two commands get the same broker message id exactly when they have the
  same receipt key, and no message id at all exactly when the command id is blank. De-duplication by
  message id therefore never drops a different command.
\<close>

theorem CommandReceiptMessageID_injective:
  "(CommandReceiptMessageID prefix p a c = CommandReceiptMessageID prefix q b d
      \<longleftrightarrow> NewCommandReceiptKey p a c = NewCommandReceiptKey q b d) \<and>
   (CommandReceiptMessageID prefix p a c = [] \<longleftrightarrow> TrimSpace c = [])"
proof -
  have inj: "concat (map (\<lambda>x. CHR ''.'' # EncodeSubjectToken x)
         [pKind (rk_Partition k), pKey (rk_Partition k), rk_ActorID k, rk_CID k]) =
       concat (map (\<lambda>x. CHR ''.'' # EncodeSubjectToken x)
         [pKind (rk_Partition l), pKey (rk_Partition l), rk_ActorID l, rk_CID l]) \<longleftrightarrow> k = l" for k l :: receipt_key
    by (subst subject_token.join_inj) (simp, (cases k; cases l; auto intro: partition.expand))
  have empty: "CommandReceiptMessageID prefix p a c = [] \<longleftrightarrow> NewCommandReceiptKey p a c = None" for p a c
    by (simp add: CommandReceiptMessageID_def split: option.splits)
  have "CommandReceiptMessageID prefix p a c = CommandReceiptMessageID prefix q b d
      \<longleftrightarrow> NewCommandReceiptKey p a c = NewCommandReceiptKey q b d"
  proof (cases "NewCommandReceiptKey p a c"; cases "NewCommandReceiptKey q b d")
    fix k l assume "NewCommandReceiptKey p a c = Some k" "NewCommandReceiptKey q b d = Some l"
    then show ?thesis using inj[of k l] unfolding message_id_join by simp
  qed (use empty in metis)+
  moreover have "NewCommandReceiptKey p a c = None \<longleftrightarrow> TrimSpace c = []"
    by (simp add: NewCommandReceiptKey_def Let_def)
  ultimately show ?thesis using empty by simp
qed

text \<open>
  A source position is accepted for a record exactly when it is absent, or names a backend and a
  topic, lies at a non-negative physical position that its commit offset advances, and
  carries the record's own logical partition and offset.
\<close>

theorem SourcePosition_ValidateFor_iff:
  "SourcePosition_ValidateFor p part offset = None \<longleftrightarrow>
     p = zero_source_position \<or>
     TrimSpace (sp_Backend p) \<noteq> [] \<and> TrimSpace (sp_Topic p) \<noteq> [] \<and>
     0 \<le> sp_PhysicalPartition p \<and> 0 \<le> sp_PhysicalOffset p \<and> sp_PhysicalOffset p < sp_CommitOffset p \<and>
     sp_LogicalPartition p \<noteq> zero_partition \<and>
     Partition_Normalize (sp_LogicalPartition p) = Partition_Normalize part \<and> sp_LogicalOffset p = offset"
proof -
  have "zero_partition \<noteq> Partition_Normalize part" by (metis Normalize_not_zero)
  then show ?thesis
    by (auto simp: SourcePosition_ValidateFor_def SourcePosition_IsZero_def SourcePosition_Normalize_def Let_def)
qed

text \<open>
  The enqueue time derived from a receipt is positive, lies in the ten years after 2024-01-01 (no
  64-bit overflow), and does not depend on how the partition was written.
\<close>

theorem DeterministicCommandReceiptEnqueuedAt_bounds:
  "0 < DeterministicCommandReceiptEnqueuedAt p a c cmd payload \<and>
   1704067200000 < DeterministicCommandReceiptEnqueuedAt p a c cmd payload \<and>
   DeterministicCommandReceiptEnqueuedAt p a c cmd payload \<le> 1704067200000 + 315360000000 \<and>
   DeterministicCommandReceiptEnqueuedAt (Partition_Normalize p) a c cmd payload =
     DeterministicCommandReceiptEnqueuedAt p a c cmd payload"
proof -
  let ?r = "\<lambda>s. int (New64a s mod deterministicCommandReceiptWindowMS)"
  have r: "0 \<le> ?r s \<and> ?r s < 315360000000" for s
    by (simp add: deterministicCommandReceiptWindowMS_def)
  have "wrap64 (deterministicCommandReceiptBaseUnixMS + ?r s + 1) = deterministicCommandReceiptBaseUnixMS + ?r s + 1" for s
  proof (rule wrap64_id)
    have big: "(1704067200000 + 315360000000 :: int) \<le> maxInt64" "- (2 ^ 63) \<le> (0 :: int)" by (simp_all add: maxInt64_def)
    show "- (2 ^ 63) \<le> deterministicCommandReceiptBaseUnixMS + ?r s + 1"
      "deterministicCommandReceiptBaseUnixMS + ?r s + 1 \<le> maxInt64"
      using r[of s] big unfolding deterministicCommandReceiptBaseUnixMS_def by linarith+
  qed
  then have "\<exists>s. DeterministicCommandReceiptEnqueuedAt p a c cmd payload = deterministicCommandReceiptBaseUnixMS + ?r s + 1"
    by (auto simp: DeterministicCommandReceiptEnqueuedAt_def Let_def)
  then obtain s where s: "DeterministicCommandReceiptEnqueuedAt p a c cmd payload = 1704067200000 + ?r s + 1"
    by (auto simp: deterministicCommandReceiptBaseUnixMS_def)
  have "DeterministicCommandReceiptEnqueuedAt (Partition_Normalize p) a c cmd payload =
      DeterministicCommandReceiptEnqueuedAt p a c cmd payload"
    by (simp add: DeterministicCommandReceiptEnqueuedAt_def)
  with r[of s] s show ?thesis by linarith
qed

text \<open>
  The effective command id of a record is never empty, is the client's id when there is one, and
  otherwise differs between the offsets of a partition; only a record with neither id nor offset is an error.
\<close>

theorem EffectiveCommandLogCID_total:
  "case EffectiveCommandLogCID rec of
     Inl e \<Rightarrow> clr_CID rec = [] \<and> clr_Offset rec \<le> 0 \<and> e = Errorf ''command log record missing offset'' []
   | Inr cid \<Rightarrow> cid \<noteq> [] \<and> (clr_CID rec = [] \<or> cid = clr_CID rec) \<and>
       \<not> (\<exists>rec'. clr_CID rec = [] \<and> clr_CID rec' = [] \<and> clr_Partition rec' = clr_Partition rec \<and>
             clr_Offset rec' \<noteq> clr_Offset rec \<and> EffectiveCommandLogCID rec' = Inr cid)"
  by (auto simp: EffectiveCommandLogCID_def Synthetic_inj split: if_splits)

end
