(* ===== verification/Command_Classify.thy ===== *)
theory Command_Classify
  imports Log_Partition
begin

text \<open>
  Which partition a command is written to: the per-command table and the payload
  fields it reads (\<open>internal/core/logmodel/classify.go\<close>), the splitting of the
  replies of a hot thread over several partitions (\<open>hot_threads.go\<close>), and the
  routing and re-validation done by \<open>internal/core/core.go\<close> with the current
  hot-thread configuration.

  A command payload is the raw JSON text. \<open>encoding/json\<close> enters as the parameter
  \<open>unmarshal\<close>, which gives the decoded value of a well-formed text and \<open>None\<close>
  otherwise.
\<close>

section \<open>JSON values\<close>

datatype json = JNull | JBool bool | JNum string | JStr string | JArr "json list" | JObj "(string \<times> json) list"

text \<open>\<open>var raw map[string]any; _ = json.Unmarshal(payload, &raw)\<close>: the map is nil unless the text is an object.\<close>

definition unmarshal_object :: "(string \<Rightarrow> json option) \<Rightarrow> string \<Rightarrow> (string, json) gomap" where
  "unmarshal_object unmarshal payload = (case unmarshal payload of Some (JObj members) \<Rightarrow> members | _ \<Rightarrow> [])"

fun JSONString :: "json \<Rightarrow> string" and JSONString_items :: "json list \<Rightarrow> string" where
  "JSONString (JStr s) = TrimSpace s"
| "JSONString (JArr items) = JSONString_items items"
| "JSONString _ = []"
| "JSONString_items [] = []"
| "JSONString_items (item # items) = (let s = JSONString item in if s \<noteq> [] then s else JSONString_items items)"

section \<open>Command names\<close>

definition command_names :: "string list" where
  "command_names =
     [
      ''createThread'', ''appendPost'', ''repostPost'', ''postBoardMail'', ''attachPost'',
      ''editPost'', ''setPostFlag'', ''redactPost'', ''restorePost'', ''redactPostRange'',
      ''restorePostRange'', ''clearBoardJunk'', ''setThreadTitle'', ''lockThread'', ''moveThread'',
      ''sanctionUser'', ''clearUserSanction'', ''setContentFilter'', ''grantRole'', ''revokeRole'',
      ''publishStatsSnapshot'', ''publishSystemNotice'', ''sendChatLine'', ''setPresence'',
      ''mudCommand'', ''createBoard'', ''setBoardSettings'', ''setBoardModerator'',
      ''setBoardMember'', ''setBoardMemberRequirements'', ''setRecommendedBoard'',
      ''applyBoardMembership'', ''reviewBoardMembership'', ''leaveBoardMembership'',
      ''curatePost'', ''curateThread'', ''removeDigestEntry'', ''updateDigestEntry'',
      ''setDigestEntryBody'', ''createDigestDirectory'', ''moveDigestPath'', ''copyDigestPath'',
      ''deleteDigestPath'', ''sendDigestEntryMail'', ''mailPostAuthor'', ''sendMail'',
      ''forwardMail'', ''postMailToBoard'', ''setMailGroup'', ''deleteMailGroup'', ''attachMail'',
      ''updateMail'', ''deleteMail'', ''deleteMailRange'', ''sendDirectMessage'',
      ''setDirectMessageSettings'', ''markDirectMessageRead'', ''deleteDirectMessage'',
      ''setUserRelationship'', ''setLoginWatch'', ''blessUser'', ''setBoardFavorite'',
      ''setBoardZap'', ''createFavoriteFolder'', ''updateFavoriteFolder'',
      ''deleteFavoriteFolder'', ''moveBoardFavorite'', ''importFavoriteTree'', ''markBoardRead'',
      ''restoreBoardRead'', ''markFavoriteFolderRead'', ''restoreFavoriteFolderRead'',
      ''markThreadRead'', ''restoreThreadRead'', ''markPostRead'', ''subscribe'', ''unsubscribe'',
      ''purgePost'', ''reactPost'', ''unreactPost'', ''votePoll'', ''publishPollResult'',
      ''setThreadPref'', ''flagPost'', ''resolveReview'', ''setBoardAutomodRule'',
      ''deleteBoardAutomodRule''
     ]"

definition CmdAppendPost :: string where
  "CmdAppendPost = ''appendPost''"

section \<open>The partition table\<close>

record command_partition_spec =
  ps_kind :: string
  ps_fields :: "string list"
  ps_fallback :: string
  ps_actor :: bool

definition fieldPartition :: "string \<Rightarrow> string list \<Rightarrow> command_partition_spec" where
  "fieldPartition kind names = \<lparr>ps_kind = kind, ps_fields = names, ps_fallback = [], ps_actor = False\<rparr>"

definition actorPartition :: "string \<Rightarrow> command_partition_spec" where
  "actorPartition kind = \<lparr>ps_kind = kind, ps_fields = [], ps_fallback = [], ps_actor = True\<rparr>"

definition globalPartition :: command_partition_spec where
  "globalPartition = \<lparr>ps_kind = PartitionGlobal, ps_fields = [], ps_fallback = PartitionGlobal, ps_actor = False\<rparr>"

definition withFallback :: "command_partition_spec \<Rightarrow> string \<Rightarrow> command_partition_spec" where
  "withFallback s key = s\<lparr>ps_fallback := key\<rparr>"

definition withActorFallback :: "command_partition_spec \<Rightarrow> command_partition_spec" where
  "withActorFallback s = s\<lparr>ps_actor := True\<rparr>"

definition commandPartitionSpecs :: "(string, command_partition_spec) gomap" where
  "commandPartitionSpecs =
     [
      (''createThread'', fieldPartition PartitionBoard [''board'']),
      (''appendPost'', fieldPartition PartitionThread [''thread'']),
      (''repostPost'', fieldPartition PartitionBoard [''board'']),
      (''postBoardMail'', fieldPartition PartitionBoard [''board'', ''thread'']),
      (''attachPost'', fieldPartition PartitionPost [''post'']),
      (''editPost'', fieldPartition PartitionPost [''post'']),
      (''setPostFlag'', fieldPartition PartitionPost [''post'']),
      (''redactPost'', fieldPartition PartitionPost [''post'']),
      (''restorePost'', fieldPartition PartitionPost [''post'']),
      (''redactPostRange'', fieldPartition PartitionBoard [''board'']),
      (''restorePostRange'', fieldPartition PartitionBoard [''board'']),
      (''clearBoardJunk'', fieldPartition PartitionBoard [''board'']),
      (''setThreadTitle'', fieldPartition PartitionThread [''thread'']),
      (''lockThread'', fieldPartition PartitionThread [''thread'']),
      (''moveThread'', fieldPartition PartitionThread [''thread'', ''toBoard'']),
      (''sanctionUser'', fieldPartition PartitionUser [''user'', ''scope'']),
      (''clearUserSanction'', fieldPartition PartitionUser [''user'', ''scope'']),
      (''setContentFilter'', withFallback (fieldPartition PartitionBoard [''scope'']) PartitionGlobal),
      (''setBoardAutomodRule'', fieldPartition PartitionBoard [''board'']),
      (''deleteBoardAutomodRule'', fieldPartition PartitionBoard [''board'']),
      (''grantRole'', fieldPartition PartitionUser [''user'']),
      (''revokeRole'', fieldPartition PartitionUser [''user'']),
      (''publishStatsSnapshot'', globalPartition),
      (''publishSystemNotice'', withFallback (fieldPartition PartitionBoard [''board'']) PartitionGlobal),
      (''sendChatLine'', withFallback (fieldPartition PartitionChat [''room'']) ''lobby''),
      (''setPresence'', actorPartition PartitionUser),
      (''mudCommand'', actorPartition PartitionUser),
      (''createBoard'', fieldPartition PartitionBoard [''id'']),
      (''setBoardSettings'', fieldPartition PartitionBoard [''board'']),
      (''setBoardModerator'', fieldPartition PartitionBoard [''board'']),
      (''setBoardMember'', fieldPartition PartitionBoard [''board'']),
      (''setBoardMemberRequirements'', fieldPartition PartitionBoard [''board'']),
      (''setRecommendedBoard'', fieldPartition PartitionBoard [''board'']),
      (''applyBoardMembership'', fieldPartition PartitionBoard [''board'']),
      (''reviewBoardMembership'', fieldPartition PartitionReview [''application'']),
      (''leaveBoardMembership'', fieldPartition PartitionBoard [''board'']),
      (''curatePost'', fieldPartition PartitionPost [''post'']),
      (''curateThread'', fieldPartition PartitionThread [''thread'']),
      (''removeDigestEntry'', fieldPartition PartitionBoard [''board'', ''entry'']),
      (''updateDigestEntry'', fieldPartition PartitionBoard [''board'', ''entry'']),
      (''setDigestEntryBody'', fieldPartition PartitionBoard [''board'', ''entry'']),
      (''createDigestDirectory'', fieldPartition PartitionBoard [''board'']),
      (''moveDigestPath'', fieldPartition PartitionBoard [''board'']),
      (''copyDigestPath'', fieldPartition PartitionBoard [''board'']),
      (''deleteDigestPath'', fieldPartition PartitionBoard [''board'']),
      (''sendDigestEntryMail'', fieldPartition PartitionMail [''entry'']),
      (''mailPostAuthor'', fieldPartition PartitionPost [''post'']),
      (''sendMail'', actorPartition PartitionMail),
      (''forwardMail'', fieldPartition PartitionMail [''mail'']),
      (''postMailToBoard'', fieldPartition PartitionBoard [''board'', ''thread'', ''mail'']),
      (''setMailGroup'', withActorFallback (fieldPartition PartitionMail [''group''])),
      (''deleteMailGroup'', fieldPartition PartitionMail [''group'']),
      (''attachMail'', fieldPartition PartitionMail [''mail'']),
      (''updateMail'', fieldPartition PartitionMail [''mail'']),
      (''deleteMail'', fieldPartition PartitionMail [''mail'']),
      (''deleteMailRange'', fieldPartition PartitionMail [''mail'']),
      (''sendDirectMessage'', fieldPartition PartitionUser [''to'']),
      (''setDirectMessageSettings'', actorPartition PartitionUser),
      (''markDirectMessageRead'', withActorFallback (fieldPartition PartitionUser [''message''])),
      (''deleteDirectMessage'', withActorFallback (fieldPartition PartitionUser [''message''])),
      (''setUserRelationship'', fieldPartition PartitionUser [''user'']),
      (''setLoginWatch'', fieldPartition PartitionUser [''user'']),
      (''blessUser'', fieldPartition PartitionUser [''user'']),
      (''setBoardFavorite'', fieldPartition PartitionBoard [''board'']),
      (''setBoardZap'', fieldPartition PartitionBoard [''board'']),
      (''createFavoriteFolder'', actorPartition PartitionUser),
      (''updateFavoriteFolder'', withActorFallback (fieldPartition PartitionUser [''folder''])),
      (''deleteFavoriteFolder'', withActorFallback (fieldPartition PartitionUser [''folder''])),
      (''moveBoardFavorite'', fieldPartition PartitionBoard [''board'']),
      (''importFavoriteTree'', actorPartition PartitionUser),
      (''markBoardRead'', fieldPartition PartitionBoard [''board'']),
      (''restoreBoardRead'', fieldPartition PartitionBoard [''board'']),
      (''markFavoriteFolderRead'', withActorFallback (fieldPartition PartitionUser [''folder''])),
      (''restoreFavoriteFolderRead'', withActorFallback (fieldPartition PartitionUser [''folder''])),
      (''markThreadRead'', fieldPartition PartitionThread [''thread'']),
      (''restoreThreadRead'', fieldPartition PartitionThread [''thread'']),
      (''markPostRead'', fieldPartition PartitionPost [''post'']),
      (''purgePost'', fieldPartition PartitionPost [''post'']),
      (''reactPost'', fieldPartition PartitionPost [''post'']),
      (''unreactPost'', fieldPartition PartitionPost [''post'']),
      (''votePoll'', fieldPartition PartitionPoll [''poll'']),
      (''publishPollResult'', fieldPartition PartitionPoll [''poll'']),
      (''setThreadPref'', fieldPartition PartitionThread [''thread'']),
      (''flagPost'', fieldPartition PartitionPost [''post'']),
      (''resolveReview'', fieldPartition PartitionReview [''review''])
     ]"

definition HasCommandPartitionSpec :: "string \<Rightarrow> bool" where
  "HasCommandPartitionSpec name = gm_has commandPartitionSpecs name"

definition CommandBypassesCommandLog :: "string \<Rightarrow> bool" where
  "CommandBypassesCommandLog name \<longleftrightarrow> name \<in> set
     [
      ''sendChatLine'', ''mudCommand'', ''setPresence'', ''reactPost'', ''unreactPost'',
      ''votePoll'', ''markBoardRead'', ''restoreBoardRead'', ''markFavoriteFolderRead'',
      ''restoreFavoriteFolderRead'', ''markThreadRead'', ''restoreThreadRead'', ''markPostRead'',
      ''setThreadPref'', ''subscribe'', ''unsubscribe''
     ]"

definition DefaultPartition :: partition where
  "DefaultPartition = Partition PartitionGlobal PartitionGlobal"

fun first_field :: "(string, json) gomap \<Rightarrow> string list \<Rightarrow> string" where
  "first_field raw [] = []"
| "first_field raw (f # fs) =
     (let key = JSONString (gm_get JNull raw f) in if key \<noteq> [] then key else first_field raw fs)"

definition ClassifyCommandPartition ::
  "(string \<Rightarrow> json option) \<Rightarrow> string \<Rightarrow> string \<Rightarrow> string \<Rightarrow> partition option" where
  "ClassifyCommandPartition unmarshal actorID name payload =
     (case map_of commandPartitionSpecs name of
        None \<Rightarrow> None
      | Some spec \<Rightarrow>
          (let raw = unmarshal_object unmarshal payload; key = first_field raw (ps_fields spec)
           in if key \<noteq> [] then Some (Partition (ps_kind spec) key)
              else if ps_actor spec \<and> actorID \<noteq> [] then Some (Partition (ps_kind spec) actorID)
              else if ps_fallback spec \<noteq> [] then Some (Partition (ps_kind spec) (ps_fallback spec))
              else Some (Partition (ps_kind spec) PartitionGlobal)))"

subsection \<open>Event partitions\<close>

definition scope_prefixes :: "(string \<times> string) list" where
  "scope_prefixes =
     [(''board:'', PartitionBoard), (''thread:'', PartitionThread), (''account:'', PartitionUser),
      (''user:'', PartitionUser), (''mail:'', PartitionMail), (''direct:'', PartitionUser),
      (''chat:'', PartitionChat), (''presence:'', PartitionUser)]"

fun scan_scopes :: "string \<Rightarrow> string list \<Rightarrow> string option" where
  "scan_scopes pre [] = None"
| "scan_scopes pre (scope # scopes) =
     (case CutPrefix scope pre of
        Some key \<Rightarrow> if key \<noteq> [] then Some key else scan_scopes pre scopes
      | None \<Rightarrow> scan_scopes pre scopes)"

fun scan_prefixes :: "(string \<times> string) list \<Rightarrow> string list \<Rightarrow> partition option" where
  "scan_prefixes [] scopes = None"
| "scan_prefixes ((pre, kind) # prefs) scopes =
     (case scan_scopes pre scopes of
        Some key \<Rightarrow> Some (Partition kind key)
      | None \<Rightarrow> scan_prefixes prefs scopes)"

definition PartitionFromScopes :: "string list \<Rightarrow> partition option" where
  "PartitionFromScopes scopes = scan_prefixes scope_prefixes scopes"

definition EventPartitionFor :: "string \<Rightarrow> string list \<Rightarrow> partition" where
  "EventPartitionFor kind scopes =
     (case PartitionFromScopes scopes of Some p \<Rightarrow> p | None \<Rightarrow> DefaultPartition)"

section \<open>Hot threads\<close>

definition hotThreadSplitPartitionSuffix :: string where
  "hotThreadSplitPartitionSuffix = ''#reply-''"

fun normalize_splits_loop :: "(string, int) gomap \<Rightarrow> (string \<times> int) list \<Rightarrow> (string, int) gomap" where
  "normalize_splits_loop out [] = out"
| "normalize_splits_loop out ((threadID, shards) # rest) =
     (let threadID = TrimSpace threadID
      in if threadID = [] \<or> shards \<le> 1 then normalize_splits_loop out rest
         else normalize_splits_loop (gm_set threadID shards out) rest)"

definition NormalizeHotThreadSplits :: "(string, int) gomap \<Rightarrow> (string, int) gomap" where
  "NormalizeHotThreadSplits splits = normalize_splits_loop [] splits"

fun copy_splits :: "(string, int) gomap \<Rightarrow> (string \<times> int) list \<Rightarrow> (string, int) gomap" where
  "copy_splits out [] = out"
| "copy_splits out ((threadID, shards) # rest) = copy_splits (gm_set threadID shards out) rest"

definition MergeHotThreadSplits :: "(string, int) gomap \<Rightarrow> (string, int) gomap \<Rightarrow> (string, int) gomap" where
  "MergeHotThreadSplits persisted overrides =
     copy_splits (copy_splits [] (NormalizeHotThreadSplits persisted)) (NormalizeHotThreadSplits overrides)"

definition HotThreadSplitPartitionKey :: "string \<Rightarrow> int \<Rightarrow> string" where
  "HotThreadSplitPartitionKey threadID shard = threadID @ hotThreadSplitPartitionSuffix @ Itoa shard"

definition HotThreadSplitPartitionSet :: "string \<Rightarrow> int \<Rightarrow> int \<Rightarrow> partition set" where
  "HotThreadSplitPartitionSet threadID currentShards nextShards =
     insert (Partition PartitionThread threadID)
       ((\<lambda>shard. Partition PartitionThread (HotThreadSplitPartitionKey threadID shard)) `
          (set [0..currentShards - 1] \<union> set [0..nextShards - 1]))"

definition HotThreadSplitPartitionThread :: "string \<Rightarrow> string option" where
  "HotThreadSplitPartitionThread partitionKey =
     (case Cut partitionKey hotThreadSplitPartitionSuffix of
        None \<Rightarrow> None
      | Some (base, shardText) \<Rightarrow>
          if base = [] \<or> shardText = [] then None
          else (case Atoi shardText of
                  None \<Rightarrow> None
                | Some shard \<Rightarrow> if shard < 0 then None else Some base))"

definition HotThreadReplyShard :: "string \<Rightarrow> string \<Rightarrow> int \<Rightarrow> int" where
  "HotThreadReplyShard actorID payload shards =
     (if shards \<le> 1 then 0 else int (New64a (actorID @ [CHR 0x00] @ payload)) mod shards)"

definition CommandPartitionMatchesAppendPostTarget ::
  "(string \<Rightarrow> json option) \<Rightarrow> string \<Rightarrow> string \<Rightarrow> partition \<Rightarrow> bool" where
  "CommandPartitionMatchesAppendPostTarget unmarshal command payload actual =
     (if command \<noteq> CmdAppendPost then False
      else let actual = Partition_Normalize actual
           in if pKind actual \<noteq> PartitionThread then False
              else let threadID = JSONString (gm_get JNull (unmarshal_object unmarshal payload) ''thread'')
                   in if threadID = [] then False
                      else if pKey actual = threadID then True
                      else HotThreadSplitPartitionThread (pKey actual) = Some threadID)"

section \<open>Routing in the core\<close>

text \<open>The two maps of \<open>Core\<close> that hold the hot-thread configuration; a nil map is the empty one.\<close>

record hot_thread_config =
  hotThreadSplits :: "(string, int) gomap"
  hotThreadSplitOverrides :: "(string, int) gomap"

definition SetHotThreadSplit :: "hot_thread_config \<Rightarrow> string \<Rightarrow> int \<Rightarrow> hot_thread_config" where
  "SetHotThreadSplit c threadID shards =
     (let threadID = TrimSpace threadID
      in if threadID = [] then c
         else if shards \<le> 1
         then c\<lparr>hotThreadSplits := AList.delete threadID (hotThreadSplits c),
                hotThreadSplitOverrides := AList.delete threadID (hotThreadSplitOverrides c)\<rparr>
         else c\<lparr>hotThreadSplits := gm_set threadID shards (hotThreadSplits c),
                hotThreadSplitOverrides := gm_set threadID shards (hotThreadSplitOverrides c)\<rparr>)"

definition applyPersistedHotThreadSplits :: "hot_thread_config \<Rightarrow> (string, int) gomap \<Rightarrow> hot_thread_config" where
  "applyPersistedHotThreadSplits c persisted =
     c\<lparr>hotThreadSplits := MergeHotThreadSplits persisted (hotThreadSplitOverrides c)\<rparr>"

definition hotThreadSplitShards :: "hot_thread_config \<Rightarrow> string \<Rightarrow> int" where
  "hotThreadSplitShards c threadID = gm_get 0 (hotThreadSplits c) threadID"

definition Core_classifyCommandPartition ::
  "(string \<Rightarrow> json option) \<Rightarrow> hot_thread_config \<Rightarrow> string \<Rightarrow> string \<Rightarrow> string \<Rightarrow> partition option" where
  "Core_classifyCommandPartition unmarshal c actorID name payload =
     (case ClassifyCommandPartition unmarshal actorID name payload of
        None \<Rightarrow> None
      | Some p \<Rightarrow>
          if name \<noteq> CmdAppendPost then Some p
          else let threadID = pKey p; shards = hotThreadSplitShards c threadID
               in if shards \<le> 1 then Some p
                  else Some (Partition PartitionThread
                         (HotThreadSplitPartitionKey threadID (HotThreadReplyShard actorID payload shards))))"

text \<open>\<open>True\<close> where the source returns nil, \<open>False\<close> where it returns the validation error.\<close>

definition validateCommandLogRecordPartition ::
  "(string \<Rightarrow> json option) \<Rightarrow> hot_thread_config \<Rightarrow> string \<Rightarrow> string \<Rightarrow> string \<Rightarrow> partition \<Rightarrow> bool" where
  "validateCommandLogRecordPartition unmarshal c actorID command payload actual =
     (let want = Partition_Normalize
            (case Core_classifyCommandPartition unmarshal c actorID command payload of
               None \<Rightarrow> DefaultPartition | Some p \<Rightarrow> p)
      in Partition_Normalize actual = want
         \<or> CommandPartitionMatchesAppendPostTarget unmarshal command payload actual)"

section \<open>Lemmas\<close>

lemma JSONString_trimmed [simp, norm_simps]:
  "TrimSpace (JSONString j) = JSONString j" "TrimSpace (JSONString_items js) = JSONString_items js"
  by (induction j and js rule: JSONString_JSONString_items.induct) (simp_all add: Let_def)

lemmas spec_defs = fieldPartition_def actorPartition_def globalPartition_def withFallback_def withActorFallback_def

text \<open>Facts about all rows of the table.\<close>

lemma commandPartitionSpecs_kinds: "list_all (\<lambda>(name, spec). ps_kind spec \<noteq> []) commandPartitionSpecs"
  by (simp add: commandPartitionSpecs_def spec_defs partition_kinds)

lemma spec_kind_nonempty: "map_of commandPartitionSpecs name = Some spec \<Longrightarrow> ps_kind spec \<noteq> []"
  using commandPartitionSpecs_kinds by (auto simp: list_all_iff dest: map_of_SomeD)

lemma appendPost_spec: "map_of commandPartitionSpecs CmdAppendPost = Some (fieldPartition PartitionThread [''thread''])"
  by (simp add: commandPartitionSpecs_def CmdAppendPost_def)

lemma Classify_appendPost:
  "ClassifyCommandPartition um actor CmdAppendPost payload =
     (let t = JSONString (gm_get JNull (unmarshal_object um payload) ''thread'')
      in Some (Partition PartitionThread (if t \<noteq> [] then t else PartitionGlobal)))"
  by (simp add: ClassifyCommandPartition_def appendPost_spec spec_defs Let_def)

subsection \<open>Hot thread keys\<close>

lemma Cut_separator:
  assumes sep: "sep = c # r" "c \<notin> set r" and "Cut a sep = None"
  shows "Cut (a @ sep @ b) sep = Some (a, b)"
  using assms(3)
proof (induction a)
  case Nil
  then show ?case using sep by (simp add: HasPrefix_def)
next
  case (Cons x a)
  then have no: "\<not> HasPrefix (x # a) sep" and IH: "Cut (a @ sep @ b) sep = Some (a, b)"
    by (auto split: if_splits)
  have "\<not> HasPrefix (x # a @ sep @ b) sep"
  proof
    assume "HasPrefix (x # a @ sep @ b) sep"
    then have tk: "take (length sep) ((x # a) @ sep @ b) = sep" by (simp add: HasPrefix_def)
    have "length (x # a) < length sep"
    proof (rule ccontr)
      assume "\<not> length (x # a) < length sep"
      then have "take (length sep) ((x # a) @ sep @ b) = take (length sep) (x # a)"
        by (simp only: take_append) simp
      with tk have "take (length sep) (x # a) = sep" by (simp only:)
      with no show False by (simp add: HasPrefix_def)
    qed
    then obtain k where k: "length (x # a) = Suc k" "k < length r" using sep by auto
    have "sep ! Suc k = ((x # a) @ sep @ b) ! Suc k"
      using tk k sep(1) by (metis Suc_less_eq length_Cons nth_take)
    also have "\<dots> = c" using k sep(1) by (metis append_Cons nth_append_length)
    finally have "c = r ! k" using sep(1) by simp
    with k sep(2) show False by simp
  qed
  then show ?case using IH by simp
qed

lemma Cut_split_key:
  "Cut t hotThreadSplitPartitionSuffix = None \<Longrightarrow>
   Cut (HotThreadSplitPartitionKey t n) hotThreadSplitPartitionSuffix = Some (t, Itoa n)"
  unfolding HotThreadSplitPartitionKey_def
  by (rule Cut_separator [where c = "CHR ''#''" and r = "''reply-''"]) (simp_all add: hotThreadSplitPartitionSuffix_def)

lemma split_key_thread:
  assumes "Cut t hotThreadSplitPartitionSuffix = None" "t \<noteq> []" "0 \<le> n" "n \<le> maxInt64"
  shows "HotThreadSplitPartitionThread (HotThreadSplitPartitionKey t n) = Some t"
  using assms by (simp add: HotThreadSplitPartitionThread_def Cut_split_key Atoi_Itoa)

lemma HotThreadReplyShard_range:
  "0 \<le> HotThreadReplyShard actor payload shards \<and> HotThreadReplyShard actor payload shards < max 1 shards"
  by (simp add: HotThreadReplyShard_def)

lemma split_key_nonempty [simp]: "HotThreadSplitPartitionKey t n \<noteq> []"
  by (simp add: HotThreadSplitPartitionKey_def)

subsection \<open>Hot thread configuration\<close>

definition splits_ok :: "(string, int) gomap \<Rightarrow> bool" where
  "splits_ok m \<longleftrightarrow> distinct (map fst m) \<and> list_all (\<lambda>(t, n). t \<noteq> [] \<and> TrimSpace t = t \<and> n > 1) m"

definition hot_thread_config_ok :: "hot_thread_config \<Rightarrow> bool" where
  "hot_thread_config_ok c \<longleftrightarrow> splits_ok (hotThreadSplits c) \<and> splits_ok (hotThreadSplitOverrides c)"

lemma splits_ok_set: "splits_ok m \<Longrightarrow> t \<noteq> [] \<Longrightarrow> TrimSpace t = t \<Longrightarrow> n > 1 \<Longrightarrow> splits_ok (gm_set t n m)"
  by (auto simp: splits_ok_def distinct_gm_set list_all_iff dest!: set_gm_setD)

lemma splits_ok_delete: "splits_ok m \<Longrightarrow> splits_ok (AList.delete t m)"
  by (auto simp: splits_ok_def list_all_iff AList.delete_eq distinct_map_filter)

lemma splits_ok_normalize_loop: "splits_ok out \<Longrightarrow> splits_ok (normalize_splits_loop out xs)"
  by (induction out xs rule: normalize_splits_loop.induct) (auto simp: Let_def splits_ok_set)

lemma splits_ok_Normalize [simp]: "splits_ok (NormalizeHotThreadSplits m)"
  unfolding NormalizeHotThreadSplits_def
  by (rule splits_ok_normalize_loop) (simp add: splits_ok_def)

lemma splits_ok_copy:
  "splits_ok out \<Longrightarrow> list_all (\<lambda>(t, n). t \<noteq> [] \<and> TrimSpace t = t \<and> n > 1) xs \<Longrightarrow> splits_ok (copy_splits out xs)"
  by (induction out xs rule: copy_splits.induct) (auto simp: splits_ok_set)

lemma splits_ok_Merge [simp]: "splits_ok (MergeHotThreadSplits p q)"
proof -
  have ok: "list_all (\<lambda>(t, n). t \<noteq> [] \<and> TrimSpace t = t \<and> n > 1) (NormalizeHotThreadSplits m)" for m
    using splits_ok_Normalize[of m] by (simp add: splits_ok_def)
  have "splits_ok (copy_splits [] (NormalizeHotThreadSplits p))"
    by (rule splits_ok_copy [OF _ ok]) (simp add: splits_ok_def)
  then show ?thesis
    unfolding MergeHotThreadSplits_def by (rule splits_ok_copy [OF _ ok])
qed

lemma map_of_normalize_loop:
  "distinct (map fst xs) \<Longrightarrow> list_all (\<lambda>(t, n). t \<noteq> [] \<and> TrimSpace t = t \<and> n > 1) xs \<Longrightarrow>
   map_of (normalize_splits_loop out xs) = map_of out ++ map_of xs"
proof (induction out xs rule: normalize_splits_loop.induct)
  case (2 out t n rest)
  then have "map_of rest t = None" by (simp add: map_of_eq_None_iff)
  with 2 show ?case by (auto simp: Let_def map_add_def fun_eq_iff split: option.splits)
qed simp

lemma map_of_copy_splits: "distinct (map fst xs) \<Longrightarrow> map_of (copy_splits out xs) = map_of out ++ map_of xs"
proof (induction out xs rule: copy_splits.induct)
  case (2 out t n rest)
  then have "map_of rest t = None" by (simp add: map_of_eq_None_iff)
  with 2 show ?case by (auto simp: map_add_def fun_eq_iff split: option.splits)
qed simp

lemma map_of_Normalize_ok: "splits_ok m \<Longrightarrow> map_of (NormalizeHotThreadSplits m) = map_of m"
  by (simp add: NormalizeHotThreadSplits_def map_of_normalize_loop splits_ok_def)

lemma map_of_Merge:
  "map_of (MergeHotThreadSplits p q) = map_of (NormalizeHotThreadSplits p) ++ map_of (NormalizeHotThreadSplits q)"
proof -
  have d: "distinct (map fst (NormalizeHotThreadSplits m))" for m
    using splits_ok_Normalize[of m] by (simp add: splits_ok_def)
  show ?thesis by (simp add: MergeHotThreadSplits_def map_of_copy_splits d)
qed

lemma SetHotThreadSplit_ok: "hot_thread_config_ok c \<Longrightarrow> hot_thread_config_ok (SetHotThreadSplit c t n)"
  by (auto simp: SetHotThreadSplit_def hot_thread_config_ok_def Let_def splits_ok_set splits_ok_delete)

lemma applyPersisted_ok: "hot_thread_config_ok c \<Longrightarrow> hot_thread_config_ok (applyPersistedHotThreadSplits c m)"
  by (simp add: applyPersistedHotThreadSplits_def hot_thread_config_ok_def)

subsection \<open>Scopes\<close>

lemma scan_scopes_Some: "scan_scopes pre scopes = Some key \<Longrightarrow> pre @ key \<in> set scopes \<and> key \<noteq> []"
  by (induction scopes) (auto simp: CutPrefix_Some split: option.splits if_splits)

lemma scan_scopes_None: "scan_scopes pre scopes = None \<longleftrightarrow> (\<forall>key. pre @ key \<in> set scopes \<longrightarrow> key = [])"
  by (induction scopes) (auto simp: CutPrefix_Some CutPrefix_def HasPrefix_iff split: option.splits if_splits)

lemma scan_prefixes_Some:
  "scan_prefixes prefs scopes = Some p \<Longrightarrow>
   \<exists>pre. (pre, pKind p) \<in> set prefs \<and> pre @ pKey p \<in> set scopes \<and> pKey p \<noteq> []"
proof (induction prefs scopes rule: scan_prefixes.induct)
  case (2 pre kind prefs scopes)
  show ?case
  proof (cases "scan_scopes pre scopes")
    case None
    with 2 obtain q where "(q, pKind p) \<in> set prefs" "q @ pKey p \<in> set scopes" "pKey p \<noteq> []"
      by auto
    then show ?thesis by (intro exI[of _ q]) simp
  next
    case (Some key)
    with 2 scan_scopes_Some[OF Some] show ?thesis by (intro exI[of _ pre]) auto
  qed
qed simp

section \<open>Properties\<close>

text \<open>
  Every command except \<open>subscribe\<close> and \<open>unsubscribe\<close> has a row in the partition table, and those
  two bypass the command log.
\<close>

theorem command_table_complete:
  "filter (\<lambda>name. \<not> HasCommandPartitionSpec name) command_names = [''subscribe'', ''unsubscribe''] \<and>
   CommandBypassesCommandLog ''subscribe'' \<and> CommandBypassesCommandLog ''unsubscribe''"
proof -
  let ?ks = "map fst commandPartitionSpecs"
  have names: "command_names = take 18 ?ks @ take 57 (drop 20 ?ks) @ [''subscribe'', ''unsubscribe'']
      @ drop 77 ?ks @ take 2 (drop 18 ?ks)"
    by (simp add: command_names_def commandPartitionSpecs_def)
  have "HasCommandPartitionSpec x" if "x \<in> set ?ks" for x
    using that by (auto simp: HasCommandPartitionSpec_def gm_has_def map_of_eq_None_iff)
  then have none: "set xs \<subseteq> set ?ks \<Longrightarrow> filter (\<lambda>name. \<not> HasCommandPartitionSpec name) xs = []" for xs
    by (auto simp: filter_empty_conv)
  have "\<not> HasCommandPartitionSpec ''subscribe''" "\<not> HasCommandPartitionSpec ''unsubscribe''"
    by (simp_all add: HasCommandPartitionSpec_def gm_has_def commandPartitionSpecs_def)
  moreover have "set (take 18 ?ks) \<subseteq> set ?ks" "set (take 57 (drop 20 ?ks)) \<subseteq> set ?ks"
    "set (drop 77 ?ks) \<subseteq> set ?ks" "set (take 2 (drop 18 ?ks)) \<subseteq> set ?ks"
    by (meson set_take_subset set_drop_subset subset_trans)+
  ultimately show ?thesis
    by (simp only: names filter_append none) (simp add: CommandBypassesCommandLog_def)
qed

text \<open>
  C40: classification is total on the table and always gives a partition in normal form, whatever the
  payload holds: a missing or malformed field falls back to the actor, the fallback key or \<open>global\<close>.
\<close>

theorem ClassifyCommandPartition_normal:
  "case ClassifyCommandPartition unmarshal actorID name payload of
     None \<Rightarrow> \<not> HasCommandPartitionSpec name
   | Some p \<Rightarrow> HasCommandPartitionSpec name \<and> Partition_Normalize p = p"
  by (auto simp: ClassifyCommandPartition_def HasCommandPartitionSpec_def gm_has_def Let_def
      spec_kind_nonempty intro!: Normalize_id split: option.splits)



text \<open>
  The key of a split partition leads back to its thread, and the partition belongs to the set of
  partitions that must be drained before the split changes.
\<close>

theorem HotThreadSplit_roundtrip:
  assumes "Cut threadID hotThreadSplitPartitionSuffix = None" and "threadID \<noteq> []" and "shards \<le> maxInt64"
  shows "HotThreadSplitPartitionThread
           (HotThreadSplitPartitionKey threadID (HotThreadReplyShard actorID payload shards)) = Some threadID \<and>
         (shards \<le> 1 \<or>
          Partition PartitionThread (HotThreadSplitPartitionKey threadID (HotThreadReplyShard actorID payload shards))
            \<in> HotThreadSplitPartitionSet threadID shards next)"
  using assms HotThreadReplyShard_range[of actorID payload shards]
  by (auto simp: HotThreadSplitPartitionSet_def maxInt64_def intro!: split_key_thread image_eqI)

theorem HotThreadSplit_roundtrip_witness:
  "HotThreadSplitPartitionThread (HotThreadSplitPartitionKey ''t1'' (HotThreadReplyShard ''u1'' ''body'' 8)) = Some ''t1''"
  using HotThreadSplit_roundtrip[of "''t1''" 8 "''u1''" "''body''" 0]
  by (simp add: hotThreadSplitPartitionSuffix_def HasPrefix_def maxInt64_def)

text \<open>
  the hot-thread configuration stays well formed under every operation, and a split set on a node
  survives the next reload of the persisted configuration, whatever was persisted.
\<close>

theorem hot_thread_override_survives_reload:
  assumes "hot_thread_config_ok c" and "TrimSpace threadID \<noteq> []" and "1 < shards"
  shows "hot_thread_config_ok (applyPersistedHotThreadSplits (SetHotThreadSplit c threadID shards) persisted) \<and>
    hotThreadSplitShards (applyPersistedHotThreadSplits (SetHotThreadSplit c threadID shards) persisted)
      (TrimSpace threadID) = shards"
proof -
  let ?c = "SetHotThreadSplit c threadID shards"
  have ok: "hot_thread_config_ok ?c" using assms(1) by (rule SetHotThreadSplit_ok)
  have "map_of (hotThreadSplitOverrides ?c) (TrimSpace threadID) = Some shards"
    using assms(2,3) by (simp add: SetHotThreadSplit_def Let_def)
  with ok have "map_of (MergeHotThreadSplits persisted (hotThreadSplitOverrides ?c)) (TrimSpace threadID) = Some shards"
    by (simp add: map_of_Merge map_of_Normalize_ok hot_thread_config_ok_def)
  then show ?thesis using applyPersisted_ok[OF ok]
    by (simp add: applyPersistedHotThreadSplits_def hotThreadSplitShards_def gm_get_def)
qed

theorem hot_thread_override_survives_reload_witness:
  "hotThreadSplitShards
     (applyPersistedHotThreadSplits
        (SetHotThreadSplit \<lparr>hotThreadSplits = [], hotThreadSplitOverrides = []\<rparr> ''t1'' 4) [(''t1'', 2)])
     (TrimSpace ''t1'') = 4"
proof -
  have trim: "TrimSpace ''t1'' \<noteq> []" using TrimSpace_plain[of "''t1''"] by (simp add: plain_char_def)
  show ?thesis
    using hot_thread_override_survives_reload[OF _ trim, of "\<lparr>hotThreadSplits = [], hotThreadSplitOverrides = []\<rparr>" 4 "[(''t1'', 2)]"]
    by (simp add: hot_thread_config_ok_def splits_ok_def)
qed

text \<open>
  The partition of an event is named by one of its scopes, with board scopes before all others,
  and is the global partition only when no scope names one; it is always in normal form.
\<close>

theorem EventPartitionFor_scopes:
  "Partition_Normalize (EventPartitionFor kind scopes) = EventPartitionFor kind scopes \<and>
   (case PartitionFromScopes scopes of
      None \<Rightarrow> EventPartitionFor kind scopes = DefaultPartition \<and>
        \<not> (\<exists>pre k key. (pre, k) \<in> set scope_prefixes \<and> key \<noteq> [] \<and> pre @ key \<in> set scopes)
    | Some p \<Rightarrow> EventPartitionFor kind scopes = p \<and>
        (\<exists>pre. (pre, pKind p) \<in> set scope_prefixes \<and> pre @ pKey p \<in> set scopes) \<and>
        (pKind p = PartitionBoard \<longleftrightarrow> (\<exists>key. key \<noteq> [] \<and> ''board:'' @ key \<in> set scopes)))"
proof (cases "PartitionFromScopes scopes")
  case None
  have "scan_prefixes prefs scopes = None \<Longrightarrow> (pre, k) \<in> set prefs \<Longrightarrow> scan_scopes pre scopes = None" for prefs pre k
    by (induction prefs scopes rule: scan_prefixes.induct) (auto split: option.splits)
  with None have "\<not> (\<exists>pre k key. (pre, k) \<in> set scope_prefixes \<and> key \<noteq> [] \<and> pre @ key \<in> set scopes)"
    unfolding PartitionFromScopes_def by (meson scan_scopes_None)
  with None show ?thesis
    by (simp add: EventPartitionFor_def DefaultPartition_def Normalize_id)
next
  case (Some p)
  then obtain pre where pre: "(pre, pKind p) \<in> set scope_prefixes" "pre @ pKey p \<in> set scopes" "pKey p \<noteq> []"
    unfolding PartitionFromScopes_def using scan_prefixes_Some by blast
  then have "Partition_Normalize p = p"
    by (intro Normalize_id) (auto simp: scope_prefixes_def partition_kinds)
  moreover have "pKind p = PartitionBoard \<longleftrightarrow> (\<exists>key. key \<noteq> [] \<and> ''board:'' @ key \<in> set scopes)"
  proof (cases "scan_scopes ''board:'' scopes")
    case None
    with Some have "scan_prefixes (tl scope_prefixes) scopes = Some p"
      by (simp add: PartitionFromScopes_def scope_prefixes_def)
    then obtain q where "(q, pKind p) \<in> set (tl scope_prefixes)"
      using scan_prefixes_Some by blast
    then have "pKind p \<noteq> PartitionBoard"
      by (auto simp: scope_prefixes_def partition_kinds)
    with None show ?thesis by (auto simp: scan_scopes_None)
  next
    case (Some key)
    with \<open>PartitionFromScopes scopes = Some p\<close> have "p = Partition PartitionBoard key"
      by (simp add: PartitionFromScopes_def scope_prefixes_def)
    with scan_scopes_Some[OF Some] show ?thesis by auto
  qed
  ultimately show ?thesis using Some pre by (auto simp: EventPartitionFor_def)
qed

end
