(* ===== verification/Event_Store.thy ===== *)
theory Event_Store
  imports Command_Records Command_Classify
begin

text \<open>
  The in-process event store (\<open>MemoryEventStore\<close> of \<open>internal/core/partitioned_log.go\<close>) and the
  events it holds (\<open>internal/proto/event.go\<close>). Every event belongs to the partition named by its scopes and
  gets the next offset of that partition. The contract of an event log that can be replayed in pages
  is the locale \<open>event_log\<close>.

  Event payloads are \<open>any\<close> in the source: a type parameter \<open>'p\<close>. What the JSON package and the
  table of payload types do with them is the parameter \<open>json_codec\<close>.
\<close>

section \<open>Events and payloads\<close>

record 'p event =
  ev_ID :: string
  ev_Kind :: string
  ev_Seq :: int
  ev_ESeq :: int
  ev_Payload :: 'p
  ev_TS :: int
  ev_PartitionKind :: string
  ev_PartitionKey :: string
  ev_PartitionOffset :: int
  ev_Scopes :: "string list"

text \<open>
  \<open>jc_Marshal\<close> is \<open>json.Marshal\<close>, \<open>jc_UnmarshalPayload\<close> decodes the payload of an event kind,
  \<open>jc_UnmarshalAny\<close> followed by \<open>jc_MarshalAny\<close> re-encodes a document in canonical form.
\<close>

record 'p json_codec =
  jc_Marshal :: "'p \<Rightarrow> go_error + string"
  jc_UnmarshalPayload :: "string \<Rightarrow> string \<Rightarrow> go_error + 'p"
  jc_UnmarshalAny :: "string \<Rightarrow> go_error + json"
  jc_MarshalAny :: "json \<Rightarrow> go_error + string"

definition cloneEventPayload :: "'p json_codec \<Rightarrow> string \<Rightarrow> 'p \<Rightarrow> go_error + 'p" where
  "cloneEventPayload jc kind payload =
     (case jc_Marshal jc payload of Inl e \<Rightarrow> Inl e | Inr raw \<Rightarrow> jc_UnmarshalPayload jc kind raw)"

definition cloneEvent :: "'p json_codec \<Rightarrow> 'p event \<Rightarrow> 'p event" where
  "cloneEvent jc evt =
     evt\<lparr>ev_Payload := (case cloneEventPayload jc (ev_Kind evt) (ev_Payload evt) of Inl e \<Rightarrow> ev_Payload evt | Inr p \<Rightarrow> p)\<rparr>"

definition canonicalJSON :: "'p json_codec \<Rightarrow> 'p \<Rightarrow> go_error + string" where
  "canonicalJSON jc v =
     (case jc_Marshal jc v of Inl e \<Rightarrow> Inl e
      | Inr raw \<Rightarrow> (case jc_UnmarshalAny jc raw of Inl e \<Rightarrow> Inl e | Inr decoded \<Rightarrow> jc_MarshalAny jc decoded))"

definition samePayload :: "'p json_codec \<Rightarrow> 'p \<Rightarrow> 'p \<Rightarrow> bool" where
  "samePayload jc a b =
     (case canonicalJSON jc a of Inl e \<Rightarrow> False
      | Inr aa \<Rightarrow> (case canonicalJSON jc b of Inl e \<Rightarrow> False | Inr bb \<Rightarrow> aa = bb))"

definition sameScopes :: "string list \<Rightarrow> string list \<Rightarrow> bool" where
  "sameScopes a b = (if length a \<noteq> length b then False else sort a = sort b)"

fun scopesOverlap :: "string list \<Rightarrow> string list \<Rightarrow> bool" where
  "scopesOverlap [] b = False"
| "scopesOverlap (x # a) b = (if x \<in> set b then True else scopesOverlap a b)"

definition logPartitionFromEventPartition :: "partition \<Rightarrow> partition" where
  "logPartitionFromEventPartition p = Partition_Normalize (Partition (pKind p) (pKey p))"

definition logPartitionFromEvent :: "'p event option \<Rightarrow> partition" where
  "logPartitionFromEvent evt =
     (case evt of None \<Rightarrow> Partition_Normalize zero_partition
      | Some e \<Rightarrow> Partition_Normalize (Partition (ev_PartitionKind e) (ev_PartitionKey e)))"

definition eventAppendFromEvent :: "'p event \<Rightarrow> 'p event_append" where
  "eventAppendFromEvent evt =
     \<lparr>ea_ID = ev_ID evt, ea_Kind = ev_Kind evt, ea_Scopes = ev_Scopes evt, ea_Payload = ev_Payload evt,
      ea_CompatibilitySeq = ev_Seq evt, ea_PartitionOffset = ev_PartitionOffset evt, ea_TS = ev_TS evt\<rparr>"

section \<open>The in-memory store\<close>

record 'p memory_event_store =
  mes_events :: "'p event list"
  mes_offsets :: "(partition, int) gomap"

definition NewMemoryEventStore :: "'p memory_event_store" where
  "NewMemoryEventStore = \<lparr>mes_events = [], mes_offsets = []\<rparr>"

text \<open>\<open>now\<close> and \<open>fresh\<close> are the values of \<open>nowMS()\<close> and \<open>newID("evt_")\<close> at the call.\<close>

definition mes_append ::
  "'p json_codec \<Rightarrow> int \<Rightarrow> string \<Rightarrow> 'p memory_event_store \<Rightarrow> 'p event_append \<Rightarrow> (go_error + 'p event) \<times> 'p memory_event_store" where
  "mes_append jc now fresh s event =
     (case cloneEventPayload jc (ea_Kind event) (ea_Payload event) of
        Inl e \<Rightarrow> (Inl e, s)
      | Inr payload \<Rightarrow>
          let p = logPartitionFromEventPartition (EventPartitionFor (ea_Kind event) (ea_Scopes event));
              offset = wrap64 (gm_get 0 (mes_offsets s) p + 1)
          in if ea_PartitionOffset event > 0 \<and> ea_PartitionOffset event \<noteq> offset
             then (Inl (Errorf ''memory event store: partition offset %d for %s/%s must follow current tail %d''
                     [Aint (ea_PartitionOffset event), Astr (pKind p), Astr (pKey p), Aint (gm_get 0 (mes_offsets s) p)]), s)
             else let evt = \<lparr>ev_ID = (if ea_ID event = [] then fresh else ea_ID event), ev_Kind = ea_Kind event,
                             ev_Seq = (if ea_CompatibilitySeq event > 0 then ea_CompatibilitySeq event
                                       else int (length (mes_events s) + 1)),
                             ev_ESeq = 0, ev_Payload = payload, ev_TS = EventAppendTimestamp (ea_TS event) now,
                             ev_PartitionKind = pKind p, ev_PartitionKey = pKey p, ev_PartitionOffset = offset,
                             ev_Scopes = ea_Scopes event\<rparr>
                  in (Inr (cloneEvent jc evt),
                      s\<lparr>mes_offsets := gm_set p offset (mes_offsets s), mes_events := mes_events s @ [cloneEvent jc evt]\<rparr>))"

definition MemoryEventStore_Append ::
  "'p json_codec \<Rightarrow> int \<Rightarrow> string \<Rightarrow> ctx \<Rightarrow> 'p memory_event_store option \<Rightarrow> 'p event_append \<Rightarrow>
     (go_error + 'p event) \<times> 'p memory_event_store option" where
  "MemoryEventStore_Append jc now fresh ctx s event =
     (case ctx of Some e \<Rightarrow> (Inl e, s)
      | None \<Rightarrow> (case s of None \<Rightarrow> (Inl (Errorf ''memory event store: nil receiver'' []), s)
                 | Some s \<Rightarrow> (let (r, s') = mes_append jc now fresh s event in (r, Some s'))))"

definition MemoryEventStore_Head :: "ctx \<Rightarrow> 'p memory_event_store option \<Rightarrow> go_error + int" where
  "MemoryEventStore_Head ctx s =
     with_receiver ctx ''memory event store: nil receiver'' s (\<lambda>s. Inr (int (length (mes_events s))))"

text \<open>A nil scope slice selects every event.\<close>

definition mes_replay :: "'p json_codec \<Rightarrow> 'p memory_event_store \<Rightarrow> int \<Rightarrow> string list option \<Rightarrow> int \<Rightarrow> 'p event list" where
  "mes_replay jc s after scopes limit =
     map (cloneEvent jc)
       (collect (\<lambda>evt. \<not> ev_Seq evt \<le> after \<and> (case scopes of None \<Rightarrow> True | Some ss \<Rightarrow> scopesOverlap (ev_Scopes evt) ss))
          limit 0 (mes_events s))"

definition MemoryEventStore_Replay ::
  "'p json_codec \<Rightarrow> ctx \<Rightarrow> 'p memory_event_store option \<Rightarrow> int \<Rightarrow> string list option \<Rightarrow> int \<Rightarrow> go_error + 'p event list" where
  "MemoryEventStore_Replay jc ctx s after scopes limit =
     with_receiver ctx ''memory event store: nil receiver'' s (\<lambda>s. Inr (mes_replay jc s after scopes limit))"

definition mes_replayPartition ::
  "'p json_codec \<Rightarrow> 'p memory_event_store \<Rightarrow> string \<Rightarrow> string \<Rightarrow> int \<Rightarrow> int \<Rightarrow> 'p event list" where
  "mes_replayPartition jc s kind key afterOffset limit =
     map (cloneEvent jc)
       (collect (\<lambda>evt. \<not> (ev_PartitionKind evt \<noteq> kind \<or> ev_PartitionKey evt \<noteq> key \<or> ev_PartitionOffset evt \<le> afterOffset))
          limit 0 (mes_events s))"

definition MemoryEventStore_ReplayPartition ::
  "'p json_codec \<Rightarrow> ctx \<Rightarrow> 'p memory_event_store option \<Rightarrow> string \<Rightarrow> string \<Rightarrow> int \<Rightarrow> int \<Rightarrow> go_error + 'p event list" where
  "MemoryEventStore_ReplayPartition jc ctx s kind key afterOffset limit =
     with_receiver ctx ''memory event store: nil receiver'' s (\<lambda>s. Inr (mes_replayPartition jc s kind key afterOffset limit))"

definition mes_seed :: "'p memory_event_store \<Rightarrow> partition \<Rightarrow> int \<Rightarrow> 'p memory_event_store" where
  "mes_seed s p offset =
     (let offset = (if offset < 0 then 0 else offset); p = Partition_Normalize p
      in if offset > gm_get 0 (mes_offsets s) p then s\<lparr>mes_offsets := gm_set p offset (mes_offsets s)\<rparr> else s)"

definition MemoryEventStore_SeedEventPartitionOffset ::
  "ctx \<Rightarrow> 'p memory_event_store option \<Rightarrow> partition \<Rightarrow> int \<Rightarrow> go_error + 'p memory_event_store" where
  "MemoryEventStore_SeedEventPartitionOffset ctx s p offset =
     with_receiver ctx ''memory event store: nil receiver'' s (\<lambda>s. Inr (mes_seed s p offset))"

definition mes_listPartitions :: "'p memory_event_store \<Rightarrow> int \<Rightarrow> partition list" where
  "mes_listPartitions s limit =
     EventPartitionsByLastOffset
       (map (\<lambda>(p, offset). EventPartitionOffset_Normalize \<lparr>epo_Partition = p, epo_LastOffset = offset\<rparr>) (mes_offsets s)) limit"

definition MemoryEventStore_ListEventPartitions ::
  "ctx \<Rightarrow> 'p memory_event_store option \<Rightarrow> int \<Rightarrow> go_error + partition list" where
  "MemoryEventStore_ListEventPartitions ctx s limit =
     with_receiver ctx ''memory event store: nil receiver'' s (\<lambda>s. Inr (mes_listPartitions s limit))"

section \<open>Invariant\<close>

text \<open>The law of the payload codec: decoding an encoded payload gives a value that survives another round.\<close>

definition codec_stable :: "'p json_codec \<Rightarrow> bool" where
  "codec_stable jc \<longleftrightarrow> (\<forall>k x y. cloneEventPayload jc k x = Inr y \<longrightarrow> cloneEventPayload jc k y = Inr y)"

definition event_partition :: "'p event \<Rightarrow> partition" where
  "event_partition e = Partition (ev_PartitionKind e) (ev_PartitionKey e)"

definition tail_of :: "'p memory_event_store \<Rightarrow> partition \<Rightarrow> int" where
  "tail_of s p = gm_get 0 (mes_offsets s) p"

definition event_store_ok :: "'p json_codec \<Rightarrow> 'p memory_event_store \<Rightarrow> bool" where
  "event_store_ok jc s \<longleftrightarrow> (\<forall>p. 0 \<le> tail_of s p) \<and>
     (\<forall>e \<in> set (mes_events s). cloneEvent jc e = e \<and> Partition_Normalize (event_partition e) = event_partition e \<and>
        0 < ev_PartitionOffset e \<and> ev_PartitionOffset e \<le> tail_of s (event_partition e)) \<and>
     sorted_wrt (\<lambda>a b. event_partition a \<noteq> event_partition b \<or> ev_PartitionOffset a < ev_PartitionOffset b) (mes_events s)"

lemma New_event_store_ok [simp]: "event_store_ok jc NewMemoryEventStore"
  by (simp add: event_store_ok_def NewMemoryEventStore_def tail_of_def)

lemma cloneEvent_sel [simp]:
  "ev_Kind (cloneEvent jc e) = ev_Kind e" "ev_Seq (cloneEvent jc e) = ev_Seq e" "ev_ID (cloneEvent jc e) = ev_ID e"
  "ev_PartitionKind (cloneEvent jc e) = ev_PartitionKind e" "ev_PartitionKey (cloneEvent jc e) = ev_PartitionKey e"
  "ev_PartitionOffset (cloneEvent jc e) = ev_PartitionOffset e" "ev_Scopes (cloneEvent jc e) = ev_Scopes e"
  "ev_TS (cloneEvent jc e) = ev_TS e" "ev_ESeq (cloneEvent jc e) = ev_ESeq e"
  by (simp_all add: cloneEvent_def)

lemma event_partition_clone [simp]: "event_partition (cloneEvent jc e) = event_partition e"
  by (simp add: event_partition_def)

lemma cloneEvent_id: "cloneEventPayload jc (ev_Kind e) (ev_Payload e) = Inr (ev_Payload e) \<Longrightarrow> cloneEvent jc e = e"
  by (simp add: cloneEvent_def)

lemma logPartition_normal [simp]: "Partition_Normalize (logPartitionFromEventPartition p) = logPartitionFromEventPartition p"
  by (simp add: logPartitionFromEventPartition_def)

text \<open>The event a successful append stores and returns.\<close>

definition appended_event :: "int \<Rightarrow> string \<Rightarrow> 'p memory_event_store \<Rightarrow> 'p event_append \<Rightarrow> 'p \<Rightarrow> 'p event" where
  "appended_event now fresh s event payload =
     (let p = logPartitionFromEventPartition (EventPartitionFor (ea_Kind event) (ea_Scopes event))
      in \<lparr>ev_ID = (if ea_ID event = [] then fresh else ea_ID event), ev_Kind = ea_Kind event,
          ev_Seq = (if ea_CompatibilitySeq event > 0 then ea_CompatibilitySeq event else int (length (mes_events s) + 1)),
          ev_ESeq = 0, ev_Payload = payload, ev_TS = EventAppendTimestamp (ea_TS event) now,
          ev_PartitionKind = pKind p, ev_PartitionKey = pKey p, ev_PartitionOffset = wrap64 (tail_of s p + 1),
          ev_Scopes = ea_Scopes event\<rparr>)"

abbreviation append_partition :: "'p event_append \<Rightarrow> partition" where
  "append_partition event \<equiv> logPartitionFromEventPartition (EventPartitionFor (ea_Kind event) (ea_Scopes event))"

lemma appended_sel [simp]:
  "event_partition (appended_event now fresh s event payload) = append_partition event"
  "ev_PartitionOffset (appended_event now fresh s event payload) = wrap64 (tail_of s (append_partition event) + 1)"
  "ev_Kind (appended_event now fresh s event payload) = ea_Kind event"
  "ev_Payload (appended_event now fresh s event payload) = payload"
  "ev_Scopes (appended_event now fresh s event payload) = ea_Scopes event"
  by (simp_all add: appended_event_def event_partition_def Let_def)

lemma mes_append_cases:
  assumes "codec_stable jc"
  obtains (failed) e where "mes_append jc now fresh s event = (Inl e, s)"
  | (stored) payload where "cloneEventPayload jc (ea_Kind event) (ea_Payload event) = Inr payload"
      "cloneEvent jc (appended_event now fresh s event payload) = appended_event now fresh s event payload"
      "\<not> (ea_PartitionOffset event > 0 \<and> ea_PartitionOffset event \<noteq> wrap64 (tail_of s (append_partition event) + 1))"
      "mes_append jc now fresh s event =
        (Inr (appended_event now fresh s event payload),
         s\<lparr>mes_offsets := gm_set (append_partition event) (wrap64 (tail_of s (append_partition event) + 1)) (mes_offsets s),
           mes_events := mes_events s @ [appended_event now fresh s event payload]\<rparr>)"
proof (cases "cloneEventPayload jc (ea_Kind event) (ea_Payload event)")
  case (Inl e)
  then show ?thesis using failed by (simp add: mes_append_def)
next
  case (Inr payload)
  then have "cloneEventPayload jc (ea_Kind event) payload = Inr payload"
    using assms unfolding codec_stable_def by blast
  then have clone: "cloneEvent jc (appended_event now fresh s event payload) = appended_event now fresh s event payload"
    by (intro cloneEvent_id) simp
  let ?bad = "ea_PartitionOffset event > 0 \<and> ea_PartitionOffset event \<noteq> wrap64 (tail_of s (append_partition event) + 1)"
  show ?thesis
  proof (cases ?bad)
    case True
    then have "\<exists>e. mes_append jc now fresh s event = (Inl e, s)"
      using Inr by (simp add: mes_append_def tail_of_def Let_def)
    then show ?thesis using failed by blast
  next
    case False
    then have "mes_append jc now fresh s event =
        (Inr (cloneEvent jc (appended_event now fresh s event payload)),
         s\<lparr>mes_offsets := gm_set (append_partition event) (wrap64 (tail_of s (append_partition event) + 1)) (mes_offsets s),
           mes_events := mes_events s @ [cloneEvent jc (appended_event now fresh s event payload)]\<rparr>)"
      using Inr unfolding mes_append_def tail_of_def appended_event_def Let_def by (simp add: tail_of_def)
    then show ?thesis using stored[OF Inr clone False] clone by simp
  qed
qed

lemma append_store_ok:
  assumes "codec_stable jc" "event_store_ok jc s" "tail_of s (append_partition event) < maxInt64"
  shows "event_store_ok jc (snd (mes_append jc now fresh s event))"
  using assms(1)
proof (cases rule: mes_append_cases[of jc now fresh s event])
  case (stored payload)
  let ?p = "append_partition event" and ?e = "appended_event now fresh s event payload"
  have next_offset: "wrap64 (tail_of s ?p + 1) = tail_of s ?p + 1" and pos: "0 \<le> tail_of s ?p"
    using assms(2, 3) by (auto simp: event_store_ok_def intro: wrap64_Suc)
  have tail: "tail_of (snd (mes_append jc now fresh s event)) q = (if q = ?p then tail_of s ?p + 1 else tail_of s q)" for q
    by (simp add: stored(4) tail_of_def next_offset[unfolded tail_of_def])
  have "event_partition a \<noteq> event_partition ?e \<or> ev_PartitionOffset a < ev_PartitionOffset ?e" if "a \<in> set (mes_events s)" for a
    using assms(2) that by (fastforce simp: event_store_ok_def next_offset)
  moreover have "ev_PartitionOffset a \<le> (if event_partition a = ?p then tail_of s ?p + 1 else tail_of s (event_partition a))"
    if "a \<in> set (mes_events s)" for a
    using assms(2) that by (fastforce simp: event_store_ok_def)
  ultimately show ?thesis
    using assms(2) pos stored(2)
    unfolding event_store_ok_def tail by (simp add: stored(4) sorted_wrt_append next_offset)
qed (use assms in simp)

lemma seed_store_ok:
  assumes "event_store_ok jc s" shows "event_store_ok jc (mes_seed s p n)"
proof -
  have "tail_of s q \<le> tail_of (mes_seed s p n) q" for q
    by (auto simp: mes_seed_def tail_of_def Let_def)
  moreover have "mes_events (mes_seed s p n) = mes_events s" by (simp add: mes_seed_def Let_def)
  ultimately show ?thesis using assms unfolding event_store_ok_def by (metis order_trans)
qed

section \<open>The contract of an event log\<close>

definition last_offset :: "int \<Rightarrow> 'p event list \<Rightarrow> int" where
  "last_offset a es = (if es = [] then a else ev_PartitionOffset (last es))"

locale event_log =
  fixes valid :: "'s \<Rightarrow> bool" and replay :: "'s \<Rightarrow> string \<Rightarrow> string \<Rightarrow> int \<Rightarrow> int \<Rightarrow> 'p event list"
  assumes replayed: "valid s \<Longrightarrow> e \<in> set (replay s k y a n) \<Longrightarrow>
        a < ev_PartitionOffset e \<and> ev_PartitionKind e = k \<and> ev_PartitionKey e = y"
    and increasing: "valid s \<Longrightarrow> sorted_wrt (<) (map ev_PartitionOffset (replay s k y a n))"
    and resume: "valid s \<Longrightarrow> replay s k y a 0 = replay s k y a n @ replay s k y (last_offset a (replay s k y a n)) 0"
    and progress: "valid s \<Longrightarrow> replay s k y a n = [] \<Longrightarrow> replay s k y a 0 = []"
begin

lemma last_offset_advances:
  "valid s \<Longrightarrow> replay s k y a n \<noteq> [] \<Longrightarrow> a < last_offset a (replay s k y a n)"
  using replayed[of s "last (replay s k y a n)" k y a n] by (simp add: last_offset_def)

text \<open>Reading page after page from the last offset seen delivers the partition, and stops.\<close>

lemma remaining_decreases:
  assumes "valid s" "replay s k y a n \<noteq> []"
  shows "length (replay s k y (last_offset a (replay s k y a n)) 0) < length (replay s k y a 0)"
proof -
  have "length (replay s k y a 0) = length (replay s k y a n) + length (replay s k y (last_offset a (replay s k y a n)) 0)"
    by (subst resume[OF assms(1), of k y a n]) simp
  then show ?thesis using assms(2) by simp
qed

lemma last_is_largest:
  assumes "valid s" "e \<in> set (replay s k y a n)"
  shows "ev_PartitionOffset e \<le> last_offset a (replay s k y a n)"
proof -
  let ?es = "replay s k y a n"
  have ne: "?es \<noteq> []" using assms(2) by auto
  have "sorted_wrt (<) (map ev_PartitionOffset (butlast ?es) @ [ev_PartitionOffset (last ?es)])"
    using increasing[OF assms(1), of k y a n] ne by (metis append_butlast_last_id list.simps(8,9) map_append)
  moreover have "e = last ?es \<or> e \<in> set (butlast ?es)"
    using assms(2) ne by (metis append_butlast_last_id in_set_conv_decomp rotate1.simps(2) set_ConsD set_rotate1)
  ultimately show ?thesis using ne by (auto simp: last_offset_def sorted_wrt_append)
qed

end

text \<open>A log that also fills its pages: a page shorter than the limit is the last one.\<close>

locale paged_event_log = event_log +
  assumes page: "valid s \<Longrightarrow> replay s k y a n = limit_slice n (replay s k y a 0)"

abbreviation in_partition :: "string \<Rightarrow> string \<Rightarrow> int \<Rightarrow> 'p event \<Rightarrow> bool" where
  "in_partition k y a \<equiv> \<lambda>evt. \<not> (ev_PartitionKind evt \<noteq> k \<or> ev_PartitionKey evt \<noteq> y \<or> ev_PartitionOffset evt \<le> a)"

lemma replayPartition_eq:
  assumes "event_store_ok jc s"
  shows "mes_replayPartition jc s k y a n = limit_slice n (filter (in_partition k y a) (mes_events s))"
proof -
  have "map (cloneEvent jc) (limit_slice n (filter P (mes_events s))) = limit_slice n (filter P (mes_events s))" for P
    using assms by (intro map_idI) (auto simp: event_store_ok_def dest!: set_limit_slice)
  then show ?thesis by (simp add: mes_replayPartition_def collect_eq)
qed

lemma partition_events_increasing:
  assumes "event_store_ok jc s"
  shows "sorted_wrt (<) (map ev_PartitionOffset (filter (in_partition k y a) (mes_events s)))"
proof -
  let ?es = "filter (in_partition k y a) (mes_events s)"
  have "sorted_wrt (\<lambda>a b. event_partition a \<noteq> event_partition b \<or> ev_PartitionOffset a < ev_PartitionOffset b) ?es"
    using assms by (auto simp: event_store_ok_def intro: sorted_wrt_filter)
  then have "sorted_wrt (\<lambda>a b. ev_PartitionOffset a < ev_PartitionOffset b) ?es"
    by (rule sorted_wrt_mono_rel[rotated]) (auto simp: event_partition_def)
  then show ?thesis by (simp add: sorted_wrt_map)
qed

lemma filter_resume:
  "sorted_wrt (<) (map ev_PartitionOffset es) \<Longrightarrow> m \<le> length es \<Longrightarrow> 0 < m \<Longrightarrow>
   filter (\<lambda>e. ev_PartitionOffset (es ! (m - 1)) < ev_PartitionOffset e) es = drop m es"
proof -
  assume s: "sorted_wrt (<) (map ev_PartitionOffset es)" and m: "m \<le> length es" "0 < m"
  let ?P = "\<lambda>e. ev_PartitionOffset (es ! (m - 1)) < ev_PartitionOffset e"
  have lt: "i < j \<Longrightarrow> j < length es \<Longrightarrow> ev_PartitionOffset (es ! i) < ev_PartitionOffset (es ! j)" for i j
    using s by (auto simp: sorted_wrt_iff_nth_less)
  have "filter ?P (take m es) = []"
  proof (rule filter_False, rule ballI)
    fix e assume "e \<in> set (take m es)"
    then obtain i where i: "i < m" "e = es ! i" using m by (auto simp: in_set_conv_nth)
    then have "i = m - 1 \<or> i < m - 1" by auto
    moreover have "m - 1 < length es" using m by simp
    ultimately show "\<not> ?P e" using lt[of i "m - 1"] i by auto
  qed
  moreover have "filter ?P (drop m es) = drop m es"
  proof (rule filter_True, rule ballI)
    fix e assume "e \<in> set (drop m es)"
    then obtain i where i: "i < length es - m" "e = es ! (m + i)" using m by (auto simp: in_set_conv_nth)
    then show "?P e" using lt[of "m - 1" "m + i"] m by auto
  qed
  ultimately show ?thesis by (metis append.left_neutral append_take_drop_id filter_append)
qed

lemma page_resume:
  assumes "sorted_wrt (<) (map ev_PartitionOffset (filter (in_partition k y a) es))"
  shows "filter (in_partition k y a) es =
     limit_slice n (filter (in_partition k y a) es) @
     filter (in_partition k y (last_offset a (limit_slice n (filter (in_partition k y a) es)))) es"
proof -
  let ?F = "filter (in_partition k y a) es"
  let ?page = "limit_slice n ?F"
  have page: "?page = take (length ?page) ?F" "length ?page \<le> length ?F"
    by (simp_all add: limit_slice_def min_def)
  show ?thesis
  proof (cases "?page = []")
    case False
    have "0 < length ?page" using False by (simp only: length_greater_0_conv not_False_eq_True)
    then have pos: "0 < length ?page" "length ?page - 1 < length ?F" using page(2) by linarith+
    have "last ?page = ?page ! (length ?page - 1)" using False by (rule last_conv_nth)
    also have "\<dots> = ?F ! (length ?page - 1)" using pos(1) by (intro nth_limit_slice) simp
    finally have "last ?page = ?F ! (length ?page - 1)" .
    then have last: "last_offset a ?page = ev_PartitionOffset (?F ! (length ?page - 1))"
      using False by (simp add: last_offset_def)
    have "?F ! (length ?page - 1) \<in> set ?F"
      using pos(2) by (rule nth_mem)
    then have "a < last_offset a ?page" unfolding last by auto
    then have "filter (in_partition k y (last_offset a ?page)) es
        = filter (\<lambda>e. last_offset a ?page < ev_PartitionOffset e) ?F"
      by (auto simp: intro!: filter_cong)
    also have "\<dots> = drop (length ?page) ?F"
      unfolding last by (rule filter_resume[OF assms page(2) pos(1)])
    finally have rest: "filter (in_partition k y (last_offset a ?page)) es = drop (length ?page) ?F" .
    show ?thesis
      unfolding rest by (subst (1) page(1)) (rule append_take_drop_id[symmetric])
  qed (simp add: last_offset_def)
qed

interpretation memory_events: paged_event_log "event_store_ok jc" "mes_replayPartition jc" for jc :: "'p json_codec"
proof unfold_locales
  fix s :: "'p memory_event_store" and k y a n
  assume ok: "event_store_ok jc s"
  note replay = replayPartition_eq[OF ok]
  show "a < ev_PartitionOffset e \<and> ev_PartitionKind e = k \<and> ev_PartitionKey e = y"
    if "e \<in> set (mes_replayPartition jc s k y a n)" for e
    using that by (auto simp: replay dest!: set_limit_slice)
  show "sorted_wrt (<) (map ev_PartitionOffset (mes_replayPartition jc s k y a n))"
    using partition_events_increasing[OF ok, of k y a]
    by (simp add: replay sorted_wrt_map sorted_wrt_limit_slice)
  show "mes_replayPartition jc s k y a 0 =
      mes_replayPartition jc s k y a n @ mes_replayPartition jc s k y (last_offset a (mes_replayPartition jc s k y a n)) 0"
    using page_resume[OF partition_events_increasing[OF ok]] by (simp only: replay limit_slice_none order_refl)
  show "mes_replayPartition jc s k y a 0 = []" if "mes_replayPartition jc s k y a n = []"
    using that by (auto simp: replay limit_slice_def split: if_splits)
  show "mes_replayPartition jc s k y a n = limit_slice n (mes_replayPartition jc s k y a 0)"
    by (simp add: replay limit_slice_none)
qed

section \<open>A sample store\<close>

text \<open>Payloads that are already encoded documents: a codec that satisfies the law.\<close>

definition raw_codec :: "string json_codec" where
  "raw_codec = \<lparr>jc_Marshal = Inr, jc_UnmarshalPayload = (\<lambda>k raw. Inr raw), jc_UnmarshalAny = (\<lambda>raw. Inr (JStr raw)),
     jc_MarshalAny = (\<lambda>v. case v of JStr raw \<Rightarrow> Inr raw | _ \<Rightarrow> Inl (Errorf ''unsupported'' []))\<rparr>"

lemma raw_codec_stable [simp]: "codec_stable raw_codec"
  by (simp add: codec_stable_def raw_codec_def cloneEventPayload_def)

lemma raw_codec_same [simp]: "samePayload raw_codec x x"
  by (simp add: samePayload_def canonicalJSON_def raw_codec_def)

definition sample_append :: "string event_append" where
  "sample_append = \<lparr>ea_ID = [], ea_Kind = ''post.new'', ea_Scopes = [''board:b''], ea_Payload = ''{}'', ea_CompatibilitySeq = 0,
     ea_PartitionOffset = 0, ea_TS = 0\<rparr>"

definition sample_store :: "string memory_event_store" where
  "sample_store = snd (mes_append raw_codec 7 ''evt_1'' NewMemoryEventStore sample_append)"

lemma sample_store_ok [simp]: "event_store_ok raw_codec sample_store"
  unfolding sample_store_def
  by (rule append_store_ok) (simp, simp, simp add: tail_of_def NewMemoryEventStore_def maxInt64_def)

lemma sample_store_events:
  "mes_events sample_store = [\<lparr>ev_ID = ''evt_1'', ev_Kind = ''post.new'', ev_Seq = 1, ev_ESeq = 0, ev_Payload = ''{}'', ev_TS = 7,
     ev_PartitionKind = ''board'', ev_PartitionKey = ''b'', ev_PartitionOffset = 1, ev_Scopes = [''board:b'']\<rparr>]"
  by code_simp

section \<open>Reachable stores\<close>

datatype 'p store_op = OpAppend int string "'p event_append" | OpSeed partition int

fun store_step :: "'p json_codec \<Rightarrow> 'p memory_event_store \<Rightarrow> 'p store_op \<Rightarrow> 'p memory_event_store" where
  "store_step jc s (OpAppend now fresh event) = snd (mes_append jc now fresh s event)"
| "store_step jc s (OpSeed p n) = mes_seed s p n"

fun seed_bounded :: "'p store_op \<Rightarrow> bool" where
  "seed_bounded (OpAppend now fresh event) = True"
| "seed_bounded (OpSeed p n) = (n \<le> 2 ^ 62)"

lemma step_tail_bound:
  assumes "codec_stable jc" "event_store_ok jc s" "\<And>p. tail_of s p \<le> 2 ^ 62 + k" "0 \<le> k" "k < 2 ^ 62 - 1" "seed_bounded op"
  shows "event_store_ok jc (store_step jc s op) \<and> (\<forall>p. tail_of (store_step jc s op) p \<le> 2 ^ 62 + (k + 1))"
proof (cases op)
  case (OpAppend now fresh event)
  have low: "tail_of s p < maxInt64" for p
  proof -
    have "(2 ^ 62 :: int) + (2 ^ 62 - 1) = maxInt64" by (simp add: maxInt64_def)
    then show ?thesis using assms(3)[of p] assms(5) by linarith
  qed
  then have ok: "event_store_ok jc (store_step jc s op)" using assms(1, 2) by (simp add: OpAppend append_store_ok)
  have succ: "wrap64 (tail_of s p + 1) = tail_of s p + 1" for p
    using low assms(2) by (intro wrap64_Suc) (auto simp: event_store_ok_def)
  have "tail_of (snd (mes_append jc now fresh s event)) p \<le> 2 ^ 62 + (k + 1)" for p
    using assms(1)
  proof (cases rule: mes_append_cases[of jc now fresh s event])
    case (stored payload)
    then have "tail_of (snd (mes_append jc now fresh s event)) p \<le> tail_of s p + 1"
      by (simp add: tail_of_def succ[unfolded tail_of_def])
    then show ?thesis using assms(3)[of p] by linarith
  qed (use assms(3)[of p] in simp)
  then show ?thesis using ok by (simp add: OpAppend)
next
  case (OpSeed p n)
  have "tail_of (mes_seed s p n) q \<le> max (2 ^ 62) (tail_of s q)" for q
    using assms(6) OpSeed by (auto simp: mes_seed_def tail_of_def Let_def)
  then have "tail_of (mes_seed s p n) q \<le> 2 ^ 62 + (k + 1)" for q
    using assms(3)[of q] assms(4) by (smt (verit))
  then show ?thesis using assms(2) by (simp add: OpSeed seed_store_ok)
qed

lemma run_store_ok:
  "codec_stable jc \<Longrightarrow> event_store_ok jc s \<Longrightarrow> (\<And>p. tail_of s p \<le> 2 ^ 62 + k) \<Longrightarrow> 0 \<le> k \<Longrightarrow>
   k + int (length ops) < 2 ^ 62 \<Longrightarrow> list_all seed_bounded ops \<Longrightarrow> event_store_ok jc (foldl (store_step jc) s ops)"
proof (induction ops arbitrary: s k)
  case (Cons op ops)
  have "k < 2 ^ 62 - 1" using Cons.prems(5) by simp
  then have step: "event_store_ok jc (store_step jc s op)" "\<And>p. tail_of (store_step jc s op) p \<le> 2 ^ 62 + (k + 1)"
    using step_tail_bound[OF Cons.prems(1-4), of op] Cons.prems(6) by simp_all
  have "event_store_ok jc (foldl (store_step jc) (store_step jc s op) ops)"
    by (rule Cons.IH[OF Cons.prems(1) step]) (use Cons.prems in simp_all)
  then show ?case by simp
qed simp

section \<open>Properties\<close>

text \<open>
  C37: after any appends and seedings (far below the 64-bit limit) the events of every partition carry strictly
  increasing positive offsets that do not exceed the partition's tail, in the order in which they were appended.
\<close>

theorem event_store_reachable_invariant:
  fixes jc :: "'p json_codec" and ops :: "'p store_op list"
  defines "s \<equiv> foldl (store_step jc) NewMemoryEventStore ops"
  assumes "codec_stable jc" and "list_all seed_bounded ops" and "int (length ops) < 2 ^ 62"
  shows "sorted_wrt (<) (map ev_PartitionOffset (filter (\<lambda>e. event_partition e = p) (mes_events s))) \<and>
    list_all (\<lambda>e. 0 < ev_PartitionOffset e \<and> ev_PartitionOffset e \<le> tail_of s (event_partition e)) (mes_events s)"
proof -
  have ok: "event_store_ok jc s"
    unfolding s_def using assms(2-4) by (intro run_store_ok[of jc _ 0]) (simp_all add: tail_of_def NewMemoryEventStore_def, simp add: event_store_ok_def tail_of_def)
  have "sorted_wrt (<) (map ev_PartitionOffset (filter (in_partition (pKind p) (pKey p) 0) (mes_events s)))"
    by (rule partition_events_increasing[OF ok])
  moreover have "in_partition (pKind p) (pKey p) 0 e \<longleftrightarrow> event_partition e = p" if "e \<in> set (mes_events s)" for e
    using ok that by (cases p) (auto simp: event_store_ok_def event_partition_def)
  ultimately show ?thesis
    using ok by (simp add: event_store_ok_def list_all_iff cong: filter_cong)
qed

theorem event_store_reachable_invariant_witness:
  "sorted_wrt (<) (map ev_PartitionOffset (filter (\<lambda>e. event_partition e = Partition ''board'' ''b'')
     (mes_events (foldl (store_step raw_codec) NewMemoryEventStore [OpSeed (Partition ''board'' ''b'') 4, OpAppend 7 ''evt_1'' sample_append]))))"
  using event_store_reachable_invariant[OF raw_codec_stable,
      of "[OpSeed (Partition ''board'' ''b'') 4, OpAppend 7 ''evt_1'' sample_append]" "Partition ''board'' ''b''"]
  by simp

text \<open>
  a partition can be replayed page by page: a page holds the events after the given offset in offset order, up to the
  limit, and continuing after the last offset of a page yields exactly the events that remain.
\<close>

theorem ReplayPartition_pages:
  assumes "event_store_ok jc s"
  shows "mes_replayPartition jc s k y a n = limit_slice n (filter (\<lambda>e. event_partition e = Partition k y \<and> a < ev_PartitionOffset e) (mes_events s)) \<and>
    sorted_wrt (<) (map ev_PartitionOffset (mes_replayPartition jc s k y a n)) \<and>
    mes_replayPartition jc s k y a 0 =
      mes_replayPartition jc s k y a n @ mes_replayPartition jc s k y (last_offset a (mes_replayPartition jc s k y a n)) 0"
proof -
  have "filter (in_partition k y a) (mes_events s) = filter (\<lambda>e. event_partition e = Partition k y \<and> a < ev_PartitionOffset e) (mes_events s)"
    by (rule filter_cong) (auto simp: event_partition_def)
  then have "mes_replayPartition jc s k y a n = limit_slice n (filter (\<lambda>e. event_partition e = Partition k y \<and> a < ev_PartitionOffset e) (mes_events s))"
    using replayPartition_eq[OF assms, of k y a n] by (simp only:)
  moreover note memory_events.increasing[OF assms, of k y a n] memory_events.resume[OF assms, of k y a n]
  ultimately show ?thesis by blast
qed

theorem ReplayPartition_pages_witness:
  "map ev_PartitionOffset (mes_replayPartition raw_codec sample_store ''board'' ''b'' 0 5) = [1]"
  using conjunct1[OF ReplayPartition_pages[OF sample_store_ok, of "''board''" "''b''" 0 5]]
  by (simp add: sample_store_events event_partition_def limit_slice_def)

lemma scopesOverlap_iff: "scopesOverlap a b \<longleftrightarrow> set a \<inter> set b \<noteq> {}"
  by (induction a b rule: scopesOverlap.induct) auto

text \<open>
  The replay by sequence number returns, in log order and up to the limit, exactly the events after the given
  sequence number that share a scope with the request, or all of them when no scopes are given.
\<close>

theorem Replay_selects:
  assumes "event_store_ok jc s"
  shows "mes_replay jc s after scopes limit =
    limit_slice limit (filter (\<lambda>e. after < ev_Seq e \<and> (scopes = None \<or> set (ev_Scopes e) \<inter> set (the scopes) \<noteq> {})) (mes_events s))"
proof -
  let ?P = "\<lambda>e. after < ev_Seq e \<and> (scopes = None \<or> set (ev_Scopes e) \<inter> set (the scopes) \<noteq> {})"
  have "filter (\<lambda>evt. \<not> ev_Seq evt \<le> after \<and> (case scopes of None \<Rightarrow> True | Some ss \<Rightarrow> scopesOverlap (ev_Scopes evt) ss)) (mes_events s)
      = filter ?P (mes_events s)"
    by (rule filter_cong) (auto simp: scopesOverlap_iff split: option.splits)
  moreover have "map (cloneEvent jc) (limit_slice limit (filter ?P (mes_events s))) = limit_slice limit (filter ?P (mes_events s))"
    using assms by (intro map_idI) (auto simp: event_store_ok_def dest!: set_limit_slice)
  ultimately show ?thesis by (simp only: mes_replay_def collect_eq)
qed

theorem Replay_selects_witness:
  "map ev_Seq (mes_replay raw_codec sample_store 0 (Some [''board:b'', ''board:c'']) 5) = [1]"
  using Replay_selects[OF sample_store_ok, of 0 "Some [''board:b'', ''board:c'']" 5]
  by (simp add: sample_store_events limit_slice_def)

end
