(* ===== verification/Event_Parity.thy ===== *)
theory Event_Parity
  imports Event_Store
begin

text \<open>
  Shadow writing and promotion of an event log (\<open>internal/core/partitioned_log.go\<close>): the shadow store
  that mirrors appends, the comparison of two events, the replay parity check of one window, the parity
  runner with its checkpoints, and the promotion readiness check that walks all partitions of two stores.
  A store behind the \<open>EventStore\<close> interface is its state together with its method table. The stores are
  read at one moment: nothing appends to them while a check runs.
\<close>

section \<open>Interfaces\<close>

record ('s, 'p) event_store =
  es_state :: 's
  es_append :: "ctx \<Rightarrow> 's \<Rightarrow> 'p event_append \<Rightarrow> (go_error + 'p event) \<times> 's"
  es_head :: "ctx \<Rightarrow> 's \<Rightarrow> go_error + int"
  es_replay :: "ctx \<Rightarrow> 's \<Rightarrow> int \<Rightarrow> string list option \<Rightarrow> int \<Rightarrow> go_error + 'p event list"
  es_replayPartition :: "ctx \<Rightarrow> 's \<Rightarrow> string \<Rightarrow> string \<Rightarrow> int \<Rightarrow> int \<Rightarrow> go_error + 'p event list"
  es_lister :: "(ctx \<Rightarrow> 's \<Rightarrow> int \<Rightarrow> go_error + partition list) option"

type_synonym partition_lister = "ctx \<Rightarrow> int \<Rightarrow> go_error + partition list"

text \<open>The \<open>EventPartitionLister\<close> a store implements, if it does.\<close>

definition store_lister :: "('s, 'p) event_store \<Rightarrow> partition_lister option" where
  "store_lister st = map_option (\<lambda>list ctx limit. list ctx (es_state st) limit) (es_lister st)"

section \<open>Parity issues\<close>

definition EventParityAppendError :: string where "EventParityAppendError = ''append_error''"
definition EventParityCoverage :: string where "EventParityCoverage = ''coverage_error''"
definition EventParityMismatch :: string where "EventParityMismatch = ''mismatch''"
definition EventParityReplayError :: string where "EventParityReplayError = ''replay_error''"

text \<open>A message keeps its format and arguments; \<open>epi_Err\<close> is the error whose text the source stores.\<close>

record event_parity_issue =
  epi_Kind :: string
  epi_Event :: string
  epi_Partition :: partition
  epi_PrimarySeq :: int
  epi_ShadowSeq :: int
  epi_PrimaryOffset :: int
  epi_ShadowOffset :: int
  epi_Message :: "string \<times> go_arg list"
  epi_Err :: "go_error option"

definition no_issue :: event_parity_issue where
  "no_issue = \<lparr>epi_Kind = [], epi_Event = [], epi_Partition = zero_partition, epi_PrimarySeq = 0, epi_ShadowSeq = 0,
     epi_PrimaryOffset = 0, epi_ShadowOffset = 0, epi_Message = ([], []), epi_Err = None\<rparr>"

text \<open>The two metrics counters and the reporter, which is \<open>None\<close> when it is nil.\<close>

record parity_reporter =
  pr_appendFailures :: nat
  pr_parityFailures :: nat
  pr_recorded :: "event_parity_issue list option"

definition recordEventParityIssue :: "parity_reporter \<Rightarrow> event_parity_issue \<Rightarrow> parity_reporter" where
  "recordEventParityIssue rp issue =
     (let rp = (if epi_Kind issue = EventParityAppendError
                then rp\<lparr>pr_appendFailures := pr_appendFailures rp + 1\<rparr>
                else rp\<lparr>pr_parityFailures := pr_parityFailures rp + 1\<rparr>)
      in rp\<lparr>pr_recorded := map_option (\<lambda>issues. issues @ [issue]) (pr_recorded rp)\<rparr>)"

definition compareEventParity :: "'p json_codec \<Rightarrow> 'p event option \<Rightarrow> 'p event option \<Rightarrow> event_parity_issue option" where
  "compareEventParity jc primary shadow =
     (case (primary, shadow) of
        (Some p, Some s) \<Rightarrow>
          let issue = no_issue\<lparr>epi_Kind := EventParityMismatch, epi_Event := ev_Kind p,
                epi_Partition := logPartitionFromEvent (Some p), epi_PrimarySeq := ev_Seq p, epi_ShadowSeq := ev_Seq s,
                epi_PrimaryOffset := ev_PartitionOffset p, epi_ShadowOffset := ev_PartitionOffset s\<rparr>
          in if ev_Kind p \<noteq> ev_Kind s then
               Some (issue\<lparr>epi_Message := (''event kind mismatch: primary=%s shadow=%s'', [Astr (ev_Kind p), Astr (ev_Kind s)])\<rparr>)
             else if ev_PartitionKind p \<noteq> ev_PartitionKind s \<or> ev_PartitionKey p \<noteq> ev_PartitionKey s then
               Some (issue\<lparr>epi_Message := (''partition mismatch: primary=%s/%s shadow=%s/%s'',
                 [Astr (ev_PartitionKind p), Astr (ev_PartitionKey p), Astr (ev_PartitionKind s), Astr (ev_PartitionKey s)])\<rparr>)
             else if ev_PartitionOffset p \<noteq> ev_PartitionOffset s then
               Some (issue\<lparr>epi_Message := (''partition offset mismatch: primary=%d shadow=%d'',
                 [Aint (ev_PartitionOffset p), Aint (ev_PartitionOffset s)])\<rparr>)
             else if ev_Seq p \<noteq> ev_Seq s then
               Some (issue\<lparr>epi_Message := (''seq mismatch: primary=%d shadow=%d'', [Aint (ev_Seq p), Aint (ev_Seq s)])\<rparr>)
             else if \<not> sameScopes (ev_Scopes p) (ev_Scopes s) then
               Some (issue\<lparr>epi_Message := (''scope mismatch: primary=%v shadow=%v'', [Astrs (ev_Scopes p), Astrs (ev_Scopes s)])\<rparr>)
             else if \<not> samePayload jc (ev_Payload p) (ev_Payload s) then
               Some (issue\<lparr>epi_Message := (''payload mismatch'', [])\<rparr>)
             else None
      | _ \<Rightarrow> Some (no_issue\<lparr>epi_Kind := EventParityMismatch, epi_Partition := logPartitionFromEvent primary,
                epi_Message := (''primary or shadow event was nil'', [])\<rparr>))"

section \<open>The shadow store\<close>

record ('s, 't, 'p) shadow_event_store =
  ses_primary :: "('s, 'p) event_store option"
  ses_shadow :: "('t, 'p) event_store option"
  ses_reporter :: parity_reporter

definition NewShadowEventStore ::
  "('s, 'p) event_store option \<Rightarrow> ('t, 'p) event_store option \<Rightarrow> parity_reporter \<Rightarrow> ('s, 't, 'p) shadow_event_store" where
  "NewShadowEventStore primary shadow reporter =
     \<lparr>ses_primary = primary, ses_shadow = shadow, ses_reporter = reporter\<rparr>"

definition appendEventLogShadow ::
  "'p json_codec \<Rightarrow> ctx \<Rightarrow> ('t, 'p) event_store option \<Rightarrow> parity_reporter \<Rightarrow> 'p event \<Rightarrow> ('t, 'p) event_store option \<times> parity_reporter" where
  "appendEventLogShadow jc ctx shadow reporter primary =
     (case shadow of
        None \<Rightarrow> (None, reporter)
      | Some sh \<Rightarrow>
          (case es_append sh ctx (es_state sh) (eventAppendFromEvent primary) of
             (Inl err, t) \<Rightarrow>
               (Some (sh\<lparr>es_state := t\<rparr>),
                recordEventParityIssue reporter
                  (no_issue\<lparr>epi_Kind := EventParityAppendError, epi_Event := ev_Kind primary,
                     epi_Partition := logPartitionFromEvent (Some primary), epi_PrimarySeq := ev_Seq primary,
                     epi_PrimaryOffset := ev_PartitionOffset primary, epi_Message := (''shadow append failed'', []),
                     epi_Err := Some err\<rparr>))
           | (Inr shadowEvent, t) \<Rightarrow>
               (Some (sh\<lparr>es_state := t\<rparr>),
                (case compareEventParity jc (Some primary) (Some shadowEvent) of
                   None \<Rightarrow> reporter | Some issue \<Rightarrow> recordEventParityIssue reporter issue))))"

definition Shadow_Append ::
  "'p json_codec \<Rightarrow> ctx \<Rightarrow> ('s, 't, 'p) shadow_event_store option \<Rightarrow> 'p event_append \<Rightarrow>
     (go_error + 'p event) \<times> ('s, 't, 'p) shadow_event_store option" where
  "Shadow_Append jc ctx s event =
     (case s of
        None \<Rightarrow> (Inl (Errorf ''shadow event store: nil primary'' []), None)
      | Some s \<Rightarrow>
          (case ses_primary s of
             None \<Rightarrow> (Inl (Errorf ''shadow event store: nil primary'' []), Some s)
           | Some pr \<Rightarrow>
               (case es_append pr ctx (es_state pr) event of
                  (Inl err, st) \<Rightarrow> (Inl err, Some (s\<lparr>ses_primary := Some (pr\<lparr>es_state := st\<rparr>)\<rparr>))
                | (Inr evt, st) \<Rightarrow>
                    let (sh, rp) = appendEventLogShadow jc ctx (ses_shadow s) (ses_reporter s) evt
                    in (Inr evt, Some (s\<lparr>ses_primary := Some (pr\<lparr>es_state := st\<rparr>), ses_shadow := sh, ses_reporter := rp\<rparr>)))))"

text \<open>Reads go to the primary.\<close>

definition shadow_primary :: "('s, 't, 'p) shadow_event_store option \<Rightarrow> (('s, 'p) event_store \<Rightarrow> go_error + 'a) \<Rightarrow> go_error + 'a" where
  "shadow_primary s read =
     (case s of None \<Rightarrow> Inl (Errorf ''shadow event store: nil primary'' [])
      | Some s \<Rightarrow> (case ses_primary s of None \<Rightarrow> Inl (Errorf ''shadow event store: nil primary'' []) | Some pr \<Rightarrow> read pr))"

definition Shadow_Head :: "ctx \<Rightarrow> ('s, 't, 'p) shadow_event_store option \<Rightarrow> go_error + int" where
  "Shadow_Head ctx s = shadow_primary s (\<lambda>pr. es_head pr ctx (es_state pr))"

definition Shadow_Replay ::
  "ctx \<Rightarrow> ('s, 't, 'p) shadow_event_store option \<Rightarrow> int \<Rightarrow> string list option \<Rightarrow> int \<Rightarrow> go_error + 'p event list" where
  "Shadow_Replay ctx s after scopes limit = shadow_primary s (\<lambda>pr. es_replay pr ctx (es_state pr) after scopes limit)"

definition Shadow_ReplayPartition ::
  "ctx \<Rightarrow> ('s, 't, 'p) shadow_event_store option \<Rightarrow> string \<Rightarrow> string \<Rightarrow> int \<Rightarrow> int \<Rightarrow> go_error + 'p event list" where
  "Shadow_ReplayPartition ctx s kind key afterOffset limit =
     shadow_primary s (\<lambda>pr. es_replayPartition pr ctx (es_state pr) kind key afterOffset limit)"

section \<open>Replay parity of one window\<close>

record replay_parity_result =
  rpr_Partition :: partition
  rpr_AfterOffset :: int
  rpr_Limit :: int
  rpr_PrimaryCount :: nat
  rpr_ShadowCount :: nat
  rpr_Compared :: nat
  rpr_LastPrimaryOffset :: int
  rpr_LastShadowOffset :: int
  rpr_Issues :: "event_parity_issue list"

definition report_issue :: "event_parity_issue \<Rightarrow> replay_parity_result \<times> parity_reporter \<Rightarrow> replay_parity_result \<times> parity_reporter" where
  "report_issue issue rr =
     ((fst rr)\<lparr>rpr_Issues := rpr_Issues (fst rr) @ [issue]\<rparr>, recordEventParityIssue (snd rr) issue)"

text \<open>The first loop: index the shadow events by offset and remember the largest offset.\<close>

definition index_shadow :: "'p event list \<Rightarrow> (int, 'p event) gomap" where
  "index_shadow es = fold (\<lambda>e m. gm_set (ev_PartitionOffset e) e m) es []"

definition max_offset :: "'p event list \<Rightarrow> int \<Rightarrow> int" where
  "max_offset es a = fold (\<lambda>e m. if ev_PartitionOffset e > m then ev_PartitionOffset e else m) es a"

text \<open>The second loop, over the primary events.\<close>

definition compare_one ::
  "'p json_codec \<Rightarrow> partition \<Rightarrow> (int, 'p event) gomap \<Rightarrow> replay_parity_result \<times> parity_reporter \<Rightarrow> 'p event \<Rightarrow>
     replay_parity_result \<times> parity_reporter" where
  "compare_one jc part byOffset rr e =
     (let (res, rp) = rr;
          res = (if ev_PartitionOffset e > rpr_LastPrimaryOffset res then res\<lparr>rpr_LastPrimaryOffset := ev_PartitionOffset e\<rparr> else res)
      in case map_of byOffset (ev_PartitionOffset e) of
           None \<Rightarrow>
             report_issue (no_issue\<lparr>epi_Kind := EventParityMismatch, epi_Event := ev_Kind e, epi_Partition := part,
                epi_PrimarySeq := ev_Seq e, epi_PrimaryOffset := ev_PartitionOffset e,
                epi_Message := (''shadow missing event at partition offset %d'', [Aint (ev_PartitionOffset e)])\<rparr>) (res, rp)
         | Some sh \<Rightarrow>
             (let res = res\<lparr>rpr_Compared := rpr_Compared res + 1\<rparr>
              in case compareEventParity jc (Some e) (Some sh) of
                   None \<Rightarrow> (res, rp)
                 | Some issue \<Rightarrow> report_issue issue (res, rp)))"

fun compare_primary ::
  "'p json_codec \<Rightarrow> partition \<Rightarrow> (int, 'p event) gomap \<Rightarrow> replay_parity_result \<times> parity_reporter \<Rightarrow> 'p event list \<Rightarrow>
     replay_parity_result \<times> parity_reporter" where
  "compare_primary jc part byOffset rr [] = rr"
| "compare_primary jc part byOffset rr (e # es) = compare_primary jc part byOffset (compare_one jc part byOffset rr e) es"

text \<open>The third loop, over the shadow events that the primary does not have.\<close>

fun report_extra ::
  "partition \<Rightarrow> int list \<Rightarrow> replay_parity_result \<times> parity_reporter \<Rightarrow> 'p event list \<Rightarrow> replay_parity_result \<times> parity_reporter" where
  "report_extra part seen rr [] = rr"
| "report_extra part seen rr (e # es) =
     (if ev_PartitionOffset e \<in> set seen then report_extra part seen rr es
      else report_extra part seen
        (report_issue (no_issue\<lparr>epi_Kind := EventParityMismatch, epi_Event := ev_Kind e, epi_Partition := part,
           epi_ShadowSeq := ev_Seq e, epi_ShadowOffset := ev_PartitionOffset e,
           epi_Message := (''shadow has extra event at partition offset %d'', [Aint (ev_PartitionOffset e)])\<rparr>) rr) es)"

definition CheckEventReplayParity ::
  "'p json_codec \<Rightarrow> ctx \<Rightarrow> ('s, 'p) event_store option \<Rightarrow> ('t, 'p) event_store option \<Rightarrow> partition \<Rightarrow> int \<Rightarrow> int \<Rightarrow>
     parity_reporter \<Rightarrow> (replay_parity_result \<times> go_error option) \<times> parity_reporter" where
  "CheckEventReplayParity jc ctx primary shadow part afterOffset limit reporter =
     (let part = Partition_Normalize part;
          res = \<lparr>rpr_Partition = part, rpr_AfterOffset = afterOffset, rpr_Limit = limit, rpr_PrimaryCount = 0, rpr_ShadowCount = 0,
                 rpr_Compared = 0, rpr_LastPrimaryOffset = 0, rpr_LastShadowOffset = 0, rpr_Issues = []\<rparr>
      in case (primary, shadow) of
           (None, _) \<Rightarrow> ((res, Some (Errorf ''event replay parity: nil primary'' [])), reporter)
         | (Some _, None) \<Rightarrow> ((res, Some (Errorf ''event replay parity: nil shadow'' [])), reporter)
         | (Some pr, Some sh) \<Rightarrow>
             (case es_replayPartition pr ctx (es_state pr) (pKind part) (pKey part) afterOffset limit of
                Inl err \<Rightarrow> ((res, Some (Wrapf ''event replay parity: primary replay: %w'' [] err)), reporter)
              | Inr primaryEvents \<Rightarrow>
                  (case es_replayPartition sh ctx (es_state sh) (pKind part) (pKey part) afterOffset limit of
                     Inl err \<Rightarrow>
                       (let (res, rp) = report_issue (no_issue\<lparr>epi_Kind := EventParityReplayError, epi_Partition := part,
                              epi_Message := (''shadow partition replay failed'', []), epi_Err := Some err\<rparr>)
                              (res\<lparr>rpr_PrimaryCount := length primaryEvents\<rparr>, reporter)
                        in ((res, None), rp))
                   | Inr shadowEvents \<Rightarrow>
                       let res = res\<lparr>rpr_PrimaryCount := length primaryEvents, rpr_ShadowCount := length shadowEvents,
                              rpr_LastShadowOffset := max_offset shadowEvents 0\<rparr>;
                           rr = compare_primary jc part (index_shadow shadowEvents) (res, reporter) primaryEvents;
                           (res, rp) = report_extra part (map ev_PartitionOffset primaryEvents) rr shadowEvents
                       in ((res, None), rp))))"

section \<open>Listing partitions\<close>

definition query_limit :: "int \<Rightarrow> int" where
  "query_limit limit = (if limit > 0 then wrap64 (limit + 1) else limit)"

fun dedup_partitions :: "partition list \<Rightarrow> partition list \<Rightarrow> partition list" where
  "dedup_partitions seen [] = []"
| "dedup_partitions seen (p # ps) =
     (let p = Partition_Normalize p
      in if p \<in> set seen then dedup_partitions seen ps else p # dedup_partitions (p # seen) ps)"

definition listEventPartitionsWithLimit :: "ctx \<Rightarrow> partition_lister option \<Rightarrow> int \<Rightarrow> go_error + partition list \<times> bool" where
  "listEventPartitionsWithLimit ctx lister limit =
     (case lister of
        None \<Rightarrow> Inl (Errorf ''nil event partition lister'' [])
      | Some list \<Rightarrow>
          (case list ctx (query_limit limit) of
             Inl e \<Rightarrow> Inl e
           | Inr ps \<Rightarrow>
               let limited = (limit > 0 \<and> int (length ps) > limit);
                   ps = (if limited then take (nat limit) ps else ps)
               in Inr (dedup_partitions [] ps, limited)))"

definition listEventPartitionOffsets ::
  "ctx \<Rightarrow> (ctx \<Rightarrow> int \<Rightarrow> go_error + event_partition_offset list) option \<Rightarrow> int \<Rightarrow> go_error + event_partition_offset list \<times> bool" where
  "listEventPartitionOffsets ctx lister limit =
     (case lister of
        None \<Rightarrow> Inl (Errorf ''nil event partition offset lister'' [])
      | Some list \<Rightarrow>
          (case list ctx (query_limit limit) of
             Inl e \<Rightarrow> Inl e
           | Inr offs \<Rightarrow>
               let limited = (limit > 0 \<and> int (length offs) > limit);
                   offs = (if limited then take (nat limit) offs else offs)
               in Inr (map EventPartitionOffset_Normalize offs, limited)))"

section \<open>Promotion readiness\<close>

record ('s, 't, 'p) readiness_config =
  rc_Primary :: "('s, 'p) event_store option"
  rc_Candidate :: "('t, 'p) event_store option"
  rc_PrimaryPartitions :: "partition_lister option"
  rc_CandidatePartitions :: "partition_lister option"
  rc_ReplayLimit :: int
  rc_PartitionLimit :: int

record readiness_report =
  rr_Ready :: bool
  rr_ReplayLimit :: int
  rr_PartitionLimit :: int
  rr_PartitionsChecked :: nat
  rr_WindowsChecked :: nat
  rr_Compared :: nat
  rr_Issues :: "event_parity_issue list"

definition eventPartitionListerFor :: "('s, 'p) event_store \<Rightarrow> partition_lister option \<Rightarrow> string \<Rightarrow> go_error + partition_lister" where
  "eventPartitionListerFor st override role =
     (case override of
        Some l \<Rightarrow> Inr l
      | None \<Rightarrow>
          (case store_lister st of
             None \<Rightarrow> Inl (Errorf ''event log promotion readiness: %s does not list event partitions'' [Astr role])
           | Some l \<Rightarrow> Inr l))"

definition limit_issue :: "string \<Rightarrow> int \<Rightarrow> event_parity_issue" where
  "limit_issue msg partitionLimit = no_issue\<lparr>epi_Kind := EventParityCoverage, epi_Message := (msg, [Aint partitionLimit])\<rparr>"

definition promotionReadinessPartitions ::
  "ctx \<Rightarrow> partition_lister option \<Rightarrow> partition_lister option \<Rightarrow> int \<Rightarrow> parity_reporter \<Rightarrow>
     (go_error + partition list \<times> event_parity_issue list) \<times> parity_reporter" where
  "promotionReadinessPartitions ctx primary candidate partitionLimit reporter =
     (case listEventPartitionsWithLimit ctx primary partitionLimit of
        Inl e \<Rightarrow> (Inl (Wrapf ''event log promotion readiness: list primary partitions: %w'' [] e), reporter)
      | Inr (primaryPartitions, primaryLimited) \<Rightarrow>
          (case listEventPartitionsWithLimit ctx candidate partitionLimit of
             Inl e \<Rightarrow> (Inl (Wrapf ''event log promotion readiness: list candidate partitions: %w'' [] e), reporter)
           | Inr (candidatePartitions, candidateLimited) \<Rightarrow>
               let issues =
                     (if primaryLimited then [limit_issue ''primary partition count exceeds promotion readiness limit %d'' partitionLimit] else []) @
                     (if candidateLimited then [limit_issue ''candidate partition count exceeds promotion readiness limit %d'' partitionLimit] else [])
               in (Inr (SortPartitions (dedup_partitions [] (primaryPartitions @ candidatePartitions)), issues),
                   foldl recordEventParityIssue reporter issues)))"

type_synonym ready_state = "readiness_report \<times> parity_reporter"

text \<open>
  The inner loop walks the windows of one partition. It has no bound of its own: not returning is the
  value \<open>None\<close>. An error of a replay ends the whole check.
\<close>

partial_function (option) readiness_windows ::
  "'p json_codec \<Rightarrow> ctx \<Rightarrow> ('s, 'p) event_store \<Rightarrow> ('t, 'p) event_store \<Rightarrow> partition \<Rightarrow> int \<Rightarrow> ready_state \<Rightarrow>
     (ready_state \<times> go_error option) option" where
  "readiness_windows jc ctx primary candidate part after st =
     (case CheckEventReplayParity jc ctx (Some primary) (Some candidate) part after (rr_ReplayLimit (fst st)) (snd st) of
        ((res, Some err), rp) \<Rightarrow> Some ((fst st, rp), Some err)
      | ((res, None), rp) \<Rightarrow>
          (let report = (fst st)\<lparr>rr_WindowsChecked := rr_WindowsChecked (fst st) + 1,
                 rr_Compared := rr_Compared (fst st) + rpr_Compared res, rr_Issues := rr_Issues (fst st) @ rpr_Issues res\<rparr>
           in if rpr_Issues res \<noteq> [] then Some ((report, rp), None)
              else if rpr_PrimaryCount res = 0 \<and> rpr_ShadowCount res = 0 then Some ((report, rp), None)
              else if rpr_LastPrimaryOffset res \<le> after then
                let issue = no_issue\<lparr>epi_Kind := EventParityCoverage, epi_Partition := part,
                      epi_Message := (''promotion readiness made no replay progress after partition offset %d'', [Aint after])\<rparr>
                in Some ((report\<lparr>rr_Issues := rr_Issues report @ [issue]\<rparr>, recordEventParityIssue rp issue), None)
              else readiness_windows jc ctx primary candidate part (rpr_LastPrimaryOffset res) (report, rp)))"

fun readiness_partitions ::
  "'p json_codec \<Rightarrow> ctx \<Rightarrow> ('s, 'p) event_store \<Rightarrow> ('t, 'p) event_store \<Rightarrow> partition list \<Rightarrow> ready_state \<Rightarrow>
     (ready_state \<times> go_error option) option" where
  "readiness_partitions jc ctx primary candidate [] st = Some (st, None)"
| "readiness_partitions jc ctx primary candidate (p # ps) st =
     (case ctx of
        Some e \<Rightarrow> Some (st, Some e)
      | None \<Rightarrow>
          (case readiness_windows jc ctx primary candidate p 0
                  ((fst st)\<lparr>rr_PartitionsChecked := rr_PartitionsChecked (fst st) + 1\<rparr>, snd st) of
             None \<Rightarrow> None
           | Some (st, Some err) \<Rightarrow> Some (st, Some err)
           | Some (st, None) \<Rightarrow> readiness_partitions jc ctx primary candidate ps st))"

definition zero_report :: readiness_report where
  "zero_report = \<lparr>rr_Ready = False, rr_ReplayLimit = 0, rr_PartitionLimit = 0, rr_PartitionsChecked = 0, rr_WindowsChecked = 0,
     rr_Compared = 0, rr_Issues = []\<rparr>"

definition CheckEventLogPromotionReadiness ::
  "'p json_codec \<Rightarrow> ctx \<Rightarrow> ('s, 't, 'p) readiness_config \<Rightarrow> parity_reporter \<Rightarrow> (ready_state \<times> go_error option) option" where
  "CheckEventLogPromotionReadiness jc ctx config reporter =
     (case ctx of
        Some e \<Rightarrow> Some ((zero_report, reporter), Some e)
      | None \<Rightarrow>
          let report = zero_report\<lparr>rr_ReplayLimit := (if rc_ReplayLimit config \<le> 0 then 100 else rc_ReplayLimit config),
                rr_PartitionLimit := rc_PartitionLimit config\<rparr>
          in case (rc_Primary config, rc_Candidate config) of
               (None, _) \<Rightarrow> Some ((report, reporter), Some (Errorf ''event log promotion readiness: nil primary'' []))
             | (Some _, None) \<Rightarrow> Some ((report, reporter), Some (Errorf ''event log promotion readiness: nil candidate'' []))
             | (Some pr, Some ca) \<Rightarrow>
                 (case eventPartitionListerFor pr (rc_PrimaryPartitions config) ''primary'' of
                    Inl e \<Rightarrow> Some ((report, reporter), Some e)
                  | Inr primaryPartitions \<Rightarrow>
                      (case eventPartitionListerFor ca (rc_CandidatePartitions config) ''candidate'' of
                         Inl e \<Rightarrow> Some ((report, reporter), Some e)
                       | Inr candidatePartitions \<Rightarrow>
                           (case promotionReadinessPartitions ctx (Some primaryPartitions) (Some candidatePartitions)
                                   (rr_PartitionLimit report) reporter of
                              (Inl e, rp) \<Rightarrow> Some ((report, rp), Some e)
                            | (Inr (ps, issues), rp) \<Rightarrow>
                                (case readiness_partitions jc ctx pr ca ps (report\<lparr>rr_Issues := rr_Issues report @ issues\<rparr>, rp) of
                                   None \<Rightarrow> None
                                 | Some (st, Some e) \<Rightarrow> Some (st, Some e)
                                 | Some ((report, rp), None) \<Rightarrow> Some ((report\<lparr>rr_Ready := (rr_Issues report = [])\<rparr>, rp), None))))))"

section \<open>The parity runner\<close>

record ('s, 't, 'p) parity_runner =
  pn_primary :: "('s, 'p) event_store option"
  pn_shadow :: "('t, 'p) event_store option"
  pn_partitions :: "partition_lister option"
  pn_replayLimit :: int
  pn_partitionLimit :: int
  pn_interval :: int
  pn_offsets :: "(partition, int) gomap"

text \<open>Durations are nanoseconds.\<close>

definition NewEventReplayParityRunner ::
  "('s, 'p) event_store option \<Rightarrow> ('t, 'p) event_store option \<Rightarrow> partition_lister option \<Rightarrow> int \<Rightarrow> int \<Rightarrow> int \<Rightarrow>
     ('s, 't, 'p) parity_runner" where
  "NewEventReplayParityRunner primary shadow partitions replayLimit partitionLimit interval =
     \<lparr>pn_primary = primary, pn_shadow = shadow,
      pn_partitions = (case partitions of Some l \<Rightarrow> Some l
        | None \<Rightarrow> (case primary of None \<Rightarrow> None | Some pr \<Rightarrow> store_lister pr)),
      pn_replayLimit = (if replayLimit \<le> 0 then 100 else replayLimit),
      pn_partitionLimit = (if partitionLimit \<le> 0 then 100 else partitionLimit),
      pn_interval = (if interval \<le> 0 then 30 * 1000000000 else interval),
      pn_offsets = []\<rparr>"

definition offsetFor :: "('s, 't, 'p) parity_runner \<Rightarrow> partition \<Rightarrow> int" where
  "offsetFor r p = gm_get 0 (pn_offsets r) (Partition_Normalize p)"

definition setOffset :: "('s, 't, 'p) parity_runner \<Rightarrow> partition \<Rightarrow> int \<Rightarrow> ('s, 't, 'p) parity_runner" where
  "setOffset r p offset =
     (if offset > gm_get 0 (pn_offsets r) (Partition_Normalize p)
      then r\<lparr>pn_offsets := gm_set (Partition_Normalize p) offset (pn_offsets r)\<rparr> else r)"

fun check_partitions ::
  "'p json_codec \<Rightarrow> ctx \<Rightarrow> ('s, 't, 'p) parity_runner \<Rightarrow> parity_reporter \<Rightarrow> replay_parity_result list \<Rightarrow> partition list \<Rightarrow>
     (replay_parity_result list \<times> go_error option) \<times> ('s, 't, 'p) parity_runner \<times> parity_reporter" where
  "check_partitions jc ctx r rp results [] = ((results, None), r, rp)"
| "check_partitions jc ctx r rp results (p # ps) =
     (let p = Partition_Normalize p; after = offsetFor r p
      in case CheckEventReplayParity jc ctx (pn_primary r) (pn_shadow r) p after (pn_replayLimit r) rp of
           ((res, Some err), rp) \<Rightarrow> ((results, Some err), r, rp)
         | ((res, None), rp) \<Rightarrow>
             let r = (if rpr_Issues res = [] \<and> rpr_LastPrimaryOffset res > after then setOffset r p (rpr_LastPrimaryOffset res) else r)
             in check_partitions jc ctx r rp (results @ [res]) ps)"

definition CheckOnce ::
  "'p json_codec \<Rightarrow> ctx \<Rightarrow> ('s, 't, 'p) parity_runner \<Rightarrow> parity_reporter \<Rightarrow>
     (replay_parity_result list \<times> go_error option) \<times> ('s, 't, 'p) parity_runner \<times> parity_reporter" where
  "CheckOnce jc ctx r rp =
     (case (pn_primary r, pn_shadow r, pn_partitions r) of
        (None, _, _) \<Rightarrow> (([], Some (Errorf ''event replay parity runner: nil primary'' [])), r, rp)
      | (Some _, None, _) \<Rightarrow> (([], Some (Errorf ''event replay parity runner: nil shadow'' [])), r, rp)
      | (Some _, Some _, None) \<Rightarrow> (([], Some (Errorf ''event replay parity runner: nil partition lister'' [])), r, rp)
      | (Some _, Some _, Some l) \<Rightarrow>
          (case listEventPartitionsWithLimit ctx (Some l) (pn_partitionLimit r) of
             Inl e \<Rightarrow> (([], Some e), r, rp)
           | Inr (ps, _) \<Rightarrow> check_partitions jc ctx r rp [] ps))"

section \<open>Lemmas\<close>

subsection \<open>Comparing events\<close>

text \<open>What the comparison means: equal in everything but the id, the timestamp and the order of the scopes.\<close>

definition same_event :: "'p json_codec \<Rightarrow> 'p event \<Rightarrow> 'p event \<Rightarrow> bool" where
  "same_event jc p s \<longleftrightarrow> ev_Kind p = ev_Kind s \<and> ev_PartitionKind p = ev_PartitionKind s \<and> ev_PartitionKey p = ev_PartitionKey s \<and>
     ev_PartitionOffset p = ev_PartitionOffset s \<and> ev_Seq p = ev_Seq s \<and> mset (ev_Scopes p) = mset (ev_Scopes s) \<and>
     samePayload jc (ev_Payload p) (ev_Payload s)"

lemma sameScopes_mset: "sameScopes a b \<longleftrightarrow> mset a = mset b"
proof
  assume "sameScopes a b"
  then have "sort a = sort b" by (simp add: sameScopes_def split: if_splits)
  then show "mset a = mset b" by (metis mset_sort)
next
  assume "mset a = mset b"
  then show "sameScopes a b"
    unfolding sameScopes_def by (metis mset_eq_length properties_for_sort sorted_sort mset_sort)
qed

lemma compareEventParity_iff: "compareEventParity jc (Some p) (Some s) = None \<longleftrightarrow> same_event jc p s"
  by (auto simp: compareEventParity_def same_event_def sameScopes_mset Let_def split: if_splits)

lemma same_event_offset: "same_event jc p s \<Longrightarrow> ev_PartitionOffset p = ev_PartitionOffset s"
  by (simp add: same_event_def)

subsection \<open>The loops of the parity check\<close>

lemma report_issue_sel [simp]:
  "rpr_Issues (fst (report_issue i rr)) \<noteq> []" "rpr_LastPrimaryOffset (fst (report_issue i rr)) = rpr_LastPrimaryOffset (fst rr)"
  "rpr_PrimaryCount (fst (report_issue i rr)) = rpr_PrimaryCount (fst rr)"
  "rpr_ShadowCount (fst (report_issue i rr)) = rpr_ShadowCount (fst rr)"
  by (simp_all add: report_issue_def)

lemma compare_one_props:
  "(rpr_Issues (fst (compare_one jc part m rr e)) = [] \<longleftrightarrow>
     rpr_Issues (fst rr) = [] \<and> (\<exists>sh. map_of m (ev_PartitionOffset e) = Some sh \<and> same_event jc e sh)) \<and>
   rpr_LastPrimaryOffset (fst (compare_one jc part m rr e)) = max_offset [e] (rpr_LastPrimaryOffset (fst rr)) \<and>
   rpr_PrimaryCount (fst (compare_one jc part m rr e)) = rpr_PrimaryCount (fst rr) \<and>
   rpr_ShadowCount (fst (compare_one jc part m rr e)) = rpr_ShadowCount (fst rr)"
  by (cases rr)
    (auto simp: compare_one_def max_offset_def Let_def simp flip: compareEventParity_iff split: option.splits)

lemma compare_primary_props:
  "(rpr_Issues (fst (compare_primary jc part m rr es)) = [] \<longleftrightarrow>
     rpr_Issues (fst rr) = [] \<and> (\<forall>e \<in> set es. \<exists>sh. map_of m (ev_PartitionOffset e) = Some sh \<and> same_event jc e sh)) \<and>
   rpr_LastPrimaryOffset (fst (compare_primary jc part m rr es)) = max_offset es (rpr_LastPrimaryOffset (fst rr)) \<and>
   rpr_PrimaryCount (fst (compare_primary jc part m rr es)) = rpr_PrimaryCount (fst rr) \<and>
   rpr_ShadowCount (fst (compare_primary jc part m rr es)) = rpr_ShadowCount (fst rr)"
proof (induction es arbitrary: rr)
  case (Cons e es)
  note one = compare_one_props[of jc part m rr e]
  show ?case using Cons[of "compare_one jc part m rr e"] one by (auto simp: max_offset_def)
qed (simp add: max_offset_def)

lemma report_extra_props:
  "(rpr_Issues (fst (report_extra part seen rr es)) = [] \<longleftrightarrow>
     rpr_Issues (fst rr) = [] \<and> ev_PartitionOffset ` set es \<subseteq> set seen) \<and>
   rpr_LastPrimaryOffset (fst (report_extra part seen rr es)) = rpr_LastPrimaryOffset (fst rr) \<and>
   rpr_PrimaryCount (fst (report_extra part seen rr es)) = rpr_PrimaryCount (fst rr) \<and>
   rpr_ShadowCount (fst (report_extra part seen rr es)) = rpr_ShadowCount (fst rr)"
  by (induction part seen rr es rule: report_extra.induct) auto

lemma index_shadow_lookup:
  assumes "distinct (map ev_PartitionOffset es)"
  shows "map_of (index_shadow es) n = Some e \<longleftrightarrow> e \<in> set es \<and> ev_PartitionOffset e = n"
proof -
  have "distinct (map ev_PartitionOffset es) \<Longrightarrow>
      map_of (fold (\<lambda>e m. gm_set (ev_PartitionOffset e) e m) es m) n = Some e \<longleftrightarrow>
      e \<in> set es \<and> ev_PartitionOffset e = n \<or> n \<notin> ev_PartitionOffset ` set es \<and> map_of m n = Some e" for m
    by (induction es arbitrary: m) (auto simp: image_iff)
  from this[of "[]"] show ?thesis using assms by (simp add: index_shadow_def)
qed

subsection \<open>A clean window\<close>

text \<open>The outcome of the check on two successful replays.\<close>

lemma window_check:
  assumes "es_replayPartition pr None (es_state pr) (pKind (Partition_Normalize p)) (pKey (Partition_Normalize p)) a n = Inr es"
    and "es_replayPartition sh None (es_state sh) (pKind (Partition_Normalize p)) (pKey (Partition_Normalize p)) a n = Inr fs"
    and "distinct (map ev_PartitionOffset fs)"
  obtains res rp where
    "CheckEventReplayParity jc None (Some pr) (Some sh) p a n reporter = ((res, None), rp)"
    "rpr_PrimaryCount res = length es" "rpr_ShadowCount res = length fs" "rpr_LastPrimaryOffset res = max_offset es 0"
    "rpr_Issues res = [] \<longleftrightarrow> (\<forall>e \<in> set es. \<exists>f \<in> set fs. same_event jc e f) \<and> ev_PartitionOffset ` set fs \<subseteq> ev_PartitionOffset ` set es"
proof -
  let ?p = "Partition_Normalize p"
  let ?r = "\<lparr>rpr_Partition = ?p, rpr_AfterOffset = a, rpr_Limit = n, rpr_PrimaryCount = length es, rpr_ShadowCount = length fs,
      rpr_Compared = 0, rpr_LastPrimaryOffset = 0, rpr_LastShadowOffset = max_offset fs 0, rpr_Issues = []\<rparr>"
  let ?c = "compare_primary jc ?p (index_shadow fs) (?r, reporter) es"
  let ?x = "report_extra ?p (map ev_PartitionOffset es) ?c fs"
  have check: "CheckEventReplayParity jc None (Some pr) (Some sh) p a n reporter = ((fst ?x, None), snd ?x)"
    using assms(1, 2) by (simp add: CheckEventReplayParity_def Let_def case_prod_beta)
  have "(\<exists>f. map_of (index_shadow fs) (ev_PartitionOffset e) = Some f \<and> same_event jc e f) \<longleftrightarrow> (\<exists>f \<in> set fs. same_event jc e f)" for e
    using index_shadow_lookup[OF assms(3)] same_event_offset by metis
  then show thesis
    using that[OF check] report_extra_props[of ?p "map ev_PartitionOffset es" ?c fs]
      compare_primary_props[of jc ?p "index_shadow fs" "(?r, reporter)" es] by simp
qed

lemma offsets_determine:
  assumes "sorted_wrt (<) (map ev_PartitionOffset es)" "sorted_wrt (<) (map ev_PartitionOffset fs)"
  shows "(\<forall>e \<in> set es. \<exists>f \<in> set fs. same_event jc e f) \<and> ev_PartitionOffset ` set fs \<subseteq> ev_PartitionOffset ` set es \<longleftrightarrow>
    list_all2 (same_event jc) es fs"
proof
  assume A: "(\<forall>e \<in> set es. \<exists>f \<in> set fs. same_event jc e f) \<and> ev_PartitionOffset ` set fs \<subseteq> ev_PartitionOffset ` set es"
  then have "ev_PartitionOffset ` set es \<subseteq> ev_PartitionOffset ` set fs"
    using same_event_offset by fastforce
  with A have sets: "set (map ev_PartitionOffset es) = set (map ev_PartitionOffset fs)" by auto
  have eq: "map ev_PartitionOffset es = map ev_PartitionOffset fs"
    using assms sets by (intro sorted_distinct_set_unique) (simp_all add: strict_sorted_iff)
  have inj: "f = g" if "f \<in> set fs" "g \<in> set fs" "ev_PartitionOffset f = ev_PartitionOffset g" for f g
    using assms(2) that by (auto simp: strict_sorted_iff distinct_map inj_on_def)
  show "list_all2 (same_event jc) es fs"
  proof (rule list_all2_all_nthI)
    show len: "length es = length fs" using eq map_eq_imp_length_eq by blast
    fix i assume i: "i < length es"
    then obtain f where f: "f \<in> set fs" "same_event jc (es ! i) f" using A nth_mem[OF i] by blast
    have "ev_PartitionOffset (es ! i) = ev_PartitionOffset (fs ! i)" using eq i len by (metis nth_map)
    then have "f = fs ! i" using inj[OF f(1)] i len f(2) same_event_offset by (metis nth_mem)
    then show "same_event jc (es ! i) (fs ! i)" using f(2) by simp
  qed
next
  assume A: "list_all2 (same_event jc) es fs"
  then have "map ev_PartitionOffset es = map ev_PartitionOffset fs"
    using same_event_offset by (induction rule: list_all2_induct) auto
  then have "ev_PartitionOffset ` set es = ev_PartitionOffset ` set fs" by (metis list.set_map)
  moreover have "\<forall>e \<in> set es. \<exists>f \<in> set fs. same_event jc e f"
    using A by (induction rule: list_all2_induct) auto
  ultimately show "(\<forall>e \<in> set es. \<exists>f \<in> set fs. same_event jc e f) \<and> ev_PartitionOffset ` set fs \<subseteq> ev_PartitionOffset ` set es"
    by simp
qed

lemma max_offset_last:
  "sorted_wrt (<) (map ev_PartitionOffset es) \<Longrightarrow> (\<And>e. e \<in> set es \<Longrightarrow> a \<le> ev_PartitionOffset e) \<Longrightarrow>
   max_offset es a = last_offset a es"
proof (induction es arbitrary: a)
  case (Cons e es)
  have "max_offset (e # es) a = max_offset es (ev_PartitionOffset e)"
    using Cons.prems(2)[of e] by (simp add: max_offset_def)
  also have "\<dots> = last_offset (ev_PartitionOffset e) es"
    using Cons.prems(1) by (intro Cons.IH) (auto simp: less_imp_le)
  also have "\<dots> = last_offset a (e # es)" by (simp add: last_offset_def)
  finally show ?case .
qed (simp add: max_offset_def last_offset_def)

lemma last_offset_same: "list_all2 (same_event jc) es fs \<Longrightarrow> last_offset a fs = last_offset a es"
proof (induction es fs arbitrary: a rule: list_all2_induct)
  case (Cons e es f fs)
  have "last_offset a (f # fs) = last_offset (ev_PartitionOffset f) fs" by (simp add: last_offset_def)
  also have "\<dots> = last_offset (ev_PartitionOffset e) es" using Cons same_event_offset by metis
  also have "\<dots> = last_offset a (e # es)" by (simp add: last_offset_def)
  finally show ?case .
qed (simp add: last_offset_def)

section \<open>Promotion of one log by another\<close>

text \<open>
  The readiness check over two event logs: primary and candidate may be any stores that replay without errors and
  keep the contract of an event log.
\<close>

locale promotion = primary: event_log pvalid preplay + candidate: event_log cvalid creplay
  for pvalid :: "'s \<Rightarrow> bool" and preplay :: "'s \<Rightarrow> string \<Rightarrow> string \<Rightarrow> int \<Rightarrow> int \<Rightarrow> 'p event list"
    and cvalid :: "'t \<Rightarrow> bool" and creplay :: "'t \<Rightarrow> string \<Rightarrow> string \<Rightarrow> int \<Rightarrow> int \<Rightarrow> 'p event list" +
  fixes pr :: "('s, 'p) event_store" and ca :: "('t, 'p) event_store"
  assumes primary_replay: "es_replayPartition pr None (es_state pr) k y a n = Inr (preplay (es_state pr) k y a n)"
    and candidate_replay: "es_replayPartition ca None (es_state ca) k y a n = Inr (creplay (es_state ca) k y a n)"
begin

text \<open>The two logs hold the same events of a partition from an offset on.\<close>

definition agree :: "'p json_codec \<Rightarrow> partition \<Rightarrow> int \<Rightarrow> bool" where
  "agree jc p a \<longleftrightarrow> list_all2 (same_event jc) (preplay (es_state pr) (pKind p) (pKey p) a 0) (creplay (es_state ca) (pKind p) (pKey p) a 0)"

lemma window:
  fixes p :: partition and a n :: int
  defines "es \<equiv> preplay (es_state pr) (pKind (Partition_Normalize p)) (pKey (Partition_Normalize p)) a n"
  defines "fs \<equiv> creplay (es_state ca) (pKind (Partition_Normalize p)) (pKey (Partition_Normalize p)) a n"
  assumes primary_valid: "pvalid (es_state pr)" and candidate_valid: "cvalid (es_state ca)" and a: "0 \<le> a"
  obtains res rp where
    "CheckEventReplayParity jc None (Some pr) (Some ca) p a n reporter = ((res, None), rp)"
    "rpr_PrimaryCount res = length es" "rpr_ShadowCount res = length fs"
    "rpr_LastPrimaryOffset res = last_offset 0 es" "rpr_Issues res = [] \<longleftrightarrow> list_all2 (same_event jc) es fs"
proof -
  have es: "sorted_wrt (<) (map ev_PartitionOffset es)" and fs: "sorted_wrt (<) (map ev_PartitionOffset fs)"
    unfolding es_def fs_def by (rule primary.increasing[OF primary_valid], rule candidate.increasing[OF candidate_valid])
  have "0 \<le> ev_PartitionOffset e" if "e \<in> set es" for e
    using primary.replayed[OF primary_valid that[unfolded es_def]] a by simp
  then have last: "max_offset es 0 = last_offset 0 es" using es by (intro max_offset_last)
  have "distinct (map ev_PartitionOffset fs)" using fs by (simp add: strict_sorted_iff)
  from window_check[OF primary_replay candidate_replay this[unfolded fs_def], of jc reporter]
  show thesis using that es fs last offsets_determine[OF es fs, of jc] unfolding es_def fs_def by metis
qed

text \<open>Every walk over the windows of a partition ends, and it is clean only when the logs agree.\<close>

lemma windows_sound:
  assumes primary_valid: "pvalid (es_state pr)" and candidate_valid: "cvalid (es_state ca)"
  shows "0 \<le> a \<Longrightarrow> \<exists>st'. readiness_windows jc None pr ca p a st = Some (st', None) \<and>
     (rr_Issues (fst st') = [] \<longrightarrow> rr_Issues (fst st) = [] \<and> agree jc (Partition_Normalize p) a)"
proof (induction "length (preplay (es_state pr) (pKind (Partition_Normalize p)) (pKey (Partition_Normalize p)) a 0)"
    arbitrary: a st rule: less_induct)
  case less
  let ?k = "pKind (Partition_Normalize p)" and ?y = "pKey (Partition_Normalize p)" and ?n = "rr_ReplayLimit (fst st)"
  define es where "es = preplay (es_state pr) ?k ?y a ?n"
  define fs where "fs = creplay (es_state ca) ?k ?y a ?n"
  obtain res rp where check: "CheckEventReplayParity jc None (Some pr) (Some ca) p a ?n (snd st) = ((res, None), rp)"
    and counts: "rpr_PrimaryCount res = length es" "rpr_ShadowCount res = length fs"
    and last: "rpr_LastPrimaryOffset res = last_offset 0 es"
    and clean: "rpr_Issues res = [] \<longleftrightarrow> list_all2 (same_event jc) es fs"
    using window[where p = p and n = ?n and jc = jc and reporter = "snd st", OF primary_valid candidate_valid less.prems] unfolding es_def fs_def by metis
  note unfold = readiness_windows.simps[of jc None pr ca p a st, unfolded check]
  show ?case
  proof (cases "rpr_Issues res = [] \<and> es \<noteq> []")
    case False
    show ?thesis
    proof (cases "rpr_Issues res = []")
      case True
      then have empty: "es = []" "fs = []" using False clean by auto
      then have "agree jc (Partition_Normalize p) a"
        using primary.progress[OF primary_valid] candidate.progress[OF candidate_valid]
        unfolding agree_def es_def fs_def by simp
      then show ?thesis using True empty counts by (simp add: unfold Let_def)
    qed (simp add: unfold Let_def)
  next
    case True
    then have pair: "list_all2 (same_event jc) es fs" using clean by simp
    then have fs: "fs \<noteq> []" using True by auto
    have last_a: "last_offset 0 es = last_offset a es" using True by (simp add: last_offset_def)
    have adv: "a < last_offset a es"
      unfolding es_def using True by (intro primary.last_offset_advances[OF primary_valid]) (simp add: es_def)
    have same_last: "last_offset a fs = last_offset a es" using pair by (rule last_offset_same)
    let ?st = "((fst st)\<lparr>rr_WindowsChecked := rr_WindowsChecked (fst st) + 1, rr_Compared := rr_Compared (fst st) + rpr_Compared res,
        rr_Issues := rr_Issues (fst st) @ rpr_Issues res\<rparr>, rp)"
    have rec: "readiness_windows jc None pr ca p a st = readiness_windows jc None pr ca p (last_offset a es) ?st"
      using True counts last last_a adv by (simp add: unfold Let_def)
    have "length (preplay (es_state pr) ?k ?y (last_offset a es) 0) < length (preplay (es_state pr) ?k ?y a 0)"
      unfolding es_def using True by (intro primary.remaining_decreases[OF primary_valid]) (simp add: es_def)
    then obtain st' where st': "readiness_windows jc None pr ca p (last_offset a es) ?st = Some (st', None)"
      "rr_Issues (fst st') = [] \<longrightarrow> rr_Issues (fst st) = [] \<and> agree jc (Partition_Normalize p) (last_offset a es)"
      using less.hyps[of "last_offset a es" ?st] adv less.prems by auto
    have "agree jc (Partition_Normalize p) a" if "agree jc (Partition_Normalize p) (last_offset a es)"
      unfolding agree_def primary.resume[OF primary_valid, of ?k ?y a ?n] candidate.resume[OF candidate_valid, of ?k ?y a ?n]
      using that pair same_last unfolding agree_def es_def[symmetric] fs_def[symmetric] by (simp add: list_all2_appendI)
    then show ?thesis using rec st' by auto
  qed
qed

lemma partitions_sound:
  assumes primary_valid: "pvalid (es_state pr)" and candidate_valid: "cvalid (es_state ca)"
  shows "\<exists>st'. readiness_partitions jc None pr ca ps st = Some (st', None) \<and>
     (rr_Issues (fst st') = [] \<longrightarrow> rr_Issues (fst st) = [] \<and> (\<forall>p \<in> set ps. agree jc (Partition_Normalize p) 0))"
proof (induction ps arbitrary: st)
  case (Cons p ps)
  let ?st = "((fst st)\<lparr>rr_PartitionsChecked := rr_PartitionsChecked (fst st) + 1\<rparr>, snd st)"
  obtain st1 where st1: "readiness_windows jc None pr ca p 0 ?st = Some (st1, None)"
    "rr_Issues (fst st1) = [] \<longrightarrow> rr_Issues (fst st) = [] \<and> agree jc (Partition_Normalize p) 0"
    using windows_sound[OF primary_valid candidate_valid, of 0 jc p ?st] by auto
  with Cons[of st1] show ?case by auto
qed simp

end

text \<open>With full pages, logs that agree are never reported.\<close>

locale paged_promotion = promotion pvalid preplay cvalid creplay pr ca +
    primary: paged_event_log pvalid preplay + candidate: paged_event_log cvalid creplay
  for pvalid :: "'s \<Rightarrow> bool" and preplay :: "'s \<Rightarrow> string \<Rightarrow> string \<Rightarrow> int \<Rightarrow> int \<Rightarrow> 'p event list"
    and cvalid :: "'t \<Rightarrow> bool" and creplay :: "'t \<Rightarrow> string \<Rightarrow> string \<Rightarrow> int \<Rightarrow> int \<Rightarrow> 'p event list"
    and pr :: "('s, 'p) event_store" and ca :: "('t, 'p) event_store"
begin

lemma agree_page:
  assumes primary_valid: "pvalid (es_state pr)" and candidate_valid: "cvalid (es_state ca)" and "agree jc p a"
  shows "list_all2 (same_event jc) (preplay (es_state pr) (pKind p) (pKey p) a n) (creplay (es_state ca) (pKind p) (pKey p) a n)"
proof -
  have "length (preplay (es_state pr) (pKind p) (pKey p) a 0) = length (creplay (es_state ca) (pKind p) (pKey p) a 0)"
    using assms(3) by (auto simp: agree_def dest: list_all2_lengthD)
  then show ?thesis
    using assms(3) unfolding agree_def primary.page[OF primary_valid, of _ _ a n] candidate.page[OF candidate_valid, of _ _ a n]
    by (auto simp: limit_slice_def list_all2_takeI)
qed

lemma agree_rest:
  assumes primary_valid: "pvalid (es_state pr)" and candidate_valid: "cvalid (es_state ca)" and "agree jc p a"
  shows "agree jc p (last_offset a (preplay (es_state pr) (pKind p) (pKey p) a n))"
proof -
  let ?es = "preplay (es_state pr) (pKind p) (pKey p) a n" and ?fs = "creplay (es_state ca) (pKind p) (pKey p) a n"
  have pair: "list_all2 (same_event jc) ?es ?fs" using assms by (rule agree_page)
  then have len: "length ?es = length ?fs" by (rule list_all2_lengthD)
  have "last_offset a ?fs = last_offset a ?es" using pair by (rule last_offset_same)
  moreover have "list_all2 (same_event jc) (?es @ preplay (es_state pr) (pKind p) (pKey p) (last_offset a ?es) 0)
      (?fs @ creplay (es_state ca) (pKind p) (pKey p) (last_offset a ?fs) 0)"
    using assms(3) unfolding agree_def
    by (simp only: primary.resume[OF primary_valid, of "pKind p" "pKey p" a n, symmetric]
        candidate.resume[OF candidate_valid, of "pKind p" "pKey p" a n, symmetric])
  ultimately show ?thesis
    using len unfolding agree_def by (simp add: list_all2_append)
qed

lemma windows_complete:
  assumes primary_valid: "pvalid (es_state pr)" and candidate_valid: "cvalid (es_state ca)"
  shows "0 \<le> a \<Longrightarrow> agree jc (Partition_Normalize p) a \<Longrightarrow>
   \<exists>st'. readiness_windows jc None pr ca p a st = Some (st', None) \<and> rr_Issues (fst st') = rr_Issues (fst st)"
proof (induction "length (preplay (es_state pr) (pKind (Partition_Normalize p)) (pKey (Partition_Normalize p)) a 0)"
    arbitrary: a st rule: less_induct)
  case less
  let ?k = "pKind (Partition_Normalize p)" and ?y = "pKey (Partition_Normalize p)" and ?n = "rr_ReplayLimit (fst st)"
  define es where "es = preplay (es_state pr) ?k ?y a ?n"
  define fs where "fs = creplay (es_state ca) ?k ?y a ?n"
  obtain res rp where check: "CheckEventReplayParity jc None (Some pr) (Some ca) p a ?n (snd st) = ((res, None), rp)"
    and counts: "rpr_PrimaryCount res = length es" "rpr_ShadowCount res = length fs"
    and last: "rpr_LastPrimaryOffset res = last_offset 0 es"
    and clean: "rpr_Issues res = [] \<longleftrightarrow> list_all2 (same_event jc) es fs"
    using window[where p = p and n = ?n and jc = jc and reporter = "snd st", OF primary_valid candidate_valid less.prems(1)] unfolding es_def fs_def by metis
  note unfold = readiness_windows.simps[of jc None pr ca p a st, unfolded check]
  have pair: "list_all2 (same_event jc) es fs" unfolding es_def fs_def by (rule agree_page[OF primary_valid candidate_valid less.prems(2)])
  then have issues: "rpr_Issues res = []" and len: "length es = length fs" using clean by (auto dest: list_all2_lengthD)
  show ?case
  proof (cases "es = []")
    case True
    then show ?thesis using issues len counts by (simp add: unfold Let_def)
  next
    case False
    have last_a: "last_offset 0 es = last_offset a es" using False by (simp add: last_offset_def)
    have adv: "a < last_offset a es"
      unfolding es_def using False by (intro primary.last_offset_advances[OF primary_valid]) (simp add: es_def)
    have "length (preplay (es_state pr) ?k ?y (last_offset a es) 0) < length (preplay (es_state pr) ?k ?y a 0)"
      unfolding es_def using False by (intro primary.remaining_decreases[OF primary_valid]) (simp add: es_def)
    moreover have "agree jc (Partition_Normalize p) (last_offset a es)"
      unfolding es_def by (rule agree_rest[OF primary_valid candidate_valid less.prems(2)])
    ultimately have IH: "\<exists>st'. readiness_windows jc None pr ca p (last_offset a es) st1 = Some (st', None) \<and>
        rr_Issues (fst st') = rr_Issues (fst st1)" for st1
      using less.hyps[of "last_offset a es" st1] adv less.prems(1) by simp
    let ?st = "((fst st)\<lparr>rr_WindowsChecked := rr_WindowsChecked (fst st) + 1, rr_Compared := rr_Compared (fst st) + rpr_Compared res,
        rr_Issues := rr_Issues (fst st) @ rpr_Issues res\<rparr>, rp)"
    have "readiness_windows jc None pr ca p a st = readiness_windows jc None pr ca p (last_offset a es) ?st"
      using False issues counts last last_a adv by (simp add: unfold Let_def)
    with IH[of ?st] issues show ?thesis by simp
  qed
qed

lemma partitions_complete:
  assumes primary_valid: "pvalid (es_state pr)" and candidate_valid: "cvalid (es_state ca)"
  shows "\<forall>p \<in> set ps. agree jc (Partition_Normalize p) 0 \<Longrightarrow>
   \<exists>st'. readiness_partitions jc None pr ca ps st = Some (st', None) \<and> rr_Issues (fst st') = rr_Issues (fst st)"
proof (induction ps arbitrary: st)
  case (Cons p ps)
  let ?st = "((fst st)\<lparr>rr_PartitionsChecked := rr_PartitionsChecked (fst st) + 1\<rparr>, snd st)"
  obtain st1 where "readiness_windows jc None pr ca p 0 ?st = Some (st1, None)" "rr_Issues (fst st1) = rr_Issues (fst st)"
    using windows_complete[OF primary_valid candidate_valid, of 0 jc p ?st] Cons.prems by auto
  with Cons.IH[of st1] Cons.prems show ?case by auto
qed simp

lemma partitions_iff:
  assumes primary_valid: "pvalid (es_state pr)" and candidate_valid: "cvalid (es_state ca)"
  obtains st' where "readiness_partitions jc None pr ca ps st = Some (st', None)"
    "rr_Issues (fst st') = [] \<longleftrightarrow> rr_Issues (fst st) = [] \<and> (\<forall>p \<in> set ps. agree jc (Partition_Normalize p) 0)"
  using partitions_sound[OF primary_valid candidate_valid, of jc ps st]
    partitions_complete[OF primary_valid candidate_valid, of ps jc st] by (metis option.inject prod.inject)

end

section \<open>In-memory stores behind the interface\<close>

definition memory_store :: "'p json_codec \<Rightarrow> int \<Rightarrow> string \<Rightarrow> 'p memory_event_store \<Rightarrow> ('p memory_event_store option, 'p) event_store" where
  "memory_store jc now fresh s =
     \<lparr>es_state = Some s, es_append = MemoryEventStore_Append jc now fresh, es_head = MemoryEventStore_Head,
      es_replay = MemoryEventStore_Replay jc, es_replayPartition = MemoryEventStore_ReplayPartition jc,
      es_lister = Some MemoryEventStore_ListEventPartitions\<rparr>"

definition store_ok :: "'p json_codec \<Rightarrow> 'p memory_event_store option \<Rightarrow> bool" where
  "store_ok jc s = (case s of None \<Rightarrow> False | Some s \<Rightarrow> event_store_ok jc s)"

definition replay_of :: "'p json_codec \<Rightarrow> 'p memory_event_store option \<Rightarrow> string \<Rightarrow> string \<Rightarrow> int \<Rightarrow> int \<Rightarrow> 'p event list" where
  "replay_of jc s k y a n = (case s of None \<Rightarrow> [] | Some s \<Rightarrow> mes_replayPartition jc s k y a n)"

interpretation memory_pointer: paged_event_log "store_ok jc" "replay_of jc" for jc :: "'p json_codec"
  by unfold_locales
    (auto simp: store_ok_def replay_of_def memory_events.replayed memory_events.increasing
      intro: memory_events.resume memory_events.progress memory_events.page split: option.splits)

interpretation memory_promotion: paged_promotion "store_ok jc" "replay_of jc" "store_ok jc" "replay_of jc"
    "memory_store jc now fresh s" "memory_store jc now' fresh' t"
  for jc :: "'p json_codec" and now fresh s now' fresh' t
  by unfold_locales (simp_all add: memory_store_def MemoryEventStore_ReplayPartition_def replay_of_def)

subsection \<open>The partitions that are walked\<close>

lemma set_dedup: "set (dedup_partitions seen ps) = Partition_Normalize ` set ps - set seen"
  by (induction seen ps rule: dedup_partitions.induct) (auto simp: Let_def)

lemma distinct_dedup: "distinct (dedup_partitions seen ps)"
  by (induction seen ps rule: dedup_partitions.induct) (auto simp: Let_def set_dedup)

lemma listPartitions_slice: "mes_listPartitions s n = limit_slice n (mes_listPartitions s 0)"
  by (simp add: mes_listPartitions_def EventPartitionsByLastOffset_def Let_def limit_slice_none)

lemma set_listPartitions: "set (mes_listPartitions s 0) = Partition_Normalize ` fst ` set (mes_offsets s)"
  by (auto simp: mes_listPartitions_def EventPartitionsByLastOffset_def Let_def limit_slice_none max_tails_keys image_iff
      case_prod_beta) force+

definition memory_lister :: "'p memory_event_store \<Rightarrow> partition_lister" where
  "memory_lister s = (\<lambda>ctx limit. MemoryEventStore_ListEventPartitions ctx (Some s) limit)"

lemma store_lister_memory [simp]: "store_lister (memory_store jc now fresh s) = Some (memory_lister s)"
  by (simp add: store_lister_def memory_store_def memory_lister_def)

lemma listed_partitions:
  assumes "limit \<le> maxInt64"
  obtains ps limited where "listEventPartitionsWithLimit None (Some (memory_lister s)) limit = Inr (ps, limited)"
    "limited \<or> set ps = Partition_Normalize ` fst ` set (mes_offsets s)" "limit \<le> 0 \<longrightarrow> \<not> limited"
proof -
  let ?full = "mes_listPartitions s 0"
  let ?qs = "limit_slice (query_limit limit) ?full"
  let ?limited = "limit > 0 \<and> int (length ?qs) > limit"
  have list: "listEventPartitionsWithLimit None (Some (memory_lister s)) limit =
      Inr (dedup_partitions [] (if ?limited then take (nat limit) ?qs else ?qs), ?limited)"
    using listPartitions_slice[of s "query_limit limit"]
    by (simp add: listEventPartitionsWithLimit_def memory_lister_def MemoryEventStore_ListEventPartitions_def Let_def)
  have "?qs = ?full" if "\<not> ?limited"
  proof (cases "0 < query_limit limit \<and> limit > 0")
    case True
    then have "limit \<noteq> maxInt64" by (auto simp: query_limit_def wrap64_max)
    then have "query_limit limit = limit + 1" using True assms by (simp add: query_limit_def wrap64_Suc)
    then show ?thesis using that True by (auto simp: limit_slice_def)
  qed (auto simp: limit_slice_def query_limit_def)
  then have "set (dedup_partitions [] ?qs) = Partition_Normalize ` fst ` set (mes_offsets s)" if "\<not> ?limited"
    using that by (simp add: set_dedup set_listPartitions image_image)
  then show thesis using that[OF list] by auto
qed

section \<open>Properties\<close>

text \<open>
  the parity check of a window is exact. When both replays succeed with increasing offsets, the check returns no error
  and reports no issue exactly when the two windows hold the same events in the same order, up to id,
  timestamp and the order of scopes.
\<close>

theorem CheckEventReplayParity_exact:
  assumes "es_replayPartition pr None (es_state pr) (pKind (Partition_Normalize p)) (pKey (Partition_Normalize p)) a n = Inr es"
    and "es_replayPartition sh None (es_state sh) (pKind (Partition_Normalize p)) (pKey (Partition_Normalize p)) a n = Inr fs"
    and "sorted_wrt (<) (map ev_PartitionOffset es)" and "sorted_wrt (<) (map ev_PartitionOffset fs)"
  shows "\<exists>res rp. CheckEventReplayParity jc None (Some pr) (Some sh) p a n reporter = ((res, None), rp) \<and>
    (rpr_Issues res = [] \<longleftrightarrow> list_all2 (same_event jc) es fs)"
proof -
  have "distinct (map ev_PartitionOffset fs)" using assms(4) by (simp add: strict_sorted_iff)
  from window_check[OF assms(1, 2) this, of jc reporter] show ?thesis
    using offsets_determine[OF assms(3, 4), of jc] by metis
qed

theorem CheckEventReplayParity_exact_witness:
  "\<exists>res rp. CheckEventReplayParity raw_codec None (Some (memory_store raw_codec 1 ''e1'' sample_store))
      (Some (memory_store raw_codec 1 ''e1'' NewMemoryEventStore)) (Partition ''board'' ''b'') 0 10
      \<lparr>pr_appendFailures = 0, pr_parityFailures = 0, pr_recorded = None\<rparr> = ((res, None), rp) \<and> rpr_Issues res \<noteq> []"
proof -
  have "\<exists>res rp. CheckEventReplayParity raw_codec None (Some (memory_store raw_codec 1 ''e1'' sample_store))
      (Some (memory_store raw_codec 1 ''e1'' NewMemoryEventStore)) (Partition ''board'' ''b'') 0 10
      \<lparr>pr_appendFailures = 0, pr_parityFailures = 0, pr_recorded = None\<rparr> = ((res, None), rp) \<and>
      (rpr_Issues res = [] \<longleftrightarrow> list_all2 (same_event raw_codec) (mes_events sample_store) [])"
    by (rule CheckEventReplayParity_exact)
      (simp_all add: memory_store_def MemoryEventStore_ReplayPartition_def replayPartition_eq sample_store_events
        Partition_Normalize_def limit_slice_def, simp add: NewMemoryEventStore_def limit_slice_def)
  then show ?thesis by (simp add: sample_store_events)
qed

abbreviation partition_events :: "'p memory_event_store \<Rightarrow> partition \<Rightarrow> 'p event list" where
  "partition_events s p \<equiv> filter (\<lambda>e. event_partition e = p) (mes_events s)"

lemma replay_all:
  assumes "event_store_ok jc s"
  shows "replay_of jc (Some s) (pKind p) (pKey p) 0 0 = partition_events s p"
proof -
  have "in_partition (pKind p) (pKey p) 0 e \<longleftrightarrow> event_partition e = p" if "e \<in> set (mes_events s)" for e
    using assms that by (cases p) (auto simp: event_store_ok_def event_partition_def)
  then show ?thesis
    by (simp add: replay_of_def replayPartition_eq[OF assms] limit_slice_none cong: filter_cong)
qed

lemma unlisted_empty:
  assumes "event_store_ok jc s" "p \<notin> Partition_Normalize ` fst ` set (mes_offsets s)"
  shows "partition_events s p = []"
proof (rule ccontr)
  assume "partition_events s p \<noteq> []"
  then obtain e where e: "e \<in> set (mes_events s)" "event_partition e = p" by (auto simp: filter_empty_conv)
  then have "0 < gm_get 0 (mes_offsets s) p" "Partition_Normalize p = p"
    using assms(1) by (auto simp: event_store_ok_def tail_of_def)
  then have "p \<in> fst ` set (mes_offsets s)"
    by (auto simp: gm_get_def split: option.splits dest: map_of_SomeD) (force dest: map_of_SomeD)
  then show False using assms(2) \<open>Partition_Normalize p = p\<close> by force
qed

text \<open>
  C28: promotion readiness of in-memory logs is exact. The check always ends without error; when it
  answers ready, the candidate holds in every partition the same events as the primary, even if a partition
  limit was set; and without a limit it answers ready whenever the logs agree.
\<close>

theorem CheckEventLogPromotionReadiness_exact:
  fixes s t :: "'p memory_event_store" and jc :: "'p json_codec" and limit n now now' :: int and fresh fresh' :: string
  defines "config \<equiv> \<lparr>rc_Primary = Some (memory_store jc now fresh s), rc_Candidate = Some (memory_store jc now' fresh' t),
      rc_PrimaryPartitions = None, rc_CandidatePartitions = None, rc_ReplayLimit = n, rc_PartitionLimit = limit\<rparr>"
  assumes s: "event_store_ok jc s" and t: "event_store_ok jc t" and "limit \<le> maxInt64"
  shows "\<exists>report rp. CheckEventLogPromotionReadiness jc None config reporter = Some ((report, rp), None) \<and>
    (rr_Ready report \<longrightarrow> (\<forall>p. list_all2 (same_event jc) (partition_events s p) (partition_events t p))) \<and>
    (limit \<le> 0 \<and> (\<forall>p. list_all2 (same_event jc) (partition_events s p) (partition_events t p)) \<longrightarrow> rr_Ready report)"
proof -
  let ?pr = "memory_store jc now fresh s" and ?ca = "memory_store jc now' fresh' t"
  let ?keys = "\<lambda>s. Partition_Normalize ` fst ` set (mes_offsets s)"
  obtain ps lim qs lim' where
    ps: "listEventPartitionsWithLimit None (Some (memory_lister s)) limit = Inr (ps, lim)" "lim \<or> set ps = ?keys s" "limit \<le> 0 \<longrightarrow> \<not> lim" and
    qs: "listEventPartitionsWithLimit None (Some (memory_lister t)) limit = Inr (qs, lim')" "lim' \<or> set qs = ?keys t" "limit \<le> 0 \<longrightarrow> \<not> lim'"
    using listed_partitions[OF assms(4), of s] listed_partitions[OF assms(4), of t] by metis
  define issues where "issues =
     (if lim then [limit_issue ''primary partition count exceeds promotion readiness limit %d'' limit] else []) @
     (if lim' then [limit_issue ''candidate partition count exceeds promotion readiness limit %d'' limit] else [])"
  define parts where "parts = SortPartitions (dedup_partitions [] (ps @ qs))"
  define st where "st = (zero_report\<lparr>rr_ReplayLimit := (if n \<le> 0 then 100 else n), rr_PartitionLimit := limit, rr_Issues := issues\<rparr>,
      foldl recordEventParityIssue reporter issues)"
  obtain st' where st': "readiness_partitions jc None ?pr ?ca parts st = Some (st', None)"
    "rr_Issues (fst st') = [] \<longleftrightarrow> rr_Issues (fst st) = [] \<and>
       (\<forall>p \<in> set parts. memory_promotion.agree jc now fresh s now' fresh' t jc (Partition_Normalize p) 0)"
    using memory_promotion.partitions_iff[where ps = parts and st = st] s t
    by (metis event_store.select_convs(1) memory_store_def option.simps(5) store_ok_def)
  have check: "CheckEventLogPromotionReadiness jc None config reporter =
      Some (((fst st')\<lparr>rr_Ready := (rr_Issues (fst st') = [])\<rparr>, snd st'), None)"
  proof -
    have "promotionReadinessPartitions None (Some (memory_lister s)) (Some (memory_lister t)) limit reporter =
        (Inr (parts, issues), foldl recordEventParityIssue reporter issues)"
      unfolding issues_def parts_def by (simp add: promotionReadinessPartitions_def ps(1) qs(1) Let_def)
    moreover have "rc_Primary config = Some ?pr" "rc_Candidate config = Some ?ca" "rc_PrimaryPartitions config = None"
      "rc_CandidatePartitions config = None" "rc_ReplayLimit config = n" "rc_PartitionLimit config = limit"
      by (simp_all add: config_def)
    ultimately show ?thesis
      using st'(1) unfolding st_def
      by (simp add: CheckEventLogPromotionReadiness_def eventPartitionListerFor_def Let_def zero_report_def case_prod_beta
          split del: if_split cong del: if_weak_cong)
  qed
  have agree: "memory_promotion.agree jc now fresh s now' fresh' t jc p 0 \<longleftrightarrow>
      list_all2 (same_event jc) (partition_events s p) (partition_events t p)" for p
    using replay_all[OF s, of p] replay_all[OF t, of p] unfolding memory_promotion.agree_def by (simp add: memory_store_def)
  have parts: "set parts = Partition_Normalize ` set ps \<union> Partition_Normalize ` set qs"
    by (simp add: parts_def SortPartitions_def set_dedup image_Un)
  have issues: "rr_Issues (fst st) = [] \<longleftrightarrow> \<not> lim \<and> \<not> lim'" by (simp add: st_def issues_def)
  have "list_all2 (same_event jc) (partition_events s p) (partition_events t p)" if "rr_Issues (fst st') = []" for p
  proof (cases "p \<in> ?keys s \<union> ?keys t")
    case True
    moreover have "set parts = ?keys s \<union> ?keys t"
      using that st'(2) issues ps(2) qs(2) unfolding parts by (auto simp: image_image)
    ultimately show ?thesis using that st'(2) agree by (metis Normalize_idem imageE UnE)
  next
    case False
    then show ?thesis using unlisted_empty[OF s, of p] unlisted_empty[OF t, of p] by simp
  qed
  moreover have "rr_Issues (fst st') = []" if "limit \<le> 0" "\<forall>p. list_all2 (same_event jc) (partition_events s p) (partition_events t p)"
    using that st'(2) issues ps(3) qs(3) agree by auto
  ultimately show ?thesis using check by auto
qed

theorem CheckEventLogPromotionReadiness_exact_witness:
  "\<exists>report rp. CheckEventLogPromotionReadiness raw_codec None
      \<lparr>rc_Primary = Some (memory_store raw_codec 1 ''e'' sample_store), rc_Candidate = Some (memory_store raw_codec 1 ''e'' sample_store),
       rc_PrimaryPartitions = None, rc_CandidatePartitions = None, rc_ReplayLimit = 10, rc_PartitionLimit = 0\<rparr>
      \<lparr>pr_appendFailures = 0, pr_parityFailures = 0, pr_recorded = None\<rparr> = Some ((report, rp), None) \<and> rr_Ready report"
proof -
  have "list_all2 (same_event raw_codec) (partition_events sample_store p) (partition_events sample_store p)" for p
    by (rule list_all2_refl) (simp add: same_event_def)
  moreover have "(0 :: int) \<le> maxInt64" by (simp add: maxInt64_def)
  ultimately show ?thesis
    using CheckEventLogPromotionReadiness_exact[OF sample_store_ok sample_store_ok, of 0 1 "''e''" 1 "''e''" 10] by fast
qed

definition codec_reflexive :: "'p json_codec \<Rightarrow> bool" where
  "codec_reflexive jc \<longleftrightarrow> (\<forall>k x y. cloneEventPayload jc k x = Inr y \<longrightarrow> samePayload jc y y)"

lemma mirrored_append:
  assumes "codec_stable jc" "event_store_ok jc s" "tail_of s (append_partition event) < maxInt64" "0 < now" "fresh \<noteq> []"
    and "mes_append jc now fresh s event = (Inr evt, s')"
  shows "mes_append jc now' fresh' s (eventAppendFromEvent evt) = (Inr evt, s')"
  using assms(1)
proof (cases rule: mes_append_cases[of jc now fresh s event])
  case (stored payload)
  let ?p = "append_partition event"
  have evt: "evt = appended_event now fresh s event payload"
    and s': "s' = s\<lparr>mes_offsets := gm_set ?p (wrap64 (tail_of s ?p + 1)) (mes_offsets s), mes_events := mes_events s @ [evt]\<rparr>"
    using stored(4) assms(6) by auto
  have "wrap64 (tail_of s ?p + 1) = tail_of s ?p + 1" "0 \<le> tail_of s ?p"
    using assms(2, 3) by (auto simp: event_store_ok_def intro: wrap64_Suc)
  then have pos: "0 < wrap64 (tail_of s ?p + 1)" by simp
  have clone: "cloneEventPayload jc (ea_Kind event) payload = Inr payload"
    using assms(1) stored(1) unfolding codec_stable_def by blast
  have part: "append_partition (eventAppendFromEvent evt) = ?p"
    by (simp add: evt eventAppendFromEvent_def)
  have again: "appended_event now' fresh' s (eventAppendFromEvent evt) payload = evt"
    using assms(4, 5) unfolding evt by (simp add: appended_event_def eventAppendFromEvent_def EventAppendTimestamp_def Let_def)
  show ?thesis
    using assms(1)
  proof (cases rule: mes_append_cases[of jc now' fresh' s "eventAppendFromEvent evt"])
    case (failed e)
    then have False
      using clone pos part by (simp add: mes_append_def Let_def) (simp add: evt eventAppendFromEvent_def tail_of_def Let_def)
    then show ?thesis ..
  next
    case (stored payload')
    then have "payload' = payload" using clone by (simp add: evt eventAppendFromEvent_def)
    then show ?thesis using stored(4) by (simp add: again part s')
  qed
qed (use assms(6) in simp)

text \<open>
  Mirroring does not raise false alarms. When primary and shadow are in-memory stores with equal
  contents, every append through the shadow store that the primary accepts is accepted by the shadow too, leaves
  the two equal again, returns the primary's event and reports no issue.
\<close>

theorem Shadow_Append_mirrors:
  assumes "codec_stable jc" and "codec_reflexive jc" and "event_store_ok jc s"
    and "tail_of s (append_partition event) < maxInt64" and "0 < now" and "fresh \<noteq> []"
    and "mes_append jc now fresh s event = (Inr evt, s')"
  shows "Shadow_Append jc None (Some (NewShadowEventStore (Some (memory_store jc now fresh s)) (Some (memory_store jc now' fresh' s)) rp)) event =
    (Inr evt, Some (NewShadowEventStore (Some (memory_store jc now fresh s')) (Some (memory_store jc now' fresh' s')) rp))"
proof -
  have mirror: "mes_append jc now' fresh' s (eventAppendFromEvent evt) = (Inr evt, s')"
    using assms by (intro mirrored_append[where event = event and now = now and fresh = fresh])
  have "samePayload jc (ev_Payload evt) (ev_Payload evt)"
    using assms(1, 2, 7) by (cases rule: mes_append_cases[of jc now fresh s event]) (auto simp: codec_reflexive_def)
  then have "compareEventParity jc (Some evt) (Some evt) = None"
    by (simp add: compareEventParity_iff same_event_def)
  then show ?thesis
    using assms(7) mirror
    by (simp add: Shadow_Append_def NewShadowEventStore_def appendEventLogShadow_def memory_store_def MemoryEventStore_Append_def)
qed

theorem Shadow_Append_mirrors_witness:
  "fst (Shadow_Append raw_codec None (Some (NewShadowEventStore (Some (memory_store raw_codec 7 ''evt_1'' NewMemoryEventStore))
      (Some (memory_store raw_codec 9 ''evt_2'' NewMemoryEventStore)) \<lparr>pr_appendFailures = 0, pr_parityFailures = 0, pr_recorded = None\<rparr>))
      sample_append) = Inr (hd (mes_events sample_store))"
proof -
  have append: "mes_append raw_codec 7 ''evt_1'' NewMemoryEventStore sample_append = (Inr (hd (mes_events sample_store)), sample_store)"
    by code_simp
  have reflexive: "codec_reflexive raw_codec" by (simp add: codec_reflexive_def)
  show ?thesis
    by (subst Shadow_Append_mirrors[OF raw_codec_stable reflexive New_event_store_ok _ _ _ append])
      (simp_all add: tail_of_def NewMemoryEventStore_def maxInt64_def)
qed

lemma loops_keep_partition:
  "rpr_Partition (fst (compare_primary jc part m rr es)) = rpr_Partition (fst rr)"
  "rpr_Partition (fst (report_extra part seen rr fs)) = rpr_Partition (fst rr)"
proof -
  have "rpr_Partition (fst (compare_one jc part m rr e)) = rpr_Partition (fst rr)" for rr e
    by (cases rr) (simp add: compare_one_def report_issue_def Let_def split: option.splits)
  then show "rpr_Partition (fst (compare_primary jc part m rr es)) = rpr_Partition (fst rr)"
    by (induction es arbitrary: rr) simp_all
  show "rpr_Partition (fst (report_extra part seen rr fs)) = rpr_Partition (fst rr)"
    by (induction part seen rr fs rule: report_extra.induct) (simp_all add: report_issue_def)
qed

lemma check_partition: "rpr_Partition (fst (fst (CheckEventReplayParity jc ctx pr sh p a n rp))) = Partition_Normalize p"
  by (simp add: CheckEventReplayParity_def Let_def loops_keep_partition report_issue_def case_prod_beta split: option.splits sum.splits)

lemma offsetFor_setOffset:
  "offsetFor (setOffset r q n) p = (if Partition_Normalize p = Partition_Normalize q then max n (offsetFor r p) else offsetFor r p)"
  by (auto simp: offsetFor_def setOffset_def)

text \<open>
  a checkpoint of the parity runner only moves forward, and only over windows that were compared
  without an issue: when a run over the listed partitions changes the checkpoint of a partition, one of the
  results it returns is a clean result for that partition reaching the new checkpoint.
\<close>

theorem parity_runner_checkpoint:
  "case check_partitions jc ctx r rp results ps of ((results', err), r', rp') \<Rightarrow>
     offsetFor r p \<le> offsetFor r' p \<and> set results \<subseteq> set results' \<and>
     (offsetFor r' p = offsetFor r p \<or>
      (\<exists>res \<in> set results'. rpr_Issues res = [] \<and> rpr_Partition res = Partition_Normalize p \<and>
         rpr_LastPrimaryOffset res = offsetFor r' p))"
proof (induction ps arbitrary: r rp results)
  case (Cons q ps)
  let ?q = "Partition_Normalize q"
  obtain res err rp1 where check: "CheckEventReplayParity jc ctx (pn_primary r) (pn_shadow r) ?q (offsetFor r ?q) (pn_replayLimit r) rp = ((res, err), rp1)"
    by (metis prod.collapse)
  have part: "rpr_Partition res = ?q"
    using check_partition[of jc ctx "pn_primary r" "pn_shadow r" ?q "offsetFor r ?q" "pn_replayLimit r" rp] check by simp
  show ?case
  proof (cases err)
    case None
    define r1 where "r1 = (if rpr_Issues res = [] \<and> rpr_LastPrimaryOffset res > offsetFor r ?q then setOffset r ?q (rpr_LastPrimaryOffset res) else r)"
    have step: "check_partitions jc ctx r rp results (q # ps) = check_partitions jc ctx r1 rp1 (results @ [res]) ps"
      using check None by (simp add: Let_def r1_def)
    obtain results' err' r' rp' where run: "check_partitions jc ctx r1 rp1 (results @ [res]) ps = ((results', err'), r', rp')"
      by (metis prod.collapse)
    have IH: "offsetFor r1 p \<le> offsetFor r' p" "set (results @ [res]) \<subseteq> set results'"
      "offsetFor r' p = offsetFor r1 p \<or> (\<exists>res \<in> set results'. rpr_Issues res = [] \<and> rpr_Partition res = Partition_Normalize p \<and>
         rpr_LastPrimaryOffset res = offsetFor r' p)"
      using Cons.IH[where r = r1 and rp = rp1 and results = "results @ [res]"] unfolding run by simp_all
    have r1: "offsetFor r1 p = offsetFor r p \<or>
        rpr_Issues res = [] \<and> Partition_Normalize p = ?q \<and> offsetFor r1 p = rpr_LastPrimaryOffset res \<and> offsetFor r p \<le> offsetFor r1 p"
      by (auto simp: r1_def offsetFor_setOffset)
    show ?thesis
      unfolding step run using IH r1 part by auto
  qed (simp add: check Let_def)
qed simp

end
