(* ===== verification/Command_Log.thy ===== *)
theory Command_Log
  imports Command_Records
begin

text \<open>
  The in-process command log (\<open>MemoryCommandLog\<close> of \<open>internal/core/partitioned_log.go\<close>): per-partition
  record lists with consecutive offsets, an index by command receipt, and a committed offset per
  partition. The contract its consumers rely on is the locale \<open>command_log\<close>.
  A method is modelled by its body under the lock (\<open>mcl_...\<close>) and by an outer definition
  that checks the context and the receiver as the method does.
\<close>

section \<open>State and operations\<close>

record memory_command_log =
  mcl_records :: "(partition, command_log_record list) gomap"
  mcl_byReceipt :: "(receipt_key, command_log_record) gomap"
  mcl_committed :: "(partition, int) gomap"

definition NewMemoryCommandLog :: memory_command_log where
  "NewMemoryCommandLog = \<lparr>mcl_records = [], mcl_byReceipt = [], mcl_committed = []\<rparr>"

text \<open>The copy of the payload is invisible in a functional model.\<close>

definition cloneCommandLogRecord :: "command_log_record \<Rightarrow> command_log_record" where
  "cloneCommandLogRecord rec = rec\<lparr>clr_Partition := Partition_Normalize (clr_Partition rec)\<rparr>"

definition mcl_receipt :: "memory_command_log \<Rightarrow> command_log_record \<Rightarrow> command_log_record option" where
  "mcl_receipt l rec =
     (case NewCommandReceiptKey (clr_Partition rec) (clr_ActorID rec) (clr_CID rec) of
        None \<Rightarrow> None
      | Some key \<Rightarrow> map_of (mcl_byReceipt l) key)"

definition mcl_append :: "memory_command_log \<Rightarrow> command_log_record \<Rightarrow> (go_error + command_log_record) \<times> memory_command_log" where
  "mcl_append l rec =
     (let old = gm_get [] (mcl_records l) (clr_Partition rec);
          rec = rec\<lparr>clr_Offset := int (length old + 1)\<rparr>;
          rec = (if clr_CID rec = [] then rec\<lparr>clr_CID := SyntheticCommandLogCID (clr_Partition rec) (clr_Offset rec)\<rparr> else rec);
          l = l\<lparr>mcl_records := gm_set (clr_Partition rec) (old @ [rec]) (mcl_records l)\<rparr>;
          l = (case NewCommandReceiptKey (clr_Partition rec) (clr_ActorID rec) (clr_CID rec) of
                 None \<Rightarrow> l
               | Some key \<Rightarrow> l\<lparr>mcl_byReceipt := gm_set key (cloneCommandLogRecord rec) (mcl_byReceipt l)\<rparr>)
      in (Inr (cloneCommandLogRecord rec), l))"

definition mcl_produce :: "memory_command_log \<Rightarrow> command_log_record \<Rightarrow> (go_error + command_log_record) \<times> memory_command_log" where
  "mcl_produce l rec =
     (let rec = rec\<lparr>clr_Partition := Partition_Normalize (clr_Partition rec)\<rparr>
      in if TrimSpace (clr_CID rec) \<noteq> [] \<and> clr_EnqueuedAt rec \<le> 0
         then (Inl (Errorf ''memory command log: enqueue time is required when command receipt is set'' []), l)
         else case mcl_receipt l rec of
           Some existing \<Rightarrow>
             if \<not> SameCommandLogRecordIdentity existing rec
             then (Inl (Errorf ''memory command log: duplicate command receipt %q has different content'' [Astr (clr_CID rec)]), l)
             else (Inr (cloneCommandLogRecord existing), l)
         | None \<Rightarrow> mcl_append l rec)"

definition MemoryCommandLog_Produce ::
  "ctx \<Rightarrow> memory_command_log option \<Rightarrow> command_log_record \<Rightarrow> (go_error + command_log_record) \<times> memory_command_log option" where
  "MemoryCommandLog_Produce ctx l rec =
     (case ctx of Some e \<Rightarrow> (Inl e, l)
      | None \<Rightarrow>
          (case l of None \<Rightarrow> (Inl (Errorf ''memory command log: nil receiver'' []), l)
           | Some l \<Rightarrow> (let (r, l') = mcl_produce l rec in (r, Some l'))))"

definition mcl_fetch :: "memory_command_log \<Rightarrow> partition \<Rightarrow> int \<Rightarrow> int \<Rightarrow> command_log_record list" where
  "mcl_fetch l p afterOffset limit =
     map cloneCommandLogRecord
       (collect (\<lambda>rec. \<not> clr_Offset rec \<le> afterOffset) limit 0 (gm_get [] (mcl_records l) (Partition_Normalize p)))"

definition MemoryCommandLog_FetchPartition ::
  "ctx \<Rightarrow> memory_command_log option \<Rightarrow> partition \<Rightarrow> int \<Rightarrow> int \<Rightarrow> go_error + command_log_record list" where
  "MemoryCommandLog_FetchPartition ctx l p afterOffset limit =
     with_receiver ctx ''memory command log: nil receiver'' l (\<lambda>l. Inr (mcl_fetch l p afterOffset limit))"

definition mcl_commit :: "memory_command_log \<Rightarrow> partition \<Rightarrow> int \<Rightarrow> memory_command_log" where
  "mcl_commit l p offset =
     (let p = Partition_Normalize p
      in if offset > gm_get 0 (mcl_committed l) p
         then l\<lparr>mcl_committed := gm_set p offset (mcl_committed l)\<rparr> else l)"

definition MemoryCommandLog_CommitPartition ::
  "ctx \<Rightarrow> memory_command_log option \<Rightarrow> partition \<Rightarrow> int \<Rightarrow> go_error + memory_command_log" where
  "MemoryCommandLog_CommitPartition ctx l p offset =
     with_receiver ctx ''memory command log: nil receiver'' l (\<lambda>l. Inr (mcl_commit l p offset))"

definition mcl_committedOffset :: "memory_command_log \<Rightarrow> partition \<Rightarrow> int" where
  "mcl_committedOffset l p = gm_get 0 (mcl_committed l) (Partition_Normalize p)"

definition MemoryCommandLog_CommittedOffset ::
  "ctx \<Rightarrow> memory_command_log option \<Rightarrow> partition \<Rightarrow> go_error + int" where
  "MemoryCommandLog_CommittedOffset ctx l p =
     with_receiver ctx ''memory command log: nil receiver'' l (\<lambda>l. Inr (mcl_committedOffset l p))"

definition mcl_listOffsets :: "memory_command_log \<Rightarrow> int \<Rightarrow> command_partition_offset list" where
  "mcl_listOffsets l limit =
     limit_slice limit (SortCommandPartitionOffsetsByLag
       (map (\<lambda>(p, records). let p = Partition_Normalize p
               in \<lparr>cpo_Partition = p, cpo_TailOffset = int (length records),
                   cpo_CommittedOffset = gm_get 0 (mcl_committed l) p\<rparr>)
            (filter (\<lambda>(p, records). length records \<noteq> 0) (mcl_records l))))"

definition MemoryCommandLog_ListCommandPartitionOffsets ::
  "ctx \<Rightarrow> memory_command_log option \<Rightarrow> int \<Rightarrow> go_error + command_partition_offset list" where
  "MemoryCommandLog_ListCommandPartitionOffsets ctx l limit =
     with_receiver ctx ''memory command log: nil receiver'' l (\<lambda>l. Inr (mcl_listOffsets l limit))"

definition MemoryCommandLog_ListCommandPartitions ::
  "ctx \<Rightarrow> memory_command_log option \<Rightarrow> int \<Rightarrow> go_error + partition list" where
  "MemoryCommandLog_ListCommandPartitions ctx l limit =
     (case MemoryCommandLog_ListCommandPartitionOffsets ctx l 0 of
        Inl e \<Rightarrow> Inl e
      | Inr offsets \<Rightarrow> Inr (CommandPartitionsByTailOffset offsets limit))"

section \<open>Invariant\<close>

text \<open>The log of a partition, as the abstract value of the state.\<close>

definition log_of :: "memory_command_log \<Rightarrow> partition \<Rightarrow> command_log_record list" where
  "log_of l p = gm_get [] (mcl_records l) p"

definition partition_log_ok :: "partition \<Rightarrow> command_log_record list \<Rightarrow> bool" where
  "partition_log_ok p rs \<longleftrightarrow> map clr_Offset rs = map (\<lambda>i. int i + 1) [0..<length rs] \<and>
     list_all (\<lambda>r. clr_Partition r = p \<and> clr_CID r \<noteq> []) rs"

definition receipt_ok :: "memory_command_log \<Rightarrow> receipt_key \<times> command_log_record \<Rightarrow> bool" where
  "receipt_ok l kr \<longleftrightarrow> (case kr of (k, r) \<Rightarrow>
     NewCommandReceiptKey (clr_Partition r) (clr_ActorID r) (clr_CID r) = Some k \<and> r \<in> set (log_of l (clr_Partition r)))"

definition command_log_ok :: "memory_command_log \<Rightarrow> bool" where
  "command_log_ok l \<longleftrightarrow> distinct (map fst (mcl_records l)) \<and>
     list_all (\<lambda>(p, rs). Partition_Normalize p = p \<and> rs \<noteq> [] \<and> partition_log_ok p rs) (mcl_records l) \<and>
     list_all (receipt_ok l) (mcl_byReceipt l)"

lemma New_ok [simp]: "command_log_ok NewMemoryCommandLog"
  by (simp add: command_log_ok_def NewMemoryCommandLog_def)

lemma log_of_entry:
  "command_log_ok l \<Longrightarrow> (p, rs) \<in> set (mcl_records l) \<longleftrightarrow> log_of l p = rs \<and> rs \<noteq> []"
  by (auto simp: command_log_ok_def log_of_def gm_get_def list_all_iff split: option.splits dest: map_of_SomeD eq_key_imp_eq_value)

lemma log_of_ok:
  assumes "command_log_ok l" shows "partition_log_ok p (log_of l p)"
proof (cases "log_of l p = []")
  case False
  then have "(p, log_of l p) \<in> set (mcl_records l)" using log_of_entry[OF assms] by simp
  then show ?thesis using assms by (auto simp: command_log_ok_def list_all_iff)
qed (simp add: partition_log_ok_def)

lemma log_of_normal: "command_log_ok l \<Longrightarrow> log_of l p \<noteq> [] \<Longrightarrow> Partition_Normalize p = p"
  using log_of_entry[of l p "log_of l p"] by (auto simp: command_log_ok_def list_all_iff)

lemma log_of_member_normal: "command_log_ok l \<Longrightarrow> r \<in> set (log_of l p) \<Longrightarrow> Partition_Normalize p = p"
  by (rule log_of_normal) auto

lemma log_of_record:
  assumes "command_log_ok l" "r \<in> set (log_of l p)"
  shows "clr_Partition r = p" "cloneCommandLogRecord r = r" "clr_CID r \<noteq> []"
proof -
  show "clr_Partition r = p" "clr_CID r \<noteq> []"
    using log_of_ok[OF assms(1), of p] assms(2) by (auto simp: partition_log_ok_def list_all_iff)
  moreover have "Partition_Normalize p = p" using assms by (rule log_of_member_normal)
  ultimately show "cloneCommandLogRecord r = r" by (simp add: cloneCommandLogRecord_def)
qed

lemma log_of_offset:
  assumes "command_log_ok l" "i < length (log_of l p)" shows "clr_Offset (log_of l p ! i) = int i + 1"
proof -
  have "map clr_Offset (log_of l p) ! i = int i + 1"
    using log_of_ok[OF assms(1), of p] assms(2) by (simp add: partition_log_ok_def)
  then show ?thesis using assms(2) by simp
qed

lemma receipt_record:
  assumes "command_log_ok l" "map_of (mcl_byReceipt l) k = Some r"
  shows "NewCommandReceiptKey (clr_Partition r) (clr_ActorID r) (clr_CID r) = Some k" "r \<in> set (log_of l (clr_Partition r))"
  using assms by (auto simp: command_log_ok_def list_all_iff receipt_ok_def dest!: map_of_SomeD)

section \<open>What an append does\<close>

text \<open>The record that a successful, new \<open>Produce\<close> stores.\<close>

definition stored_record :: "memory_command_log \<Rightarrow> command_log_record \<Rightarrow> command_log_record" where
  "stored_record l rec =
     (let n = int (length (log_of l (clr_Partition rec)) + 1)
      in rec\<lparr>clr_Offset := n,
             clr_CID := (if clr_CID rec = [] then SyntheticCommandLogCID (clr_Partition rec) n else clr_CID rec)\<rparr>)"

lemma stored_sel [simp]:
  "clr_Partition (stored_record l rec) = clr_Partition rec" "clr_ActorID (stored_record l rec) = clr_ActorID rec"
  "clr_Offset (stored_record l rec) = int (length (log_of l (clr_Partition rec)) + 1)"
  "clr_CID (stored_record l rec) \<noteq> []" "clr_Command (stored_record l rec) = clr_Command rec"
  "clr_EnqueuedAt (stored_record l rec) = clr_EnqueuedAt rec" "clr_Payload (stored_record l rec) = clr_Payload rec"
  by (simp_all add: stored_record_def Let_def)

lemma stored_CID: "clr_CID rec \<noteq> [] \<Longrightarrow> clr_CID (stored_record l rec) = clr_CID rec"
  by (simp add: stored_record_def Let_def)

lemma mcl_append_eq:
  assumes "Partition_Normalize (clr_Partition rec) = clr_Partition rec"
  shows "mcl_append l rec =
    (Inr (stored_record l rec),
     l\<lparr>mcl_records := gm_set (clr_Partition rec) (log_of l (clr_Partition rec) @ [stored_record l rec]) (mcl_records l),
       mcl_byReceipt := (case NewCommandReceiptKey (clr_Partition rec) (clr_ActorID rec) (clr_CID (stored_record l rec)) of
          None \<Rightarrow> mcl_byReceipt l | Some key \<Rightarrow> gm_set key (stored_record l rec) (mcl_byReceipt l))\<rparr>)"
  using assms
  by (auto simp: mcl_append_def stored_record_def log_of_def cloneCommandLogRecord_def Let_def split: option.splits)

lemma log_of_append:
  assumes "Partition_Normalize (clr_Partition rec) = clr_Partition rec"
  shows "log_of (snd (mcl_append l rec)) p =
     (if p = clr_Partition rec then log_of l p @ [stored_record l rec] else log_of l p)"
  by (simp add: mcl_append_eq[OF assms] log_of_def)

lemma append_ok:
  assumes "command_log_ok l" and n: "Partition_Normalize (clr_Partition rec) = clr_Partition rec"
  shows "command_log_ok (snd (mcl_append l rec))"
proof -
  let ?l = "snd (mcl_append l rec)" and ?p = "clr_Partition rec" and ?r = "stored_record l rec"
  have records: "mcl_records ?l = gm_set ?p (log_of l ?p @ [?r]) (mcl_records l)"
    by (simp add: mcl_append_eq[OF n])
  have "partition_log_ok ?p (log_of l ?p @ [?r])"
    using log_of_ok[OF assms(1), of ?p] by (simp add: partition_log_ok_def)
  moreover have "(p, rs) \<in> set (mcl_records ?l) \<Longrightarrow> (p, rs) = (?p, log_of l ?p @ [?r]) \<or> (p, rs) \<in> set (mcl_records l)" for p rs
    unfolding records by (rule set_gm_setD)
  ultimately have 1: "list_all (\<lambda>(p, rs). Partition_Normalize p = p \<and> rs \<noteq> [] \<and> partition_log_ok p rs) (mcl_records ?l)"
    using assms by (fastforce simp: command_log_ok_def list_all_iff)
  have "receipt_ok ?l (k, r)" if "receipt_ok l (k, r)" for k r
    using that by (auto simp: receipt_ok_def log_of_append[OF n])
  moreover have "receipt_ok ?l (k, ?r)" if "NewCommandReceiptKey ?p (clr_ActorID rec) (clr_CID ?r) = Some k" for k
    using that by (simp add: receipt_ok_def log_of_append[OF n])
  ultimately have 2: "list_all (receipt_ok ?l) (mcl_byReceipt ?l)"
    using assms(1) by (auto simp: command_log_ok_def list_all_iff mcl_append_eq[OF n] set_gm_setD split: option.splits dest!: set_gm_setD)
  show ?thesis using 1 2 assms(1) by (simp add: command_log_ok_def records distinct_gm_set)
qed

lemma clone_sel [simp]:
  "clr_Partition (cloneCommandLogRecord rec) = Partition_Normalize (clr_Partition rec)"
  "clr_ActorID (cloneCommandLogRecord rec) = clr_ActorID rec" "clr_CID (cloneCommandLogRecord rec) = clr_CID rec"
  "clr_Command (cloneCommandLogRecord rec) = clr_Command rec" "clr_EnqueuedAt (cloneCommandLogRecord rec) = clr_EnqueuedAt rec"
  "clr_Payload (cloneCommandLogRecord rec) = clr_Payload rec"
  by (simp_all add: cloneCommandLogRecord_def)

lemma mcl_produce_clone:
  "mcl_produce l rec =
     (let rec = cloneCommandLogRecord rec
      in if TrimSpace (clr_CID rec) \<noteq> [] \<and> clr_EnqueuedAt rec \<le> 0
         then (Inl (Errorf ''memory command log: enqueue time is required when command receipt is set'' []), l)
         else case mcl_receipt l rec of
           Some existing \<Rightarrow>
             if \<not> SameCommandLogRecordIdentity existing rec
             then (Inl (Errorf ''memory command log: duplicate command receipt %q has different content'' [Astr (clr_CID rec)]), l)
             else (Inr (cloneCommandLogRecord existing), l)
         | None \<Rightarrow> mcl_append l rec)"
  by (simp only: mcl_produce_def cloneCommandLogRecord_def)

lemma mcl_produce_cases:
  obtains (failed) e where "mcl_produce l rec = (Inl e, l)"
  | (repeated) r where "mcl_receipt l (cloneCommandLogRecord rec) = Some r" "SameCommandLogRecordIdentity r (cloneCommandLogRecord rec)"
      "mcl_produce l rec = (Inr (cloneCommandLogRecord r), l)"
  | (appended) "mcl_receipt l (cloneCommandLogRecord rec) = None" "mcl_produce l rec = mcl_append l (cloneCommandLogRecord rec)"
proof -
  let ?rec = "cloneCommandLogRecord rec"
  consider "TrimSpace (clr_CID ?rec) \<noteq> [] \<and> clr_EnqueuedAt ?rec \<le> 0"
    | "\<not> (TrimSpace (clr_CID ?rec) \<noteq> [] \<and> clr_EnqueuedAt ?rec \<le> 0)" "mcl_receipt l ?rec = None"
    | r where "\<not> (TrimSpace (clr_CID ?rec) \<noteq> [] \<and> clr_EnqueuedAt ?rec \<le> 0)" "mcl_receipt l ?rec = Some r"
    by (cases "mcl_receipt l ?rec") blast+
  then show ?thesis
  proof cases
    case 1
    then have "\<exists>e. mcl_produce l rec = (Inl e, l)" by (simp add: mcl_produce_clone Let_def)
    then show ?thesis using failed by blast
  next
    case 2
    then have "mcl_produce l rec = mcl_append l ?rec" by (auto simp: mcl_produce_clone Let_def)
    with 2 show ?thesis using appended by blast
  next
    case 3
    then have "mcl_produce l rec =
        (if SameCommandLogRecordIdentity r ?rec then (Inr (cloneCommandLogRecord r), l) else (Inl
          (Errorf ''memory command log: duplicate command receipt %q has different content'' [Astr (clr_CID ?rec)]), l))"
      by (auto simp: mcl_produce_clone Let_def)
    with 3 show ?thesis using failed repeated by (cases "SameCommandLogRecordIdentity r ?rec") simp_all
  qed
qed

lemma produce_ok: "command_log_ok l \<Longrightarrow> command_log_ok (snd (mcl_produce l rec))"
  by (cases rule: mcl_produce_cases[of l rec]) (simp_all add: append_ok)

lemma commit_log_of [simp]: "log_of (mcl_commit l p n) = log_of l" "mcl_records (mcl_commit l p n) = mcl_records l"
  "mcl_byReceipt (mcl_commit l p n) = mcl_byReceipt l"
  by (simp_all add: mcl_commit_def log_of_def fun_eq_iff Let_def)

lemma commit_ok: "command_log_ok l \<Longrightarrow> command_log_ok (mcl_commit l p n)"
  by (simp add: command_log_ok_def receipt_ok_def[abs_def])

lemma committed_commit:
  "mcl_committedOffset (mcl_commit l p n) q =
     (if Partition_Normalize q = Partition_Normalize p then max n (mcl_committedOffset l q) else mcl_committedOffset l q)"
  by (auto simp: mcl_committedOffset_def mcl_commit_def Let_def)

lemma produce_committed [simp]: "mcl_committed (snd (mcl_produce l rec)) = mcl_committed l"
  by (cases rule: mcl_produce_cases[of l rec]) (simp_all add: mcl_append_eq)

section \<open>Reachable logs\<close>

datatype log_op = OpProduce command_log_record | OpCommit partition int

fun log_step :: "memory_command_log \<Rightarrow> log_op \<Rightarrow> memory_command_log" where
  "log_step l (OpProduce rec) = snd (mcl_produce l rec)"
| "log_step l (OpCommit p n) = mcl_commit l p n"

abbreviation run_log :: "memory_command_log \<Rightarrow> log_op list \<Rightarrow> memory_command_log" where
  "run_log \<equiv> foldl log_step"

lemma log_step_ok: "command_log_ok l \<Longrightarrow> command_log_ok (log_step l op)"
  by (cases op) (simp_all add: produce_ok commit_ok)

lemma run_log_ok: "command_log_ok l \<Longrightarrow> command_log_ok (run_log l ops)"
  by (induction ops arbitrary: l) (simp_all add: log_step_ok)

text \<open>Synthetic command ids are never altered by trimming, so they only collide with ids under their own prefix.\<close>

lemma Synthetic_trim: "0 \<le> n \<Longrightarrow> TrimSpace (SyntheticCommandLogCID p n) = SyntheticCommandLogCID p n"
proof (rule TrimSpace_plain_ends, rule disjI2, rule conjI)
  let ?d = "dec_digits (nat n)"
  show "plain_char (hd (SyntheticCommandLogCID p n))"
    by (simp add: SyntheticCommandLogCID_def syntheticPrefix_def Let_def) code_simp
  assume "0 \<le> n"
  then have "last (SyntheticCommandLogCID p n) = last ?d"
    by (simp add: SyntheticCommandLogCID_def Itoa_def Let_def)
  moreover obtain d where "d < 10" "last ?d = digit_char d"
    using dec_digits_chars[of "last ?d" "nat n"] by auto
  ultimately show "plain_char (last (SyntheticCommandLogCID p n))"
    by (simp add: plain_char_def of_char_digit_char)
qed

lemma Synthetic_prefix: "HasPrefix (SyntheticCommandLogCID p n) syntheticPrefix"
  by (simp add: SyntheticCommandLogCID_def Let_def)

lemma step_keeps_receipt:
  assumes "map_of (mcl_byReceipt l) k = Some r" "\<not> HasPrefix (rk_CID k) syntheticPrefix"
  shows "map_of (mcl_byReceipt (log_step l op)) k = Some r"
proof (cases op)
  case (OpProduce rec)
  let ?rec = "cloneCommandLogRecord rec"
  show ?thesis
  proof (cases rule: mcl_produce_cases[of l rec])
    case appended
    have "NewCommandReceiptKey (clr_Partition ?rec) (clr_ActorID ?rec) (clr_CID (stored_record l ?rec)) \<noteq> Some k"
    proof (cases "clr_CID ?rec = []")
      case True
      then have "clr_CID (stored_record l ?rec) = SyntheticCommandLogCID (clr_Partition ?rec) (clr_Offset (stored_record l ?rec))"
        by (simp add: stored_record_def Let_def)
      then show ?thesis using assms(2) by (auto simp: NewCommandReceiptKey_Some Synthetic_trim Synthetic_prefix simp del: of_nat_add)
    next
      case False
      then show ?thesis using appended(1) assms(1) by (auto simp: stored_CID mcl_receipt_def split: option.splits)
    qed
    with appended OpProduce assms(1) show ?thesis by (auto simp: mcl_append_eq split: option.splits)
  qed (use OpProduce assms in simp_all)
qed (use assms in simp)

lemma run_keeps_receipt:
  "map_of (mcl_byReceipt l) k = Some r \<Longrightarrow> \<not> HasPrefix (rk_CID k) syntheticPrefix \<Longrightarrow>
   map_of (mcl_byReceipt (run_log l ops)) k = Some r"
  by (induction ops arbitrary: l) (simp_all add: step_keeps_receipt)

section \<open>Fetching\<close>

lemma filter_offsets:
  "map clr_Offset rs = map (\<lambda>i. int (k + i) + 1) [0..<length rs] \<Longrightarrow>
   filter (\<lambda>r. \<not> clr_Offset r \<le> after) rs = drop (nat (after - int k)) rs"
proof (induction rs arbitrary: k)
  case (Cons r rs)
  have off: "map clr_Offset rs = map (\<lambda>i. int (Suc k + i) + 1) [0..<length rs]" and r: "clr_Offset r = int k + 1"
    using Cons.prems by (simp_all add: upt_conv_Cons map_Suc_upt[symmetric] del: upt_Suc)
  have IH: "filter (\<lambda>r. \<not> clr_Offset r \<le> after) rs = drop (nat (after - int (Suc k))) rs"
    using off by (intro Cons.IH) simp
  show ?case
  proof (cases "after \<le> int k")
    case True then show ?thesis using IH r by simp
  next
    case False
    then have "nat (after - int k) = Suc (nat (after - int (Suc k)))" by simp
    then show ?thesis using IH r False by simp
  qed
qed simp

lemma fetch_eq:
  assumes "command_log_ok l"
  shows "mcl_fetch l p after limit = limit_slice limit (drop (nat after) (log_of l (Partition_Normalize p)))"
proof -
  let ?rs = "log_of l (Partition_Normalize p)"
  have "filter (\<lambda>r. \<not> clr_Offset r \<le> after) ?rs = drop (nat after) ?rs"
    using filter_offsets[of ?rs 0 after] log_of_ok[OF assms, of "Partition_Normalize p"]
    by (simp add: partition_log_ok_def)
  then have "mcl_fetch l p after limit = map cloneCommandLogRecord (limit_slice limit (drop (nat after) ?rs))"
    by (simp add: mcl_fetch_def collect_eq log_of_def)
  also have "\<dots> = limit_slice limit (drop (nat after) ?rs)"
    by (rule map_idI) (metis assms in_set_dropD log_of_record(2) set_limit_slice)
  finally show ?thesis .
qed

lemma fetch_offsets:
  assumes "command_log_ok l" "0 \<le> after"
  shows "map clr_Offset (mcl_fetch l p after limit) = map (\<lambda>i. after + 1 + int i) [0..<length (mcl_fetch l p after limit)]"
proof (rule nth_equalityI)
  fix i assume "i < length (map clr_Offset (mcl_fetch l p after limit))"
  then have i: "i < length (limit_slice limit (drop (nat after) (log_of l (Partition_Normalize p))))"
    using fetch_eq[OF assms(1)] by simp
  then have "nat after + i < length (log_of l (Partition_Normalize p))"
    using length_limit_slice_le[of limit "drop (nat after) (log_of l (Partition_Normalize p))"] by simp
  then show "map clr_Offset (mcl_fetch l p after limit) ! i = map (\<lambda>i. after + 1 + int i) [0..<length (mcl_fetch l p after limit)] ! i"
    using i assms by (simp add: fetch_eq nth_limit_slice log_of_offset)
qed simp

section \<open>The contract of a command log\<close>

locale command_log =
  fixes valid :: "'s \<Rightarrow> bool" and tail :: "'s \<Rightarrow> partition \<Rightarrow> int"
    and fetch :: "'s \<Rightarrow> partition \<Rightarrow> int \<Rightarrow> int \<Rightarrow> command_log_record list"
    and commit :: "'s \<Rightarrow> partition \<Rightarrow> int \<Rightarrow> 's" and committed :: "'s \<Rightarrow> partition \<Rightarrow> int"
  assumes fetch_consecutive: "valid s \<Longrightarrow> 0 \<le> a \<Longrightarrow>
        map clr_Offset (fetch s p a limit) = map (\<lambda>i. a + 1 + int i) [0..<length (fetch s p a limit)]"
    and fetch_progress: "valid s \<Longrightarrow> 0 \<le> a \<Longrightarrow> a < tail s p \<Longrightarrow> fetch s p a limit \<noteq> []"
    and fetch_within: "valid s \<Longrightarrow> 0 \<le> a \<Longrightarrow> fetch s p a limit \<noteq> [] \<Longrightarrow> a + int (length (fetch s p a limit)) \<le> tail s p"
    and fetch_resume: "valid s \<Longrightarrow> 0 \<le> a \<Longrightarrow>
        fetch s p a 0 = fetch s p a limit @ fetch s p (a + int (length (fetch s p a limit))) 0"
    and commit_valid: "valid s \<Longrightarrow> valid (commit s p n)"
    and commit_max: "committed (commit s p n) p = max n (committed s p)"
    and commit_fetch: "fetch (commit s p n) q a limit = fetch s q a limit"
    and commit_tail: "tail (commit s p n) q = tail s q"
begin

lemma last_offset:
  assumes "valid s" "0 \<le> a" "fetch s p a limit \<noteq> []"
  shows "clr_Offset (last (fetch s p a limit)) = a + int (length (fetch s p a limit))"
proof -
  let ?rs = "fetch s p a limit"
  have "clr_Offset (last ?rs) = last (map clr_Offset ?rs)" using assms(3) by (simp add: last_map)
  also have "\<dots> = a + int (length ?rs)"
    using assms(3) by (subst fetch_consecutive[OF assms(1, 2)]) (simp add: last_map, cases ?rs, simp_all)
  finally show ?thesis .
qed

text \<open>Reading a batch after the committed offset and committing its last record loses nothing and repeats nothing.\<close>

lemma batch_commit:
  assumes "valid s" "0 \<le> committed s p" "fetch s p (committed s p) limit \<noteq> []"
  defines "s' \<equiv> commit s p (clr_Offset (last (fetch s p (committed s p) limit)))"
  shows "fetch s p (committed s p) 0 = fetch s p (committed s p) limit @ fetch s' p (committed s' p) 0"
    and "committed s' p = committed s p + int (length (fetch s p (committed s p) limit))"
proof -
  let ?rs = "fetch s p (committed s p) limit"
  show c: "committed s' p = committed s p + int (length ?rs)"
    using last_offset[OF assms(1-3)] by (simp add: s'_def commit_max)
  show "fetch s p (committed s p) 0 = ?rs @ fetch s' p (committed s' p) 0"
    using fetch_resume[OF assms(1, 2), of p limit] unfolding c by (simp add: s'_def commit_fetch)
qed

text \<open>The cycle ends: every batch brings the committed offset closer to the tail.\<close>

lemma batch_decreases:
  fixes limit :: int
  assumes "valid s" "0 \<le> committed s p" "committed s p < tail s p"
  defines "s' \<equiv> commit s p (clr_Offset (last (fetch s p (committed s p) limit)))"
  shows "nat (tail s' p - committed s' p) < nat (tail s p - committed s p)"
proof -
  have ne: "fetch s p (committed s p) limit \<noteq> []" using assms fetch_progress by blast
  then show ?thesis
    using batch_commit(2)[OF assms(1, 2) ne] assms(3) by (simp add: s'_def commit_tail)
qed

end

interpretation memory_log: command_log command_log_ok "\<lambda>l p. int (length (log_of l (Partition_Normalize p)))"
  mcl_fetch mcl_commit mcl_committedOffset
proof unfold_locales
  fix l p a limit n q
  assume ok: "command_log_ok l"
  let ?rs = "log_of l (Partition_Normalize p)"
  show "command_log_ok (mcl_commit l p n)" using ok by (rule commit_ok)
  assume a: "0 \<le> (a :: int)"
  show "map clr_Offset (mcl_fetch l p a limit) = map (\<lambda>i. a + 1 + int i) [0..<length (mcl_fetch l p a limit)]"
    using ok a by (rule fetch_offsets)
  show "mcl_fetch l p a limit \<noteq> []" if "a < int (length ?rs)"
    using that a by (auto simp: fetch_eq[OF ok] limit_slice_def)
  show "a + int (length (mcl_fetch l p a limit)) \<le> int (length ?rs)" if "mcl_fetch l p a limit \<noteq> []"
    using that length_limit_slice_le[of limit "drop (nat a) ?rs"] a
    by (cases "nat a < length ?rs") (auto simp: fetch_eq[OF ok] limit_slice_def)
  show "mcl_fetch l p a 0 = mcl_fetch l p a limit @ mcl_fetch l p (a + int (length (mcl_fetch l p a limit))) 0"
  proof -
    have "drop (nat (a + int (length xs))) ?rs = drop (length xs) (drop (nat a) ?rs)" for xs :: "command_log_record list"
      using a by (simp add: nat_add_distrib add.commute)
    moreover have "xs = limit_slice limit xs @ drop (length (limit_slice limit xs)) xs" for xs :: "command_log_record list"
      by (simp add: limit_slice_def min_def)
    ultimately show ?thesis unfolding fetch_eq[OF ok] limit_slice_none[OF order_refl] by metis
  qed
qed (simp_all add: committed_commit mcl_fetch_def)

section \<open>A sample log\<close>

definition sample_record :: command_log_record where
  "sample_record = \<lparr>clr_Partition = Partition ''board'' ''b'', clr_Offset = 0, clr_SourcePosition = zero_source_position,
     clr_ActorID = ''u'', clr_CID = ''c1'', clr_Command = ''createThread'', clr_Payload = ''{}'', clr_EnqueuedAt = 5\<rparr>"

definition sample_log :: memory_command_log where
  "sample_log = snd (mcl_produce NewMemoryCommandLog sample_record)"

lemma sample_cid: "TrimSpace (clr_CID sample_record) = ''c1''"
  using TrimSpace_plain[of "''c1''"] by (simp add: sample_record_def plain_char_def)

lemma sample_produce: "mcl_produce NewMemoryCommandLog sample_record = (Inr (sample_record\<lparr>clr_Offset := 1\<rparr>), sample_log)"
proof -
  have "fst (mcl_produce NewMemoryCommandLog sample_record) = Inr (sample_record\<lparr>clr_Offset := 1\<rparr>)"
    using sample_cid by (simp add: mcl_produce_def mcl_append_def mcl_receipt_def NewMemoryCommandLog_def sample_record_def Let_def
        Partition_Normalize_def cloneCommandLogRecord_def NewCommandReceiptKey_def)
  then show ?thesis by (metis prod.collapse sample_log_def)
qed

lemma sample_ok: "command_log_ok sample_log"
  unfolding sample_log_def by (rule produce_ok) simp

lemma sample_log_of: "log_of sample_log (Partition ''board'' ''b'') = [sample_record\<lparr>clr_Offset := 1\<rparr>]"
  using sample_cid by (simp add: sample_log_def mcl_produce_def mcl_append_def mcl_receipt_def NewMemoryCommandLog_def sample_record_def Let_def
      Partition_Normalize_def cloneCommandLogRecord_def NewCommandReceiptKey_def log_of_def)

lemma sample_committed: "mcl_committedOffset sample_log p = 0"
  unfolding sample_log_def mcl_committedOffset_def by (simp add: NewMemoryCommandLog_def)

section \<open>Properties\<close>

text \<open>
  C29: whatever commands are produced and offsets committed, in every partition of the log the records carry
  the offsets 1, 2, 3, ... without gaps, belong to that partition, and have a command id; every receipt
  points to a stored record with that receipt.
\<close>

theorem command_log_reachable_invariant:
  fixes ops :: "log_op list"
  defines "l \<equiv> run_log NewMemoryCommandLog ops"
  shows "map clr_Offset (log_of l p) = map (\<lambda>i. int i + 1) [0..<length (log_of l p)] \<and>
     list_all (\<lambda>r. clr_Partition r = p \<and> Partition_Normalize p = p \<and> clr_CID r \<noteq> []) (log_of l p) \<and>
     list_all (\<lambda>(k, r). NewCommandReceiptKey (clr_Partition r) (clr_ActorID r) (clr_CID r) = Some k \<and>
       r \<in> set (log_of l (clr_Partition r))) (mcl_byReceipt l)"
proof -
  have ok: "command_log_ok l" unfolding l_def by (rule run_log_ok) simp
  have "Partition_Normalize p = p" if "r \<in> set (log_of l p)" for r
    using ok that by (rule log_of_member_normal)
  then show ?thesis
    using ok log_of_ok[OF ok, of p]
    by (auto simp: command_log_ok_def partition_log_ok_def list_all_iff receipt_ok_def)
qed

text \<open>
  producing a command appends at most one record. Either the log is unchanged (the
  command was refused, or its receipt was already known and the stored record is returned), or the returned record
  is appended to its own partition under the next offset, and all other partitions keep their logs.
\<close>

theorem Produce_refines_append:
  assumes "command_log_ok l"
  shows "case mcl_produce l rec of
     (Inl e, l') \<Rightarrow> l' = l
   | (Inr r, l') \<Rightarrow>
       let p = Partition_Normalize (clr_Partition rec)
       in clr_Partition r = p \<and> clr_ActorID r = clr_ActorID rec \<and> clr_Command r = clr_Command rec \<and>
          clr_Payload r = clr_Payload rec \<and> clr_EnqueuedAt r = clr_EnqueuedAt rec \<and> r \<in> set (log_of l' p) \<and>
          (l' = l \<or>
           log_of l' = (log_of l)(p := log_of l p @ [r]) \<and> clr_Offset r = int (length (log_of l p)) + 1 \<and>
           mcl_committed l' = mcl_committed l)"
proof (cases rule: mcl_produce_cases[of l rec])
  case (repeated x)
  then obtain k where "map_of (mcl_byReceipt l) k = Some x" by (auto simp: mcl_receipt_def split: option.splits)
  then have x: "x \<in> set (log_of l (clr_Partition x))" using receipt_record(2)[OF assms] by blast
  then have "cloneCommandLogRecord x = x" "Partition_Normalize (clr_Partition x) = clr_Partition x"
    using log_of_record[OF assms x] log_of_member_normal[OF assms x] by auto
  with repeated x show ?thesis
    by (auto simp: SameCommandLogRecordIdentity_def Let_def)
next
  case appended
  let ?rec = "cloneCommandLogRecord rec"
  have "log_of (snd (mcl_append l ?rec)) = (log_of l)(clr_Partition ?rec := log_of l (clr_Partition ?rec) @ [stored_record l ?rec])"
    by (auto simp: log_of_append)
  then show ?thesis
    using appended(2) by (auto simp: mcl_append_eq Let_def)
qed simp

theorem Produce_refines_append_witness:
  "case mcl_produce NewMemoryCommandLog sample_record of
     (Inl e, l') \<Rightarrow> l' = NewMemoryCommandLog
   | (Inr r, l') \<Rightarrow> r \<in> set (log_of l' (Partition ''board'' ''b''))"
  using Produce_refines_append[OF New_ok, of sample_record]
  by (auto simp: Let_def sample_record_def Partition_Normalize_def split: prod.splits sum.splits)



text \<open>
  A fetch returns the stored records after the given offset, consecutively and in
  order, all of the requested partition, up to the limit; the log is never re-ordered or skipped.
\<close>

theorem FetchPartition_contiguous:
  assumes "command_log_ok l" and "0 \<le> after"
  shows "mcl_fetch l p after limit =
       (if limit > 0 then take (nat limit) (drop (nat after) (log_of l (Partition_Normalize p)))
        else drop (nat after) (log_of l (Partition_Normalize p))) \<and>
     map clr_Offset (mcl_fetch l p after limit) = map (\<lambda>i. after + 1 + int i) [0..<length (mcl_fetch l p after limit)]"
  using assms fetch_offsets[OF assms, of p limit] by (auto simp: fetch_eq limit_slice_take limit_slice_none)

theorem FetchPartition_contiguous_witness:
  "map clr_Offset (mcl_fetch sample_log (Partition ''board'' ''b'') 0 10) = [1]"
proof -
  have "length (mcl_fetch sample_log (Partition ''board'' ''b'') 0 10) = 1"
    using FetchPartition_contiguous[OF sample_ok, of 0 "Partition ''board'' ''b''" 10] sample_log_of
    by (simp add: Partition_Normalize_def)
  then show ?thesis
    using conjunct2[OF FetchPartition_contiguous[OF sample_ok, of 0 "Partition ''board'' ''b''" 10]] by simp
qed

text \<open>
  C5: a consumer that reads a batch after the committed offset and then commits the offset of the last record
  of the batch sees every record exactly once: the batch followed by what is left is what was
  uncommitted before, and the committed offset moves by the size of the batch.
\<close>

theorem fetch_commit_exactly_once:
  fixes l :: memory_command_log and p :: partition and limit :: int
  defines "batch \<equiv> mcl_fetch l p (mcl_committedOffset l p) limit"
  defines "l' \<equiv> mcl_commit l p (clr_Offset (last batch))"
  assumes "command_log_ok l" and "0 \<le> mcl_committedOffset l p" and "batch \<noteq> []"
  shows "mcl_fetch l p (mcl_committedOffset l p) 0 = batch @ mcl_fetch l' p (mcl_committedOffset l' p) 0 \<and>
    mcl_committedOffset l' p = mcl_committedOffset l p + int (length batch)"
  using memory_log.batch_commit[of l p limit] assms by simp

theorem fetch_commit_exactly_once_witness:
  "mcl_committedOffset (mcl_commit sample_log (Partition ''board'' ''b'') 1) (Partition ''board'' ''b'') = 1"
proof -
  let ?p = "Partition ''board'' ''b''"
  have batch: "mcl_fetch sample_log ?p (mcl_committedOffset sample_log ?p) 10 = [sample_record\<lparr>clr_Offset := 1\<rparr>]"
    by (simp add: fetch_eq[OF sample_ok] sample_committed Partition_Normalize_def sample_log_of limit_slice_def)
  have "0 \<le> mcl_committedOffset sample_log ?p"
    "mcl_fetch sample_log ?p (mcl_committedOffset sample_log ?p) 10 \<noteq> []"
    by (simp_all only: batch) (simp_all add: sample_committed)
  from fetch_commit_exactly_once[OF sample_ok this] show ?thesis by (simp add: batch) (simp add: sample_committed)
qed

text \<open>
  Committed offsets only move forward: after any further operations the committed offset of
  every partition is the largest value committed to it.
\<close>

theorem committed_offset_monotone:
  "mcl_committedOffset (run_log l ops) p =
     fold max [n. OpCommit q n \<leftarrow> ops, Partition_Normalize q = Partition_Normalize p] (mcl_committedOffset l p)"
proof (induction ops arbitrary: l)
  case (Cons op ops)
  then show ?case
    by (cases op) (auto simp: committed_commit, simp add: mcl_committedOffset_def)
qed simp

text \<open>
  The listing of partition offsets reports exactly the partitions that hold records, each once, with the
  number of its records as tail and its committed offset, in order of decreasing lag.
\<close>

theorem ListCommandPartitionOffsets_exact:
  assumes "command_log_ok l"
  shows "set (mcl_listOffsets l 0) =
      {\<lparr>cpo_Partition = p, cpo_TailOffset = int (length (log_of l p)), cpo_CommittedOffset = mcl_committedOffset l p\<rparr> |p. log_of l p \<noteq> []} \<and>
    distinct (map cpo_Partition (mcl_listOffsets l 0)) \<and>
    sorted_wrt (\<lambda>a b. CommandPartitionOffset_Lag b \<le> CommandPartitionOffset_Lag a) (mcl_listOffsets l 0) \<and>
    mcl_listOffsets l limit = limit_slice limit (mcl_listOffsets l 0)"
proof -
  let ?f = "\<lambda>(p, records). \<lparr>cpo_Partition = p, cpo_TailOffset = int (length records), cpo_CommittedOffset = gm_get 0 (mcl_committed l) p\<rparr>"
  have norm: "Partition_Normalize (fst x) = fst x \<and> length (snd x) \<noteq> 0" if "x \<in> set (mcl_records l)" for x
    using assms that by (auto simp: command_log_ok_def list_all_iff)
  have "filter (\<lambda>(p, records). length records \<noteq> 0) (mcl_records l) = mcl_records l"
    using norm by (intro filter_True) (simp add: case_prod_beta)
  moreover have "map (\<lambda>(p, records). let p = Partition_Normalize p
               in \<lparr>cpo_Partition = p, cpo_TailOffset = int (length records),
                   cpo_CommittedOffset = gm_get 0 (mcl_committed l) p\<rparr>) (mcl_records l) = map ?f (mcl_records l)"
    using norm by (intro map_cong) (auto simp: Let_def)
  ultimately have list: "mcl_listOffsets l n = limit_slice n (SortCommandPartitionOffsetsByLag (map ?f (mcl_records l)))" for n
    unfolding mcl_listOffsets_def by (simp only:)
  have parts: "set (mcl_records l) = {(p, log_of l p) |p. log_of l p \<noteq> []}"
    using log_of_entry[OF assms] by auto
  have "?f ` set (mcl_records l) =
     {\<lparr>cpo_Partition = p, cpo_TailOffset = int (length (log_of l p)), cpo_CommittedOffset = mcl_committedOffset l p\<rparr> |p. log_of l p \<noteq> []}"
    unfolding parts using log_of_normal[OF assms] by (auto simp: mcl_committedOffset_def image_iff)
  moreover have "distinct (map cpo_Partition (map ?f (mcl_records l)))"
    using assms by (simp add: command_log_ok_def o_def case_prod_beta)
  then have "distinct (map cpo_Partition (mcl_listOffsets l 0))"
    by (simp only: list limit_slice_none order_refl SortCommandPartitionOffsetsByLag_def distinct_map_slice_stable)
  moreover have "sorted_wrt (\<lambda>a b. CommandPartitionOffset_Lag b \<le> CommandPartitionOffset_Lag a) (mcl_listOffsets l 0)"
    using lag_order.sorted_slice_stable[of "map ?f (mcl_records l)"]
    by (auto simp: list limit_slice_none SortCommandPartitionOffsetsByLag_def lag_less_def Let_def
        elim!: sorted_wrt_mono_rel[rotated] split: if_splits)
  ultimately show ?thesis by (simp add: list limit_slice_none SortCommandPartitionOffsetsByLag_def)
qed

theorem ListCommandPartitionOffsets_exact_witness:
  "\<lparr>cpo_Partition = Partition ''board'' ''b'', cpo_TailOffset = 1, cpo_CommittedOffset = 0\<rparr> \<in> set (mcl_listOffsets sample_log 0)"
proof -
  have "\<exists>p. \<lparr>cpo_Partition = Partition ''board'' ''b'', cpo_TailOffset = 1, cpo_CommittedOffset = 0\<rparr> =
      \<lparr>cpo_Partition = p, cpo_TailOffset = int (length (log_of sample_log p)), cpo_CommittedOffset = mcl_committedOffset sample_log p\<rparr>
      \<and> log_of sample_log p \<noteq> []"
    by (rule exI[of _ "Partition ''board'' ''b''"]) (simp add: sample_committed sample_log_of)
  then show ?thesis using ListCommandPartitionOffsets_exact[OF sample_ok, of 0] by blast
qed

end
