(* ===== verification/Partition_Assignment.thy ===== *)
theory Partition_Assignment
  imports Log_Partition
begin

text \<open>
  Which writer drains which command partition
  (\<open>internal/core/logmodel/ownership.go\<close>, \<open>assigners.go\<close>): the hash assigner, which
  spreads partitions over the members with optional overrides, and the snapshot
  assigner, which applies assignment snapshots published after a rebalance.
  The contract of an assigner is the locale \<open>partition_assigner\<close>; both assigners
  are interpreted against it.
\<close>

section \<open>Claims and assignments\<close>

record command_partition_claim =
  clm_Partition :: partition
  clm_OwnerID :: string
  clm_ExpiresAt :: int

definition NewCommandPartitionClaim :: "partition \<Rightarrow> string \<Rightarrow> int \<Rightarrow> command_partition_claim" where
  "NewCommandPartitionClaim p ownerID expiresAt =
     \<lparr>clm_Partition = Partition_Normalize p, clm_OwnerID = TrimSpace ownerID, clm_ExpiresAt = expiresAt\<rparr>"

record command_partition_assignment =
  asg_Partition :: partition
  asg_OwnerID :: string
  asg_Generation :: int

definition zero_assignment :: command_partition_assignment where
  "zero_assignment = \<lparr>asg_Partition = zero_partition, asg_OwnerID = [], asg_Generation = 0\<rparr>"

definition NewCommandPartitionAssignment :: "partition \<Rightarrow> string \<Rightarrow> int \<Rightarrow> command_partition_assignment" where
  "NewCommandPartitionAssignment p ownerID generation =
     \<lparr>asg_Partition = Partition_Normalize p, asg_OwnerID = TrimSpace ownerID, asg_Generation = generation\<rparr>"

fun assignment_partitions_loop :: "partition list \<Rightarrow> command_partition_assignment list \<Rightarrow> partition list" where
  "assignment_partitions_loop seen [] = []"
| "assignment_partitions_loop seen (a # as) =
     (let p = Partition_Normalize (asg_Partition a)
      in if p \<in> set seen then assignment_partitions_loop seen as
         else p # assignment_partitions_loop (p # seen) as)"

definition CommandPartitionAssignmentPartitions :: "command_partition_assignment list \<Rightarrow> partition list" where
  "CommandPartitionAssignmentPartitions assignments = assignment_partitions_loop [] assignments"

definition CommandPartitionAssignmentsForOwner ::
  "partition list \<Rightarrow> string \<Rightarrow> int \<Rightarrow> command_partition_assignment list" where
  "CommandPartitionAssignmentsForOwner ps ownerID generation =
     map (\<lambda>p. NewCommandPartitionAssignment p ownerID generation) ps"

record assignment_snapshot =
  snap_Generation :: int
  snap_Owners :: "(partition, string) gomap"

definition CommandPartitionAssignmentIndex :: "partition \<Rightarrow> int \<Rightarrow> nat" where
  "CommandPartitionAssignmentIndex p memberCount =
     (if memberCount \<le> 1 then 0
      else let p = Partition_Normalize p
           in New64a (pKind p @ [CHR 0x00] @ pKey p) mod nat memberCount)"

fun normalize_members_loop :: "string list \<Rightarrow> string list \<Rightarrow> string list" where
  "normalize_members_loop out [] = out"
| "normalize_members_loop out (m # ms) =
     (let m = TrimSpace m
      in if m = [] \<or> m \<in> set out then normalize_members_loop out ms
         else normalize_members_loop (out @ [m]) ms)"

definition NormalizeCommandPartitionAssignmentMembers :: "string list \<Rightarrow> string list" where
  "NormalizeCommandPartitionAssignmentMembers members = sort (normalize_members_loop [] members)"

fun normalize_owners_loop :: "(partition, string) gomap \<Rightarrow> (partition \<times> string) list \<Rightarrow> (partition, string) gomap" where
  "normalize_owners_loop out [] = out"
| "normalize_owners_loop out ((p, ownerID) # rest) =
     (let p = Partition_Normalize p; ownerID = TrimSpace ownerID
      in if pKind p = [] \<or> pKey p = [] \<or> ownerID = [] then normalize_owners_loop out rest
         else normalize_owners_loop (gm_set p ownerID out) rest)"

definition NormalizeCommandPartitionAssignmentOwners :: "(partition, string) gomap \<Rightarrow> (partition, string) gomap" where
  "NormalizeCommandPartitionAssignmentOwners assignments = normalize_owners_loop [] assignments"

fun normalize_overrides_loop ::
  "string list \<Rightarrow> (partition, string) gomap \<Rightarrow> (partition \<times> string) list \<Rightarrow> (partition, string) gomap" where
  "normalize_overrides_loop memberSet out [] = out"
| "normalize_overrides_loop memberSet out ((p, ownerID) # rest) =
     (let p = Partition_Normalize p; ownerID = TrimSpace ownerID
      in if pKind p = [] \<or> pKey p = [] \<or> ownerID = [] then normalize_overrides_loop memberSet out rest
         else if memberSet \<noteq> [] \<and> ownerID \<notin> set memberSet then normalize_overrides_loop memberSet out rest
         else normalize_overrides_loop memberSet (gm_set p ownerID out) rest)"

definition NormalizeCommandPartitionAssignmentOverrides ::
  "(partition, string) gomap \<Rightarrow> string list \<Rightarrow> (partition, string) gomap" where
  "NormalizeCommandPartitionAssignmentOverrides overrides members =
     normalize_overrides_loop (NormalizeCommandPartitionAssignmentMembers members) [] overrides"

fun clone_owners_loop :: "(partition, string) gomap \<Rightarrow> (partition \<times> string) list \<Rightarrow> (partition, string) gomap" where
  "clone_owners_loop out [] = out"
| "clone_owners_loop out ((p, ownerID) # rest) = clone_owners_loop (gm_set (Partition_Normalize p) ownerID out) rest"

definition CloneCommandPartitionAssignmentOwners :: "(partition, string) gomap \<Rightarrow> (partition, string) gomap" where
  "CloneCommandPartitionAssignmentOwners overrides = clone_owners_loop [] overrides"

fun lagging_owners_loop ::
  "string list \<Rightarrow> (partition, string) gomap \<Rightarrow> command_partition_offset list \<Rightarrow> (partition, string) gomap" where
  "lagging_owners_loop members owners [] = owners"
| "lagging_owners_loop members owners (off # offs) =
     (if members = [] then owners
      else let p = Partition_Normalize (cpo_Partition off)
           in lagging_owners_loop members
                (gm_set p (members ! CommandPartitionAssignmentIndex p (int (length members))) owners) offs)"

definition CommandPartitionAssignmentSnapshotForLaggingOffsets ::
  "command_partition_offset list \<Rightarrow> string list \<Rightarrow> int \<Rightarrow> assignment_snapshot" where
  "CommandPartitionAssignmentSnapshotForLaggingOffsets offsets members generation =
     \<lparr>snap_Generation = generation,
      snap_Owners = lagging_owners_loop (NormalizeCommandPartitionAssignmentMembers members) []
                      (LaggingCommandPartitionOffsets offsets)\<rparr>"

section \<open>The hash assigner\<close>

record hash_assigner =
  ha_members :: "string list"
  ha_overrides :: "(partition, string) gomap"
  ha_generation :: int

definition NewHashCommandPartitionAssignerWithOverrides ::
  "string list \<Rightarrow> (partition, string) gomap \<Rightarrow> int \<Rightarrow> hash_assigner" where
  "NewHashCommandPartitionAssignerWithOverrides members overrides generation =
     (let generation = (if generation \<le> 0 then 1 else generation);
          members = NormalizeCommandPartitionAssignmentMembers members
      in \<lparr>ha_members = members,
          ha_overrides = NormalizeCommandPartitionAssignmentOverrides overrides members,
          ha_generation = generation\<rparr>)"

definition NewHashCommandPartitionAssigner :: "string list \<Rightarrow> int \<Rightarrow> hash_assigner" where
  "NewHashCommandPartitionAssigner members generation =
     NewHashCommandPartitionAssignerWithOverrides members [] generation"

text \<open>The body under the read lock, for a non-nil receiver.\<close>

definition hash_assign :: "hash_assigner \<Rightarrow> string \<Rightarrow> partition \<Rightarrow> command_partition_assignment \<times> bool" where
  "hash_assign a ownerID p =
     (let p = Partition_Normalize p; ownerID = TrimSpace ownerID; members = ha_members a;
          overrides = CloneCommandPartitionAssignmentOwners (ha_overrides a)
      in if members = [] then (NewCommandPartitionAssignment p ownerID (ha_generation a), True)
         else let assignedOwner = gm_get [] overrides p;
                  assignedOwner = (if assignedOwner = []
                    then members ! CommandPartitionAssignmentIndex p (int (length members)) else assignedOwner);
                  assignment = NewCommandPartitionAssignment p assignedOwner (ha_generation a)
              in (assignment, asg_OwnerID assignment = ownerID))"

definition Hash_AssignCommandPartition ::
  "ctx \<Rightarrow> hash_assigner option \<Rightarrow> string \<Rightarrow> partition \<Rightarrow> go_error + command_partition_assignment \<times> bool" where
  "Hash_AssignCommandPartition ctx a ownerID p =
     (case ctx of Some e \<Rightarrow> Inl e
      | None \<Rightarrow>
          (case a of
             None \<Rightarrow> Inr (NewCommandPartitionAssignment (Partition_Normalize p) (TrimSpace ownerID) 1, True)
           | Some a \<Rightarrow> Inr (hash_assign a ownerID p)))"

text \<open>\<open>a.generation++; if a.generation <= 0 { a.generation = 1 }\<close>: the counter restarts after an overflow.\<close>

definition next_generation :: "int \<Rightarrow> int" where
  "next_generation g = (let g = wrap64 (g + 1) in if g \<le> 0 then 1 else g)"

definition Hash_SetMembers :: "hash_assigner \<Rightarrow> string list \<Rightarrow> hash_assigner" where
  "Hash_SetMembers a members =
     (let members = NormalizeCommandPartitionAssignmentMembers members
      in a\<lparr>ha_members := members,
           ha_overrides := NormalizeCommandPartitionAssignmentOverrides (ha_overrides a) members,
           ha_generation := next_generation (ha_generation a)\<rparr>)"

definition Hash_SetOverrides :: "hash_assigner \<Rightarrow> (partition, string) gomap \<Rightarrow> hash_assigner" where
  "Hash_SetOverrides a overrides =
     a\<lparr>ha_overrides := NormalizeCommandPartitionAssignmentOverrides overrides (ha_members a),
       ha_generation := next_generation (ha_generation a)\<rparr>"

section \<open>The snapshot assigner\<close>

record snapshot_assigner =
  sa_assignments :: "(partition, string) gomap"
  sa_generation :: int

definition ApplySnapshot :: "snapshot_assigner \<Rightarrow> assignment_snapshot \<Rightarrow> snapshot_assigner" where
  "ApplySnapshot a snapshot =
     (if snap_Generation snapshot > 0 \<and> sa_generation a > 0 \<and> snap_Generation snapshot \<le> sa_generation a then a
      else let g = (if snap_Generation snapshot > 0 then snap_Generation snapshot else wrap64 (sa_generation a + 1))
           in a\<lparr>sa_generation := (if g \<le> 0 then 1 else g),
                sa_assignments := NormalizeCommandPartitionAssignmentOwners (snap_Owners snapshot)\<rparr>)"

definition NewSnapshotCommandPartitionAssigner :: "assignment_snapshot \<Rightarrow> snapshot_assigner" where
  "NewSnapshotCommandPartitionAssigner snapshot =
     ApplySnapshot \<lparr>sa_assignments = [], sa_generation = 0\<rparr> snapshot"

definition snapshot_assign :: "snapshot_assigner \<Rightarrow> string \<Rightarrow> partition \<Rightarrow> command_partition_assignment \<times> bool" where
  "snapshot_assign a ownerID p =
     (let p = Partition_Normalize p; ownerID = TrimSpace ownerID;
          assignment = NewCommandPartitionAssignment p (gm_get [] (sa_assignments a) p) (sa_generation a)
      in (assignment, asg_OwnerID assignment \<noteq> [] \<and> asg_OwnerID assignment = ownerID))"

definition Snapshot_AssignCommandPartition ::
  "ctx \<Rightarrow> snapshot_assigner option \<Rightarrow> string \<Rightarrow> partition \<Rightarrow> go_error + command_partition_assignment \<times> bool" where
  "Snapshot_AssignCommandPartition ctx a ownerID p =
     (case ctx of Some e \<Rightarrow> Inl e
      | None \<Rightarrow> (case a of None \<Rightarrow> Inr (zero_assignment, False) | Some a \<Rightarrow> Inr (snapshot_assign a ownerID p)))"

definition snapshot_list :: "snapshot_assigner \<Rightarrow> string \<Rightarrow> int \<Rightarrow> command_partition_assignment list" where
  "snapshot_list a ownerID limit =
     (let ownerID = TrimSpace ownerID;
          assignments = CloneCommandPartitionAssignmentOwners (sa_assignments a);
          partitions = map (\<lambda>(p, _). Partition_Normalize p) (filter (\<lambda>(_, assignedOwner). assignedOwner = ownerID) assignments)
      in CommandPartitionAssignmentsForOwner (limit_slice limit (SortPartitions partitions)) ownerID (sa_generation a))"

definition ListAssignedCommandPartitions ::
  "ctx \<Rightarrow> snapshot_assigner option \<Rightarrow> string \<Rightarrow> int \<Rightarrow> go_error + command_partition_assignment list" where
  "ListAssignedCommandPartitions ctx a ownerID limit =
     (case ctx of Some e \<Rightarrow> Inl e
      | None \<Rightarrow> (case a of None \<Rightarrow> Inr [] | Some a \<Rightarrow> Inr (snapshot_list a ownerID limit)))"

section \<open>Invariants\<close>

definition owners_ok :: "(partition, string) gomap \<Rightarrow> bool" where
  "owners_ok m \<longleftrightarrow> distinct (map fst m) \<and>
     list_all (\<lambda>(p, w). Partition_Normalize p = p \<and> w \<noteq> [] \<and> TrimSpace w = w) m"

definition members_ok :: "string list \<Rightarrow> bool" where
  "members_ok ms \<longleftrightarrow> sorted ms \<and> distinct ms \<and> list_all (\<lambda>m. m \<noteq> [] \<and> TrimSpace m = m) ms"

definition hash_assigner_ok :: "hash_assigner \<Rightarrow> bool" where
  "hash_assigner_ok a \<longleftrightarrow> members_ok (ha_members a) \<and> owners_ok (ha_overrides a) \<and> 0 < ha_generation a \<and>
     (ha_members a = [] \<or> snd ` set (ha_overrides a) \<subseteq> set (ha_members a))"

definition snapshot_assigner_ok :: "snapshot_assigner \<Rightarrow> bool" where
  "snapshot_assigner_ok a \<longleftrightarrow> owners_ok (sa_assignments a) \<and> 0 < sa_generation a"

lemma owners_ok_Nil [simp]: "owners_ok []"
  by (simp add: owners_ok_def)

lemma owners_ok_set:
  "owners_ok m \<Longrightarrow> Partition_Normalize p = p \<Longrightarrow> w \<noteq> [] \<Longrightarrow> TrimSpace w = w \<Longrightarrow> owners_ok (gm_set p w m)"
  by (auto simp: owners_ok_def distinct_gm_set list_all_iff dest!: set_gm_setD)

lemma owners_ok_lookup: "owners_ok m \<Longrightarrow> map_of m p = Some w \<Longrightarrow> w \<noteq> [] \<and> TrimSpace w = w \<and> Partition_Normalize p = p"
  by (auto simp: owners_ok_def list_all_iff dest!: map_of_SomeD)

lemma owners_ok_trim [simp]: "owners_ok m \<Longrightarrow> TrimSpace (gm_get [] m p) = gm_get [] m p"
  by (auto simp: gm_get_def owners_ok_lookup split: option.splits)

lemma normalize_owners_ok: "owners_ok out \<Longrightarrow> owners_ok (normalize_owners_loop out xs)"
  by (induction out xs rule: normalize_owners_loop.induct) (auto simp: Let_def owners_ok_set)

lemma normalize_overrides_owners_ok: "owners_ok out \<Longrightarrow> owners_ok (normalize_overrides_loop ms out xs)"
  by (induction ms out xs rule: normalize_overrides_loop.induct) (simp_all add: Let_def owners_ok_set)

lemma normalize_overrides_members:
  "ms \<noteq> [] \<Longrightarrow> list_all (\<lambda>(q, v). v \<in> set ms) out \<Longrightarrow>
   list_all (\<lambda>(q, v). v \<in> set ms) (normalize_overrides_loop ms out xs)"
proof (induction ms out xs rule: normalize_overrides_loop.induct)
  case (2 ms out p w rest)
  have "list_all (\<lambda>(q, v). v \<in> set ms) (gm_set q v out)" if "v \<in> set ms" for q v
    using that "2.prems"(2) by (auto simp: list_all_iff dest!: set_gm_setD)
  with 2 show ?case by (simp add: Let_def)
qed simp

lemma normalize_overrides_ok:
  "owners_ok (normalize_overrides_loop ms [] xs) \<and>
   (ms = [] \<or> snd ` set (normalize_overrides_loop ms [] xs) \<subseteq> set ms)"
  using normalize_overrides_members[of ms "[]" xs]
  by (auto simp: normalize_overrides_owners_ok list_all_iff)

lemma normalize_members_loop_set:
  "set (normalize_members_loop out ms) = set out \<union> (TrimSpace ` set ms - {[]})"
  by (induction out ms rule: normalize_members_loop.induct) (auto simp: Let_def)

lemma normalize_members_loop_distinct: "distinct out \<Longrightarrow> distinct (normalize_members_loop out ms)"
  by (induction out ms rule: normalize_members_loop.induct) (auto simp: Let_def)

lemma set_NormalizeMembers [simp]:
  "set (NormalizeCommandPartitionAssignmentMembers ms) = TrimSpace ` set ms - {[]}"
  by (simp add: NormalizeCommandPartitionAssignmentMembers_def normalize_members_loop_set)

lemma members_ok_Normalize [simp]: "members_ok (NormalizeCommandPartitionAssignmentMembers ms)"
  by (auto simp: members_ok_def NormalizeCommandPartitionAssignmentMembers_def list_all_iff
      normalize_members_loop_distinct normalize_members_loop_set)

lemma NormalizeMembers_idem:
  assumes "members_ok ms" shows "NormalizeCommandPartitionAssignmentMembers ms = ms"
proof (rule sorted_distinct_set_unique)
  show "sorted (NormalizeCommandPartitionAssignmentMembers ms)" "distinct (NormalizeCommandPartitionAssignmentMembers ms)"
    using members_ok_Normalize[of ms] by (simp_all add: members_ok_def)
  show "sorted ms" "distinct ms" using assms by (simp_all add: members_ok_def)
  have "TrimSpace ` set ms = set ms" and "[] \<notin> set ms"
    using assms by (force simp: members_ok_def list_all_iff)+
  then show "set (NormalizeCommandPartitionAssignmentMembers ms) = set ms" by simp
qed

lemma clone_owners_lookup:
  "distinct (map fst xs) \<Longrightarrow> list_all (\<lambda>(p, w). Partition_Normalize p = p) xs \<Longrightarrow>
   map_of (clone_owners_loop out xs) = map_of out ++ map_of xs"
proof (induction out xs rule: clone_owners_loop.induct)
  case (2 out p w rest)
  then have "map_of rest p = None" by (simp add: map_of_eq_None_iff)
  with 2 show ?case by (auto simp: map_add_def fun_eq_iff split: option.splits)
qed simp

lemma Clone_lookup: "owners_ok m \<Longrightarrow> map_of (CloneCommandPartitionAssignmentOwners m) = map_of m"
  unfolding CloneCommandPartitionAssignmentOwners_def owners_ok_def
  by (subst clone_owners_lookup) (auto simp: list_all_iff)

lemma Clone_ok: "owners_ok m \<Longrightarrow> owners_ok (CloneCommandPartitionAssignmentOwners m)"
proof -
  have "owners_ok out \<Longrightarrow> list_all (\<lambda>(p, w). Partition_Normalize p = p \<and> w \<noteq> [] \<and> TrimSpace w = w) xs \<Longrightarrow>
      owners_ok (clone_owners_loop out xs)" for out xs
    by (induction out xs rule: clone_owners_loop.induct) (auto simp: owners_ok_set)
  then show "owners_ok m \<Longrightarrow> ?thesis"
    by (simp add: CloneCommandPartitionAssignmentOwners_def owners_ok_def)
qed

lemma AssignmentIndex_less: "n \<noteq> 0 \<Longrightarrow> CommandPartitionAssignmentIndex p (int n) < n"
  by (auto simp: CommandPartitionAssignmentIndex_def Let_def)

lemma Index_Normalize [simp]:
  "CommandPartitionAssignmentIndex (Partition_Normalize p) n = CommandPartitionAssignmentIndex p n"
  by (simp add: CommandPartitionAssignmentIndex_def)

lemma next_generation_pos [simp]: "0 < next_generation g"
  by (simp add: next_generation_def Let_def)

lemma next_generation_Suc: "0 \<le> g \<Longrightarrow> g < maxInt64 \<Longrightarrow> next_generation g = g + 1"
  by (simp add: next_generation_def wrap64_Suc)

lemma NewHash_ok: "hash_assigner_ok (NewHashCommandPartitionAssignerWithOverrides ms ov g)"
  using normalize_overrides_ok[of "NormalizeCommandPartitionAssignmentMembers ms" ov]
  by (auto simp: NewHashCommandPartitionAssignerWithOverrides_def hash_assigner_ok_def Let_def
      NormalizeCommandPartitionAssignmentOverrides_def NormalizeMembers_idem)

lemma SetMembers_ok: "hash_assigner_ok a \<Longrightarrow> hash_assigner_ok (Hash_SetMembers a ms)"
  using normalize_overrides_ok[of "NormalizeCommandPartitionAssignmentMembers ms" "ha_overrides a"]
  by (auto simp: Hash_SetMembers_def hash_assigner_ok_def Let_def
      NormalizeCommandPartitionAssignmentOverrides_def NormalizeMembers_idem)

lemma SetOverrides_ok: "hash_assigner_ok a \<Longrightarrow> hash_assigner_ok (Hash_SetOverrides a ov)"
  using normalize_overrides_ok[of "ha_members a" ov]
  by (auto simp: Hash_SetOverrides_def hash_assigner_ok_def
      NormalizeCommandPartitionAssignmentOverrides_def NormalizeMembers_idem)

lemma ApplySnapshot_ok:
  "snapshot_assigner_ok a \<or> sa_generation a = 0 \<Longrightarrow> snapshot_assigner_ok (ApplySnapshot a snap)"
  by (auto simp: ApplySnapshot_def snapshot_assigner_ok_def Let_def
      NormalizeCommandPartitionAssignmentOwners_def normalize_owners_ok)

section \<open>The contract of an assigner\<close>

locale partition_assigner =
  fixes valid :: "'s \<Rightarrow> bool" and assign :: "'s \<Rightarrow> string \<Rightarrow> partition \<Rightarrow> command_partition_assignment \<times> bool"
  assumes same_assignment: "valid s \<Longrightarrow> fst (assign s o1 p) = fst (assign s o2 p)"
    and owned: "valid s \<Longrightarrow> snd (assign s ow p) \<Longrightarrow> asg_OwnerID (fst (assign s ow p)) = TrimSpace ow"
    and normalized: "valid s \<Longrightarrow> assign s ow (Partition_Normalize p) = assign s ow p"
begin

lemma exclusive:
  assumes "valid s" "snd (assign s o1 p)" "snd (assign s o2 q)" "Partition_Normalize p = Partition_Normalize q"
  shows "TrimSpace o1 = TrimSpace o2"
proof -
  have "assign s o2 q = assign s o2 p" using assms normalized by metis
  then show ?thesis using assms owned same_assignment by metis
qed

text \<open>Two writers that keep only the partitions they own never work on the same one.\<close>

lemma disjoint_work:
  assumes "valid s" "TrimSpace o1 \<noteq> TrimSpace o2"
  shows "Partition_Normalize ` set (filter (\<lambda>p. snd (assign s o1 p)) ps) \<inter>
         Partition_Normalize ` set (filter (\<lambda>p. snd (assign s o2 p)) qs) = {}"
proof -
  have False if "snd (assign s o1 p)" "snd (assign s o2 q)" "Partition_Normalize p = Partition_Normalize q" for p q
    using exclusive[OF assms(1) that] assms(2) by blast
  then show ?thesis by auto
qed

end

lemma hash_assign_owner:
  assumes "hash_assigner_ok a" "ha_members a \<noteq> []"
  shows "hash_assign a ow p =
     (let w = (if gm_get [] (ha_overrides a) (Partition_Normalize p) = []
               then ha_members a ! CommandPartitionAssignmentIndex p (int (length (ha_members a)))
               else gm_get [] (ha_overrides a) (Partition_Normalize p))
      in (\<lparr>asg_Partition = Partition_Normalize p, asg_OwnerID = w, asg_Generation = ha_generation a\<rparr>, w = TrimSpace ow))"
proof -
  let ?i = "CommandPartitionAssignmentIndex p (int (length (ha_members a)))"
  have clone: "gm_get [] (CloneCommandPartitionAssignmentOwners (ha_overrides a)) q = gm_get [] (ha_overrides a) q" for q
    using assms(1) by (simp add: gm_get_def Clone_lookup hash_assigner_ok_def)
  have "ha_members a ! ?i \<in> set (ha_members a)"
    using assms(2) by (intro nth_mem AssignmentIndex_less) simp
  then have "TrimSpace (ha_members a ! ?i) = ha_members a ! ?i"
    using assms(1) by (auto simp: hash_assigner_ok_def members_ok_def list_all_iff)
  moreover have "TrimSpace (gm_get [] (ha_overrides a) q) = gm_get [] (ha_overrides a) q" for q
    using assms(1) by (simp add: hash_assigner_ok_def)
  ultimately show ?thesis
    using assms(2) by (auto simp: hash_assign_def Let_def NewCommandPartitionAssignment_def clone)
qed

interpretation hash: partition_assigner "\<lambda>a. hash_assigner_ok a \<and> ha_members a \<noteq> []" hash_assign
  by unfold_locales (auto simp: hash_assign_owner Let_def)

interpretation snapshot: partition_assigner snapshot_assigner_ok snapshot_assign
  by unfold_locales (auto simp: snapshot_assign_def NewCommandPartitionAssignment_def Let_def)

section \<open>Properties\<close>

text \<open>
  With at least one member, the hash assigner gives every partition to exactly one of the members,
  whatever member lists and overrides it was built from.
\<close>

theorem hash_assigner_unique_owner:
  fixes members :: "string list" and overrides :: "(partition, string) gomap" and g :: int and p :: partition
  defines "a \<equiv> NewHashCommandPartitionAssignerWithOverrides members overrides g"
  assumes "NormalizeCommandPartitionAssignmentMembers members \<noteq> []"
  shows "\<exists>!m. m \<in> set (NormalizeCommandPartitionAssignmentMembers members) \<and> snd (hash_assign a m p)"
proof -
  let ?ms = "NormalizeCommandPartitionAssignmentMembers members"
  have ok: "hash_assigner_ok a" and ms: "ha_members a = ?ms"
    by (simp_all add: a_def NewHash_ok) (simp add: NewHashCommandPartitionAssignerWithOverrides_def Let_def)
  define w where "w = (if gm_get [] (ha_overrides a) (Partition_Normalize p) = []
      then ?ms ! CommandPartitionAssignmentIndex p (int (length ?ms))
      else gm_get [] (ha_overrides a) (Partition_Normalize p))"
  have assign: "snd (hash_assign a m p) \<longleftrightarrow> w = TrimSpace m" for m
    using hash_assign_owner[OF ok, of m p] assms(2) by (simp add: ms w_def Let_def)
  have "?ms ! CommandPartitionAssignmentIndex p (int (length ?ms)) \<in> set ?ms"
    using assms(2) by (intro nth_mem AssignmentIndex_less) simp
  moreover have "gm_get [] (ha_overrides a) q \<in> set ?ms" if "gm_get [] (ha_overrides a) q \<noteq> []" for q
    using ok assms(2) that ms
    by (auto simp: hash_assigner_ok_def gm_get_def split: option.splits dest!: map_of_SomeD)
  ultimately have "w \<in> set ?ms" by (simp add: w_def)
  moreover have trim: "TrimSpace m = m" if "m \<in> set ?ms" for m
    using that by auto
  ultimately show ?thesis using assign by metis
qed

theorem hash_assigner_unique_owner_witness:
  "\<exists>!m. m \<in> set (NormalizeCommandPartitionAssignmentMembers [''w1'', ''w2'']) \<and>
     snd (hash_assign (NewHashCommandPartitionAssignerWithOverrides [''w1'', ''w2''] [] 1) m (Partition ''board'' ''b''))"
proof (rule hash_assigner_unique_owner)
  have "TrimSpace ''w1'' = ''w1''" by (rule TrimSpace_plain) code_simp
  then have "''w1'' \<in> set (NormalizeCommandPartitionAssignmentMembers [''w1'', ''w2''])" by simp
  then show "NormalizeCommandPartitionAssignmentMembers [''w1'', ''w2''] \<noteq> []"
    by (metis empty_iff list.set(1))
qed

datatype hash_op = SetMembers "string list" | SetOverrides "(partition, string) gomap"

fun run_hash_op :: "hash_assigner \<Rightarrow> hash_op \<Rightarrow> hash_assigner" where
  "run_hash_op a (SetMembers ms) = Hash_SetMembers a ms"
| "run_hash_op a (SetOverrides ov) = Hash_SetOverrides a ov"

lemma run_hash_ops_ok: "hash_assigner_ok a \<Longrightarrow> hash_assigner_ok (foldl run_hash_op a ops)"
proof (induction ops arbitrary: a)
  case (Cons op ops)
  then have "hash_assigner_ok (run_hash_op a op)"
    by (cases op) (simp_all add: SetMembers_ok SetOverrides_ok)
  with Cons.IH show ?case by simp
qed simp



text \<open>
  A snapshot with a generation that is not newer is ignored, any other one installs its normalised
  owners, and the generation never goes back (below the largest 64-bit value).
\<close>

theorem ApplySnapshot_generation:
  assumes "0 \<le> sa_generation a" and "sa_generation a < maxInt64"
  shows "(if 0 < snap_Generation snap \<and> 0 < sa_generation a \<and> snap_Generation snap \<le> sa_generation a
          then ApplySnapshot a snap = a
          else sa_generation a < sa_generation (ApplySnapshot a snap) \<and>
               sa_assignments (ApplySnapshot a snap) = NormalizeCommandPartitionAssignmentOwners (snap_Owners snap))"
  using assms by (auto simp: ApplySnapshot_def Let_def wrap64_Suc)

theorem ApplySnapshot_generation_witness:
  "ApplySnapshot \<lparr>sa_assignments = [(Partition ''board'' ''b'', ''w1'')], sa_generation = 5\<rparr>
     \<lparr>snap_Generation = 5, snap_Owners = []\<rparr> = \<lparr>sa_assignments = [(Partition ''board'' ''b'', ''w1'')], sa_generation = 5\<rparr>"
  using ApplySnapshot_generation[of "\<lparr>sa_assignments = [(Partition ''board'' ''b'', ''w1'')], sa_generation = 5\<rparr>"
      "\<lparr>snap_Generation = 5, snap_Owners = []\<rparr>"]
  by (simp add: maxInt64_def)

lemma snapshot_owned:
  assumes "snapshot_assigner_ok a"
  shows "snd (snapshot_assign a ow p) \<longleftrightarrow> map_of (sa_assignments a) (Partition_Normalize p) = Some (TrimSpace ow)"
  using assms owners_ok_lookup[of "sa_assignments a" "Partition_Normalize p"]
  by (auto simp: snapshot_assign_def NewCommandPartitionAssignment_def Let_def gm_get_def
      snapshot_assigner_ok_def split: option.splits)

lemma snapshot_list_partitions:
  assumes "snapshot_assigner_ok a"
  shows "map asg_Partition (snapshot_list a ow 0) =
     SortPartitions (map fst (filter (\<lambda>(_, w). w = TrimSpace ow) (CloneCommandPartitionAssignmentOwners (sa_assignments a))))"
proof -
  let ?m = "CloneCommandPartitionAssignmentOwners (sa_assignments a)"
  let ?f = "filter (\<lambda>(_, w). w = TrimSpace ow) ?m"
  have norm: "Partition_Normalize p = p" if "p \<in> set (map fst ?f)" for p
    using that Clone_ok assms by (fastforce simp: snapshot_assigner_ok_def owners_ok_def list_all_iff)
  have keys: "map (\<lambda>(p, _). Partition_Normalize p) ?f = map fst ?f"
  proof (rule map_cong[OF refl])
    fix x assume "x \<in> set ?f"
    then have "Partition_Normalize (fst x) = fst x" by (metis norm list.set_map imageI)
    then show "(case x of (p, _) \<Rightarrow> Partition_Normalize p) = fst x" by (cases x) simp
  qed
  have "map asg_Partition (CommandPartitionAssignmentsForOwner (SortPartitions (map fst ?f)) (TrimSpace ow) (sa_generation a))
      = map Partition_Normalize (SortPartitions (map fst ?f))"
    by (simp add: CommandPartitionAssignmentsForOwner_def NewCommandPartitionAssignment_def)
  also have "\<dots> = SortPartitions (map fst ?f)"
    by (rule map_idI, rule norm) (simp only: SortPartitions_def set_slice_stable)
  finally show ?thesis
    by (simp only: snapshot_list_def Let_def keys limit_slice_none TrimSpace_idem)
qed

text \<open>
  The list of partitions a writer is told it owns is exactly the set of partitions for which
  the assigner would answer yes, without repetitions and in partition order.
\<close>

theorem snapshot_list_is_owned:
  assumes "snapshot_assigner_ok a"
  shows "set (map asg_Partition (snapshot_list a ow 0)) = {p. Partition_Normalize p = p \<and> snd (snapshot_assign a ow p)} \<and>
    distinct (map asg_Partition (snapshot_list a ow 0)) \<and>
    sorted_wrt (\<lambda>p q. \<not> Partition_Less q p) (map asg_Partition (snapshot_list a ow 0))"
proof -
  let ?m = "CloneCommandPartitionAssignmentOwners (sa_assignments a)"
  let ?ps = "map fst (filter (\<lambda>(_, w). w = TrimSpace ow) ?m)"
  have ok: "owners_ok ?m" and look: "map_of ?m = map_of (sa_assignments a)"
    using assms Clone_ok Clone_lookup by (simp_all add: snapshot_assigner_ok_def)
  have mem: "p \<in> set ?ps \<longleftrightarrow> map_of ?m p = Some (TrimSpace ow)" for p
    using ok by (auto simp: owners_ok_def image_iff)
  have "p \<in> set ?ps \<longleftrightarrow> Partition_Normalize p = p \<and> snd (snapshot_assign a ow p)" for p
    unfolding mem using snapshot_owned[OF assms] owners_ok_lookup[OF ok] by (metis look)
  then have "set ?ps = {p. Partition_Normalize p = p \<and> snd (snapshot_assign a ow p)}" by blast
  moreover have "distinct ?ps"
    using ok by (simp add: owners_ok_def distinct_map_filter)
  ultimately show ?thesis
    using assms partition_order.sorted_slice_stable[of ?ps]
    by (simp only: snapshot_list_partitions) (simp add: SortPartitions_def)
qed

theorem snapshot_list_is_owned_witness:
  "set (map asg_Partition (snapshot_list \<lparr>sa_assignments = [(Partition ''board'' ''b'', ''w1'')], sa_generation = 1\<rparr> ''w1'' 0))
   = {p. Partition_Normalize p = p \<and>
         snd (snapshot_assign \<lparr>sa_assignments = [(Partition ''board'' ''b'', ''w1'')], sa_generation = 1\<rparr> ''w1'' p)}"
proof -
  have "TrimSpace ''w1'' = ''w1''" by (rule TrimSpace_plain) code_simp
  then show ?thesis
    using snapshot_list_is_owned[of "\<lparr>sa_assignments = [(Partition ''board'' ''b'', ''w1'')], sa_generation = 1\<rparr>" "''w1''"]
    by (simp add: snapshot_assigner_ok_def owners_ok_def Partition_Normalize_def)
qed

lemma lagging_owners_lookup:
  "members \<noteq> [] \<Longrightarrow>
   map_of (lagging_owners_loop members owners offs) p =
     (if p \<in> (\<lambda>off. Partition_Normalize (cpo_Partition off)) ` set offs
      then Some (members ! CommandPartitionAssignmentIndex p (int (length members)))
      else map_of owners p)"
  by (induction members owners offs rule: lagging_owners_loop.induct) (auto simp: Let_def)

text \<open>
  The snapshot computed from lagging offsets covers exactly the partitions that lag, and gives each
  to the member that the hash assigner without overrides would give it to.
\<close>

theorem lagging_snapshot_agrees_with_hash:
  assumes "NormalizeCommandPartitionAssignmentMembers members \<noteq> []"
  shows "map_of (snap_Owners (CommandPartitionAssignmentSnapshotForLaggingOffsets offs members g)) p =
    (if p \<in> (\<lambda>off. Partition_Normalize (cpo_Partition off)) ` {off \<in> set offs. 0 < CommandPartitionOffset_Lag off}
     then Some (asg_OwnerID (fst (hash_assign (NewHashCommandPartitionAssigner members g) ow p)))
     else None)"
proof -
  let ?ms = "NormalizeCommandPartitionAssignmentMembers members"
  let ?a = "NewHashCommandPartitionAssigner members g"
  have a: "hash_assigner_ok ?a" "ha_members ?a = ?ms" "ha_overrides ?a = []"
    by (simp_all add: NewHashCommandPartitionAssigner_def NewHash_ok)
      (simp_all add: NewHashCommandPartitionAssignerWithOverrides_def NormalizeCommandPartitionAssignmentOverrides_def Let_def)
  then have owner: "asg_OwnerID (fst (hash_assign ?a ow p)) = ?ms ! CommandPartitionAssignmentIndex p (int (length ?ms))"
    using hash_assign_owner[OF a(1), of ow p] assms by (simp add: Let_def)
  let ?L = "{off \<in> set offs. 0 < CommandPartitionOffset_Lag off}"
  have "(\<lambda>off. Partition_Normalize (cpo_Partition off)) ` set (LaggingCommandPartitionOffsets offs)
      = (\<lambda>off. Partition_Normalize (cpo_Partition off)) ` ?L"
  proof
    show "(\<lambda>off. Partition_Normalize (cpo_Partition off)) ` set (LaggingCommandPartitionOffsets offs)
        \<subseteq> (\<lambda>off. Partition_Normalize (cpo_Partition off)) ` ?L"
      using lagging_loop_props[of "[]" offs] by (force simp: LaggingCommandPartitionOffsets_def)
    show "(\<lambda>off. Partition_Normalize (cpo_Partition off)) ` ?L
        \<subseteq> (\<lambda>off. Partition_Normalize (cpo_Partition off)) ` set (LaggingCommandPartitionOffsets offs)"
    proof
      fix q assume "q \<in> (\<lambda>off. Partition_Normalize (cpo_Partition off)) ` ?L"
      then obtain x where x: "x \<in> ?L" "q = Partition_Normalize (cpo_Partition x)" by blast
      then obtain y where "y \<in> set (LaggingCommandPartitionOffsets offs)" "cpo_Partition y = q"
        using lagging_loop_complete[of x offs "[]"] by (auto simp: LaggingCommandPartitionOffsets_def)
      then show "q \<in> (\<lambda>off. Partition_Normalize (cpo_Partition off)) ` set (LaggingCommandPartitionOffsets offs)"
        using x(2) by (metis Normalize_idem image_eqI)
    qed
  qed
  then show ?thesis
    using assms by (simp add: CommandPartitionAssignmentSnapshotForLaggingOffsets_def lagging_owners_lookup owner)
qed

theorem lagging_snapshot_agrees_with_hash_witness:
  "map_of (snap_Owners (CommandPartitionAssignmentSnapshotForLaggingOffsets
      [\<lparr>cpo_Partition = Partition ''board'' ''b'', cpo_TailOffset = 3, cpo_CommittedOffset = 1\<rparr>] [''w1''] 1))
      (Partition ''board'' ''b'') =
   Some (asg_OwnerID (fst (hash_assign (NewHashCommandPartitionAssigner [''w1''] 1) ''w1'' (Partition ''board'' ''b''))))"
proof -
  have ms: "NormalizeCommandPartitionAssignmentMembers [''w1''] \<noteq> []" by code_simp
  show ?thesis
    using lagging_snapshot_agrees_with_hash[OF ms,
        of "[\<lparr>cpo_Partition = Partition ''board'' ''b'', cpo_TailOffset = 3, cpo_CommittedOffset = 1\<rparr>]" 1
          "Partition ''board'' ''b''" "''w1''"]
    by (simp add: Partition_Normalize_def CommandPartitionOffset_Lag_def image_iff)
qed

end
