(* ===== verification/Command_Worker.thy ===== *)
theory Command_Worker
  imports Command_Log Partition_Assignment
begin

text \<open>
  The command-log worker (\<open>internal/core/command_log_worker.go\<close>): it lists partitions, checks assignment and
  claim of each, fetches the uncommitted records, executes them in order, finalizes them and commits their
  offsets, refreshing its ownership between the steps.

  The collaborators of the worker (log, assigner, claimer, executor, finalizer) are interfaces in the source. Here
  they are functions on a state \<open>'s\<close> they share, collected in \<open>worker_deps\<close>. Goroutines that run
  the executor or finalizer while a ticker refreshes ownership are modelled by their interleaving: the
  call takes effect when it is started, and \<open>wd_schedule\<close> says how often the ticker fires before the call
  is over, or that the context is done first.
\<close>

section \<open>Replies, results and collaborators\<close>

record error_detail =
  ed_Code :: string
  ed_Message :: string
  ed_Retryable :: bool
  ed_RetryAfterMs :: int

record ack_result =
  ar_ID :: string
  ar_Seq :: int
  ar_Status :: string
  ar_CommandID :: string
  ar_CommandPartitionKind :: string
  ar_CommandPartitionKey :: string
  ar_CommandOffset :: int

record reply =
  rp_Result :: "ack_result option"
  rp_Err :: "error_detail option"

text \<open>An error text field is \<open>None\<close> while it is empty, and keeps the error otherwise.\<close>

record finalization_result =
  fr_Applied :: int
  fr_TerminalFailures :: int
  fr_TerminalFailure :: "error_detail option"
  fr_RetryableFailure :: "error_detail option"
  fr_CommitFailures :: int
  fr_CommitFailure :: "go_error option"
  fr_Committed :: bool

definition zero_finalization :: finalization_result where
  "zero_finalization = \<lparr>fr_Applied = 0, fr_TerminalFailures = 0, fr_TerminalFailure = None, fr_RetryableFailure = None,
     fr_CommitFailures = 0, fr_CommitFailure = None, fr_Committed = False\<rparr>"

record worker_result =
  wr_Partition :: partition
  wr_Assigned :: bool
  wr_AssignmentLost :: bool
  wr_AssignmentOwnerID :: string
  wr_AssignmentGeneration :: int
  wr_Claimed :: bool
  wr_ClaimLost :: bool
  wr_ClaimOwnerID :: string
  wr_ClaimExpiresAt :: int
  wr_StartedOffset :: int
  wr_LastOffset :: int
  wr_Processed :: int
  wr_Applied :: int
  wr_TerminalFailures :: int
  wr_TerminalFailure :: "error_detail option"
  wr_CommitFailures :: int
  wr_CommitFailure :: "go_error option"
  wr_FinalizerFailure :: "go_error option"
  wr_RetryableFailure :: "error_detail option"

definition new_worker_result :: "partition \<Rightarrow> worker_result" where
  "new_worker_result p = \<lparr>wr_Partition = p, wr_Assigned = False, wr_AssignmentLost = False, wr_AssignmentOwnerID = [],
     wr_AssignmentGeneration = 0, wr_Claimed = False, wr_ClaimLost = False, wr_ClaimOwnerID = [], wr_ClaimExpiresAt = 0,
     wr_StartedOffset = 0, wr_LastOffset = 0, wr_Processed = 0, wr_Applied = 0, wr_TerminalFailures = 0, wr_TerminalFailure = None,
     wr_CommitFailures = 0, wr_CommitFailure = None, wr_FinalizerFailure = None, wr_RetryableFailure = None\<rparr>"

text \<open>The worker with its collaborators. Optional interfaces are \<open>None\<close> when they are nil or not implemented.\<close>

record 's worker_deps =
  wd_ownerID :: string
  wd_batchSize :: int
  wd_partitionLimit :: int
  wd_commitAttempts :: int
  wd_claimTTL :: int
  wd_claimRefreshInterval :: int
  wd_ctx :: "'s \<Rightarrow> ctx"
  wd_schedule :: "'s \<Rightarrow> nat \<times> go_error option"
  wd_committedOffset :: "partition \<Rightarrow> 's \<Rightarrow> (go_error + int) \<times> 's"
  wd_fetchPartition :: "partition \<Rightarrow> int \<Rightarrow> int \<Rightarrow> 's \<Rightarrow> (go_error + command_log_record list) \<times> 's"
  wd_commitPartition :: "partition \<Rightarrow> int \<Rightarrow> 's \<Rightarrow> go_error option \<times> 's"
  wd_recordCommit :: "(partition \<Rightarrow> int \<Rightarrow> 's \<Rightarrow> go_error option \<times> 's) option"
  wd_allowRebalance :: "('s \<Rightarrow> 's) option"
  wd_partitions :: "(int \<Rightarrow> 's \<Rightarrow> (go_error + partition list) \<times> 's) option"
  wd_assign :: "(string \<Rightarrow> partition \<Rightarrow> 's \<Rightarrow> (go_error + command_partition_assignment \<times> bool) \<times> 's) option"
  wd_assignList :: "(string \<Rightarrow> int \<Rightarrow> 's \<Rightarrow> (go_error + command_partition_assignment list) \<times> 's) option"
  wd_assignStable :: bool
  wd_claim :: "(string \<Rightarrow> partition \<Rightarrow> int \<Rightarrow> 's \<Rightarrow> (go_error + command_partition_claim \<times> bool) \<times> 's) option"
  wd_execute :: "command_log_record \<Rightarrow> 's \<Rightarrow> reply \<times> 's"
  wd_finalize :: "command_log_record \<Rightarrow> reply \<Rightarrow> 's \<Rightarrow> (finalization_result \<times> go_error option) \<times> 's"
  wd_finalizeBatch :: "(command_log_record list \<Rightarrow> reply list \<Rightarrow> 's \<Rightarrow> (finalization_result \<times> go_error option) \<times> 's) option"

section \<open>Ownership\<close>

type_synonym 's worker_state = "worker_result \<times> 's"

definition commandLogWorkerAssignmentResult :: "partition \<Rightarrow> command_partition_assignment \<Rightarrow> bool \<Rightarrow> worker_result" where
  "commandLogWorkerAssignmentResult p asg assigned =
     (new_worker_result (Partition_Normalize p))\<lparr>wr_Assigned := assigned, wr_AssignmentOwnerID := asg_OwnerID asg,
        wr_AssignmentGeneration := asg_Generation asg\<rparr>"

definition assignPartition :: "'s worker_deps \<Rightarrow> partition \<Rightarrow> 's \<Rightarrow> (go_error + command_partition_assignment \<times> bool) \<times> 's" where
  "assignPartition d p s =
     (case wd_assign d of
        None \<Rightarrow> (Inr (NewCommandPartitionAssignment p (wd_ownerID d) 1, True), s)
      | Some assign \<Rightarrow> assign (wd_ownerID d) p s)"

definition claimPartition :: "'s worker_deps \<Rightarrow> partition \<Rightarrow> 's \<Rightarrow> (go_error + command_partition_claim \<times> bool) \<times> 's" where
  "claimPartition d p s =
     (case wd_claim d of
        None \<Rightarrow> (Inr (NewCommandPartitionClaim p (wd_ownerID d) 0, True), s)
      | Some claim \<Rightarrow> claim (wd_ownerID d) p (wd_claimTTL d) s)"

definition shouldRefreshOwnership :: "'s worker_deps \<Rightarrow> bool" where
  "shouldRefreshOwnership d =
     (if wd_claim d \<noteq> None then True
      else if wd_assign d = None then False
      else \<not> wd_assignStable d)"

definition shouldHeartbeatOwnership :: "'s worker_deps \<Rightarrow> bool" where
  "shouldHeartbeatOwnership d \<longleftrightarrow> shouldRefreshOwnership d \<and> wd_claimRefreshInterval d > 0"

definition refreshAssignment :: "'s worker_deps \<Rightarrow> partition \<Rightarrow> 's worker_state \<Rightarrow> (go_error + bool) \<times> 's worker_state" where
  "refreshAssignment d p st =
     (case assignPartition d p (snd st) of
        (Inl e, s) \<Rightarrow> (Inl e, (fst st, s))
      | (Inr (asg, assigned), s) \<Rightarrow>
          let res = (fst st)\<lparr>wr_Assigned := assigned, wr_AssignmentOwnerID := asg_OwnerID asg, wr_AssignmentGeneration := asg_Generation asg\<rparr>;
              res = (if \<not> assigned then res\<lparr>wr_AssignmentLost := True\<rparr> else res)
          in (Inr assigned, (res, s)))"

definition refreshClaim :: "'s worker_deps \<Rightarrow> partition \<Rightarrow> 's worker_state \<Rightarrow> (go_error + bool) \<times> 's worker_state" where
  "refreshClaim d p st =
     (case claimPartition d p (snd st) of
        (Inl e, s) \<Rightarrow> (Inl e, (fst st, s))
      | (Inr (claim, acquired), s) \<Rightarrow>
          let res = (fst st)\<lparr>wr_ClaimOwnerID := clm_OwnerID claim, wr_ClaimExpiresAt := clm_ExpiresAt claim\<rparr>;
              res = (if \<not> acquired then res\<lparr>wr_ClaimLost := True\<rparr> else res)
          in (Inr acquired, (res, s)))"

definition refreshOwnership :: "'s worker_deps \<Rightarrow> partition \<Rightarrow> 's worker_state \<Rightarrow> (go_error + bool) \<times> 's worker_state" where
  "refreshOwnership d p st =
     (case refreshAssignment d p st of
        (Inl e, st) \<Rightarrow> (Inl e, st)
      | (Inr assigned, st) \<Rightarrow> if \<not> assigned then (Inr False, st) else refreshClaim d p st)"

definition refreshOwnershipIfNeeded :: "'s worker_deps \<Rightarrow> partition \<Rightarrow> 's worker_state \<Rightarrow> (go_error + bool) \<times> 's worker_state" where
  "refreshOwnershipIfNeeded d p st = (if \<not> shouldRefreshOwnership d then (Inr True, st) else refreshOwnership d p st)"

section \<open>Heartbeats\<close>

text \<open>The ticker branch of the select loops: once ownership is lost or an error occurred, ticks are ignored.\<close>

fun heartbeat_ticks ::
  "'s worker_deps \<Rightarrow> partition \<Rightarrow> nat \<Rightarrow> bool \<Rightarrow> go_error option \<Rightarrow> 's worker_state \<Rightarrow> (bool \<times> go_error option) \<times> 's worker_state" where
  "heartbeat_ticks d p 0 owned err st = ((owned, err), st)"
| "heartbeat_ticks d p (Suc n) owned err st =
     (if \<not> owned then heartbeat_ticks d p n owned err st
      else case refreshOwnership d p st of
             (Inl e, st) \<Rightarrow> heartbeat_ticks d p n False (Some e) st
           | (Inr acquired, st) \<Rightarrow> heartbeat_ticks d p n acquired err st)"

fun is_canceled :: "go_error \<Rightarrow> bool" where
  "is_canceled (CtxErr m) = (m = ''context canceled'')"
| "is_canceled (Errorf m args) = False"
| "is_canceled (Wrapf m args e) = is_canceled e"

text \<open>The result is the reply, whether the partition is still owned, and an error.\<close>

definition executeWithOwnershipHeartbeat ::
  "'s worker_deps \<Rightarrow> partition \<Rightarrow> command_log_record \<Rightarrow> 's worker_state \<Rightarrow> (go_error + reply \<times> bool) \<times> 's worker_state" where
  "executeWithOwnershipHeartbeat d p rec st =
     (if \<not> shouldHeartbeatOwnership d
      then let (rp, s) = wd_execute d rec (snd st) in (Inr (rp, True), (fst st, s))
      else let (ticks, ctxDone) = wd_schedule d (snd st);
               (rp, s) = wd_execute d rec (snd st);
               ((owned, refreshErr), st) = heartbeat_ticks d p ticks True None (fst st, s)
           in case ctxDone of
                Some e \<Rightarrow> (Inl e, st)
              | None \<Rightarrow> (case refreshErr of Some e \<Rightarrow> (Inl e, st) | None \<Rightarrow> (Inr (rp, owned), st)))"

text \<open>The select loop of the two finalizing functions; \<open>call\<close> is the finalizer call.\<close>

definition finalize_heartbeat ::
  "'s worker_deps \<Rightarrow> partition \<Rightarrow> ('s \<Rightarrow> (finalization_result \<times> go_error option) \<times> 's) \<Rightarrow> 's worker_state \<Rightarrow>
     (finalization_result \<times> bool \<times> go_error option) \<times> 's worker_state" where
  "finalize_heartbeat d p call st =
     (if \<not> shouldHeartbeatOwnership d
      then let ((fin, err), s) = call (snd st) in ((fin, True, err), (fst st, s))
      else let (ticks, ctxDone) = wd_schedule d (snd st);
               ((fin, err), s) = call (snd st);
               ((owned, ownershipErr), st) = heartbeat_ticks d p ticks True None (fst st, s)
           in case ctxDone of
                Some e \<Rightarrow> ((zero_finalization, False, Some e), st)
              | None \<Rightarrow>
                  (case ownershipErr of
                     Some e \<Rightarrow> ((fin, False, Some e), st)
                   | None \<Rightarrow>
                       if \<not> owned
                       then (case err of
                               Some e \<Rightarrow> if \<not> is_canceled e then ((fin, False, Some e), st) else ((fin, False, None), st)
                             | None \<Rightarrow> ((fin, False, None), st))
                       else ((fin, True, err), st)))"

definition finalizeWithOwnershipHeartbeat ::
  "'s worker_deps \<Rightarrow> partition \<Rightarrow> command_log_record \<Rightarrow> reply \<Rightarrow> 's worker_state \<Rightarrow>
     (finalization_result \<times> bool \<times> go_error option) \<times> 's worker_state" where
  "finalizeWithOwnershipHeartbeat d p rec rp = finalize_heartbeat d p (wd_finalize d rec rp)"

definition finalizeBatchWithOwnershipHeartbeat ::
  "'s worker_deps \<Rightarrow> partition \<Rightarrow> command_log_record list \<Rightarrow> reply list \<Rightarrow>
     (command_log_record list \<Rightarrow> reply list \<Rightarrow> 's \<Rightarrow> (finalization_result \<times> go_error option) \<times> 's) \<Rightarrow> 's worker_state \<Rightarrow>
     (finalization_result \<times> bool \<times> go_error option) \<times> 's worker_state" where
  "finalizeBatchWithOwnershipHeartbeat d p recs rps batchFinalizer = finalize_heartbeat d p (batchFinalizer recs rps)"

section \<open>Committing\<close>

fun commit_attempts ::
  "'s worker_deps \<Rightarrow> partition \<Rightarrow> int \<Rightarrow> nat \<Rightarrow> go_error \<Rightarrow> 's worker_state \<Rightarrow> (go_error + bool) \<times> 's worker_state" where
  "commit_attempts d p offset 0 lastErr st =
     (Inl (Wrapf ''command log worker: commit partition %s/%s offset %d failed after %d attempts: %w''
        [Astr (pKind p), Astr (pKey p), Aint offset, Aint (if wd_commitAttempts d \<le> 0 then 1 else wd_commitAttempts d)] lastErr), st)"
| "commit_attempts d p offset (Suc n) lastErr st =
     (case wd_ctx d (snd st) of
        Some e \<Rightarrow> (Inl e, st)
      | None \<Rightarrow>
          (case refreshOwnershipIfNeeded d p st of
             (Inl e, st) \<Rightarrow> (Inl e, st)
           | (Inr acquired, st) \<Rightarrow>
               if \<not> acquired then (Inr False, st)
               else (case wd_commitPartition d p offset (snd st) of
                       (Some e, s) \<Rightarrow>
                         commit_attempts d p offset n e
                           ((fst st)\<lparr>wr_CommitFailures := wr_CommitFailures (fst st) + 1, wr_CommitFailure := Some e\<rparr>, s)
                     | (None, s) \<Rightarrow> (Inr True, ((fst st)\<lparr>wr_CommitFailure := None\<rparr>, s)))))"

text \<open>There is at least one attempt, so the initial error value is never used.\<close>

definition commitPartition :: "'s worker_deps \<Rightarrow> partition \<Rightarrow> int \<Rightarrow> 's worker_state \<Rightarrow> (go_error + bool) \<times> 's worker_state" where
  "commitPartition d p offset st =
     commit_attempts d p offset (nat (if wd_commitAttempts d \<le> 0 then 1 else wd_commitAttempts d)) (Errorf [] []) st"

definition recordFinalizedCommit :: "'s worker_deps \<Rightarrow> partition \<Rightarrow> int \<Rightarrow> 's worker_state \<Rightarrow> go_error option \<times> 's worker_state" where
  "recordFinalizedCommit d p offset st =
     (case wd_ctx d (snd st) of
        Some e \<Rightarrow> (Some e, st)
      | None \<Rightarrow>
          (case wd_recordCommit d of
             None \<Rightarrow> (None, st)
           | Some recorder \<Rightarrow>
               (case recorder p offset (snd st) of
                  (Some e, s) \<Rightarrow> (Some e, ((fst st)\<lparr>wr_CommitFailures := wr_CommitFailures (fst st) + 1, wr_CommitFailure := Some e\<rparr>, s))
                | (None, s) \<Rightarrow> (None, ((fst st)\<lparr>wr_CommitFailure := None\<rparr>, s)))))"

definition applyCommandLogFinalizationResult :: "worker_result \<Rightarrow> finalization_result \<Rightarrow> worker_result" where
  "applyCommandLogFinalizationResult res fin =
     res\<lparr>wr_Applied := wr_Applied res + fr_Applied fin,
         wr_TerminalFailures := wr_TerminalFailures res + fr_TerminalFailures fin,
         wr_TerminalFailure := (if fr_TerminalFailure fin \<noteq> None then fr_TerminalFailure fin else wr_TerminalFailure res),
         wr_CommitFailures := wr_CommitFailures res + fr_CommitFailures fin,
         wr_CommitFailure := (if fr_CommitFailure fin \<noteq> None then fr_CommitFailure fin else wr_CommitFailure res),
         wr_RetryableFailure := (if fr_RetryableFailure fin \<noteq> None then fr_RetryableFailure fin else wr_RetryableFailure res)\<rparr>"

definition advanceCommandLogWorkerResult :: "worker_result \<Rightarrow> int \<Rightarrow> int \<Rightarrow> worker_result" where
  "advanceCommandLogWorkerResult res offset n =
     (if n \<le> 0 then res else res\<lparr>wr_LastOffset := offset, wr_Processed := wr_Processed res + n\<rparr>)"

definition validateCommandLogWorkerOffsetProgress :: "partition \<Rightarrow> int \<Rightarrow> command_log_record \<Rightarrow> go_error option" where
  "validateCommandLogWorkerOffsetProgress p lastOffset rec =
     (let p = Partition_Normalize p
      in case SourcePosition_ValidateFor (clr_SourcePosition rec) (clr_Partition rec) (clr_Offset rec) of
           Some e \<Rightarrow> Some (Wrapf ''command log worker: invalid source position in %s/%s offset %d: %w''
                      [Astr (pKind p), Astr (pKey p), Aint (clr_Offset rec)] e)
         | None \<Rightarrow>
             if clr_Offset rec = wrap64 (lastOffset + 1) then None
             else if SourcePosition_IsZero (clr_SourcePosition rec) then
               Some (Errorf ''command log worker: offset gap in %s/%s: got %d after %d''
                 [Astr (pKind p), Astr (pKey p), Aint (clr_Offset rec), Aint lastOffset])
             else None)"

section \<open>Draining one partition record by record\<close>

text \<open>What the body of a loop does next: go on, leave with no error, or leave with an error.\<close>

datatype flow = Continue | Stop | Fail go_error

text \<open>\<open>if finalized.Committed { recordFinalizedCommit ...; advance }\<close> before leaving with \<open>done\<close>.\<close>

definition leave_committed ::
  "'s worker_deps \<Rightarrow> partition \<Rightarrow> int \<Rightarrow> int \<Rightarrow> bool \<Rightarrow> flow \<Rightarrow> 's worker_state \<Rightarrow> flow \<times> 's worker_state" where
  "leave_committed d p offset n committed leave st =
     (if \<not> committed then (leave, st)
      else case recordFinalizedCommit d p offset st of
             (Some e, st) \<Rightarrow> (Fail e, st)
           | (None, st) \<Rightarrow> (leave, (advanceCommandLogWorkerResult (fst st) offset n, snd st)))"

text \<open>Everything after the reply of the executor.\<close>

definition settle_record ::
  "'s worker_deps \<Rightarrow> partition \<Rightarrow> command_log_record \<Rightarrow> reply \<Rightarrow> 's worker_state \<Rightarrow> flow \<times> 's worker_state" where
  "settle_record d p rec rp st =
     (case finalizeWithOwnershipHeartbeat d p rec rp st of
        ((fin, acquired, err), st) \<Rightarrow>
          let st = (applyCommandLogFinalizationResult (fst st) fin, snd st)
          in case err of
               Some e \<Rightarrow>
                 leave_committed d p (clr_Offset rec) 1 (fr_Committed fin) (Fail e)
                   (if fr_CommitFailure fin = None then (fst st)\<lparr>wr_FinalizerFailure := Some e\<rparr> else fst st, snd st)
             | None \<Rightarrow>
                 if \<not> acquired then leave_committed d p (clr_Offset rec) 1 (fr_Committed fin) Stop st
                 else if fr_RetryableFailure fin \<noteq> None then (Stop, st)
                 else if fr_Committed fin then leave_committed d p (clr_Offset rec) 1 True Continue st
                 else (case commitPartition d p (clr_Offset rec) st of
                         (Inl e, st) \<Rightarrow> (Fail e, st)
                       | (Inr committed, st) \<Rightarrow>
                           if \<not> committed then (Stop, st)
                           else (Continue, (advanceCommandLogWorkerResult (fst st) (clr_Offset rec) 1, snd st))))"

text \<open>The checks and the execution before that; the reply is handed on.\<close>

definition execute_record ::
  "'s worker_deps \<Rightarrow> partition \<Rightarrow> int \<Rightarrow> command_log_record \<Rightarrow> 's worker_state \<Rightarrow> (flow + reply) \<times> 's worker_state" where
  "execute_record d p lastOffset rec st =
     (case validateCommandLogWorkerOffsetProgress p lastOffset rec of
        Some e \<Rightarrow> (Inl (Fail e), st)
      | None \<Rightarrow>
          (case refreshOwnershipIfNeeded d p st of
             (Inl e, st) \<Rightarrow> (Inl (Fail e), st)
           | (Inr acquired, st) \<Rightarrow>
               if \<not> acquired then (Inl Stop, st)
               else (case executeWithOwnershipHeartbeat d p rec st of
                       (Inl e, st) \<Rightarrow> (Inl (Fail e), st)
                     | (Inr (rp, acquired), st) \<Rightarrow>
                         if \<not> acquired then (Inl Stop, st)
                         else (case refreshOwnershipIfNeeded d p st of
                                 (Inl e, st) \<Rightarrow> (Inl (Fail e), st)
                               | (Inr acquired, st) \<Rightarrow> if \<not> acquired then (Inl Stop, st) else (Inr rp, st)))))"

fun drain_records ::
  "'s worker_deps \<Rightarrow> partition \<Rightarrow> command_log_record list \<Rightarrow> 's worker_state \<Rightarrow> go_error option \<times> 's worker_state" where
  "drain_records d p [] st = (None, st)"
| "drain_records d p (rec # recs) st =
     (case wd_ctx d (snd st) of
        Some e \<Rightarrow> (Some e, st)
      | None \<Rightarrow>
          if clr_Offset rec \<le> wr_LastOffset (fst st) then drain_records d p recs st
          else (case execute_record d p (wr_LastOffset (fst st)) rec st of
                  (Inl Stop, st) \<Rightarrow> (None, st)
                | (Inl (Fail e), st) \<Rightarrow> (Some e, st)
                | (Inl Continue, st) \<Rightarrow> (None, st)
                | (Inr rp, st) \<Rightarrow>
                    (case settle_record d p rec rp st of
                       (Fail e, st) \<Rightarrow> (Some e, st)
                     | (Stop, st) \<Rightarrow> (None, st)
                     | (Continue, st) \<Rightarrow> drain_records d p recs st)))"

section \<open>Draining one partition in batches\<close>

text \<open>
  The records that were executed and not yet finalized are \<open>pending\<close>, with their replies; the flag of a flush says
  whether the loop may go on.
\<close>

definition flushPending ::
  "'s worker_deps \<Rightarrow> partition \<Rightarrow> (command_log_record list \<Rightarrow> reply list \<Rightarrow> 's \<Rightarrow> (finalization_result \<times> go_error option) \<times> 's) \<Rightarrow>
     (command_log_record \<times> reply) list \<Rightarrow> 's worker_state \<Rightarrow> flow \<times> 's worker_state" where
  "flushPending d p batchFinalizer pending st =
     (if pending = [] then (Continue, st)
      else case finalizeBatchWithOwnershipHeartbeat d p (map fst pending) (map snd pending) batchFinalizer st of
        ((fin, acquired, err), st) \<Rightarrow>
          let st = (applyCommandLogFinalizationResult (fst st) fin, snd st);
              offset = clr_Offset (fst (last pending)); n = int (length pending)
          in case err of
               Some e \<Rightarrow>
                 leave_committed d p offset n (fr_Committed fin) (Fail e)
                   (if fr_CommitFailure fin = None then (fst st)\<lparr>wr_FinalizerFailure := Some e\<rparr> else fst st, snd st)
             | None \<Rightarrow>
                 if \<not> acquired then leave_committed d p offset n (fr_Committed fin) Stop st
                 else if fr_RetryableFailure fin \<noteq> None then (Stop, st)
                 else if \<not> fr_Committed fin then
                   let e = Errorf ''command log worker: batch finalizer did not commit partition %s/%s through offset %d''
                             [Astr (pKind p), Astr (pKey p), Aint offset]
                   in (Fail e, ((fst st)\<lparr>wr_FinalizerFailure := Some e\<rparr>, snd st))
                 else leave_committed d p offset n True Continue st)"

text \<open>A retryable reply: flush what is pending, then finalize this record alone and leave.\<close>

definition settle_retryable ::
  "'s worker_deps \<Rightarrow> partition \<Rightarrow> command_log_record \<Rightarrow> reply \<Rightarrow> 's worker_state \<Rightarrow> flow \<times> 's worker_state" where
  "settle_retryable d p rec rp st =
     (case finalizeWithOwnershipHeartbeat d p rec rp st of
        ((fin, acquired, err), st) \<Rightarrow>
          let st = (applyCommandLogFinalizationResult (fst st) fin, snd st)
          in case err of
               Some e \<Rightarrow>
                 leave_committed d p (clr_Offset rec) 1 (fr_Committed fin) (Fail e)
                   (if fr_CommitFailure fin = None then (fst st)\<lparr>wr_FinalizerFailure := Some e\<rparr> else fst st, snd st)
             | None \<Rightarrow> leave_committed d p (clr_Offset rec) 1 (fr_Committed fin) Stop st)"

definition flow_error :: "flow \<Rightarrow> go_error option" where
  "flow_error f = (case f of Fail e \<Rightarrow> Some e | _ \<Rightarrow> None)"

definition pending_last :: "(command_log_record \<times> reply) list \<Rightarrow> worker_result \<Rightarrow> int" where
  "pending_last pending res = (if pending = [] then wr_LastOffset res else clr_Offset (fst (last pending)))"

fun drain_batch ::
  "'s worker_deps \<Rightarrow> partition \<Rightarrow> (command_log_record list \<Rightarrow> reply list \<Rightarrow> 's \<Rightarrow> (finalization_result \<times> go_error option) \<times> 's) \<Rightarrow>
     (command_log_record \<times> reply) list \<Rightarrow> command_log_record list \<Rightarrow> 's worker_state \<Rightarrow> go_error option \<times> 's worker_state" where
  "drain_batch d p fb pending [] st = (case flushPending d p fb pending st of (f, st) \<Rightarrow> (flow_error f, st))"
| "drain_batch d p fb pending (rec # recs) st =
     (case wd_ctx d (snd st) of
        Some e \<Rightarrow> (Some e, st)
      | None \<Rightarrow>
          if clr_Offset rec \<le> pending_last pending (fst st) then drain_batch d p fb pending recs st
          else (case execute_record d p (pending_last pending (fst st)) rec st of
                  (Inl f, st) \<Rightarrow> (flow_error f, st)
                | (Inr rp, st) \<Rightarrow>
                    (case rp_Err rp of
                       Some e \<Rightarrow>
                         if ed_Retryable e then
                           (case flushPending d p fb pending st of
                              (Continue, st) \<Rightarrow> (case settle_retryable d p rec rp st of (f, st) \<Rightarrow> (flow_error f, st))
                            | (f, st) \<Rightarrow> (flow_error f, st))
                         else drain_batch d p fb (pending @ [(rec, rp)]) recs st
                     | None \<Rightarrow> drain_batch d p fb (pending @ [(rec, rp)]) recs st)))"

section \<open>Draining partitions\<close>

definition allowCommandLogRebalance :: "'s worker_deps \<Rightarrow> 's \<Rightarrow> 's" where
  "allowCommandLogRebalance d s = (case wd_allowRebalance d of None \<Rightarrow> s | Some allow \<Rightarrow> allow s)"

text \<open>
  With a batch finalizer the method evaluates \<open>return result, f(..., &result)\<close>. The Go specification leaves the order of
  evaluating the variable and the call open; here the result is read after the call.
\<close>

definition drainPartition :: "'s worker_deps \<Rightarrow> partition \<Rightarrow> 's \<Rightarrow> (worker_result \<times> go_error option) \<times> 's" where
  "drainPartition d p s =
     (case wd_committedOffset d p s of
        (Inl e, s) \<Rightarrow> ((new_worker_result p, Some e), s)
      | (Inr committed, s) \<Rightarrow>
          let res = (new_worker_result p)\<lparr>wr_StartedOffset := committed, wr_LastOffset := committed\<rparr>
          in case wd_fetchPartition d p committed (wd_batchSize d) s of
               (Inl e, s) \<Rightarrow> ((res, Some e), allowCommandLogRebalance d s)
             | (Inr records, s) \<Rightarrow>
                 (case (case wd_finalizeBatch d of
                          Some fb \<Rightarrow> drain_batch d p fb [] records (res, s)
                        | None \<Rightarrow> drain_records d p records (res, s)) of
                    (err, (res, s)) \<Rightarrow> ((res, err), allowCommandLogRebalance d s)))"

definition drainListedPartition :: "'s worker_deps \<Rightarrow> partition \<Rightarrow> 's \<Rightarrow> (worker_result \<times> go_error option) \<times> 's" where
  "drainListedPartition d p s =
     (let p = Partition_Normalize p
      in case assignPartition d p s of
           (Inl e, s) \<Rightarrow> ((new_worker_result p, Some e), s)
         | (Inr (asg, assigned), s) \<Rightarrow>
             if \<not> assigned then ((commandLogWorkerAssignmentResult p asg False, None), s)
             else (case claimPartition d p s of
                     (Inl e, s) \<Rightarrow> ((new_worker_result p, Some e), s)
                   | (Inr (claim, acquired), s) \<Rightarrow>
                       if \<not> acquired
                       then (((commandLogWorkerAssignmentResult p asg True)
                                \<lparr>wr_ClaimOwnerID := clm_OwnerID claim, wr_ClaimExpiresAt := clm_ExpiresAt claim\<rparr>, None), s)
                       else (case drainPartition d p s of
                               ((res, err), s) \<Rightarrow>
                                 let res = (if \<not> wr_AssignmentLost res then res\<lparr>wr_Assigned := True\<rparr> else res);
                                     res = (if wr_AssignmentOwnerID res = []
                                            then res\<lparr>wr_AssignmentOwnerID := asg_OwnerID asg, wr_AssignmentGeneration := asg_Generation asg\<rparr>
                                            else res);
                                     res = res\<lparr>wr_Claimed := True\<rparr>;
                                     res = (if wr_ClaimOwnerID res = []
                                            then res\<lparr>wr_ClaimOwnerID := clm_OwnerID claim, wr_ClaimExpiresAt := clm_ExpiresAt claim\<rparr>
                                            else res)
                                 in ((res, err), s))))"

fun drainPartitionsSequentially ::
  "'s worker_deps \<Rightarrow> partition list \<Rightarrow> 's \<Rightarrow> (worker_result list \<times> go_error option) \<times> 's" where
  "drainPartitionsSequentially d [] s = (([], None), s)"
| "drainPartitionsSequentially d (p # ps) s =
     (case drainListedPartition d p s of
        ((res, Some e), s) \<Rightarrow> (([res], Some e), s)
      | ((res, None), s) \<Rightarrow>
          (case drainPartitionsSequentially d ps s of ((results, err), s) \<Rightarrow> ((res # results, err), s)))"

definition listDrainPartitions :: "'s worker_deps \<Rightarrow> 's \<Rightarrow> (go_error + partition list) \<times> 's" where
  "listDrainPartitions d s =
     (case wd_assignList d of
        Some list \<Rightarrow>
          (case list (wd_ownerID d) (wd_partitionLimit d) s of
             (Inl e, s) \<Rightarrow> (Inl e, s)
           | (Inr asgs, s) \<Rightarrow> (Inr (CommandPartitionAssignmentPartitions asgs), s))
      | None \<Rightarrow>
          (case wd_partitions d of
             None \<Rightarrow> (Inl (Errorf ''command log worker: nil partition lister'' []), s)
           | Some list \<Rightarrow> list (wd_partitionLimit d) s))"

text \<open>\<open>DrainOnce\<close> with a partition concurrency of one, for a worker whose log, executor and finalizer are set.\<close>

definition DrainOnce :: "'s worker_deps \<Rightarrow> 's \<Rightarrow> (worker_result list \<times> go_error option) \<times> 's" where
  "DrainOnce d s =
     (case wd_ctx d s of
        Some e \<Rightarrow> (([], Some e), s)
      | None \<Rightarrow>
          if wd_partitions d = None \<and> wd_assignList d = None
          then (([], Some (Errorf ''command log worker: nil partition lister'' [])), s)
          else (case listDrainPartitions d s of
                  (Inl e, s) \<Rightarrow> (([], Some e), s)
                | (Inr ps, s) \<Rightarrow> drainPartitionsSequentially d ps s))"

section \<open>The default finalizer\<close>

record 's failure_recorders =
  rec_applied :: "(command_log_record \<Rightarrow> ack_result \<Rightarrow> 's \<Rightarrow> go_error option \<times> 's) option"
  rec_terminal :: "(command_log_record \<Rightarrow> error_detail \<Rightarrow> 's \<Rightarrow> go_error option \<times> 's) option"
  rec_retryable :: "(command_log_record \<Rightarrow> error_detail \<Rightarrow> 's \<Rightarrow> go_error option \<times> 's) option"

definition call_recorder :: "('a \<Rightarrow> 'b \<Rightarrow> 's \<Rightarrow> go_error option \<times> 's) option \<Rightarrow> 'a \<Rightarrow> 'b \<Rightarrow> 's \<Rightarrow> go_error option \<times> 's" where
  "call_recorder r a b s = (case r of None \<Rightarrow> (None, s) | Some f \<Rightarrow> f a b s)"

definition DefaultFinalizer_FinalizeCommandLogRecord ::
  "'s failure_recorders \<Rightarrow> command_log_record \<Rightarrow> reply \<Rightarrow> 's \<Rightarrow> (finalization_result \<times> go_error option) \<times> 's" where
  "DefaultFinalizer_FinalizeCommandLogRecord f rec rp s =
     (case rp_Err rp of
        Some e \<Rightarrow>
          if ed_Retryable e then
            (case call_recorder (rec_retryable f) rec e s of
               (err, s) \<Rightarrow> ((zero_finalization\<lparr>fr_RetryableFailure := Some e\<rparr>, err), s))
          else
            (case call_recorder (rec_terminal f) rec e s of
               (err, s) \<Rightarrow> ((zero_finalization\<lparr>fr_TerminalFailures := 1, fr_TerminalFailure := Some e\<rparr>, err), s))
      | None \<Rightarrow>
          (case (rec_applied f, rp_Result rp) of
             (Some apply_rec, Some r) \<Rightarrow>
               (case apply_rec rec r s of
                  (Some err, s) \<Rightarrow> ((zero_finalization, Some err), s)
                | (None, s) \<Rightarrow> ((zero_finalization\<lparr>fr_Applied := 1\<rparr>, None), s))
           | _ \<Rightarrow> ((zero_finalization, None), s)))"

end
