(* ===== verification/Worker_Safety.thy ===== *)
theory Worker_Safety
  imports Command_Worker
begin

text \<open>
  What the worker may ask of its collaborators, and when. The calls of a run are recorded by \<open>traced\<close>, which
  wraps any collaborators without changing what they do, and a monitor (a small state machine) checks the
  sequence: records are executed in offset order without gaps and one at a time, a record is finalized only
  after it was executed, an offset is committed only after its record was finalized, and every one of these steps
  follows a fresh confirmation of ownership.
\<close>

section \<open>Tracing\<close>

datatype call =
    CallAssign "bool option"
  | CallClaim "bool option"
  | CallExecute command_log_record
  | CallFinalize command_log_record finalization_result "go_error option"
  | CallCommit partition int "go_error option"
  | CallRecord partition int "go_error option"

definition trace_call :: "('s \<Rightarrow> 'a \<times> 's) \<Rightarrow> ('a \<Rightarrow> call) \<Rightarrow> 's \<times> call list \<Rightarrow> 'a \<times> 's \<times> call list" where
  "trace_call f note_call st = (case f (fst st) of (a, s) \<Rightarrow> (a, (s, snd st @ [note_call a])))"

definition silent :: "('s \<Rightarrow> 'a \<times> 's) \<Rightarrow> 's \<times> call list \<Rightarrow> 'a \<times> 's \<times> call list" where
  "silent f st = (case f (fst st) of (a, s) \<Rightarrow> (a, (s, snd st)))"

definition answer :: "go_error + 'a \<times> bool \<Rightarrow> bool option" where
  "answer r = (case r of Inl e \<Rightarrow> None | Inr (a, b) \<Rightarrow> Some b)"

definition traced :: "'s worker_deps \<Rightarrow> ('s \<times> call list) worker_deps" where
  "traced d = \<lparr>wd_ownerID = wd_ownerID d, wd_batchSize = wd_batchSize d, wd_partitionLimit = wd_partitionLimit d,
     wd_commitAttempts = wd_commitAttempts d, wd_claimTTL = wd_claimTTL d, wd_claimRefreshInterval = wd_claimRefreshInterval d,
     wd_ctx = (\<lambda>st. wd_ctx d (fst st)), wd_schedule = (\<lambda>st. wd_schedule d (fst st)),
     wd_committedOffset = (\<lambda>p. silent (wd_committedOffset d p)),
     wd_fetchPartition = (\<lambda>p a n. silent (wd_fetchPartition d p a n)),
     wd_commitPartition = (\<lambda>p n. trace_call (wd_commitPartition d p n) (CallCommit p n)),
     wd_recordCommit = map_option (\<lambda>f p n. trace_call (f p n) (CallRecord p n)) (wd_recordCommit d),
     wd_allowRebalance = map_option (\<lambda>f st. (f (fst st), snd st)) (wd_allowRebalance d),
     wd_partitions = map_option (\<lambda>f n. silent (f n)) (wd_partitions d),
     wd_assign = map_option (\<lambda>f w p. trace_call (f w p) (CallAssign \<circ> answer)) (wd_assign d),
     wd_assignList = map_option (\<lambda>f w n. silent (f w n)) (wd_assignList d),
     wd_assignStable = wd_assignStable d,
     wd_claim = map_option (\<lambda>f w p ttl. trace_call (f w p ttl) (CallClaim \<circ> answer)) (wd_claim d),
     wd_execute = (\<lambda>r. trace_call (wd_execute d r) (\<lambda>_. CallExecute r)),
     wd_finalize = (\<lambda>r rp. trace_call (wd_finalize d r rp) (\<lambda>(fin, err). CallFinalize r fin err)),
     wd_finalizeBatch = map_option (\<lambda>f rs rps. silent (f rs rps)) (wd_finalizeBatch d)\<rparr>"

lemma traced_flags [simp]:
  "shouldRefreshOwnership (traced d) = shouldRefreshOwnership d"
  "shouldHeartbeatOwnership (traced d) = shouldHeartbeatOwnership d"
  "wd_ctx (traced d) st = wd_ctx d (fst st)" "wd_schedule (traced d) st = wd_schedule d (fst st)"
  "wd_ownerID (traced d) = wd_ownerID d" "wd_commitAttempts (traced d) = wd_commitAttempts d"
  "wd_claimTTL (traced d) = wd_claimTTL d" "wd_batchSize (traced d) = wd_batchSize d"
  by (simp_all add: traced_def shouldRefreshOwnership_def shouldHeartbeatOwnership_def)

section \<open>Tracing changes nothing\<close>

definition erase :: "'a \<times> ('s \<times> call list) worker_state \<Rightarrow> 'a \<times> 's worker_state" where
  "erase x = (fst x, (fst (snd x), fst (snd (snd x))))"

definition untraced :: "('s \<times> call list) worker_state \<Rightarrow> 's worker_state" where
  "untraced st = (fst st, fst (snd st))"

lemmas trace_defs = traced_def trace_call_def silent_def erase_def untraced_def

lemma untraced_Pair [simp]: "untraced (res, (s, tr)) = (res, s)"
  by (simp add: untraced_def)

lemma erase_Pair: "f = (a, st) \<Longrightarrow> erase f = (a, untraced st)"
  by (simp add: erase_def untraced_def)

lemma refreshAssignment_erase: "erase (refreshAssignment (traced d) p st) = refreshAssignment d p (untraced st)"
  by (auto simp: refreshAssignment_def assignPartition_def trace_defs Let_def split: option.splits prod.splits sum.splits)

lemma refreshClaim_erase: "erase (refreshClaim (traced d) p st) = refreshClaim d p (untraced st)"
  by (auto simp: refreshClaim_def claimPartition_def trace_defs Let_def split: option.splits prod.splits sum.splits)

lemma refreshOwnership_erase: "erase (refreshOwnership (traced d) p st) = refreshOwnership d p (untraced st)"
proof -
  obtain r st1 where 1: "refreshAssignment (traced d) p st = (r, st1)" by (metis prod.collapse)
  then have "refreshAssignment d p (untraced st) = (r, untraced st1)"
    using refreshAssignment_erase[of d p st] by (simp add: erase_Pair)
  with 1 show ?thesis
    using refreshClaim_erase[of d p st1] by (simp add: refreshOwnership_def erase_Pair split: sum.splits)
qed

lemma refreshIfNeeded_erase: "erase (refreshOwnershipIfNeeded (traced d) p st) = refreshOwnershipIfNeeded d p (untraced st)"
  by (simp add: refreshOwnershipIfNeeded_def refreshOwnership_erase erase_Pair)

lemma heartbeat_erase: "erase (heartbeat_ticks (traced d) p n owned err st) = heartbeat_ticks d p n owned err (untraced st)"
proof (induction n arbitrary: owned err st)
  case (Suc n)
  obtain r st1 where 1: "refreshOwnership (traced d) p st = (r, st1)" by (metis prod.collapse)
  then have "refreshOwnership d p (untraced st) = (r, untraced st1)"
    using refreshOwnership_erase[of d p st] by (simp add: erase_Pair)
  with 1 Suc show ?case by (auto split: sum.splits)
qed (simp add: erase_Pair)

lemma execute_erase: "erase (executeWithOwnershipHeartbeat (traced d) p rec st) = executeWithOwnershipHeartbeat d p rec (untraced st)"
proof -
  obtain res s tr where st: "st = (res, (s, tr))" by (metis prod.collapse)
  obtain rp s1 where 1: "wd_execute d rec s = (rp, s1)" by (metis prod.collapse)
  then have 2: "wd_execute (traced d) rec (s, tr) = (rp, (s1, tr @ [CallExecute rec]))" by (simp add: trace_defs)
  obtain n c where 3: "wd_schedule d s = (n, c)" by (metis prod.collapse)
  obtain b e st2 where 4: "heartbeat_ticks (traced d) p n True None (res, (s1, tr @ [CallExecute rec])) = ((b, e), st2)" by (metis prod.collapse)
  then have 5: "heartbeat_ticks d p n True None (res, s1) = ((b, e), untraced st2)"
    using heartbeat_erase[of d p n True None "(res, (s1, tr @ [CallExecute rec]))"] by (simp add: erase_Pair untraced_def)
  show ?thesis
    using 1 2 3 4 5 by (auto simp: executeWithOwnershipHeartbeat_def st erase_Pair split: option.splits)
qed

lemma finalize_erase: "erase (finalizeWithOwnershipHeartbeat (traced d) p rec rp st) = finalizeWithOwnershipHeartbeat d p rec rp (untraced st)"
proof -
  obtain res s tr where st: "st = (res, (s, tr))" by (metis prod.collapse)
  obtain fin err s1 where 1: "wd_finalize d rec rp s = ((fin, err), s1)" by (metis prod.collapse)
  let ?tr = "tr @ [CallFinalize rec fin err]"
  have 2: "wd_finalize (traced d) rec rp (s, tr) = ((fin, err), (s1, ?tr))" using 1 by (simp add: trace_defs)
  obtain n c where 3: "wd_schedule d s = (n, c)" by (metis prod.collapse)
  obtain b e st2 where 4: "heartbeat_ticks (traced d) p n True None (res, (s1, ?tr)) = ((b, e), st2)" by (metis prod.collapse)
  then have 5: "heartbeat_ticks d p n True None (res, s1) = ((b, e), untraced st2)"
    using heartbeat_erase[of d p n True None "(res, (s1, ?tr))"] by (simp add: erase_Pair)
  show ?thesis
    using 1 2 3 4 5 by (auto simp: finalizeWithOwnershipHeartbeat_def finalize_heartbeat_def st erase_Pair split: option.splits)
qed

lemma commit_erase: "erase (commit_attempts (traced d) p k n e st) = commit_attempts d p k n e (untraced st)"
proof (induction n arbitrary: e st)
  case (Suc n)
  obtain r st1 where 1: "refreshOwnershipIfNeeded (traced d) p st = (r, st1)" by (metis prod.collapse)
  then have 2: "refreshOwnershipIfNeeded d p (untraced st) = (r, untraced st1)"
    using refreshIfNeeded_erase[of d p st] by (simp add: erase_Pair)
  obtain res s tr where st1: "st1 = (res, (s, tr))" by (metis prod.collapse)
  obtain c s1 where 3: "wd_commitPartition d p k s = (c, s1)" by (metis prod.collapse)
  then have 4: "wd_commitPartition (traced d) p k (s, tr) = (c, (s1, tr @ [CallCommit p k c]))" by (simp add: trace_defs)
  have ctx: "wd_ctx d (snd (untraced st)) = wd_ctx d (fst (snd st))" by (simp add: untraced_def)
  show ?case
    using 1 2 3 4 Suc[of _ "(_, (s1, tr @ [CallCommit p k c]))"] ctx st1
    by (auto simp: erase_Pair split: option.splits sum.splits)
qed (simp add: erase_Pair)

lemma commitPartition_erase: "erase (commitPartition (traced d) p k st) = commitPartition d p k (untraced st)"
  by (simp add: commitPartition_def commit_erase)

lemma leave_erase: "erase (leave_committed (traced d) p k n b f st) = leave_committed d p k n b f (untraced st)"
  by (cases st, cases "snd st")
    (auto simp: leave_committed_def recordFinalizedCommit_def trace_defs split: option.splits prod.splits)

lemma settle_erase: "erase (settle_record (traced d) p rec rp st) = settle_record d p rec rp (untraced st)"
proof -
  obtain fin b err st1 where 1: "finalizeWithOwnershipHeartbeat (traced d) p rec rp st = ((fin, b, err), st1)" by (metis prod.collapse)
  then have 2: "finalizeWithOwnershipHeartbeat d p rec rp (untraced st) = ((fin, b, err), untraced st1)"
    using finalize_erase[of d p rec rp st] by (simp add: erase_Pair)
  obtain res s tr where st1: "st1 = (res, (s, tr))" by (metis prod.collapse)
  let ?res = "applyCommandLogFinalizationResult res fin"
  obtain c st2 where 3: "commitPartition (traced d) p (clr_Offset rec) (?res, (s, tr)) = (c, st2)" by (metis prod.collapse)
  then have 4: "commitPartition d p (clr_Offset rec) (?res, s) = (c, untraced st2)"
    using commitPartition_erase[of d p "clr_Offset rec" "(?res, (s, tr))"] by (simp add: erase_Pair)
  show ?thesis
    using 1 2 3 4 st1 leave_erase[of d p "clr_Offset rec" 1 _ _ "(_, (s, tr))"]
    by (auto simp: settle_record_def Let_def erase_Pair untraced_def split: option.splits sum.splits)
qed

lemma execute_record_erase: "erase (execute_record (traced d) p n rec st) = execute_record d p n rec (untraced st)"
proof -
  obtain r1 st1 where 1: "refreshOwnershipIfNeeded (traced d) p st = (r1, st1)" by (metis prod.collapse)
  obtain r2 st2 where 2: "executeWithOwnershipHeartbeat (traced d) p rec st1 = (r2, st2)" by (metis prod.collapse)
  obtain r3 st3 where 3: "refreshOwnershipIfNeeded (traced d) p st2 = (r3, st3)" by (metis prod.collapse)
  have "refreshOwnershipIfNeeded d p (untraced st) = (r1, untraced st1)"
    "executeWithOwnershipHeartbeat d p rec (untraced st1) = (r2, untraced st2)"
    "refreshOwnershipIfNeeded d p (untraced st2) = (r3, untraced st3)"
    using refreshIfNeeded_erase[of d p st] execute_erase[of d p rec st1] refreshIfNeeded_erase[of d p st2] 1 2 3 by (simp_all add: erase_Pair)
  with 1 2 3 show ?thesis by (auto simp: execute_record_def erase_Pair split: option.splits sum.splits)
qed

lemma drain_erase: "erase (drain_records (traced d) p recs st) = drain_records d p recs (untraced st)"
proof (induction recs arbitrary: st)
  case (Cons rec recs)
  obtain r st1 where 1: "execute_record (traced d) p (wr_LastOffset (fst st)) rec st = (r, st1)" by (metis prod.collapse)
  then have 2: "execute_record d p (wr_LastOffset (fst st)) rec (untraced st) = (r, untraced st1)"
    using execute_record_erase[of d p "wr_LastOffset (fst st)" rec st] by (simp add: erase_Pair)
  have ctx: "wd_ctx d (snd (untraced st)) = wd_ctx d (fst (snd st))" "fst (untraced st) = fst st" by (simp_all add: untraced_def)
  show ?case
  proof (cases r)
    case (Inl f)
    then show ?thesis using 1 2 ctx Cons[of st] by (cases f) (auto simp: erase_Pair split: option.splits)
  next
    case (Inr rp)
    obtain f st2 where 3: "settle_record (traced d) p rec rp st1 = (f, st2)" by (metis prod.collapse)
    then have 4: "settle_record d p rec rp (untraced st1) = (f, untraced st2)"
      using settle_erase[of d p rec rp st1] by (simp add: erase_Pair)
    show ?thesis using 1 2 3 4 ctx Inr Cons[of st] Cons[of st2] by (cases f) (auto simp: erase_Pair split: option.splits)
  qed
qed (simp add: erase_Pair)

lemma drainPartition_erase:
  assumes "wd_finalizeBatch d = None"
  shows "drainPartition d p s = (fst (drainPartition (traced d) p (s, tr)), fst (snd (drainPartition (traced d) p (s, tr))))"
proof -
  have allow: "fst (allowCommandLogRebalance (traced d) x) = allowCommandLogRebalance d (fst x)" for x
    by (simp add: allowCommandLogRebalance_def traced_def split: option.splits)
  obtain r s1 where 1: "wd_committedOffset d p s = (r, s1)" by (metis prod.collapse)
  show ?thesis
  proof (cases r)
    case (Inl e)
    then show ?thesis using 1 by (simp add: drainPartition_def trace_defs)
  next
    case (Inr c)
    obtain fr s2 where 2: "wd_fetchPartition d p c (wd_batchSize d) s1 = (fr, s2)" by (metis prod.collapse)
    let ?res = "(new_worker_result p)\<lparr>wr_StartedOffset := c, wr_LastOffset := c\<rparr>"
    have 3: "wd_committedOffset (traced d) p (s, tr) = (r, (s1, tr))" "wd_fetchPartition (traced d) p c (wd_batchSize d) (s1, tr) = (fr, (s2, tr))"
      "wd_finalizeBatch (traced d) = None"
      using 1 2 assms by (simp_all add: trace_defs)
    show ?thesis
    proof (cases fr)
      case (Inl e)
      then show ?thesis using 1 2 3 Inr allow by (simp add: drainPartition_def Let_def)
    next
      case recs: (Inr records)
      obtain err st' where run: "drain_records (traced d) p records (?res, (s2, tr)) = (err, st')" by (metis prod.collapse)
      then have "drain_records d p records (?res, s2) = (err, untraced st')"
        using drain_erase[of d p records "(?res, (s2, tr))"] by (simp add: erase_Pair)
      then show ?thesis
        using 1 2 3 Inr recs run assms allow by (simp add: drainPartition_def Let_def untraced_def case_prod_beta)
    qed
  qed
qed

section \<open>The monitor\<close>

text \<open>
  \<open>Idle\<close>: nothing in progress; \<open>Ran\<close>: executed; \<open>Accepted\<close>: finalized, the worker has to
  commit; \<open>Settled\<close>: finalized and committed by the finalizer; \<open>Over\<close>: nothing more may happen.
\<close>

datatype phase = Idle | Ran command_log_record | Accepted command_log_record | Settled command_log_record | Over

record monitor =
  mo_partition :: partition
  mo_refresh :: bool
  mo_claims :: bool
  mo_recorder :: bool
  mo_done :: int
  mo_phase :: phase
  mo_fresh :: bool

definition follows :: "int \<Rightarrow> command_log_record \<Rightarrow> bool" where
  "follows n r \<longleftrightarrow> n < clr_Offset r \<and>
     SourcePosition_ValidateFor (clr_SourcePosition r) (clr_Partition r) (clr_Offset r) = None \<and>
     (clr_Offset r = wrap64 (n + 1) \<or> \<not> SourcePosition_IsZero (clr_SourcePosition r))"

definition owned_now :: "monitor \<Rightarrow> bool" where
  "owned_now m \<longleftrightarrow> \<not> mo_refresh m \<or> mo_fresh m"

text \<open>Losing the partition ends the work, except that an offset the finalizer has committed may be noted.\<close>

definition lose :: "monitor \<Rightarrow> monitor" where
  "lose m = m\<lparr>mo_fresh := False, mo_phase := (case mo_phase m of Settled r \<Rightarrow> Settled r | _ \<Rightarrow> Over)\<rparr>"

definition observe :: "monitor \<Rightarrow> call \<Rightarrow> monitor option" where
  "observe m c =
     (case c of
        CallAssign a \<Rightarrow> Some (if a = Some True then m\<lparr>mo_fresh := \<not> mo_claims m\<rparr> else lose m)
      | CallClaim a \<Rightarrow> Some (if a = Some True then m\<lparr>mo_fresh := True\<rparr> else lose m)
      | CallExecute r \<Rightarrow>
          if mo_phase m = Idle \<and> owned_now m \<and> follows (mo_done m) r
          then Some (m\<lparr>mo_phase := Ran r, mo_fresh := False\<rparr>) else None
      | CallFinalize r fin err \<Rightarrow>
          if mo_phase m = Ran r \<and> owned_now m
          then Some (if fr_Committed fin
                     then (if mo_recorder m then m\<lparr>mo_phase := Settled r, mo_fresh := False\<rparr>
                           else m\<lparr>mo_phase := Idle, mo_done := clr_Offset r, mo_fresh := False\<rparr>)
                     else if err = None \<and> fr_RetryableFailure fin = None then m\<lparr>mo_phase := Accepted r, mo_fresh := False\<rparr>
                     else m\<lparr>mo_phase := Over, mo_fresh := False\<rparr>)
          else None
      | CallCommit p n e \<Rightarrow>
          (case mo_phase m of
             Accepted r \<Rightarrow>
               if p = mo_partition m \<and> n = clr_Offset r \<and> owned_now m
               then Some (if e = None then m\<lparr>mo_phase := Idle, mo_done := n, mo_fresh := False\<rparr> else m\<lparr>mo_fresh := False\<rparr>)
               else None
           | _ \<Rightarrow> None)
      | CallRecord p n e \<Rightarrow>
          (case mo_phase m of
             Settled r \<Rightarrow>
               if p = mo_partition m \<and> n = clr_Offset r
               then Some (if e = None then m\<lparr>mo_phase := Idle, mo_done := n, mo_fresh := False\<rparr> else m\<lparr>mo_phase := Over, mo_fresh := False\<rparr>)
               else None
           | _ \<Rightarrow> None))"

fun watch :: "monitor \<Rightarrow> call list \<Rightarrow> monitor option" where
  "watch m [] = Some m"
| "watch m (c # cs) = (case observe m c of None \<Rightarrow> None | Some m' \<Rightarrow> watch m' cs)"

lemma watch_append: "watch m (cs @ ds) = (case watch m cs of None \<Rightarrow> None | Some m' \<Rightarrow> watch m' ds)"
  by (induction cs arbitrary: m) (auto split: option.splits)

lemma watch_snoc: "watch m cs = Some m' \<Longrightarrow> watch m (cs @ [c]) = observe m' c"
  by (simp add: watch_append split: option.splits)

section \<open>How each step moves the monitor\<close>

definition configured :: "'s worker_deps \<Rightarrow> partition \<Rightarrow> monitor \<Rightarrow> bool" where
  "configured d p m \<longleftrightarrow> mo_partition m = p \<and> mo_refresh m = shouldRefreshOwnership d \<and> mo_claims m = (wd_claim d \<noteq> None) \<and>
     mo_recorder m = (wd_recordCommit d \<noteq> None)"

text \<open>The monitor has accepted all calls so far and is in state \<open>m\<close>.\<close>

definition watched :: "monitor \<Rightarrow> 's worker_deps \<Rightarrow> partition \<Rightarrow> ('s \<times> call list) worker_state \<Rightarrow> monitor \<Rightarrow> bool" where
  "watched M d p st m \<longleftrightarrow> watch M (snd (snd st)) = Some m \<and> configured d p m"

lemma lose_simps [simp]:
  "lose (m\<lparr>mo_fresh := b\<rparr>) = lose m" "lose (lose m) = lose m" "mo_partition (lose m) = mo_partition m" "mo_refresh (lose m) = mo_refresh m"
  "mo_claims (lose m) = mo_claims m" "mo_recorder (lose m) = mo_recorder m" "mo_done (lose m) = mo_done m"
  by (simp_all add: lose_def split: phase.splits)

lemma configured_simps [simp]:
  "configured d p (m\<lparr>mo_fresh := b\<rparr>) = configured d p m" "configured d p (lose m) = configured d p m"
  "configured d p (m\<lparr>mo_phase := ph\<rparr>) = configured d p m" "configured d p (m\<lparr>mo_done := n\<rparr>) = configured d p m"
  by (simp_all add: configured_def)

lemma watched_call:
  assumes "watched M d p (res, (s, tr)) m" "observe m c = Some m'" "configured d p m'"
  shows "watched M d p (res', (s', tr @ [c])) m'"
  using assms by (simp add: watched_def watch_snoc)

lemma watched_result: "watched M d p (res, x) m \<Longrightarrow> watched M d p (res', x) m"
  by (simp add: watched_def)

lemma refreshAssignment_watched:
  assumes "watched M d p st m" "refreshAssignment (traced d) p st = (r, st')"
  obtains m' where "watched M d p st' m'" "wr_LastOffset (fst st') = wr_LastOffset (fst st)"
    "r = Inr True \<and> (m' = m \<and> wd_assign d = None \<or> m' = m\<lparr>mo_fresh := wd_claim d = None\<rparr> \<and> wd_assign d \<noteq> None) \<or> r \<noteq> Inr True \<and> m' = lose m"
proof -
  obtain res s tr where st: "st = (res, (s, tr))" by (metis prod.collapse)
  have conf: "configured d p m" using assms(1) by (simp add: watched_def)
  show thesis
  proof (cases "wd_assign d")
    case None
    then have "r = Inr True" "wr_LastOffset (fst st') = wr_LastOffset (fst st)" "snd st' = snd st"
      using assms(2) by (auto simp: refreshAssignment_def assignPartition_def traced_def Let_def)
    moreover then have "watched M d p st' m" using assms(1) by (simp add: watched_def)
    ultimately show thesis using that[of m] None by simp
  next
    case (Some assign)
    obtain a s1 where call: "assign (wd_ownerID d) p s = (a, s1)" by (metis prod.collapse)
    have "fst (refreshAssignment (traced d) p st) = map_sum id snd a \<and>
        snd (snd (refreshAssignment (traced d) p st)) = (s1, tr @ [CallAssign (answer a)]) \<and>
        wr_LastOffset (fst (snd (refreshAssignment (traced d) p st))) = wr_LastOffset res"
      using Some call by (auto simp: st refreshAssignment_def assignPartition_def traced_def trace_call_def Let_def split: sum.splits)
    then have r: "r = map_sum id snd a" "snd st' = (s1, tr @ [CallAssign (answer a)])" "wr_LastOffset (fst st') = wr_LastOffset res"
      using assms(2) by simp_all
    define m' where "m' = (if answer a = Some True then m\<lparr>mo_fresh := \<not> mo_claims m\<rparr> else lose m)"
    have "watched M d p (fst st', (s1, tr @ [CallAssign (answer a)])) m'"
      using assms(1) conf unfolding st by (intro watched_call) (auto simp: observe_def m'_def)
    then have "watched M d p st' m'" using r(2) by (simp add: watched_def)
    moreover have "r = Inr True \<longleftrightarrow> answer a = Some True"
      by (cases a) (auto simp: r(1) answer_def)
    ultimately show thesis
      using that[of m'] r(3) conf Some by (auto simp: st m'_def configured_def)
  qed
qed

lemma refreshClaim_watched:
  assumes "watched M d p st m" "refreshClaim (traced d) p st = (r, st')"
  obtains m' where "watched M d p st' m'" "wr_LastOffset (fst st') = wr_LastOffset (fst st)"
    "r = Inr True \<and> (m' = m \<and> wd_claim d = None \<or> m' = m\<lparr>mo_fresh := True\<rparr> \<and> wd_claim d \<noteq> None) \<or> r \<noteq> Inr True \<and> m' = lose m"
proof -
  obtain res s tr where st: "st = (res, (s, tr))" by (metis prod.collapse)
  have conf: "configured d p m" using assms(1) by (simp add: watched_def)
  show thesis
  proof (cases "wd_claim d")
    case None
    then have "r = Inr True" "wr_LastOffset (fst st') = wr_LastOffset (fst st)" "snd st' = snd st"
      using assms(2) by (auto simp: refreshClaim_def claimPartition_def traced_def Let_def)
    moreover then have "watched M d p st' m" using assms(1) by (simp add: watched_def)
    ultimately show thesis using that[of m] None by simp
  next
    case (Some claim)
    obtain a s1 where call: "claim (wd_ownerID d) p (wd_claimTTL d) s = (a, s1)" by (metis prod.collapse)
    have "fst (refreshClaim (traced d) p st) = map_sum id snd a \<and>
        snd (snd (refreshClaim (traced d) p st)) = (s1, tr @ [CallClaim (answer a)]) \<and>
        wr_LastOffset (fst (snd (refreshClaim (traced d) p st))) = wr_LastOffset res"
      using Some call by (auto simp: st refreshClaim_def claimPartition_def traced_def trace_call_def Let_def split: sum.splits)
    then have r: "r = map_sum id snd a" "snd st' = (s1, tr @ [CallClaim (answer a)])" "wr_LastOffset (fst st') = wr_LastOffset res"
      using assms(2) by simp_all
    define m' where "m' = (if answer a = Some True then m\<lparr>mo_fresh := True\<rparr> else lose m)"
    have "watched M d p (fst st', (s1, tr @ [CallClaim (answer a)])) m'"
      using assms(1) conf unfolding st by (intro watched_call) (auto simp: observe_def m'_def)
    then have "watched M d p st' m'" using r(2) by (simp add: watched_def)
    moreover have "r = Inr True \<longleftrightarrow> answer a = Some True"
      by (cases a) (auto simp: r(1) answer_def)
    ultimately show thesis
      using that[of m'] r(3) conf Some by (auto simp: st m'_def configured_def)
  qed
qed

lemma refreshOwnership_watched:
  assumes "watched M d p st m" "refreshOwnership (traced d) p st = (r, st')" "shouldRefreshOwnership d"
  obtains m' where "watched M d p st' m'" "wr_LastOffset (fst st') = wr_LastOffset (fst st)"
    "r = Inr True \<and> m' = m\<lparr>mo_fresh := True\<rparr> \<or> r \<noteq> Inr True \<and> m' = lose m"
proof -
  obtain r1 st1 where r1: "refreshAssignment (traced d) p st = (r1, st1)" by (metis prod.collapse)
  obtain m1 where m1: "watched M d p st1 m1" "wr_LastOffset (fst st1) = wr_LastOffset (fst st)"
    "r1 = Inr True \<and> (m1 = m \<and> wd_assign d = None \<or> m1 = m\<lparr>mo_fresh := wd_claim d = None\<rparr> \<and> wd_assign d \<noteq> None) \<or> r1 \<noteq> Inr True \<and> m1 = lose m"
    using refreshAssignment_watched[OF assms(1) r1] by metis
  show thesis
  proof (cases "r1 = Inr True")
    case True
    then have "refreshClaim (traced d) p st1 = (r, st')" using assms(2) r1 by (simp add: refreshOwnership_def)
    from refreshClaim_watched[OF m1(1) this] obtain m2 where m2: "watched M d p st' m2"
      "wr_LastOffset (fst st') = wr_LastOffset (fst st1)"
      "r = Inr True \<and> (m2 = m1 \<and> wd_claim d = None \<or> m2 = m1\<lparr>mo_fresh := True\<rparr> \<and> wd_claim d \<noteq> None) \<or> r \<noteq> Inr True \<and> m2 = lose m1"
      by metis
    have some: "wd_claim d \<noteq> None \<or> wd_assign d \<noteq> None"
      using assms(3) by (auto simp: shouldRefreshOwnership_def split: if_splits)
    then have "r = Inr True \<and> m2 = m\<lparr>mo_fresh := True\<rparr> \<or> r \<noteq> Inr True \<and> m2 = lose m"
      using m1(3) m2(3) True by auto
    then show thesis using that[of m2] m1(2) m2(1, 2) by simp
  next
    case False
    then have "st' = st1" "r \<noteq> Inr True"
      using assms(2) r1 by (auto simp: refreshOwnership_def split: sum.splits)
    then show thesis using that[of m1] m1 False by simp
  qed
qed

lemma refreshIfNeeded_watched:
  assumes "watched M d p st m" "refreshOwnershipIfNeeded (traced d) p st = (r, st')"
  obtains m' where "watched M d p st' m'" "wr_LastOffset (fst st') = wr_LastOffset (fst st)"
    "r = Inr True \<and> owned_now m' \<and> mo_phase m' = mo_phase m \<and> mo_done m' = mo_done m \<or> r \<noteq> Inr True \<and> m' = lose m"
proof (cases "shouldRefreshOwnership d")
  case True
  then have "refreshOwnership (traced d) p st = (r, st')" using assms(2) by (simp add: refreshOwnershipIfNeeded_def)
  from refreshOwnership_watched[OF assms(1) this True] show thesis
    using that by (metis monitor.select_convs(5,6,7) monitor.surjective monitor.update_convs(7) owned_now_def)
next
  case False
  then have "r = Inr True" "st' = st" using assms(2) by (simp_all add: refreshOwnershipIfNeeded_def)
  moreover have "owned_now m" using assms(1) False by (simp add: watched_def configured_def owned_now_def)
  ultimately show thesis using that[of m] assms(1) by simp
qed

lemma heartbeat_watched:
  assumes "shouldRefreshOwnership d"
  shows "watched M d p st m \<Longrightarrow> owned \<and> err = None \<or> \<not> owned \<Longrightarrow>
    heartbeat_ticks (traced d) p n owned err st = ((owned', err'), st') \<Longrightarrow>
    \<exists>m'. watched M d p st' m' \<and> wr_LastOffset (fst st') = wr_LastOffset (fst st) \<and> (\<not> owned \<longrightarrow> \<not> owned' \<and> m' = m) \<and>
      (owned \<longrightarrow> owned' \<and> err' = None \<and> (\<exists>b. m' = m\<lparr>mo_fresh := b\<rparr>) \<or> \<not> owned' \<and> m' = lose m)"
proof (induction n arbitrary: owned err st m)
  case 0
  then show ?case by (intro exI[of _ m]) (auto intro: exI[of _ "mo_fresh m"])
next
  case (Suc n)
  show ?case
  proof (cases owned)
    case False
    then show ?thesis using Suc.IH[OF Suc.prems(1), of owned err] Suc.prems by auto
  next
    case True
    obtain r st1 where r: "refreshOwnership (traced d) p st = (r, st1)" by (metis prod.collapse)
    obtain m1 where m1: "watched M d p st1 m1" "wr_LastOffset (fst st1) = wr_LastOffset (fst st)"
      "r = Inr True \<and> m1 = m\<lparr>mo_fresh := True\<rparr> \<or> r \<noteq> Inr True \<and> m1 = lose m"
      using refreshOwnership_watched[OF Suc.prems(1) r assms] by metis
    define err1 where "err1 = (case r of Inl e \<Rightarrow> Some e | Inr _ \<Rightarrow> err)"
    have next_tick: "heartbeat_ticks (traced d) p n (r = Inr True) err1 st1 = ((owned', err'), st')"
      using Suc.prems(3) True r by (cases r) (auto simp: err1_def)
    have "r = Inr True \<and> err1 = None \<or> r \<noteq> Inr True" using Suc.prems(2) True by (auto simp: err1_def)
    from Suc.IH[OF m1(1) this next_tick] show ?thesis
      using m1 True by (auto simp: err1_def)
  qed
qed

lemma execute_watched:
  assumes "watched M d p st m" "mo_phase m = Idle" "owned_now m" "follows (mo_done m) rec"
    and "executeWithOwnershipHeartbeat (traced d) p rec st = (r, st')"
  obtains m' where "watched M d p st' m'" "wr_LastOffset (fst st') = wr_LastOffset (fst st)"
    "\<And>rp. r = Inr (rp, True) \<Longrightarrow> mo_phase m' = Ran rec \<and> mo_done m' = mo_done m"
proof -
  obtain res s tr where st: "st = (res, (s, tr))" by (metis prod.collapse)
  obtain rp0 s1 where call: "wd_execute d rec s = (rp0, s1)" by (metis prod.collapse)
  then have ex: "wd_execute (traced d) rec (s, tr) = (rp0, (s1, tr @ [CallExecute rec]))"
    by (simp add: traced_def trace_call_def)
  define m1 where "m1 = m\<lparr>mo_phase := Ran rec, mo_fresh := False\<rparr>"
  have w1: "watched M d p (res, (s1, tr @ [CallExecute rec])) m1"
    using assms(1-4) unfolding st by (intro watched_call) (auto simp: observe_def m1_def watched_def)
  show thesis
  proof (cases "shouldHeartbeatOwnership d")
    case False
    then have "st' = (res, (s1, tr @ [CallExecute rec]))" using assms(5) ex by (auto simp: executeWithOwnershipHeartbeat_def st)
    then show thesis using that[of m1] w1 by (simp add: m1_def st)
  next
    case True
    obtain ticks ctxDone where sched: "wd_schedule d s = (ticks, ctxDone)" by (metis prod.collapse)
    obtain owned err st2 where hb: "heartbeat_ticks (traced d) p ticks True None (res, (s1, tr @ [CallExecute rec])) = ((owned, err), st2)"
      by (metis prod.collapse)
    have refresh: "shouldRefreshOwnership d" using True by (simp add: shouldHeartbeatOwnership_def)
    obtain m2 where m2: "watched M d p st2 m2" "wr_LastOffset (fst st2) = wr_LastOffset res"
      "owned \<and> err = None \<and> (\<exists>b. m2 = m1\<lparr>mo_fresh := b\<rparr>) \<or> \<not> owned \<and> m2 = lose m1"
      using heartbeat_watched[OF refresh w1 _ hb] by auto
    have res: "st' = st2 \<and> (\<forall>rp. r = Inr (rp, True) \<longrightarrow> owned)"
      using assms(5) True sched ex hb
      by (auto simp: executeWithOwnershipHeartbeat_def st split: option.splits)
    show thesis
    proof (rule that)
      show "watched M d p st' m2" "wr_LastOffset (fst st') = wr_LastOffset (fst st)" using res m2 st by simp_all
      show "mo_phase m2 = Ran rec \<and> mo_done m2 = mo_done m" if "r = Inr (rp, True)" for rp
        using res m2(3) that by (auto simp: m1_def)
    qed
  qed
qed

lemma execute_record_watched:
  assumes "watched M d p st m" "mo_phase m = Idle" "mo_done m = n" "n < clr_Offset rec"
    and "execute_record (traced d) p n rec st = (r, st')"
  obtains m' where "watched M d p st' m'" "wr_LastOffset (fst st') = wr_LastOffset (fst st)" "r \<noteq> Inl Continue"
    "\<And>rp. r = Inr rp \<Longrightarrow> mo_phase m' = Ran rec \<and> owned_now m' \<and> mo_done m' = n"
proof (cases "validateCommandLogWorkerOffsetProgress p n rec")
  case (Some e)
  then have "st' = st" "r = Inl (Fail e)" using assms(5) by (simp_all add: execute_record_def)
  then show thesis using that[of m] assms(1) by simp
next
  case None
  then have fol: "follows n rec"
    using assms(4) by (auto simp: validateCommandLogWorkerOffsetProgress_def follows_def Let_def split: option.splits if_splits)
  obtain r1 st1 where r1: "refreshOwnershipIfNeeded (traced d) p st = (r1, st1)" by (metis prod.collapse)
  obtain m1 where m1: "watched M d p st1 m1" "wr_LastOffset (fst st1) = wr_LastOffset (fst st)"
    "r1 = Inr True \<and> owned_now m1 \<and> mo_phase m1 = mo_phase m \<and> mo_done m1 = mo_done m \<or> r1 \<noteq> Inr True \<and> m1 = lose m"
    using refreshIfNeeded_watched[OF assms(1) r1] by metis
  show thesis
  proof (cases "r1 = Inr True")
    case False
    then have "st' = st1 \<and> (\<exists>f. r = Inl f \<and> f \<noteq> Continue)"
      using assms(5) None r1 by (cases r1) (auto simp: execute_record_def)
    then show thesis using that[of m1] m1 by auto
  next
    case True
    obtain r2 st2 where r2: "executeWithOwnershipHeartbeat (traced d) p rec st1 = (r2, st2)" by (metis prod.collapse)
    have pre: "mo_phase m1 = Idle" "owned_now m1" "follows (mo_done m1) rec" using m1(3) True assms(2, 3) fol by auto
    obtain m2 where m2: "watched M d p st2 m2" "wr_LastOffset (fst st2) = wr_LastOffset (fst st1)"
      "\<And>rp. r2 = Inr (rp, True) \<Longrightarrow> mo_phase m2 = Ran rec \<and> mo_done m2 = mo_done m1"
      using execute_watched[OF m1(1) pre r2] by metis
    show thesis
    proof (cases "\<exists>rp. r2 = Inr (rp, True)")
      case False
      then have "st' = st2 \<and> (\<exists>f. r = Inl f \<and> f \<noteq> Continue)"
        using assms(5) None r1 True r2 by (auto simp: execute_record_def split: sum.splits)
      then show thesis using that[of m2] m2 m1(2) by auto
    next
      case exec: True
      then obtain rp where rp: "r2 = Inr (rp, True)" by blast
      obtain r3 st3 where r3: "refreshOwnershipIfNeeded (traced d) p st2 = (r3, st3)" by (metis prod.collapse)
      obtain m3 where m3: "watched M d p st3 m3" "wr_LastOffset (fst st3) = wr_LastOffset (fst st2)"
        "r3 = Inr True \<and> owned_now m3 \<and> mo_phase m3 = mo_phase m2 \<and> mo_done m3 = mo_done m2 \<or> r3 \<noteq> Inr True \<and> m3 = lose m2"
        using refreshIfNeeded_watched[OF m2(1) r3] by metis
      have "st' = st3 \<and> (r3 = Inr True \<and> r = Inr rp \<or> r3 \<noteq> Inr True \<and> (\<exists>f. r = Inl f \<and> f \<noteq> Continue))"
        using assms(5) None r1 True r2 rp r3 by (cases r3) (auto simp: execute_record_def split: if_splits)
      then show thesis
        using that[of m3] m3 m2(2) m2(3)[OF rp] m1(2, 3) True assms(3) by auto
    qed
  qed
qed

lemma finalize_watched:
  assumes "watched M d p st m" "mo_phase m = Ran rec" "owned_now m"
    and "finalizeWithOwnershipHeartbeat (traced d) p rec rp st = ((fin, acquired, err), st')"
  obtains m' where "watched M d p st' m'" "wr_LastOffset (fst st') = wr_LastOffset (fst st)"
    "fr_Committed fin \<Longrightarrow> wd_recordCommit d \<noteq> None \<Longrightarrow> mo_phase m' = Settled rec"
    "acquired \<Longrightarrow> err = None \<Longrightarrow> fr_Committed fin \<Longrightarrow> wd_recordCommit d = None \<Longrightarrow> mo_phase m' = Idle \<and> mo_done m' = clr_Offset rec"
    "acquired \<Longrightarrow> err = None \<Longrightarrow> \<not> fr_Committed fin \<Longrightarrow> fr_RetryableFailure fin = None \<Longrightarrow> mo_phase m' = Accepted rec"
proof -
  obtain res s tr where st: "st = (res, (s, tr))" by (metis prod.collapse)
  obtain fin0 err0 s1 where call: "wd_finalize d rec rp s = ((fin0, err0), s1)" by (metis prod.collapse)
  then have fz: "wd_finalize (traced d) rec rp (s, tr) = ((fin0, err0), (s1, tr @ [CallFinalize rec fin0 err0]))"
    by (simp add: traced_def trace_call_def)
  have recorder: "mo_recorder m = (wd_recordCommit d \<noteq> None)" using assms(1) by (simp add: watched_def configured_def)
  obtain m1 where obs: "observe m (CallFinalize rec fin0 err0) = Some m1" "configured d p m1"
    and m1: "fr_Committed fin0 \<and> wd_recordCommit d \<noteq> None \<longrightarrow> mo_phase m1 = Settled rec"
      "fr_Committed fin0 \<and> wd_recordCommit d = None \<longrightarrow> mo_phase m1 = Idle \<and> mo_done m1 = clr_Offset rec"
      "\<not> fr_Committed fin0 \<and> err0 = None \<and> fr_RetryableFailure fin0 = None \<longrightarrow> mo_phase m1 = Accepted rec"
    using assms(1-3) recorder by (auto simp: observe_def watched_def)
  have w1: "watched M d p (res, (s1, tr @ [CallFinalize rec fin0 err0])) m1"
    using assms(1) obs unfolding st by (rule watched_call)
  show thesis
  proof (cases "shouldHeartbeatOwnership d")
    case False
    then have "st' = (res, (s1, tr @ [CallFinalize rec fin0 err0]))" "fin = fin0" "err = err0"
      using assms(4) fz by (auto simp: finalizeWithOwnershipHeartbeat_def finalize_heartbeat_def st)
    then show thesis using that[of m1] w1 m1 by (simp add: st)
  next
    case True
    obtain ticks ctxDone where sched: "wd_schedule d s = (ticks, ctxDone)" by (metis prod.collapse)
    obtain owned oerr st2 where hb: "heartbeat_ticks (traced d) p ticks True None (res, (s1, tr @ [CallFinalize rec fin0 err0])) = ((owned, oerr), st2)"
      by (metis prod.collapse)
    have refresh: "shouldRefreshOwnership d" using True by (simp add: shouldHeartbeatOwnership_def)
    obtain m2 where m2: "watched M d p st2 m2" "wr_LastOffset (fst st2) = wr_LastOffset res"
      "owned \<and> oerr = None \<and> (\<exists>b. m2 = m1\<lparr>mo_fresh := b\<rparr>) \<or> \<not> owned \<and> m2 = lose m1"
      using heartbeat_watched[OF refresh w1 _ hb] by auto
    have out: "st' = st2 \<and> (fr_Committed fin \<longrightarrow> fin = fin0) \<and> (acquired \<and> err = None \<longrightarrow> owned \<and> fin = fin0 \<and> err0 = None)"
      using assms(4) True sched fz hb
      by (auto simp: finalizeWithOwnershipHeartbeat_def finalize_heartbeat_def st zero_finalization_def split: option.splits if_splits)
    have settled: "mo_phase m2 = Settled rec" if "mo_phase m1 = Settled rec"
      using m2(3) that by (auto simp: lose_def)
    have kept: "mo_phase m2 = mo_phase m1 \<and> mo_done m2 = mo_done m1 \<and> fin = fin0 \<and> err0 = None" if "acquired" "err = None"
      using m2(3) out that by auto
    show thesis
    proof (rule that[of m2])
      show "watched M d p st' m2" "wr_LastOffset (fst st') = wr_LastOffset (fst st)" using m2 out st by simp_all
      show "mo_phase m2 = Settled rec" if "fr_Committed fin" "wd_recordCommit d \<noteq> None"
        using that out m1(1) settled by blast
      show "mo_phase m2 = Idle \<and> mo_done m2 = clr_Offset rec"
        if "acquired" "err = None" "fr_Committed fin" "wd_recordCommit d = None"
        using kept[OF that(1, 2)] m1(2) that by simp
      show "mo_phase m2 = Accepted rec" if "acquired" "err = None" "\<not> fr_Committed fin" "fr_RetryableFailure fin = None"
        using kept[OF that(1, 2)] m1(3) that by simp
    qed
  qed
qed

lemma commit_watched:
  assumes "watched M d p st m" "mo_phase m = Accepted rec"
    and "commit_attempts (traced d) p (clr_Offset rec) n e0 st = (r, st')"
  shows "\<exists>m'. watched M d p st' m' \<and> wr_LastOffset (fst st') = wr_LastOffset (fst st) \<and>
    (r = Inr True \<longrightarrow> mo_phase m' = Idle \<and> mo_done m' = clr_Offset rec)"
  using assms
proof (induction n arbitrary: e0 st m)
  case 0
  then show ?case by auto
next
  case (Suc n)
  show ?case
  proof (cases "wd_ctx d (fst (snd st))")
    case (Some e)
    then have "r = Inl e" "st' = st" using Suc.prems(3) by simp_all
    then show ?thesis using Suc.prems(1) by auto
  next
    case None
    obtain r1 st1 where r1: "refreshOwnershipIfNeeded (traced d) p st = (r1, st1)" by (metis prod.collapse)
    obtain m1 where m1: "watched M d p st1 m1" "wr_LastOffset (fst st1) = wr_LastOffset (fst st)"
      "r1 = Inr True \<and> owned_now m1 \<and> mo_phase m1 = mo_phase m \<and> mo_done m1 = mo_done m \<or> r1 \<noteq> Inr True \<and> m1 = lose m"
      using refreshIfNeeded_watched[OF Suc.prems(1) r1] by metis
    show ?thesis
    proof (cases "r1 = Inr True")
      case False
      then have "st' = st1 \<and> r \<noteq> Inr True" using Suc.prems(3) None r1 by (cases r1) auto
      then show ?thesis using m1 by auto
    next
      case True
      obtain res s tr where st1: "st1 = (res, (s, tr))" by (metis prod.collapse)
      obtain e s1 where call: "wd_commitPartition d p (clr_Offset rec) s = (e, s1)" by (metis prod.collapse)
      then have cp: "wd_commitPartition (traced d) p (clr_Offset rec) (s, tr) = (e, (s1, tr @ [CallCommit p (clr_Offset rec) e]))"
        by (simp add: traced_def trace_call_def)
      define m2 where "m2 = (if e = None then m1\<lparr>mo_phase := Idle, mo_done := clr_Offset rec, mo_fresh := False\<rparr> else m1\<lparr>mo_fresh := False\<rparr>)"
      have w2: "watched M d p (res', (s1, tr @ [CallCommit p (clr_Offset rec) e])) m2" for res'
        using m1 True Suc.prems(2) unfolding st1
        by (intro watched_call) (auto simp: observe_def m2_def watched_def configured_def)
      show ?thesis
      proof (cases e)
        case None
        then have "r = Inr True" "st' = (res\<lparr>wr_CommitFailure := None\<rparr>, (s1, tr @ [CallCommit p (clr_Offset rec) e]))"
          using Suc.prems(3) \<open>wd_ctx d (fst (snd st)) = None\<close> r1 True cp st1 by simp_all
        then show ?thesis using w2 None m1(2) by (intro exI[of _ m2]) (simp add: m2_def st1)
      next
        case (Some err)
        let ?st = "(res\<lparr>wr_CommitFailures := wr_CommitFailures res + 1, wr_CommitFailure := Some err\<rparr>, (s1, tr @ [CallCommit p (clr_Offset rec) e]))"
        have again: "commit_attempts (traced d) p (clr_Offset rec) n err ?st = (r, st')"
          using Suc.prems(3) \<open>wd_ctx d (fst (snd st)) = None\<close> r1 True cp st1 Some by simp
        have "mo_phase m2 = Accepted rec" using Some m1(3) True Suc.prems(2) by (simp add: m2_def)
        from Suc.IH[OF w2 this again] show ?thesis using m1(2) by (simp add: st1)
      qed
    qed
  qed
qed

lemma leave_watched:
  assumes "watched M d p st m" "committed \<Longrightarrow> wd_recordCommit d \<noteq> None \<Longrightarrow> mo_phase m = Settled rec"
    and "leave = Continue \<Longrightarrow> committed \<and> (wd_recordCommit d = None \<longrightarrow> mo_phase m = Idle \<and> mo_done m = clr_Offset rec)"
    and "leave_committed (traced d) p (clr_Offset rec) 1 committed leave st = (f, st')"
  shows "\<exists>m'. watched M d p st' m' \<and>
    (f = Continue \<longrightarrow> mo_phase m' = Idle \<and> mo_done m' = clr_Offset rec \<and> wr_LastOffset (fst st') = clr_Offset rec)"
proof -
  obtain res s tr where st: "st = (res, (s, tr))" by (metis prod.collapse)
  consider (out) "\<not> committed" | (ctx) e where "committed" "wd_ctx d s = Some e"
    | (none) "committed" "wd_ctx d s = None" "wd_recordCommit d = None"
    | (some) recorder where "committed" "wd_ctx d s = None" "wd_recordCommit d = Some recorder" by fastforce
  then show ?thesis
  proof cases
    case out
    then have "f = leave" "st' = st" using assms(4) by (simp_all add: leave_committed_def)
    then show ?thesis using assms(1, 3) out by auto
  next
    case ctx
    then have "f = Fail e" "st' = st" using assms(4) by (simp_all add: leave_committed_def recordFinalizedCommit_def st)
    then show ?thesis using assms(1) by auto
  next
    case none
    then have "f = leave" "st' = (advanceCommandLogWorkerResult res (clr_Offset rec) 1, (s, tr))"
      using assms(4) by (simp_all add: leave_committed_def recordFinalizedCommit_def st traced_def)
    then show ?thesis using assms(1, 3) none st by (auto simp: watched_def advanceCommandLogWorkerResult_def)
  next
    case some
    obtain e s1 where call: "recorder p (clr_Offset rec) s = (e, s1)" by (metis prod.collapse)
    define m1 where "m1 = (if e = None then m\<lparr>mo_phase := Idle, mo_done := clr_Offset rec, mo_fresh := False\<rparr> else m\<lparr>mo_phase := Over, mo_fresh := False\<rparr>)"
    have w1: "watched M d p (res', (s1, tr @ [CallRecord p (clr_Offset rec) e])) m1" for res'
      using assms(1, 2) some unfolding st
      by (intro watched_call) (auto simp: observe_def m1_def watched_def configured_def)
    have "snd st' = (s1, tr @ [CallRecord p (clr_Offset rec) e]) \<and> (e = None \<longrightarrow> wr_LastOffset (fst st') = clr_Offset rec) \<and> (e \<noteq> None \<longrightarrow> f \<noteq> Continue)"
      using assms(4) some call
      by (auto simp: leave_committed_def recordFinalizedCommit_def st traced_def trace_call_def advanceCommandLogWorkerResult_def split: option.splits)
    then show ?thesis using w1[of "fst st'"] by (intro exI[of _ m1]) (auto simp: m1_def watched_def)
  qed
qed

lemma settle_watched:
  assumes "watched M d p st m" "mo_phase m = Ran rec" "owned_now m" and "settle_record (traced d) p rec rp st = (f, st')"
  shows "\<exists>m'. watched M d p st' m' \<and>
    (f = Continue \<longrightarrow> mo_phase m' = Idle \<and> mo_done m' = clr_Offset rec \<and> wr_LastOffset (fst st') = clr_Offset rec)"
proof -
  obtain fin acquired err st1 where fz: "finalizeWithOwnershipHeartbeat (traced d) p rec rp st = ((fin, acquired, err), st1)"
    by (metis prod.collapse)
  obtain m1 where m1: "watched M d p st1 m1" "wr_LastOffset (fst st1) = wr_LastOffset (fst st)"
    "fr_Committed fin \<Longrightarrow> wd_recordCommit d \<noteq> None \<Longrightarrow> mo_phase m1 = Settled rec"
    "acquired \<Longrightarrow> err = None \<Longrightarrow> fr_Committed fin \<Longrightarrow> wd_recordCommit d = None \<Longrightarrow> mo_phase m1 = Idle \<and> mo_done m1 = clr_Offset rec"
    "acquired \<Longrightarrow> err = None \<Longrightarrow> \<not> fr_Committed fin \<Longrightarrow> fr_RetryableFailure fin = None \<Longrightarrow> mo_phase m1 = Accepted rec"
    using finalize_watched[OF assms(1-3) fz] by metis
  have w: "watched M d p (res, snd st1) m1" for res using m1(1) by (simp add: watched_def)
  let ?res = "applyCommandLogFinalizationResult (fst st1) fin"
  consider (error) e where "err = Some e" | (lost) "err = None" "\<not> acquired"
    | (retry) "err = None" "acquired" "fr_RetryableFailure fin \<noteq> None"
    | (committed) "err = None" "acquired" "fr_RetryableFailure fin = None" "fr_Committed fin"
    | (commit) "err = None" "acquired" "fr_RetryableFailure fin = None" "\<not> fr_Committed fin" by fastforce
  then show ?thesis
  proof cases
    case error
    then have "leave_committed (traced d) p (clr_Offset rec) 1 (fr_Committed fin) (Fail e)
        (if fr_CommitFailure fin = None then ?res\<lparr>wr_FinalizerFailure := Some e\<rparr> else ?res, snd st1) = (f, st')"
      using assms(4) fz by (auto simp: settle_record_def Let_def split: if_splits)
    from leave_watched[OF w m1(3) _ this] show ?thesis by simp
  next
    case lost
    then have "leave_committed (traced d) p (clr_Offset rec) 1 (fr_Committed fin) Stop (?res, snd st1) = (f, st')"
      using assms(4) fz by (simp add: settle_record_def Let_def)
    from leave_watched[OF w m1(3) _ this] show ?thesis by simp
  next
    case retry
    then have "f = Stop" "st' = (?res, snd st1)" using assms(4) fz by (simp_all add: settle_record_def Let_def)
    then show ?thesis using w by auto
  next
    case committed
    then have "leave_committed (traced d) p (clr_Offset rec) 1 True Continue (?res, snd st1) = (f, st')"
      using assms(4) fz by (simp add: settle_record_def Let_def)
    from leave_watched[OF w _ _ this] show ?thesis using m1(3, 4) committed by simp
  next
    case commit
    obtain r st2 where cp: "commitPartition (traced d) p (clr_Offset rec) (?res, snd st1) = (r, st2)" by (metis prod.collapse)
    obtain m2 where m2: "watched M d p st2 m2" "r = Inr True \<longrightarrow> mo_phase m2 = Idle \<and> mo_done m2 = clr_Offset rec"
      using commit_watched[OF w m1(5) cp[unfolded commitPartition_def]] commit by auto
    have "snd st' = snd st2 \<and> (f = Continue \<longrightarrow> r = Inr True \<and> wr_LastOffset (fst st') = clr_Offset rec)"
      using assms(4) fz commit cp
      by (auto simp: settle_record_def Let_def advanceCommandLogWorkerResult_def split: sum.splits if_splits)
    then show ?thesis using m2 by (intro exI[of _ m2]) (auto simp: watched_def)
  qed
qed

lemma drain_watched:
  assumes "drain_records (traced d) p recs st = (err, st')"
    and "watched M d p st m" "mo_phase m = Idle" "mo_done m = wr_LastOffset (fst st)"
  shows "\<exists>m'. watched M d p st' m'"
  using assms
proof (induction recs arbitrary: st m)
  case Nil
  then show ?case by auto
next
  case (Cons rec recs)
  show ?case
  proof (cases "wd_ctx d (fst (snd st))")
    case (Some e)
    then show ?thesis using Cons.prems by auto
  next
    case None
    show ?thesis
    proof (cases "clr_Offset rec \<le> wr_LastOffset (fst st)")
      case True
      then show ?thesis using Cons.IH[OF _ Cons.prems(2-4)] Cons.prems(1) None by simp
    next
      case False
      obtain r st1 where ex: "execute_record (traced d) p (wr_LastOffset (fst st)) rec st = (r, st1)" by (metis prod.collapse)
      have less: "wr_LastOffset (fst st) < clr_Offset rec" using False by simp
      obtain m1 where m1: "watched M d p st1 m1" "r \<noteq> Inl Continue"
        "\<And>rp. r = Inr rp \<Longrightarrow> mo_phase m1 = Ran rec \<and> owned_now m1 \<and> mo_done m1 = wr_LastOffset (fst st)"
        using execute_record_watched[OF Cons.prems(2-4) less ex] by metis
      show ?thesis
      proof (cases r)
        case (Inl fl)
        then have "st' = st1" using Cons.prems(1) None False ex by (cases fl) simp_all
        then show ?thesis using m1(1) by blast
      next
        case (Inr rp)
        obtain fl st2 where settle: "settle_record (traced d) p rec rp st1 = (fl, st2)" by (metis prod.collapse)
        obtain m2 where m2: "watched M d p st2 m2"
          "fl = Continue \<longrightarrow> mo_phase m2 = Idle \<and> mo_done m2 = clr_Offset rec \<and> wr_LastOffset (fst st2) = clr_Offset rec"
          using settle_watched[OF m1(1) _ _ settle] m1(3)[OF Inr] by blast
        show ?thesis
        proof (cases fl)
          case Continue
          then have "drain_records (traced d) p recs st2 = (err, st')" using Cons.prems(1) None False ex Inr settle by simp
          then show ?thesis using Cons.IH m2 Continue by simp
        qed (use Cons.prems(1) None False ex Inr settle m2(1) in auto)
      qed
    qed
  qed
qed

section \<open>Properties\<close>

definition start_monitor :: "'s worker_deps \<Rightarrow> partition \<Rightarrow> int \<Rightarrow> monitor" where
  "start_monitor d p committed =
     \<lparr>mo_partition = p, mo_refresh = shouldRefreshOwnership d, mo_claims = (wd_claim d \<noteq> None),
      mo_recorder = (wd_recordCommit d \<noteq> None), mo_done = committed, mo_phase = Idle, mo_fresh = False\<rparr>"


section \<open>A worker on the in-memory log\<close>

text \<open>No assigner, claimer or recorders: the default finalizer lets the worker commit.\<close>

definition memory_worker :: "int \<Rightarrow> (command_log_record \<Rightarrow> reply) \<Rightarrow> memory_command_log worker_deps" where
  "memory_worker batchSize exec = \<lparr>wd_ownerID = ''w1'', wd_batchSize = batchSize, wd_partitionLimit = 100, wd_commitAttempts = 3,
     wd_claimTTL = 30000000000, wd_claimRefreshInterval = 10000000000, wd_ctx = (\<lambda>_. None), wd_schedule = (\<lambda>_. (0, None)),
     wd_committedOffset = (\<lambda>p l. (Inr (mcl_committedOffset l p), l)),
     wd_fetchPartition = (\<lambda>p a n l. (Inr (mcl_fetch l p a n), l)),
     wd_commitPartition = (\<lambda>p n l. (None, mcl_commit l p n)),
     wd_recordCommit = None, wd_allowRebalance = None,
     wd_partitions = Some (\<lambda>n l. (Inr (CommandPartitionsByTailOffset (mcl_listOffsets l 0) n), l)),
     wd_assign = None, wd_assignList = None, wd_assignStable = False, wd_claim = None,
     wd_execute = (\<lambda>r l. (exec r, l)),
     wd_finalize = DefaultFinalizer_FinalizeCommandLogRecord \<lparr>rec_applied = None, rec_terminal = None, rec_retryable = None\<rparr>,
     wd_finalizeBatch = None\<rparr>"

lemma memory_worker_sel [simp]:
  "\<not> shouldRefreshOwnership (memory_worker bs exec)" "\<not> shouldHeartbeatOwnership (memory_worker bs exec)"
  "wd_ctx (memory_worker bs exec) l = None" "wd_execute (memory_worker bs exec) rec l = (exec rec, l)"
  "wd_finalize (memory_worker bs exec) =
     DefaultFinalizer_FinalizeCommandLogRecord \<lparr>rec_applied = None, rec_terminal = None, rec_retryable = None\<rparr>"
  "wd_commitPartition (memory_worker bs exec) p n l = (None, mcl_commit l p n)" "wd_commitAttempts (memory_worker bs exec) = 3"
  "wd_committedOffset (memory_worker bs exec) p l = (Inr (mcl_committedOffset l p), l)"
  "wd_fetchPartition (memory_worker bs exec) p a n l = (Inr (mcl_fetch l p a n), l)" "wd_batchSize (memory_worker bs exec) = bs"
  "wd_finalizeBatch (memory_worker bs exec) = None" "allowCommandLogRebalance (memory_worker bs exec) l = l"
  by (simp_all add: memory_worker_def shouldRefreshOwnership_def shouldHeartbeatOwnership_def allowCommandLogRebalance_def)


definition retryable_reply :: "reply \<Rightarrow> bool" where
  "retryable_reply rp = (case rp_Err rp of Some e \<Rightarrow> ed_Retryable e | None \<Rightarrow> False)"

lemma memory_step:
  assumes "clr_Offset rec = wrap64 (wr_LastOffset res + 1)" "wr_LastOffset res < clr_Offset rec" "clr_SourcePosition rec = zero_source_position"
  shows "drain_records (memory_worker bs exec) p (rec # recs) (res, l) =
    (if retryable_reply (exec rec)
     then (None, (res\<lparr>wr_RetryableFailure := rp_Err (exec rec)\<rparr>, l))
     else drain_records (memory_worker bs exec) p recs
       (advanceCommandLogWorkerResult ((applyCommandLogFinalizationResult res (fst (fst (DefaultFinalizer_FinalizeCommandLogRecord
          \<lparr>rec_applied = None, rec_terminal = None, rec_retryable = None\<rparr> rec (exec rec) l))))\<lparr>wr_CommitFailure := None\<rparr>) (clr_Offset rec) 1,
        mcl_commit l p (clr_Offset rec)))"
proof -
  let ?d = "memory_worker bs exec" and ?f = "\<lparr>rec_applied = None, rec_terminal = None, rec_retryable = None\<rparr> :: memory_command_log failure_recorders"
  have ex: "execute_record ?d p (wr_LastOffset res) rec (res, l) = (Inr (exec rec), (res, l))"
    using assms
    by (simp add: execute_record_def validateCommandLogWorkerOffsetProgress_def SourcePosition_ValidateFor_def SourcePosition_IsZero_def
        refreshOwnershipIfNeeded_def executeWithOwnershipHeartbeat_def Let_def)
  define fin where "fin = (case rp_Err (exec rec) of None \<Rightarrow> zero_finalization
    | Some e \<Rightarrow> if ed_Retryable e then zero_finalization\<lparr>fr_RetryableFailure := Some e\<rparr>
                else zero_finalization\<lparr>fr_TerminalFailures := 1, fr_TerminalFailure := Some e\<rparr>)"
  have fin: "DefaultFinalizer_FinalizeCommandLogRecord ?f rec (exec rec) l = ((fin, None), l)"
    "\<not> fr_Committed fin" "fr_RetryableFailure fin = (if retryable_reply (exec rec) then rp_Err (exec rec) else None)"
    "retryable_reply (exec rec) \<longrightarrow> fin = zero_finalization\<lparr>fr_RetryableFailure := rp_Err (exec rec)\<rparr>"
    by (cases "rp_Err (exec rec)"; simp add: fin_def DefaultFinalizer_FinalizeCommandLogRecord_def call_recorder_def retryable_reply_def zero_finalization_def)+
  have fz: "finalizeWithOwnershipHeartbeat ?d p rec (exec rec) (res, l) = ((fin, True, None), (res, l))"
    using fin(1) by (simp add: finalizeWithOwnershipHeartbeat_def finalize_heartbeat_def)
  have commit: "commitPartition ?d p n (res', l) = (Inr True, (res'\<lparr>wr_CommitFailure := None\<rparr>, mcl_commit l p n))" for res' n
    by (simp add: commitPartition_def eval_nat_numeral refreshOwnershipIfNeeded_def)
  show ?thesis
  proof (cases "retryable_reply (exec rec)")
    case True
    then have "rp_Err (exec rec) \<noteq> None" by (auto simp: retryable_reply_def split: option.splits)
    then have "applyCommandLogFinalizationResult res fin = res\<lparr>wr_RetryableFailure := rp_Err (exec rec)\<rparr>"
      using fin(4) True by (simp add: applyCommandLogFinalizationResult_def zero_finalization_def)
    then have "settle_record ?d p rec (exec rec) (res, l) = (Stop, (res\<lparr>wr_RetryableFailure := rp_Err (exec rec)\<rparr>, l))"
      using fz fin(2, 3) True \<open>rp_Err (exec rec) \<noteq> None\<close> by (simp add: settle_record_def Let_def)
    then show ?thesis using ex assms(2) True by simp
  next
    case False
    then have "settle_record ?d p rec (exec rec) (res, l) =
        (Continue, (advanceCommandLogWorkerResult ((applyCommandLogFinalizationResult res fin)\<lparr>wr_CommitFailure := None\<rparr>) (clr_Offset rec) 1, mcl_commit l p (clr_Offset rec)))"
      using fz fin(2, 3) commit by (simp add: settle_record_def Let_def)
    then show ?thesis using ex assms(2) False fin(1) by simp
  qed
qed

lemma memory_drain:
  fixes n :: int and exec :: "command_log_record \<Rightarrow> reply"
  assumes "map clr_Offset recs = map (\<lambda>i. n + 1 + int i) [0..<length recs]" "0 \<le> n" "n + int (length recs) \<le> maxInt64"
    and "list_all (\<lambda>r. clr_SourcePosition r = zero_source_position) recs" "wr_LastOffset res = n"
  defines "settled \<equiv> takeWhile (\<lambda>r. \<not> retryable_reply (exec r)) recs"
  shows "\<exists>res'. drain_records (memory_worker bs exec) p recs (res, l) = (None, (res', foldl (\<lambda>l r. mcl_commit l p (clr_Offset r)) l settled)) \<and>
    wr_LastOffset res' = n + int (length settled) \<and> wr_Processed res' = wr_Processed res + int (length settled)"
  using assms(1-5) unfolding settled_def
proof (induction recs arbitrary: n res l)
  case (Cons rec recs)
  have off: "clr_Offset rec = n + 1" "map clr_Offset recs = map (\<lambda>i. (n + 1) + 1 + int i) [0..<length recs]"
    using Cons.prems(1) by (simp_all add: upt_conv_Cons map_Suc_upt[symmetric] del: upt_Suc)
  have "wrap64 (n + 1) = n + 1" using Cons.prems(2, 3) by (intro wrap64_Suc) simp_all
  then have step: "clr_Offset rec = wrap64 (wr_LastOffset res + 1)" "wr_LastOffset res < clr_Offset rec" "clr_SourcePosition rec = zero_source_position"
    using off Cons.prems(4, 5) by simp_all
  show ?case
  proof (cases "retryable_reply (exec rec)")
    case True
    then show ?thesis using memory_step[OF step, of bs exec p recs l] Cons.prems(5) by simp
  next
    case False
    let ?fin = "fst (fst (DefaultFinalizer_FinalizeCommandLogRecord \<lparr>rec_applied = None, rec_terminal = None, rec_retryable = None\<rparr> rec (exec rec) l))"
    let ?res = "advanceCommandLogWorkerResult ((applyCommandLogFinalizationResult res ?fin)\<lparr>wr_CommitFailure := None\<rparr>) (clr_Offset rec) 1"
    have res: "wr_LastOffset ?res = n + 1" "wr_Processed ?res = wr_Processed res + 1"
      by (simp_all add: advanceCommandLogWorkerResult_def applyCommandLogFinalizationResult_def off)
    have "\<exists>res'. drain_records (memory_worker bs exec) p recs (?res, mcl_commit l p (clr_Offset rec)) =
        (None, (res', foldl (\<lambda>l r. mcl_commit l p (clr_Offset r)) (mcl_commit l p (clr_Offset rec)) (takeWhile (\<lambda>r. \<not> retryable_reply (exec r)) recs))) \<and>
        wr_LastOffset res' = (n + 1) + int (length (takeWhile (\<lambda>r. \<not> retryable_reply (exec r)) recs)) \<and>
        wr_Processed res' = wr_Processed ?res + int (length (takeWhile (\<lambda>r. \<not> retryable_reply (exec r)) recs))"
      using Cons.prems by (intro Cons.IH[OF off(2)]) (simp_all add: res)
    then show ?thesis using memory_step[OF step, of bs exec p recs l] False res(2) by auto
  qed
qed simp

lemma commits_advance:
  "map clr_Offset rs = map (\<lambda>i. n + 1 + int i) [0..<length rs] \<Longrightarrow> mcl_committedOffset l p = n \<Longrightarrow>
   mcl_committedOffset (foldl (\<lambda>l r. mcl_commit l p (clr_Offset r)) l rs) p = n + int (length rs) \<and>
   log_of (foldl (\<lambda>l r. mcl_commit l p (clr_Offset r)) l rs) = log_of l"
proof (induction rs arbitrary: n l)
  case (Cons r rs)
  have off: "clr_Offset r = n + 1" "map clr_Offset rs = map (\<lambda>i. (n + 1) + 1 + int i) [0..<length rs]"
    using Cons.prems(1) by (simp_all add: upt_conv_Cons map_Suc_upt[symmetric] del: upt_Suc)
  have "mcl_committedOffset (mcl_commit l p (clr_Offset r)) p = n + 1"
    using Cons.prems(2) by (simp add: committed_commit off)
  from Cons.IH[OF off(2) this] show ?case by simp
qed simp

text \<open>
  C2: on the in-memory log the worker makes exact progress: it processes the fetched records up to the first
  whose command has to be retried, reports no error, and leaves the committed offset right after the last record it
  processed; the log itself is not changed.
\<close>

theorem memory_worker_drains:
  fixes l :: memory_command_log and p :: partition and exec :: "command_log_record \<Rightarrow> reply" and batchSize :: int
  defines "c \<equiv> mcl_committedOffset l p"
  defines "settled \<equiv> takeWhile (\<lambda>r. \<not> retryable_reply (exec r)) (mcl_fetch l p c batchSize)"
  assumes "command_log_ok l" and "0 \<le> c" and "c \<le> maxInt64" and "int (length (log_of l (Partition_Normalize p))) \<le> maxInt64"
    and "list_all (\<lambda>r. clr_SourcePosition r = zero_source_position) (mcl_fetch l p c batchSize)"
  shows "case drainPartition (memory_worker batchSize exec) p l of ((res, err), l') \<Rightarrow>
    err = None \<and> wr_LastOffset res = c + int (length settled) \<and> wr_Processed res = int (length settled) \<and>
    mcl_committedOffset l' p = c + int (length settled) \<and> log_of l' = log_of l"
proof -
  let ?batch = "mcl_fetch l p c batchSize" and ?res = "(new_worker_result p)\<lparr>wr_StartedOffset := c, wr_LastOffset := c\<rparr>"
  have off: "map clr_Offset ?batch = map (\<lambda>i. c + 1 + int i) [0..<length ?batch]"
    using memory_log.fetch_consecutive[OF assms(3, 4)] .
  have bound: "c + int (length ?batch) \<le> maxInt64"
  proof (cases "?batch = []")
    case False
    then show ?thesis using memory_log.fetch_within[OF assms(3, 4) False] assms(6) by linarith
  qed (use assms(5) in simp)
  obtain k where k: "settled = take k ?batch" unfolding settled_def using takeWhile_eq_take by blast
  then have "map clr_Offset settled = map (\<lambda>i. c + 1 + int i) [0..<length settled]"
    by (simp add: take_map[symmetric] off take_upt min_def) (simp add: take_map off take_upt)
  from commits_advance[OF this, of l p] have commits:
    "mcl_committedOffset (foldl (\<lambda>l r. mcl_commit l p (clr_Offset r)) l settled) p = c + int (length settled)"
    "log_of (foldl (\<lambda>l r. mcl_commit l p (clr_Offset r)) l settled) = log_of l"
    by (simp_all add: c_def)
  obtain res' where run: "drain_records (memory_worker batchSize exec) p ?batch (?res, l) =
      (None, (res', foldl (\<lambda>l r. mcl_commit l p (clr_Offset r)) l settled))"
    and res': "wr_LastOffset res' = c + int (length settled)" "wr_Processed res' = wr_Processed ?res + int (length settled)"
    using memory_drain[OF off assms(4) bound assms(7), where res = ?res and exec = exec and bs = batchSize and p = p and l = l] unfolding settled_def by auto
  have "drainPartition (memory_worker batchSize exec) p l =
      ((res', None), foldl (\<lambda>l r. mcl_commit l p (clr_Offset r)) l settled)"
    using run by (simp add: drainPartition_def Let_def c_def[symmetric])
  then show ?thesis using res' commits by (simp add: new_worker_result_def)
qed

theorem memory_worker_drains_witness:
  "case drainPartition (memory_worker 10 (\<lambda>r. \<lparr>rp_Result = None, rp_Err = None\<rparr>)) (Partition ''board'' ''b'') sample_log of
     ((res, err), l') \<Rightarrow> err = None \<and> wr_LastOffset res = 1 \<and> mcl_committedOffset l' (Partition ''board'' ''b'') = 1"
proof -
  let ?p = "Partition ''board'' ''b''" and ?ok = "\<lambda>r :: command_log_record. \<lparr>rp_Result = None, rp_Err = None\<rparr>"
  have norm: "Partition_Normalize ?p = ?p" by (simp add: Partition_Normalize_def)
  have batch: "mcl_fetch sample_log ?p (mcl_committedOffset sample_log ?p) 10 = [sample_record\<lparr>clr_Offset := 1\<rparr>]"
    by (simp add: fetch_eq[OF sample_ok] sample_committed norm sample_log_of limit_slice_def)
  have settled: "takeWhile (\<lambda>r. \<not> retryable_reply (?ok r)) (mcl_fetch sample_log ?p (mcl_committedOffset sample_log ?p) 10) =
      [sample_record\<lparr>clr_Offset := 1\<rparr>]"
    unfolding batch by (simp add: retryable_reply_def)
  have pre: "0 \<le> mcl_committedOffset sample_log ?p" "mcl_committedOffset sample_log ?p \<le> maxInt64"
    "int (length (log_of sample_log (Partition_Normalize ?p))) \<le> maxInt64"
    "list_all (\<lambda>r. clr_SourcePosition r = zero_source_position) (mcl_fetch sample_log ?p (mcl_committedOffset sample_log ?p) 10)"
    by (simp_all add: sample_committed norm sample_log_of maxInt64_def) (use batch in \<open>simp add: sample_committed sample_record_def\<close>)
  have "case drainPartition (memory_worker 10 ?ok) ?p sample_log of ((res, err), l') \<Rightarrow>
    err = None \<and> wr_LastOffset res = mcl_committedOffset sample_log ?p + int (length [sample_record\<lparr>clr_Offset := 1\<rparr>]) \<and>
    wr_Processed res = int (length [sample_record\<lparr>clr_Offset := 1\<rparr>]) \<and>
    mcl_committedOffset l' ?p = mcl_committedOffset sample_log ?p + int (length [sample_record\<lparr>clr_Offset := 1\<rparr>]) \<and> log_of l' = log_of sample_log"
    by (subst (1 2 3) settled[symmetric], rule memory_worker_drains[OF sample_ok pre])
  then show ?thesis by (auto simp: sample_committed split: prod.splits)
qed

end
