(* ===== verification/Broker_Records.thy ===== *)
theory Broker_Records
  imports Event_Store
begin

text \<open>
  The broker representation of commands and events (\<open>internal/core/logmodel/broker_records.go\<close>,
  \<open>broker_messages.go\<close>) and the decoding of event messages (\<open>internal/core/broker_event_log.go\<close>).
  The JSON encoding of a record is a parameter: \<open>json_record_codec\<close> with the marshalling of a record, its
  unmarshalling, \<open>json.Valid\<close> and the strings that survive the encoding (valid UTF-8). A raw payload is written in
  compact form, which is all that the round trip of such a record may change (\<open>record_codec_ok\<close>).
\<close>

section \<open>Records and messages\<close>

record broker_command_record =
  bcr_Version :: int
  bcr_ActorID :: string
  bcr_CID :: string
  bcr_Command :: string
  bcr_Payload :: string
  bcr_EnqueuedAt :: int
  bcr_PartitionKind :: string
  bcr_PartitionKey :: string
  bcr_Offset :: int

record broker_event_record =
  ber_Version :: int
  ber_ID :: string
  ber_Kind :: string
  ber_CompatibilitySeq :: int
  ber_Scopes :: "string list"
  ber_Payload :: string
  ber_TS :: int
  ber_PartitionKind :: string
  ber_PartitionKey :: string
  ber_PartitionOffset :: int

text \<open>One type serves for command and event messages, whose structs have the same fields.\<close>

record broker_message =
  bm_Partition :: partition
  bm_Offset :: int
  bm_StreamSeq :: int
  bm_Data :: string

record 'r json_record_codec =
  jr_Marshal :: "'r \<Rightarrow> go_error + string"
  jr_Unmarshal :: "string \<Rightarrow> go_error + 'r"
  jr_Valid :: "string \<Rightarrow> bool"
  jr_Text :: "string \<Rightarrow> bool"

definition BrokerCommandRecordVersion :: int where "BrokerCommandRecordVersion = 1"
definition BrokerEventRecordVersion :: int where "BrokerEventRecordVersion = 1"

definition normalizeBrokerCommandRecord ::
  "broker_command_record json_record_codec \<Rightarrow> broker_command_record \<Rightarrow> go_error + broker_command_record" where
  "normalizeBrokerCommandRecord jr r =
     (if bcr_Version r \<noteq> BrokerCommandRecordVersion then
        Inl (Errorf ''broker command record: unsupported version %d'' [Aint (bcr_Version r)])
      else if bcr_Command r = [] then Inl (Errorf ''broker command record: missing command'' [])
      else if length (bcr_Payload r) = 0 \<or> \<not> jr_Valid jr (bcr_Payload r) then Inl (Errorf ''broker command record: invalid payload'' [])
      else let p = Partition_Normalize (Partition (bcr_PartitionKind r) (bcr_PartitionKey r));
               r = r\<lparr>bcr_PartitionKind := pKind p, bcr_PartitionKey := pKey p\<rparr>
           in if bcr_Offset r \<le> 0 then Inl (Errorf ''broker command record: missing offset'' [])
              else if bcr_EnqueuedAt r \<le> 0 then Inl (Errorf ''broker command record: missing enqueue time'' [])
              else Inr r)"

definition EncodeBrokerCommandRecord ::
  "broker_command_record json_record_codec \<Rightarrow> broker_command_record \<Rightarrow> go_error + string" where
  "EncodeBrokerCommandRecord jr r =
     (let r = (if bcr_Version r = 0 then r\<lparr>bcr_Version := BrokerCommandRecordVersion\<rparr> else r)
      in case normalizeBrokerCommandRecord jr r of Inl e \<Rightarrow> Inl e | Inr r \<Rightarrow> jr_Marshal jr r)"

definition DecodeBrokerCommandRecord ::
  "broker_command_record json_record_codec \<Rightarrow> string \<Rightarrow> go_error + broker_command_record" where
  "DecodeBrokerCommandRecord jr data =
     (case jr_Unmarshal jr data of Inl e \<Rightarrow> Inl e | Inr r \<Rightarrow> normalizeBrokerCommandRecord jr r)"

definition SameBrokerCommandRecordIdentity :: "broker_command_record \<Rightarrow> broker_command_record \<Rightarrow> bool" where
  "SameBrokerCommandRecordIdentity existing requested \<longleftrightarrow>
     bcr_ActorID existing = bcr_ActorID requested \<and> bcr_CID existing = bcr_CID requested \<and>
     bcr_Command existing = bcr_Command requested \<and> bcr_EnqueuedAt existing = bcr_EnqueuedAt requested \<and>
     bcr_PartitionKind existing = bcr_PartitionKind requested \<and> bcr_PartitionKey existing = bcr_PartitionKey requested \<and>
     bcr_Payload existing = bcr_Payload requested"

definition normalizeBrokerEventRecord :: "broker_event_record \<Rightarrow> go_error + broker_event_record" where
  "normalizeBrokerEventRecord r =
     (if ber_Version r \<noteq> BrokerEventRecordVersion then
        Inl (Errorf ''broker event record: unsupported version %d'' [Aint (ber_Version r)])
      else if ber_Kind r = [] then Inl (Errorf ''broker event record: missing event kind'' [])
      else let p = Partition_Normalize (Partition (ber_PartitionKind r) (ber_PartitionKey r));
               r = r\<lparr>ber_PartitionKind := pKind p, ber_PartitionKey := pKey p\<rparr>
           in if ber_PartitionOffset r \<le> 0 then Inl (Errorf ''broker event record: missing partition offset'' [])
              else if length (ber_Payload r) = 0 then Inl (Errorf ''broker event record: missing payload'' [])
              else Inr r)"

definition EncodeBrokerEventRecord :: "broker_event_record json_record_codec \<Rightarrow> broker_event_record \<Rightarrow> go_error + string" where
  "EncodeBrokerEventRecord jr r =
     (let r = (if ber_Version r = 0 then r\<lparr>ber_Version := BrokerEventRecordVersion\<rparr> else r)
      in case normalizeBrokerEventRecord r of Inl e \<Rightarrow> Inl e | Inr r \<Rightarrow> jr_Marshal jr r)"

definition DecodeBrokerEventRecord :: "broker_event_record json_record_codec \<Rightarrow> string \<Rightarrow> go_error + broker_event_record" where
  "DecodeBrokerEventRecord jr data =
     (case jr_Unmarshal jr data of Inl e \<Rightarrow> Inl e | Inr r \<Rightarrow> normalizeBrokerEventRecord r)"

definition SameBrokerEventRecordIdentity :: "broker_event_record \<Rightarrow> broker_event_record \<Rightarrow> bool" where
  "SameBrokerEventRecordIdentity existing requested =
     (if ber_ID existing \<noteq> ber_ID requested \<or> ber_Kind existing \<noteq> ber_Kind requested \<or>
         ber_CompatibilitySeq existing \<noteq> ber_CompatibilitySeq requested \<or> ber_TS existing \<noteq> ber_TS requested \<or>
         ber_PartitionKind existing \<noteq> ber_PartitionKind requested \<or> ber_PartitionKey existing \<noteq> ber_PartitionKey requested \<or>
         ber_Payload existing \<noteq> ber_Payload requested then False
      else if length (ber_Scopes existing) \<noteq> length (ber_Scopes requested) then False
      else list_all (\<lambda>i. ber_Scopes existing ! i = ber_Scopes requested ! i) [0..<length (ber_Scopes existing)])"

definition SameBrokerEventTransactionResultIdentity :: "broker_event_record \<Rightarrow> broker_event_record \<Rightarrow> bool" where
  "SameBrokerEventTransactionResultIdentity returned expected =
     (if ber_CompatibilitySeq expected > 0 then SameBrokerEventRecordIdentity returned expected
      else SameBrokerEventRecordIdentity returned (expected\<lparr>ber_CompatibilitySeq := ber_CompatibilitySeq returned\<rparr>))"

definition normalize_tx_record :: "broker_event_record json_record_codec \<Rightarrow> broker_event_record \<Rightarrow> go_error + broker_event_record" where
  "normalize_tx_record jr r =
     (let r = r\<lparr>ber_ID := TrimSpace (ber_ID r)\<rparr>
      in if ber_ID r = [] then Inl (Errorf ''event id is required'' [])
         else if ber_Kind r = [] then Inl (Errorf ''event kind is required'' [])
         else if length (ber_Payload r) = 0 \<or> \<not> jr_Valid jr (ber_Payload r) then Inl (Errorf ''event payload is not valid JSON'' [])
         else let p = Partition_Normalize (Partition (ber_PartitionKind r) (ber_PartitionKey r));
                  r = r\<lparr>ber_PartitionKind := pKind p, ber_PartitionKey := pKey p, ber_PartitionOffset := 0\<rparr>
              in if ber_TS r \<le> 0 then Inl (Errorf ''event timestamp is required'' []) else Inr r)"

fun normalize_tx_loop ::
  "broker_event_record json_record_codec \<Rightarrow> string \<Rightarrow> (string, broker_event_record) gomap \<Rightarrow> broker_event_record list \<Rightarrow>
     go_error + broker_event_record list" where
  "normalize_tx_loop jr scope byID [] = Inr []"
| "normalize_tx_loop jr scope byID (r # rs) =
     (case normalize_tx_record jr r of
        Inl e \<Rightarrow> Inl e
      | Inr r \<Rightarrow>
          (case map_of byID (ber_ID r) of
             Some existing \<Rightarrow>
               if \<not> SameBrokerEventRecordIdentity existing r
               then Inl (Errorf ''duplicate event id %q has different content'' [Astr (ber_ID r)])
               else Inl (Errorf ''duplicate event id %q in %s'' [Astr (ber_ID r), Astr scope])
           | None \<Rightarrow>
               (case normalize_tx_loop jr scope (gm_set (ber_ID r) r byID) rs of Inl e \<Rightarrow> Inl e | Inr out \<Rightarrow> Inr (r # out))))"

definition NormalizeBrokerEventTransactionRecords ::
  "broker_event_record json_record_codec \<Rightarrow> broker_event_record list \<Rightarrow> string \<Rightarrow> go_error + broker_event_record list" where
  "NormalizeBrokerEventTransactionRecords jr records duplicateScope =
     normalize_tx_loop jr (if duplicateScope = [] then ''one transaction'' else duplicateScope) [] records"

definition CloneBrokerMessage :: "broker_message \<Rightarrow> broker_message" where
  "CloneBrokerMessage msg = msg\<lparr>bm_Partition := Partition_Normalize (bm_Partition msg)\<rparr>"

definition DecodeBrokerCommandMessage ::
  "broker_command_record json_record_codec \<Rightarrow> broker_message \<Rightarrow> go_error + command_log_record" where
  "DecodeBrokerCommandMessage jr msg =
     (case DecodeBrokerCommandRecord jr (bm_Data msg) of
        Inl e \<Rightarrow> Inl e
      | Inr r \<Rightarrow>
          let p = Partition_Normalize (Partition (bcr_PartitionKind r) (bcr_PartitionKey r))
          in if bm_Partition msg \<noteq> zero_partition \<and> Partition_Normalize (bm_Partition msg) \<noteq> p
             then Inl (Errorf ''broker command message: partition metadata mismatch'' [])
             else if bm_Offset msg > 0 \<and> bm_Offset msg \<noteq> bcr_Offset r
             then Inl (Errorf ''broker command message: offset metadata mismatch'' [])
             else Inr \<lparr>clr_Partition = p, clr_Offset = bcr_Offset r, clr_SourcePosition = zero_source_position,
                       clr_ActorID = bcr_ActorID r, clr_CID = bcr_CID r, clr_Command = bcr_Command r,
                       clr_Payload = bcr_Payload r, clr_EnqueuedAt = bcr_EnqueuedAt r\<rparr>)"

definition BrokerEventSequence :: "broker_event_record \<Rightarrow> broker_message \<Rightarrow> int" where
  "BrokerEventSequence r msg = (if ber_CompatibilitySeq r > 0 then ber_CompatibilitySeq r else bm_StreamSeq msg)"

definition DecodeBrokerEventMessage ::
  "'p json_codec \<Rightarrow> broker_event_record json_record_codec \<Rightarrow> broker_message \<Rightarrow> go_error + 'p event" where
  "DecodeBrokerEventMessage jc jr msg =
     (case DecodeBrokerEventRecord jr (bm_Data msg) of
        Inl e \<Rightarrow> Inl e
      | Inr r \<Rightarrow>
          let p = Partition_Normalize (Partition (ber_PartitionKind r) (ber_PartitionKey r))
          in if bm_Partition msg \<noteq> zero_partition \<and> Partition_Normalize (bm_Partition msg) \<noteq> p
             then Inl (Errorf ''broker event message: partition metadata mismatch'' [])
             else if bm_Offset msg > 0 \<and> bm_Offset msg \<noteq> ber_PartitionOffset r
             then Inl (Errorf ''broker event message: offset metadata mismatch'' [])
             else (case jc_UnmarshalPayload jc (ber_Kind r) (ber_Payload r) of
                     Inl e \<Rightarrow> Inl e
                   | Inr payload \<Rightarrow>
                       Inr \<lparr>ev_ID = ber_ID r, ev_Kind = ber_Kind r, ev_Seq = BrokerEventSequence r msg, ev_ESeq = 0,
                            ev_Payload = payload, ev_TS = ber_TS r, ev_PartitionKind = pKind p, ev_PartitionKey = pKey p,
                            ev_PartitionOffset = ber_PartitionOffset r, ev_Scopes = ber_Scopes r\<rparr>))"

section \<open>The law of the record encoding\<close>

text \<open>
  What the code relies on of \<open>encoding/json\<close>: a record whose strings are text is marshalled exactly when its raw payload
  is valid JSON, and unmarshalling gives it back with the payload in compact form; a valid payload is not empty, and its
  compact form is valid and is not changed further; ASCII strings are text, and text is closed under concatenation.
\<close>

definition record_codec_ok ::
  "('r \<Rightarrow> string list) \<Rightarrow> ('r \<Rightarrow> string) \<Rightarrow> (string \<Rightarrow> 'r \<Rightarrow> 'r) \<Rightarrow> 'r json_record_codec \<Rightarrow> (string \<Rightarrow> string) \<Rightarrow> bool" where
  "record_codec_ok texts payload set_payload jr compact \<longleftrightarrow>
     (\<forall>r. payload r \<noteq> [] \<and> list_all (jr_Text jr) (texts r) \<longrightarrow>
        (case jr_Marshal jr r of
           Inl e \<Rightarrow> \<not> jr_Valid jr (payload r)
         | Inr data \<Rightarrow> jr_Valid jr (payload r) \<and> jr_Unmarshal jr data = Inr (set_payload (compact (payload r)) r))) \<and>
     (\<forall>s. jr_Valid jr s \<longrightarrow> s \<noteq> [] \<and> compact s \<noteq> [] \<and> jr_Valid jr (compact s) \<and> compact (compact s) = compact s) \<and>
     (\<forall>s. list_all (\<lambda>c. of_char c < (128 :: nat)) s \<longrightarrow> jr_Text jr s) \<and>
     (\<forall>s t. jr_Text jr s \<and> jr_Text jr t \<longrightarrow> jr_Text jr (s @ t))"

definition command_texts :: "broker_command_record \<Rightarrow> string list" where
  "command_texts r = [bcr_ActorID r, bcr_CID r, bcr_Command r, bcr_PartitionKind r, bcr_PartitionKey r]"

definition event_texts :: "broker_event_record \<Rightarrow> string list" where
  "event_texts r = ber_ID r # ber_Kind r # ber_PartitionKind r # ber_PartitionKey r # ber_Scopes r"

definition command_codec_ok :: "broker_command_record json_record_codec \<Rightarrow> (string \<Rightarrow> string) \<Rightarrow> bool" where
  "command_codec_ok = record_codec_ok command_texts bcr_Payload (\<lambda>s r. r\<lparr>bcr_Payload := s\<rparr>)"

definition event_codec_ok :: "broker_event_record json_record_codec \<Rightarrow> (string \<Rightarrow> string) \<Rightarrow> bool" where
  "event_codec_ok = record_codec_ok event_texts ber_Payload (\<lambda>s r. r\<lparr>ber_Payload := s\<rparr>)"

lemma codec_compact:
  assumes "record_codec_ok texts payload set_payload jr compact" "jr_Valid jr s"
  shows "s \<noteq> []" "compact s \<noteq> []" "jr_Valid jr (compact s)" "compact (compact s) = compact s"
  using assms unfolding record_codec_ok_def by blast+

lemma codec_marshal:
  assumes "record_codec_ok texts payload set_payload jr compact" "jr_Valid jr (payload r)" "list_all (jr_Text jr) (texts r)"
  obtains data where "jr_Marshal jr r = Inr data" "jr_Unmarshal jr data = Inr (set_payload (compact (payload r)) r)"
proof -
  have "case jr_Marshal jr r of Inl e \<Rightarrow> \<not> jr_Valid jr (payload r)
    | Inr data \<Rightarrow> jr_Valid jr (payload r) \<and> jr_Unmarshal jr data = Inr (set_payload (compact (payload r)) r)"
    using assms codec_compact(1)[OF assms(1, 2)] unfolding record_codec_ok_def by blast
  then show ?thesis using assms(2) that by (cases "jr_Marshal jr r") simp_all
qed

lemma codec_invalid:
  assumes "record_codec_ok texts payload set_payload jr compact" "payload r \<noteq> []" "\<not> jr_Valid jr (payload r)"
    and "list_all (jr_Text jr) (texts r)"
  obtains e where "jr_Marshal jr r = Inl e"
proof -
  have "case jr_Marshal jr r of Inl e \<Rightarrow> \<not> jr_Valid jr (payload r)
    | Inr data \<Rightarrow> jr_Valid jr (payload r) \<and> jr_Unmarshal jr data = Inr (set_payload (compact (payload r)) r)"
    using assms unfolding record_codec_ok_def by blast
  then show ?thesis using assms(3) that by (cases "jr_Marshal jr r") simp_all
qed

lemma codec_text:
  assumes "record_codec_ok texts payload set_payload jr compact"
  shows "list_all (\<lambda>c. of_char c < (128 :: nat)) s \<Longrightarrow> jr_Text jr s" and "jr_Text jr s \<Longrightarrow> jr_Text jr t \<Longrightarrow> jr_Text jr (s @ t)"
  using assms unfolding record_codec_ok_def by blast+

lemma codec_text_normal:
  assumes "record_codec_ok texts payload set_payload jr compact" "jr_Text jr (pKind p)" "jr_Text jr (pKey p)"
  shows "jr_Text jr (pKind (Partition_Normalize p))" "jr_Text jr (pKey (Partition_Normalize p))"
  using assms(2, 3) codec_text(1)[OF assms(1), of PartitionGlobal] by (simp_all add: Partition_Normalize_def PartitionGlobal_def)

section \<open>Normal records\<close>

text \<open>The records that encoding and decoding accept without change.\<close>

definition command_record_ok :: "broker_command_record json_record_codec \<Rightarrow> broker_command_record \<Rightarrow> bool" where
  "command_record_ok jr r \<longleftrightarrow> bcr_Version r = BrokerCommandRecordVersion \<and> bcr_Command r \<noteq> [] \<and> bcr_Payload r \<noteq> [] \<and>
     jr_Valid jr (bcr_Payload r) \<and> bcr_PartitionKind r \<noteq> [] \<and> bcr_PartitionKey r \<noteq> [] \<and> 0 < bcr_Offset r \<and> 0 < bcr_EnqueuedAt r"

definition event_record_ok :: "broker_event_record \<Rightarrow> bool" where
  "event_record_ok r \<longleftrightarrow> ber_Version r = BrokerEventRecordVersion \<and> ber_Kind r \<noteq> [] \<and> ber_Payload r \<noteq> [] \<and>
     ber_PartitionKind r \<noteq> [] \<and> ber_PartitionKey r \<noteq> [] \<and> 0 < ber_PartitionOffset r"

definition command_partition :: "broker_command_record \<Rightarrow> partition" where
  "command_partition r = Partition (bcr_PartitionKind r) (bcr_PartitionKey r)"

definition record_partition :: "broker_event_record \<Rightarrow> partition" where
  "record_partition r = Partition (ber_PartitionKind r) (ber_PartitionKey r)"

lemma normalizeCommand_iff:
  "normalizeBrokerCommandRecord jr r = Inr r' \<longleftrightarrow>
     command_record_ok jr r' \<and>
     r' = r\<lparr>bcr_PartitionKind := pKind (Partition_Normalize (command_partition r)),
            bcr_PartitionKey := pKey (Partition_Normalize (command_partition r))\<rparr>"
  unfolding normalizeBrokerCommandRecord_def command_record_ok_def command_partition_def
  by (auto simp: Let_def PartitionGlobal_def Partition_Normalize_def)

lemma normalizeEvent_iff:
  "normalizeBrokerEventRecord r = Inr r' \<longleftrightarrow>
     event_record_ok r' \<and>
     r' = r\<lparr>ber_PartitionKind := pKind (Partition_Normalize (record_partition r)),
            ber_PartitionKey := pKey (Partition_Normalize (record_partition r))\<rparr>"
  unfolding normalizeBrokerEventRecord_def event_record_ok_def record_partition_def
  by (auto simp: Let_def PartitionGlobal_def Partition_Normalize_def)

lemma command_ok_normal: "command_record_ok jr r \<Longrightarrow> Partition_Normalize (command_partition r) = command_partition r"
  by (simp add: command_record_ok_def command_partition_def Partition_Normalize_def)

lemma event_ok_normal: "event_record_ok r \<Longrightarrow> Partition_Normalize (record_partition r) = record_partition r"
  by (simp add: event_record_ok_def record_partition_def Partition_Normalize_def)

lemma Encode_command:
  assumes "command_codec_ok jr compact" "command_record_ok jr r" "list_all (jr_Text jr) (command_texts r)"
  obtains data where "EncodeBrokerCommandRecord jr r = Inr data"
    "DecodeBrokerCommandRecord jr data = Inr (r\<lparr>bcr_Payload := compact (bcr_Payload r)\<rparr>)"
proof -
  let ?r = "r\<lparr>bcr_Payload := compact (bcr_Payload r)\<rparr>"
  have valid: "jr_Valid jr (bcr_Payload r)" using assms(2) by (simp add: command_record_ok_def)
  obtain data where data: "jr_Marshal jr r = Inr data" "jr_Unmarshal jr data = Inr ?r"
    using codec_marshal[OF assms(1)[unfolded command_codec_ok_def] valid assms(3)] by blast
  have "command_record_ok jr ?r"
    using assms(2) codec_compact[OF assms(1)[unfolded command_codec_ok_def] valid] by (simp add: command_record_ok_def)
  then have dec: "normalizeBrokerCommandRecord jr ?r = Inr ?r"
    using command_ok_normal[of jr ?r] by (simp add: normalizeCommand_iff command_partition_def)
  have enc: "normalizeBrokerCommandRecord jr r = Inr r"
    using assms(2) command_ok_normal[of jr r] by (simp add: normalizeCommand_iff command_partition_def)
  have "bcr_Version r = 1" using assms(2) by (simp add: command_record_ok_def BrokerCommandRecordVersion_def)
  then show ?thesis
    using data dec enc by (intro that[of data]) (simp_all add: EncodeBrokerCommandRecord_def DecodeBrokerCommandRecord_def)
qed

lemma Encode_event:
  assumes "event_codec_ok jr compact" "event_record_ok r" "jr_Valid jr (ber_Payload r)" "list_all (jr_Text jr) (event_texts r)"
  obtains data where "EncodeBrokerEventRecord jr r = Inr data"
    "DecodeBrokerEventRecord jr data = Inr (r\<lparr>ber_Payload := compact (ber_Payload r)\<rparr>)"
proof -
  let ?r = "r\<lparr>ber_Payload := compact (ber_Payload r)\<rparr>"
  obtain data where data: "jr_Marshal jr r = Inr data" "jr_Unmarshal jr data = Inr ?r"
    using codec_marshal[OF assms(1)[unfolded event_codec_ok_def] assms(3, 4)] by blast
  have "event_record_ok ?r"
    using assms(2) codec_compact[OF assms(1)[unfolded event_codec_ok_def] assms(3)] by (simp add: event_record_ok_def)
  then have dec: "normalizeBrokerEventRecord ?r = Inr ?r"
    using event_ok_normal[of ?r] by (simp add: normalizeEvent_iff record_partition_def)
  have enc: "normalizeBrokerEventRecord r = Inr r"
    using assms(2) event_ok_normal[of r] by (simp add: normalizeEvent_iff record_partition_def)
  have "ber_Version r = 1" using assms(2) by (simp add: event_record_ok_def BrokerEventRecordVersion_def)
  then show ?thesis
    using data dec enc by (intro that[of data]) (simp_all add: EncodeBrokerEventRecord_def DecodeBrokerEventRecord_def)
qed

section \<open>A concrete codec\<close>

text \<open>
  A codec that satisfies the laws, used to show that they can hold: fields are packed as subject tokens, valid payloads are
  the texts that hold something besides blanks, and the compact form drops the blanks.
\<close>

definition pack :: "string list \<Rightarrow> string" where
  "pack fs = concat (map (\<lambda>f. EncodeSubjectToken f @ ''.'') fs)"

definition unpack :: "string \<Rightarrow> string list" where
  "unpack s = map (\<lambda>t. case DecodeSubjectToken t of None \<Rightarrow> [] | Some f \<Rightarrow> f) (butlast (split_on CHR ''.'' s))"

definition int_field :: "int \<Rightarrow> string" where
  "int_field i = (if i < 0 then CHR ''-'' # replicate (nat (- i)) CHR ''x'' else replicate (nat i) CHR ''x'')"

definition field_int :: "string \<Rightarrow> int" where
  "field_int s = (case s of [] \<Rightarrow> 0 | c # cs \<Rightarrow> if c = CHR ''-'' then - int (length cs) else int (length s))"

definition compact_blanks :: "string \<Rightarrow> string" where
  "compact_blanks s = filter (\<lambda>c. c \<noteq> CHR '' '') s"

definition command_fields :: "broker_command_record \<Rightarrow> string list" where
  "command_fields r = [int_field (bcr_Version r), bcr_ActorID r, bcr_CID r, bcr_Command r, compact_blanks (bcr_Payload r),
     int_field (bcr_EnqueuedAt r), bcr_PartitionKind r, bcr_PartitionKey r, int_field (bcr_Offset r)]"

definition fields_command :: "string list \<Rightarrow> broker_command_record" where
  "fields_command fs = \<lparr>bcr_Version = field_int (fs ! 0), bcr_ActorID = fs ! 1, bcr_CID = fs ! 2, bcr_Command = fs ! 3,
     bcr_Payload = fs ! 4, bcr_EnqueuedAt = field_int (fs ! 5), bcr_PartitionKind = fs ! 6, bcr_PartitionKey = fs ! 7,
     bcr_Offset = field_int (fs ! 8)\<rparr>"

definition event_fields :: "broker_event_record \<Rightarrow> string list" where
  "event_fields r = [int_field (ber_Version r), ber_ID r, ber_Kind r, int_field (ber_CompatibilitySeq r),
     compact_blanks (ber_Payload r), int_field (ber_TS r), ber_PartitionKind r, ber_PartitionKey r,
     int_field (ber_PartitionOffset r)] @ ber_Scopes r"

definition fields_event :: "string list \<Rightarrow> broker_event_record" where
  "fields_event fs = \<lparr>ber_Version = field_int (fs ! 0), ber_ID = fs ! 1, ber_Kind = fs ! 2,
     ber_CompatibilitySeq = field_int (fs ! 3), ber_Scopes = drop 9 fs, ber_Payload = fs ! 4, ber_TS = field_int (fs ! 5),
     ber_PartitionKind = fs ! 6, ber_PartitionKey = fs ! 7, ber_PartitionOffset = field_int (fs ! 8)\<rparr>"

definition packed_codec :: "('r \<Rightarrow> string list) \<Rightarrow> (string list \<Rightarrow> 'r) \<Rightarrow> ('r \<Rightarrow> string) \<Rightarrow> 'r json_record_codec" where
  "packed_codec enc dec payload =
     \<lparr>jr_Marshal = (\<lambda>r. if compact_blanks (payload r) = [] then Inl (Errorf ''invalid payload'' []) else Inr (pack (enc r))),
      jr_Unmarshal = (\<lambda>data. Inr (dec (unpack data))),
      jr_Valid = (\<lambda>s. compact_blanks s \<noteq> []), jr_Text = (\<lambda>_. True)\<rparr>"

definition command_codec :: "broker_command_record json_record_codec" where
  "command_codec = packed_codec command_fields fields_command bcr_Payload"

definition event_codec :: "broker_event_record json_record_codec" where
  "event_codec = packed_codec event_fields fields_event ber_Payload"

lemma unpack_pack [simp]: "unpack (pack fs) = fs"
  unfolding unpack_def pack_def by (simp add: subject_token.split_terminated subject_token.dec_enc comp_def)

lemma field_int_field [simp]: "field_int (int_field i) = i"
proof (cases "i \<le> 0")
  case False
  then obtain n where "nat i = Suc n" by (metis gr0_conv_Suc zero_less_nat_eq not_le)
  then show ?thesis using False by (simp add: int_field_def field_int_def)
qed (simp add: int_field_def field_int_def)

lemma compact_blanks_idem [simp]: "compact_blanks (compact_blanks s) = compact_blanks s"
  by (simp add: compact_blanks_def)

lemma fields_command_fields: "fields_command (command_fields r) = r\<lparr>bcr_Payload := compact_blanks (bcr_Payload r)\<rparr>"
  by (simp add: fields_command_def command_fields_def)

lemma fields_event_fields: "fields_event (event_fields r) = r\<lparr>ber_Payload := compact_blanks (ber_Payload r)\<rparr>"
  by (simp add: fields_event_def event_fields_def)

lemma packed_codec_ok:
  assumes "\<And>r. dec (enc r) = set_payload (compact_blanks (payload r)) r"
  shows "record_codec_ok texts payload set_payload (packed_codec enc dec payload) compact_blanks"
proof -
  have "compact_blanks s \<noteq> [] \<Longrightarrow> s \<noteq> []" for s by (auto simp: compact_blanks_def)
  then show ?thesis unfolding record_codec_ok_def packed_codec_def by (simp add: assms)
qed

lemma command_codec_sample: "command_codec_ok command_codec compact_blanks"
  unfolding command_codec_ok_def command_codec_def by (rule packed_codec_ok) (rule fields_command_fields)

lemma event_codec_sample: "event_codec_ok event_codec compact_blanks"
  unfolding event_codec_ok_def event_codec_def by (rule packed_codec_ok) (rule fields_event_fields)

section \<open>Properties\<close>

text \<open>What a record becomes on its way through the broker.\<close>

definition canonical_event :: "(string \<Rightarrow> string) \<Rightarrow> broker_event_record \<Rightarrow> broker_event_record" where
  "canonical_event compact r =
     r\<lparr>ber_Version := BrokerEventRecordVersion, ber_PartitionKind := pKind (Partition_Normalize (record_partition r)),
       ber_PartitionKey := pKey (Partition_Normalize (record_partition r)), ber_Payload := compact (ber_Payload r)\<rparr>"

lemma canonical_event_ok:
  "event_record_ok (canonical_event id r) \<longleftrightarrow> ber_Kind r \<noteq> [] \<and> ber_Payload r \<noteq> [] \<and> 0 < ber_PartitionOffset r"
  by (simp add: event_record_ok_def canonical_event_def Partition_Normalize_def PartitionGlobal_def)

lemma canonical_event_idem: "canonical_event id (canonical_event id r) = canonical_event id r"
  by (simp add: canonical_event_def record_partition_def Partition_Normalize_def PartitionGlobal_def)

lemma Encode_event_canonical:
  assumes "ber_Version r \<in> {0, 1}"
  shows "EncodeBrokerEventRecord jr r =
    (case normalizeBrokerEventRecord (canonical_event id r) of Inl e \<Rightarrow> Inl e | Inr r \<Rightarrow> jr_Marshal jr r)"
  using assms unfolding EncodeBrokerEventRecord_def normalizeBrokerEventRecord_def canonical_event_def record_partition_def
    BrokerEventRecordVersion_def
  by (cases r) (auto simp: Let_def)

text \<open>
  An event record survives the broker. Encoding succeeds exactly for records of a known version with a kind, a positive
  offset and a valid payload, and decoding the result gives the record back in canonical form: current version, normal
  partition, compact payload.
\<close>

theorem BrokerEventRecord_roundtrip:
  assumes "event_codec_ok jr compact" and "list_all (jr_Text jr) (event_texts r)"
  shows "case EncodeBrokerEventRecord jr r of
      Inl e \<Rightarrow> ber_Version r \<notin> {0, 1} \<or> ber_Kind r = [] \<or> ber_PartitionOffset r \<le> 0 \<or> \<not> jr_Valid jr (ber_Payload r)
    | Inr data \<Rightarrow> ber_Version r \<in> {0, 1} \<and> ber_Kind r \<noteq> [] \<and> 0 < ber_PartitionOffset r \<and> jr_Valid jr (ber_Payload r) \<and>
        DecodeBrokerEventRecord jr data = Inr (canonical_event compact r)"
proof -
  let ?c = "canonical_event id r"
  note codec = assms(1)[unfolded event_codec_ok_def]
  have texts: "list_all (jr_Text jr) (event_texts ?c)"
    using assms(2) codec_text_normal[OF codec, of "record_partition r"]
    by (simp add: event_texts_def canonical_event_def record_partition_def)
  have payload: "ber_Payload ?c = ber_Payload r" "canonical_event compact r = ?c\<lparr>ber_Payload := compact (ber_Payload r)\<rparr>"
    by (simp_all add: canonical_event_def)
  consider (version) "ber_Version r \<notin> {0, 1}" | (bad) "ber_Version r \<in> {0, 1}" "\<not> event_record_ok ?c"
    | (invalid) "ber_Version r \<in> {0, 1}" "event_record_ok ?c" "\<not> jr_Valid jr (ber_Payload r)"
    | (ok) "ber_Version r \<in> {0, 1}" "event_record_ok ?c" "jr_Valid jr (ber_Payload r)" by blast
  then show ?thesis
  proof cases
    case version
    then show ?thesis
      by (simp add: EncodeBrokerEventRecord_def normalizeBrokerEventRecord_def BrokerEventRecordVersion_def Let_def)
  next
    case bad
    then have "normalizeBrokerEventRecord ?c \<noteq> Inr r'" for r'
      unfolding normalizeEvent_iff canonical_event_ok by (auto simp: canonical_event_def event_record_ok_def)
    then obtain e where "normalizeBrokerEventRecord ?c = Inl e" by (cases "normalizeBrokerEventRecord ?c") auto
    moreover have "\<not> jr_Valid jr []" using codec_compact(1)[OF codec] by blast
    ultimately show ?thesis using bad by (auto simp: Encode_event_canonical canonical_event_ok)
  next
    case invalid
    have "normalizeBrokerEventRecord ?c = Inr ?c"
      using invalid(2) event_ok_normal[OF invalid(2)] by (simp add: normalizeEvent_iff record_partition_def)
    moreover obtain e where "jr_Marshal jr ?c = Inl e"
      using codec_invalid[OF codec _ _ texts] invalid(2, 3) payload(1) by (metis event_record_ok_def)
    ultimately show ?thesis using invalid by (simp add: Encode_event_canonical)
  next
    case ok
    obtain data where "EncodeBrokerEventRecord jr ?c = Inr data" "DecodeBrokerEventRecord jr data = Inr (canonical_event compact r)"
      using Encode_event[OF assms(1) ok(2) _ texts] ok(3) payload by metis
    moreover have "EncodeBrokerEventRecord jr ?c = EncodeBrokerEventRecord jr r"
      using Encode_event_canonical[OF ok(1)] Encode_event_canonical[of ?c] canonical_event_idem[of r]
      by (simp add: canonical_event_def BrokerEventRecordVersion_def)
    ultimately show ?thesis using ok by (simp add: canonical_event_ok)
  qed
qed

definition sample_event_record :: broker_event_record where
  "sample_event_record = \<lparr>ber_Version = 0, ber_ID = ''evt_1'', ber_Kind = ''post'', ber_CompatibilitySeq = 0,
     ber_Scopes = [''board:b''], ber_Payload = ''{ }'', ber_TS = 7, ber_PartitionKind = ''board'', ber_PartitionKey = ''b'',
     ber_PartitionOffset = 1\<rparr>"

theorem BrokerEventRecord_roundtrip_witness:
  "\<exists>data. EncodeBrokerEventRecord event_codec sample_event_record = Inr data \<and>
     DecodeBrokerEventRecord event_codec data = Inr (sample_event_record\<lparr>ber_Version := 1, ber_Payload := ''{}''\<rparr>)"
proof -
  have texts: "list_all (jr_Text event_codec) (event_texts sample_event_record)"
    by (simp add: event_codec_def packed_codec_def event_texts_def sample_event_record_def)
  have "isl (EncodeBrokerEventRecord event_codec sample_event_record) = False" by code_simp
  then obtain data where data: "EncodeBrokerEventRecord event_codec sample_event_record = Inr data"
    by (metis sum.collapse(2))
  have "canonical_event compact_blanks sample_event_record = sample_event_record\<lparr>ber_Version := 1, ber_Payload := ''{}''\<rparr>"
    by code_simp
  then show ?thesis using BrokerEventRecord_roundtrip[OF event_codec_sample texts] data by simp
qed

text \<open>A record of a transaction as the normalisation leaves it, and when it is accepted.\<close>

definition tx_normal :: "broker_event_record \<Rightarrow> broker_event_record" where
  "tx_normal r =
     r\<lparr>ber_ID := TrimSpace (ber_ID r), ber_PartitionKind := pKind (Partition_Normalize (record_partition r)),
       ber_PartitionKey := pKey (Partition_Normalize (record_partition r)), ber_PartitionOffset := 0\<rparr>"

definition tx_acceptable :: "broker_event_record json_record_codec \<Rightarrow> broker_event_record \<Rightarrow> bool" where
  "tx_acceptable jr r \<longleftrightarrow> TrimSpace (ber_ID r) \<noteq> [] \<and> ber_Kind r \<noteq> [] \<and> ber_Payload r \<noteq> [] \<and>
     jr_Valid jr (ber_Payload r) \<and> 0 < ber_TS r"

lemma normalize_tx_record_iff: "normalize_tx_record jr r = Inr r' \<longleftrightarrow> tx_acceptable jr r \<and> r' = tx_normal r"
  unfolding normalize_tx_record_def tx_acceptable_def tx_normal_def record_partition_def by (auto simp: Let_def)

lemma normalize_tx_record_cases:
  obtains (bad) e where "normalize_tx_record jr r = Inl e" "\<not> tx_acceptable jr r"
  | (ok) "normalize_tx_record jr r = Inr (tx_normal r)" "tx_acceptable jr r"
  using normalize_tx_record_iff by (cases "normalize_tx_record jr r") blast+

lemma normalize_tx_loop_iff:
  "normalize_tx_loop jr scope byID rs = Inr out \<longleftrightarrow>
     list_all (tx_acceptable jr) rs \<and> distinct (map (\<lambda>r. TrimSpace (ber_ID r)) rs) \<and>
     (\<forall>r \<in> set rs. map_of byID (TrimSpace (ber_ID r)) = None) \<and> out = map tx_normal rs"
proof (induction rs arbitrary: byID out)
  case (Cons r rs)
  have id: "ber_ID (tx_normal r) = TrimSpace (ber_ID r)" by (simp add: tx_normal_def)
  show ?case
  proof (cases rule: normalize_tx_record_cases[of jr r])
    case ok
    let ?byID = "gm_set (TrimSpace (ber_ID r)) (tx_normal r) byID"
    show ?thesis
    proof (cases "map_of byID (TrimSpace (ber_ID r))")
      case None
      have "normalize_tx_loop jr scope byID (r # rs) = Inr out \<longleftrightarrow>
          (\<exists>out'. normalize_tx_loop jr scope ?byID rs = Inr out' \<and> out = tx_normal r # out')"
        using ok(1) None by (auto simp: id split: sum.splits)
      also have "\<dots> \<longleftrightarrow> list_all (tx_acceptable jr) (r # rs) \<and> distinct (map (\<lambda>r. TrimSpace (ber_ID r)) (r # rs)) \<and>
          (\<forall>r \<in> set (r # rs). map_of byID (TrimSpace (ber_ID r)) = None) \<and> out = map tx_normal (r # rs)"
        using ok(2) None by (auto simp: Cons.IH image_iff split: if_splits)
      finally show ?thesis .
    qed (use ok(1) in \<open>simp add: id\<close>)
  qed simp
qed auto

text \<open>
  The records of a transaction are accepted exactly when each has an id, a kind, a valid payload and a positive
  timestamp and no two share an id; the result keeps number, order and content of the records, with ids trimmed,
  partitions in normal form and offsets cleared.
\<close>

theorem NormalizeBrokerEventTransactionRecords_iff:
  "NormalizeBrokerEventTransactionRecords jr records scope = Inr out \<longleftrightarrow>
     list_all (tx_acceptable jr) records \<and> distinct (map (\<lambda>r. TrimSpace (ber_ID r)) records) \<and> out = map tx_normal records"
  by (simp add: NormalizeBrokerEventTransactionRecords_def normalize_tx_loop_iff)

lemma SameBrokerEventRecordIdentity_iff:
  "SameBrokerEventRecordIdentity a b \<longleftrightarrow>
     a\<lparr>ber_Version := 0, ber_PartitionOffset := 0\<rparr> = b\<lparr>ber_Version := 0, ber_PartitionOffset := 0\<rparr>"
proof -
  have "list_all (\<lambda>i. xs ! i = ys ! i) [0..<length xs] \<longleftrightarrow> xs = ys" if "length xs = length ys" for xs ys :: "string list"
    using that by (auto simp: list_all_iff intro: nth_equalityI)
  then show ?thesis
    by (cases a; cases b) (auto simp: SameBrokerEventRecordIdentity_def)
qed

lemma SameBrokerCommandRecordIdentity_iff:
  "SameBrokerCommandRecordIdentity a b \<longleftrightarrow>
     a\<lparr>bcr_Version := 0, bcr_Offset := 0\<rparr> = b\<lparr>bcr_Version := 0, bcr_Offset := 0\<rparr>"
  by (cases a; cases b) (auto simp: SameBrokerCommandRecordIdentity_def)

end
