(* ===== verification/Broker_Command_Log.thy ===== *)
theory Broker_Command_Log
  imports Broker_Records Command_Log
begin

text \<open>
  The command log on a broker (\<open>internal/core/broker_command_log.go\<close>): the adapter \<open>BrokerCommandLog\<close> over the client
  interface, and the reference client \<open>MemoryBrokerCommandLogClient\<close>. The main result is a simulation: over the reference
  client the adapter behaves as the in-memory command log of theory \<open>Command_Log\<close>, as long as payloads are in compact form.
  A nil adapter or client is \<open>None\<close>; the clock is the argument \<open>now\<close>.
\<close>

section \<open>The client interface and the adapter\<close>

record 's broker_command_client =
  bcc_AppendCommand :: "ctx \<Rightarrow> partition \<Rightarrow> broker_command_record \<Rightarrow> 's \<Rightarrow> (go_error + broker_message) \<times> 's"
  bcc_FetchCommands :: "ctx \<Rightarrow> partition \<Rightarrow> int \<Rightarrow> int \<Rightarrow> 's \<Rightarrow> go_error + broker_message list"
  bcc_CommitPartition :: "ctx \<Rightarrow> partition \<Rightarrow> int \<Rightarrow> 's \<Rightarrow> go_error option \<times> 's"
  bcc_CommittedOffset :: "ctx \<Rightarrow> partition \<Rightarrow> 's \<Rightarrow> go_error + int"
  bcc_ListCommandPartitions :: "(ctx \<Rightarrow> int \<Rightarrow> 's \<Rightarrow> go_error + partition list) option"
  bcc_ListCommandPartitionOffsets :: "(ctx \<Rightarrow> int \<Rightarrow> 's \<Rightarrow> go_error + command_partition_offset list) option"

definition BrokerCommandLog_Produce ::
  "broker_command_record json_record_codec \<Rightarrow> int \<Rightarrow> ctx \<Rightarrow> 's broker_command_client option \<Rightarrow> command_log_record \<Rightarrow> 's \<Rightarrow>
     (go_error + command_log_record) \<times> 's" where
  "BrokerCommandLog_Produce jr now ctx client rec s =
     (case ctx of Some e \<Rightarrow> (Inl e, s)
      | None \<Rightarrow>
          (case client of None \<Rightarrow> (Inl (Errorf ''broker command log: nil client'' []), s)
           | Some client \<Rightarrow>
               let p = Partition_Normalize (clr_Partition rec)
               in if \<not> jr_Valid jr (clr_Payload rec) then (Inl (Errorf ''broker command log: payload is not valid JSON'' []), s)
                  else if TrimSpace (clr_CID rec) \<noteq> [] \<and> clr_EnqueuedAt rec \<le> 0
                  then (Inl (Errorf ''broker command log: enqueue time is required when command receipt is set'' []), s)
                  else (case bcc_AppendCommand client ctx p
                               \<lparr>bcr_Version = BrokerCommandRecordVersion, bcr_ActorID = clr_ActorID rec, bcr_CID = clr_CID rec,
                                bcr_Command = clr_Command rec, bcr_Payload = clr_Payload rec,
                                bcr_EnqueuedAt = (if clr_EnqueuedAt rec \<le> 0 then now else clr_EnqueuedAt rec),
                                bcr_PartitionKind = pKind p, bcr_PartitionKey = pKey p, bcr_Offset = 0\<rparr> s of
                          (Inl e, s) \<Rightarrow> (Inl e, s)
                        | (Inr msg, s) \<Rightarrow> (DecodeBrokerCommandMessage jr msg, s))))"

fun fetch_decode ::
  "broker_command_record json_record_codec \<Rightarrow> partition \<Rightarrow> int \<Rightarrow> broker_message list \<Rightarrow> go_error + command_log_record list" where
  "fetch_decode jr p afterOffset [] = Inr []"
| "fetch_decode jr p afterOffset (msg # msgs) =
     (case DecodeBrokerCommandMessage jr msg of
        Inl e \<Rightarrow> Inl e
      | Inr rec \<Rightarrow>
          if clr_Partition rec \<noteq> p
          then Inl (Errorf ''broker command log: fetch returned wrong partition %s/%s for %s/%s''
                     [Astr (pKind (clr_Partition rec)), Astr (pKey (clr_Partition rec)), Astr (pKind p), Astr (pKey p)])
          else (case fetch_decode jr p afterOffset msgs of
                  Inl e \<Rightarrow> Inl e
                | Inr recs \<Rightarrow> Inr (if clr_Offset rec \<le> afterOffset then recs else rec # recs)))"

definition BrokerCommandLog_FetchPartition ::
  "broker_command_record json_record_codec \<Rightarrow> ctx \<Rightarrow> 's broker_command_client option \<Rightarrow> partition \<Rightarrow> int \<Rightarrow> int \<Rightarrow> 's \<Rightarrow>
     go_error + command_log_record list" where
  "BrokerCommandLog_FetchPartition jr ctx client p afterOffset limit s =
     with_receiver ctx ''broker command log: nil client'' client
       (\<lambda>client. let p = Partition_Normalize p
          in case bcc_FetchCommands client ctx p afterOffset limit s of
               Inl e \<Rightarrow> Inl e
             | Inr messages \<Rightarrow> fetch_decode jr p afterOffset messages)"

definition BrokerCommandLog_CommitPartition ::
  "ctx \<Rightarrow> 's broker_command_client option \<Rightarrow> partition \<Rightarrow> int \<Rightarrow> 's \<Rightarrow> go_error option \<times> 's" where
  "BrokerCommandLog_CommitPartition ctx client p offset s =
     (case client of None \<Rightarrow> (Some (Errorf ''broker command log: nil client'' []), s)
      | Some client \<Rightarrow> bcc_CommitPartition client ctx (Partition_Normalize p) offset s)"

definition BrokerCommandLog_CommittedOffset ::
  "ctx \<Rightarrow> 's broker_command_client option \<Rightarrow> partition \<Rightarrow> 's \<Rightarrow> go_error + int" where
  "BrokerCommandLog_CommittedOffset ctx client p s =
     (case client of None \<Rightarrow> Inl (Errorf ''broker command log: nil client'' [])
      | Some client \<Rightarrow> bcc_CommittedOffset client ctx (Partition_Normalize p) s)"

text \<open>The listings need a client that supports them.\<close>

definition BrokerCommandLog_ListCommandPartitions ::
  "ctx \<Rightarrow> 's broker_command_client option \<Rightarrow> int \<Rightarrow> 's \<Rightarrow> go_error + partition list" where
  "BrokerCommandLog_ListCommandPartitions ctx client limit s =
     (case Option.bind client bcc_ListCommandPartitions of
        None \<Rightarrow> Inl (Errorf ''broker command log: partition listing is not supported'' [])
      | Some lister \<Rightarrow> lister ctx limit s)"

definition BrokerCommandLog_ListCommandPartitionOffsets ::
  "ctx \<Rightarrow> 's broker_command_client option \<Rightarrow> int \<Rightarrow> 's \<Rightarrow> go_error + command_partition_offset list" where
  "BrokerCommandLog_ListCommandPartitionOffsets ctx client limit s =
     (case Option.bind client bcc_ListCommandPartitionOffsets of
        None \<Rightarrow> Inl (Errorf ''broker command log: partition offset listing is not supported'' [])
      | Some lister \<Rightarrow> lister ctx limit s)"

section \<open>Subjects\<close>

definition brokerCommandSubjectPrefix :: string where "brokerCommandSubjectPrefix = ''budgie.commandlog''"
definition brokerCommandCommitPrefix :: string where "brokerCommandCommitPrefix = ''budgie.commandcommit''"

definition BrokerCommandSubject :: "partition \<Rightarrow> string" where
  "BrokerCommandSubject p = BrokerSubject brokerCommandSubjectPrefix p"

definition BrokerCommandSubjectWildcard :: string where
  "BrokerCommandSubjectWildcard = BrokerSubjectWildcard brokerCommandSubjectPrefix"

definition ParseBrokerCommandSubject :: "string \<Rightarrow> partition option" where
  "ParseBrokerCommandSubject subject = ParseBrokerSubject brokerCommandSubjectPrefix subject"

definition BrokerCommandCommitSubject :: "partition \<Rightarrow> string" where
  "BrokerCommandCommitSubject p = BrokerSubject brokerCommandCommitPrefix p"

definition BrokerCommandCommitSubjectWildcard :: string where
  "BrokerCommandCommitSubjectWildcard = BrokerSubjectWildcard brokerCommandCommitPrefix"

definition ParseBrokerCommandCommitSubject :: "string \<Rightarrow> partition option" where
  "ParseBrokerCommandCommitSubject subject = ParseBrokerSubject brokerCommandCommitPrefix subject"

definition BrokerCommandMessageID :: "partition \<Rightarrow> string \<Rightarrow> string \<Rightarrow> string" where
  "BrokerCommandMessageID p actorID cid = CommandReceiptMessageID brokerCommandSubjectPrefix p actorID cid"

section \<open>The reference client\<close>

record memory_broker_commands =
  mbc_messages :: "(partition, broker_message list) gomap"
  mbc_tails :: "(partition, int) gomap"
  mbc_byReceipt :: "(receipt_key, broker_message) gomap"
  mbc_committed :: "(partition, int) gomap"
  mbc_head :: int

definition NewMemoryBrokerCommandLogClient :: memory_broker_commands where
  "NewMemoryBrokerCommandLogClient = \<lparr>mbc_messages = [], mbc_tails = [], mbc_byReceipt = [], mbc_committed = [], mbc_head = 0\<rparr>"

definition mbc_receipt :: "memory_broker_commands \<Rightarrow> partition \<Rightarrow> broker_command_record \<Rightarrow> broker_message option" where
  "mbc_receipt c p r =
     (case NewCommandReceiptKey p (bcr_ActorID r) (bcr_CID r) of
        None \<Rightarrow> None
      | Some key \<Rightarrow> map_of (mbc_byReceipt c) key)"

definition mbc_prepare :: "int \<Rightarrow> partition \<Rightarrow> int \<Rightarrow> broker_command_record \<Rightarrow> broker_command_record" where
  "mbc_prepare now p offset r =
     (let r = r\<lparr>bcr_Offset := offset\<rparr>;
          r = (if bcr_CID r = [] then r\<lparr>bcr_CID := SyntheticCommandLogCID p offset\<rparr> else r)
      in if bcr_EnqueuedAt r \<le> 0 then r\<lparr>bcr_EnqueuedAt := now\<rparr> else r)"

definition mbc_store ::
  "broker_command_record json_record_codec \<Rightarrow> int \<Rightarrow> memory_broker_commands \<Rightarrow> partition \<Rightarrow> broker_command_record \<Rightarrow>
     (go_error + broker_message) \<times> memory_broker_commands" where
  "mbc_store jr now c p r =
     (let offset = wrap64 (gm_get 0 (mbc_tails c) p + 1);
          r = mbc_prepare now p offset r
      in case EncodeBrokerCommandRecord jr r of
           Inl e \<Rightarrow> (Inl e, c)
         | Inr data \<Rightarrow>
             let head = wrap64 (mbc_head c + 1);
                 msg = \<lparr>bm_Partition = p, bm_Offset = offset, bm_StreamSeq = head, bm_Data = data\<rparr>
             in (Inr (CloneBrokerMessage msg),
                 c\<lparr>mbc_head := head, mbc_tails := gm_set p offset (mbc_tails c),
                   mbc_messages := gm_set p (gm_get [] (mbc_messages c) p @ [CloneBrokerMessage msg]) (mbc_messages c),
                   mbc_byReceipt := (case NewCommandReceiptKey p (bcr_ActorID r) (bcr_CID r) of
                      None \<Rightarrow> mbc_byReceipt c | Some key \<Rightarrow> gm_set key (CloneBrokerMessage msg) (mbc_byReceipt c))\<rparr>))"

definition mbc_append ::
  "broker_command_record json_record_codec \<Rightarrow> int \<Rightarrow> memory_broker_commands \<Rightarrow> partition \<Rightarrow> broker_command_record \<Rightarrow>
     (go_error + broker_message) \<times> memory_broker_commands" where
  "mbc_append jr now c p r =
     (let p = Partition_Normalize p
      in if TrimSpace (bcr_CID r) \<noteq> [] \<and> bcr_EnqueuedAt r \<le> 0
         then (Inl (Errorf ''memory broker command log: enqueue time is required when command receipt is set'' []), c)
         else let r = r\<lparr>bcr_PartitionKind := pKind p, bcr_PartitionKey := pKey p\<rparr>
              in case mbc_receipt c p r of
                   Some existing \<Rightarrow>
                     (case DecodeBrokerCommandRecord jr (bm_Data existing) of
                        Inl e \<Rightarrow> (Inl e, c)
                      | Inr existingRecord \<Rightarrow>
                          if \<not> SameBrokerCommandRecordIdentity existingRecord r
                          then (Inl (Errorf ''memory broker command log: duplicate command receipt %q has different content''
                                      [Astr (bcr_CID r)]), c)
                          else (Inr (CloneBrokerMessage existing), c))
                 | None \<Rightarrow> mbc_store jr now c p r)"

definition MemoryBroker_AppendCommand ::
  "broker_command_record json_record_codec \<Rightarrow> int \<Rightarrow> ctx \<Rightarrow> partition \<Rightarrow> broker_command_record \<Rightarrow> memory_broker_commands option \<Rightarrow>
     (go_error + broker_message) \<times> memory_broker_commands option" where
  "MemoryBroker_AppendCommand jr now ctx p r c =
     (case ctx of Some e \<Rightarrow> (Inl e, c)
      | None \<Rightarrow>
          (case c of None \<Rightarrow> (Inl (Errorf ''memory broker command log: nil receiver'' []), c)
           | Some c \<Rightarrow> (case mbc_append jr now c p r of (res, c) \<Rightarrow> (res, Some c))))"

definition mbc_fetch :: "memory_broker_commands \<Rightarrow> partition \<Rightarrow> int \<Rightarrow> int \<Rightarrow> broker_message list" where
  "mbc_fetch c p afterOffset limit =
     map CloneBrokerMessage
       (collect (\<lambda>msg. \<not> bm_Offset msg \<le> afterOffset) limit 0 (gm_get [] (mbc_messages c) (Partition_Normalize p)))"

definition MemoryBroker_FetchCommands ::
  "ctx \<Rightarrow> partition \<Rightarrow> int \<Rightarrow> int \<Rightarrow> memory_broker_commands option \<Rightarrow> go_error + broker_message list" where
  "MemoryBroker_FetchCommands ctx p afterOffset limit c =
     with_receiver ctx ''memory broker command log: nil receiver'' c (\<lambda>c. Inr (mbc_fetch c p afterOffset limit))"

definition mbc_commit :: "memory_broker_commands \<Rightarrow> partition \<Rightarrow> int \<Rightarrow> memory_broker_commands" where
  "mbc_commit c p offset =
     (let offset = (if offset < 0 then 0 else offset); p = Partition_Normalize p
      in if offset > gm_get 0 (mbc_committed c) p
         then c\<lparr>mbc_committed := gm_set p offset (mbc_committed c)\<rparr> else c)"

definition MemoryBroker_CommitPartition ::
  "ctx \<Rightarrow> partition \<Rightarrow> int \<Rightarrow> memory_broker_commands option \<Rightarrow> go_error option \<times> memory_broker_commands option" where
  "MemoryBroker_CommitPartition ctx p offset c =
     (case ctx of Some e \<Rightarrow> (Some e, c)
      | None \<Rightarrow>
          (case c of None \<Rightarrow> (Some (Errorf ''memory broker command log: nil receiver'' []), c)
           | Some c \<Rightarrow> (None, Some (mbc_commit c p offset))))"

definition mbc_committedOffset :: "memory_broker_commands \<Rightarrow> partition \<Rightarrow> int" where
  "mbc_committedOffset c p = gm_get 0 (mbc_committed c) (Partition_Normalize p)"

definition MemoryBroker_CommittedOffset :: "ctx \<Rightarrow> partition \<Rightarrow> memory_broker_commands option \<Rightarrow> go_error + int" where
  "MemoryBroker_CommittedOffset ctx p c =
     with_receiver ctx ''memory broker command log: nil receiver'' c (\<lambda>c. Inr (mbc_committedOffset c p))"

definition mbc_listOffsets :: "memory_broker_commands \<Rightarrow> int \<Rightarrow> command_partition_offset list" where
  "mbc_listOffsets c limit =
     limit_slice limit (SortCommandPartitionOffsetsByLag
       (map (\<lambda>(p, tail). let p = Partition_Normalize p
               in \<lparr>cpo_Partition = p, cpo_TailOffset = tail, cpo_CommittedOffset = gm_get 0 (mbc_committed c) p\<rparr>)
            (mbc_tails c)))"

definition MemoryBroker_ListCommandPartitionOffsets ::
  "ctx \<Rightarrow> int \<Rightarrow> memory_broker_commands option \<Rightarrow> go_error + command_partition_offset list" where
  "MemoryBroker_ListCommandPartitionOffsets ctx limit c =
     with_receiver ctx ''memory broker command log: nil receiver'' c (\<lambda>c. Inr (mbc_listOffsets c limit))"

definition MemoryBroker_ListCommandPartitions ::
  "ctx \<Rightarrow> int \<Rightarrow> memory_broker_commands option \<Rightarrow> go_error + partition list" where
  "MemoryBroker_ListCommandPartitions ctx limit c =
     (case MemoryBroker_ListCommandPartitionOffsets ctx 0 c of
        Inl e \<Rightarrow> Inl e
      | Inr offsets \<Rightarrow> Inr (CommandPartitionsByTailOffset offsets limit))"

text \<open>The reference client behind the interface.\<close>

definition memory_command_client ::
  "broker_command_record json_record_codec \<Rightarrow> int \<Rightarrow> memory_broker_commands option broker_command_client" where
  "memory_command_client jr now =
     \<lparr>bcc_AppendCommand = MemoryBroker_AppendCommand jr now, bcc_FetchCommands = MemoryBroker_FetchCommands,
      bcc_CommitPartition = MemoryBroker_CommitPartition, bcc_CommittedOffset = MemoryBroker_CommittedOffset,
      bcc_ListCommandPartitions = Some MemoryBroker_ListCommandPartitions,
      bcc_ListCommandPartitionOffsets = Some MemoryBroker_ListCommandPartitionOffsets\<rparr>"

section \<open>The simulation relation\<close>

text \<open>The message \<open>msg\<close> holds the command \<open>r\<close>.\<close>

definition broker_record :: "command_log_record \<Rightarrow> broker_command_record" where
  "broker_record r =
     \<lparr>bcr_Version = BrokerCommandRecordVersion, bcr_ActorID = clr_ActorID r, bcr_CID = clr_CID r, bcr_Command = clr_Command r,
      bcr_Payload = clr_Payload r, bcr_EnqueuedAt = clr_EnqueuedAt r, bcr_PartitionKind = pKind (clr_Partition r),
      bcr_PartitionKey = pKey (clr_Partition r), bcr_Offset = clr_Offset r\<rparr>"

definition msg_rep :: "broker_command_record json_record_codec \<Rightarrow> broker_message \<Rightarrow> command_log_record \<Rightarrow> bool" where
  "msg_rep jr msg r \<longleftrightarrow> bm_Partition msg = clr_Partition r \<and> bm_Offset msg = clr_Offset r \<and>
     DecodeBrokerCommandRecord jr (bm_Data msg) = Inr (broker_record r) \<and>
     Partition_Normalize (clr_Partition r) = clr_Partition r \<and> clr_SourcePosition r = zero_source_position"

definition simulates :: "broker_command_record json_record_codec \<Rightarrow> memory_broker_commands \<Rightarrow> memory_command_log \<Rightarrow> bool" where
  "simulates jr c l \<longleftrightarrow> command_log_ok l \<and>
     (\<forall>p. list_all2 (msg_rep jr) (gm_get [] (mbc_messages c) p) (log_of l p)) \<and>
     (\<forall>p. gm_get 0 (mbc_tails c) p = int (length (log_of l p))) \<and>
     (\<forall>k. rel_option (msg_rep jr) (map_of (mbc_byReceipt c) k) (map_of (mcl_byReceipt l) k)) \<and>
     (\<forall>p. gm_get 0 (mbc_committed c) p = gm_get 0 (mcl_committed l) p \<and> 0 \<le> gm_get 0 (mcl_committed l) p)"

text \<open>The commands the simulation covers: valid JSON in compact form, a name, an enqueue time, text fields.\<close>

definition requestable :: "broker_command_record json_record_codec \<Rightarrow> (string \<Rightarrow> string) \<Rightarrow> command_log_record \<Rightarrow> bool" where
  "requestable jr compact rec \<longleftrightarrow> clr_Command rec \<noteq> [] \<and> jr_Valid jr (clr_Payload rec) \<and>
     compact (clr_Payload rec) = clr_Payload rec \<and> 0 < clr_EnqueuedAt rec \<and> clr_SourcePosition rec = zero_source_position \<and>
     list_all (jr_Text jr) [clr_ActorID rec, clr_CID rec, clr_Command rec, pKind (clr_Partition rec), pKey (clr_Partition rec)]"

lemma msg_rep_decode: "msg_rep jr msg r \<Longrightarrow> DecodeBrokerCommandMessage jr msg = Inr r"
  by (cases r) (auto simp: msg_rep_def DecodeBrokerCommandMessage_def broker_record_def Let_def)

lemma msg_rep_clone: "msg_rep jr msg r \<Longrightarrow> CloneBrokerMessage msg = msg"
  by (simp add: msg_rep_def CloneBrokerMessage_def)

lemma broker_record_identity:
  assumes "Partition_Normalize (clr_Partition a) = clr_Partition a" "Partition_Normalize (clr_Partition b) = clr_Partition b"
  shows "SameBrokerCommandRecordIdentity (broker_record a) ((broker_record b)\<lparr>bcr_Offset := n\<rparr>) \<longleftrightarrow> SameCommandLogRecordIdentity a b"
  using assms by (auto simp: SameBrokerCommandRecordIdentity_def SameCommandLogRecordIdentity_def broker_record_def partition.expand)

lemma Produce_memory:
  assumes "requestable jr compact rec"
  shows "BrokerCommandLog_Produce jr now None (Some (memory_command_client jr now')) rec (Some c) =
    (case mbc_append jr now' c (Partition_Normalize (clr_Partition rec))
            ((broker_record (cloneCommandLogRecord rec))\<lparr>bcr_Offset := 0\<rparr>) of
       (Inl e, c) \<Rightarrow> (Inl e, Some c) | (Inr msg, c) \<Rightarrow> (DecodeBrokerCommandMessage jr msg, Some c))"
  using assms
  by (auto simp: BrokerCommandLog_Produce_def memory_command_client_def MemoryBroker_AppendCommand_def requestable_def
      broker_record_def cloneCommandLogRecord_def Let_def split: prod.splits sum.splits)

lemma synthetic_text:
  assumes "command_codec_ok jr compact" "jr_Text jr (pKind p)" "jr_Text jr (pKey p)"
  shows "jr_Text jr (SyntheticCommandLogCID p n)"
proof -
  note append = codec_text(2)[OF assms(1)[unfolded command_codec_ok_def]]
  note ascii = codec_text(1)[OF assms(1)[unfolded command_codec_ok_def]]
  note normal = codec_text_normal[OF assms(1)[unfolded command_codec_ok_def] assms(2, 3)]
  have digits: "list_all (\<lambda>c. of_char c < (128 :: nat)) (dec_digits m)" for m
    by (auto simp: list_all_iff of_char_digit_char dest!: dec_digits_chars)
  then have "list_all (\<lambda>c. of_char c < (128 :: nat)) (Itoa n)" by (simp add: Itoa_def)
  then have "jr_Text jr (Itoa n)" "jr_Text jr syntheticPrefix" "jr_Text jr '':''"
    by (intro ascii; simp add: syntheticPrefix_def)+
  with normal show ?thesis unfolding SyntheticCommandLogCID_def Let_def by (intro append)
qed

lemma store_sim:
  assumes codec: "command_codec_ok jr compact" and sim: "simulates jr c l" and req: "requestable jr compact rec"
    and normal: "Partition_Normalize (clr_Partition rec) = clr_Partition rec"
    and room: "int (length (log_of l (clr_Partition rec))) < maxInt64"
  obtains msg c' where "mbc_store jr now c (clr_Partition rec) ((broker_record rec)\<lparr>bcr_Offset := n\<rparr>) = (Inr msg, c')"
    "msg_rep jr msg (stored_record l rec)" "simulates jr c' (snd (mcl_append l rec))"
proof -
  let ?p = "clr_Partition rec" and ?st = "stored_record l rec"
  have offset: "wrap64 (gm_get 0 (mbc_tails c) ?p + 1) = clr_Offset ?st"
    using sim room wrap64_Suc[of "int (length (log_of l ?p))"] by (simp add: simulates_def)
  have st: "clr_SourcePosition ?st = zero_source_position"
    using req by (simp add: requestable_def stored_record_def Let_def)
  have "jr_Text jr (clr_CID ?st)"
    using synthetic_text[OF codec] req normal by (simp add: requestable_def stored_record_def Let_def)
  then have texts: "list_all (jr_Text jr) (command_texts (broker_record ?st))"
    using req by (simp add: requestable_def command_texts_def broker_record_def)
  have nonempty: "pKind ?p \<noteq> []" "pKey ?p \<noteq> []" using normal by (cases ?p; auto simp: Partition_Normalize_def PartitionGlobal_def split: if_splits)+
  have ok: "command_record_ok jr (broker_record ?st)"
    using req nonempty codec_compact(1)[OF codec[unfolded command_codec_ok_def]]
    by (auto simp: requestable_def command_record_ok_def broker_record_def)
  have compact: "(broker_record ?st)\<lparr>bcr_Payload := compact (bcr_Payload (broker_record ?st))\<rparr> = broker_record ?st"
    using req by (simp add: requestable_def broker_record_def)
  obtain data where data: "EncodeBrokerCommandRecord jr (broker_record ?st) = Inr data"
      "DecodeBrokerCommandRecord jr data = Inr (broker_record ?st)"
    using Encode_command[OF codec ok texts] compact by metis
  define msg where "msg = \<lparr>bm_Partition = ?p, bm_Offset = clr_Offset ?st, bm_StreamSeq = wrap64 (mbc_head c + 1), bm_Data = data\<rparr>"
  have rep: "msg_rep jr msg ?st" using data(2) normal st by (simp add: msg_rep_def msg_def)
  define c' where "c' = c\<lparr>mbc_head := wrap64 (mbc_head c + 1), mbc_tails := gm_set ?p (clr_Offset ?st) (mbc_tails c),
      mbc_messages := gm_set ?p (gm_get [] (mbc_messages c) ?p @ [msg]) (mbc_messages c),
      mbc_byReceipt := (case NewCommandReceiptKey ?p (clr_ActorID rec) (clr_CID ?st) of
         None \<Rightarrow> mbc_byReceipt c | Some key \<Rightarrow> gm_set key msg (mbc_byReceipt c))\<rparr>"
  have "mbc_prepare now ?p (clr_Offset ?st) ((broker_record rec)\<lparr>bcr_Offset := n\<rparr>) = broker_record ?st"
    using req by (simp add: mbc_prepare_def broker_record_def requestable_def stored_record_def Let_def)
  then have "mbc_store jr now c ?p ((broker_record rec)\<lparr>bcr_Offset := n\<rparr>) = (Inr msg, c')"
    using data(1) msg_rep_clone[OF rep] unfolding mbc_store_def offset c'_def msg_def Let_def
    by (simp del: stored_sel) (simp add: broker_record_def del: stored_sel(3) cong: option.case_cong)
  moreover define l' where "l' = snd (mcl_append l rec)"
  have l': "log_of l' = (\<lambda>p. if p = ?p then log_of l p @ [?st] else log_of l p)" "mcl_committed l' = mcl_committed l"
    "mcl_byReceipt l' = (case NewCommandReceiptKey ?p (clr_ActorID rec) (clr_CID ?st) of
       None \<Rightarrow> mcl_byReceipt l | Some key \<Rightarrow> gm_set key ?st (mcl_byReceipt l))"
    unfolding l'_def using log_of_append[OF normal] by (simp_all add: fun_eq_iff mcl_append_eq[OF normal])
  have "command_log_ok l'" unfolding l'_def using append_ok[OF _ normal] sim by (simp add: simulates_def)
  then have "simulates jr c' l'"
    using sim rep by (auto simp: simulates_def c'_def l' list_all2_appendI split: option.splits)
  ultimately show ?thesis using that rep unfolding l'_def by blast
qed

abbreviation memory_broker :: "broker_command_record json_record_codec \<Rightarrow> int \<Rightarrow> memory_broker_commands option broker_command_client option" where
  "memory_broker jr now \<equiv> Some (memory_command_client jr now)"

lemma mbc_append_eq:
  assumes "0 < bcr_EnqueuedAt r" "command_partition r = p" "Partition_Normalize p = p"
  shows "mbc_append jr now c p r =
    (case mbc_receipt c p r of
       Some existing \<Rightarrow>
         (case DecodeBrokerCommandRecord jr (bm_Data existing) of
            Inl e \<Rightarrow> (Inl e, c)
          | Inr existingRecord \<Rightarrow>
              if \<not> SameBrokerCommandRecordIdentity existingRecord r
              then (Inl (Errorf ''memory broker command log: duplicate command receipt %q has different content'' [Astr (bcr_CID r)]), c)
              else (Inr (CloneBrokerMessage existing), c))
     | None \<Rightarrow> mbc_store jr now c p r)"
proof -
  have "r\<lparr>bcr_PartitionKind := pKind p, bcr_PartitionKey := pKey p\<rparr> = r" using assms(2) by (auto simp: command_partition_def)
  then show ?thesis unfolding mbc_append_def Let_def assms(3) by (simp only: assms(1) not_le[symmetric] simp_thms if_False) (use assms(1) in simp)
qed

lemma produce_sim:
  assumes codec: "command_codec_ok jr compact" and sim: "simulates jr c l" and req: "requestable jr compact rec"
    and room: "int (length (log_of l (Partition_Normalize (clr_Partition rec)))) < maxInt64"
  obtains res c' where "BrokerCommandLog_Produce jr now None (memory_broker jr now) rec (Some c) = (res, Some c')"
    "simulates jr c' (snd (mcl_produce l rec))" "rel_sum (\<lambda>_ _. True) (=) res (fst (mcl_produce l rec))"
proof -
  let ?rec = "cloneCommandLogRecord rec" and ?p = "Partition_Normalize (clr_Partition rec)"
  let ?r = "(broker_record ?rec)\<lparr>bcr_Offset := 0\<rparr>"
  have normal: "Partition_Normalize (clr_Partition ?rec) = clr_Partition ?rec" by simp
  have req': "requestable jr compact ?rec"
    using req codec_text_normal[OF codec[unfolded command_codec_ok_def], of "clr_Partition rec"]
    by (simp add: requestable_def) (simp add: cloneCommandLogRecord_def)
  have related: "rel_option (msg_rep jr) (mbc_receipt c ?p ?r) (mcl_receipt l ?rec)"
    using sim by (simp add: simulates_def mbc_receipt_def mcl_receipt_def broker_record_def split: option.split)
  have sel: "bcr_CID ?r = clr_CID rec" by (simp add: broker_record_def)
  have append: "mbc_append jr now c ?p ?r =
    (case mbc_receipt c ?p ?r of
       Some existing \<Rightarrow>
         (case DecodeBrokerCommandRecord jr (bm_Data existing) of
            Inl e \<Rightarrow> (Inl e, c)
          | Inr existingRecord \<Rightarrow>
              if \<not> SameBrokerCommandRecordIdentity existingRecord ?r
              then (Inl (Errorf ''memory broker command log: duplicate command receipt %q has different content'' [Astr (clr_CID rec)]), c)
              else (Inr (CloneBrokerMessage existing), c))
     | None \<Rightarrow> mbc_store jr now c ?p ?r)"
    by (rule mbc_append_eq[of ?r ?p jr now c, unfolded sel])
      (use req in \<open>simp_all add: requestable_def broker_record_def command_partition_def\<close>)
  have produce: "mcl_produce l rec =
    (case mcl_receipt l ?rec of
       Some existing \<Rightarrow>
         if \<not> SameCommandLogRecordIdentity existing ?rec
         then (Inl (Errorf ''memory command log: duplicate command receipt %q has different content'' [Astr (clr_CID rec)]), l)
         else (Inr (cloneCommandLogRecord existing), l)
     | None \<Rightarrow> mcl_append l ?rec)"
    unfolding mcl_produce_clone Let_def clone_sel by (rule if_not_P) (use req in \<open>simp add: requestable_def\<close>)
  note broker = Produce_memory[OF req, of now now c]
  show ?thesis
  proof (cases "mcl_receipt l ?rec")
    case None
    obtain msg c' where "mbc_store jr now c (clr_Partition ?rec) ?r = (Inr msg, c')"
      "msg_rep jr msg (stored_record l ?rec)" "simulates jr c' (snd (mcl_append l ?rec))"
      using store_sim[OF codec sim req' normal] room by (metis clone_sel(1))
    then show ?thesis
      using that None related broker append produce msg_rep_decode by (simp add: mcl_append_eq[OF normal])
  next
    case (Some existing)
    then obtain msg where msg: "mbc_receipt c ?p ?r = Some msg" "msg_rep jr msg existing"
      using related by (auto simp: option_rel_Some2)
    then have same: "SameBrokerCommandRecordIdentity (broker_record existing) ?r \<longleftrightarrow> SameCommandLogRecordIdentity existing ?rec"
      using broker_record_identity[of existing ?rec 0] normal by (simp add: msg_rep_def)
    have "cloneCommandLogRecord existing = existing" using msg(2) by (simp add: msg_rep_def cloneCommandLogRecord_def)
    then show ?thesis
      using that Some msg same sim broker append produce msg_rep_decode[OF msg(2)] msg_rep_clone[OF msg(2)]
      by (cases "SameCommandLogRecordIdentity existing ?rec") (simp_all add: msg_rep_def)
  qed
qed

lemma fetch_decode_rep:
  "list_all2 (msg_rep jr) ms rs \<Longrightarrow> list_all (\<lambda>r. clr_Partition r = p \<and> after < clr_Offset r) rs \<Longrightarrow> fetch_decode jr p after ms = Inr rs"
  by (induction rule: list_all2_induct) (simp_all add: msg_rep_decode)

lemma list_rep_clone: "list_all2 (msg_rep jr) ms rs \<Longrightarrow> map CloneBrokerMessage ms = ms"
  by (induction rule: list_all2_induct) (simp_all add: msg_rep_clone)

lemma fetch_sim:
  assumes "simulates jr c l"
  shows "BrokerCommandLog_FetchPartition jr None (memory_broker jr now) p after limit (Some c) = Inr (mcl_fetch l p after limit)"
proof -
  let ?p = "Partition_Normalize p"
  let ?ms = "collect (\<lambda>msg. \<not> bm_Offset msg \<le> after) limit 0 (gm_get [] (mbc_messages c) ?p)"
  let ?rs = "collect (\<lambda>r. \<not> clr_Offset r \<le> after) limit 0 (log_of l ?p)"
  have ok: "command_log_ok l" and rel: "list_all2 (msg_rep jr) (gm_get [] (mbc_messages c) ?p) (log_of l ?p)"
    using assms by (auto simp: simulates_def)
  have reps: "list_all2 (msg_rep jr) ?ms ?rs" using rel by (rule collect_rel) (simp add: msg_rep_def)
  have members: "list_all (\<lambda>r. clr_Partition r = ?p \<and> after < clr_Offset r) ?rs"
    using log_of_record(1)[OF ok] by (auto simp: list_all_iff dest: set_collect)
  have "map cloneCommandLogRecord ?rs = ?rs"
    using log_of_record(2)[OF ok] by (intro map_idI) (auto dest: set_collect)
  then show ?thesis
    using fetch_decode_rep[OF reps members] list_rep_clone[OF reps]
    by (simp add: BrokerCommandLog_FetchPartition_def memory_command_client_def MemoryBroker_FetchCommands_def mbc_fetch_def
        mcl_fetch_def log_of_def)
qed

lemma commit_sim:
  assumes "simulates jr c l"
  shows "BrokerCommandLog_CommitPartition None (memory_broker jr now) p n (Some c) = (None, Some (mbc_commit c p n))"
    "simulates jr (mbc_commit c p n) (mcl_commit l p n)"
proof -
  show "BrokerCommandLog_CommitPartition None (memory_broker jr now) p n (Some c) = (None, Some (mbc_commit c p n))"
    by (simp add: BrokerCommandLog_CommitPartition_def memory_command_client_def MemoryBroker_CommitPartition_def mbc_commit_def Let_def)
  have committed: "gm_get 0 (mbc_committed c) q = gm_get 0 (mcl_committed l) q" "0 \<le> gm_get 0 (mcl_committed l) q" for q
    using assms by (auto simp: simulates_def)
  have same: "mbc_messages (mbc_commit c p n) = mbc_messages c" "mbc_tails (mbc_commit c p n) = mbc_tails c"
    "mbc_byReceipt (mbc_commit c p n) = mbc_byReceipt c" by (simp_all add: mbc_commit_def Let_def)
  have "gm_get 0 (mbc_committed (mbc_commit c p n)) q = gm_get 0 (mcl_committed (mcl_commit l p n)) q \<and>
      0 \<le> gm_get 0 (mcl_committed (mcl_commit l p n)) q" for q
  proof (cases "n > gm_get 0 (mcl_committed l) (Partition_Normalize p)")
    case True
    then have "\<not> n < 0" using committed(2)[of "Partition_Normalize p"] by simp
    with True show ?thesis using committed by (simp add: mbc_commit_def mcl_commit_def Let_def)
  next
    case False
    then show ?thesis using committed(1, 2)[of q] committed(1, 2)[of "Partition_Normalize p"]
      by (simp add: mbc_commit_def mcl_commit_def Let_def)
  qed
  then show "simulates jr (mbc_commit c p n) (mcl_commit l p n)"
    using assms commit_ok[of l p n] by (simp add: simulates_def same)
qed

section \<open>Runs\<close>

definition broker_step ::
  "broker_command_record json_record_codec \<Rightarrow> int \<Rightarrow> memory_broker_commands option \<Rightarrow> log_op \<Rightarrow> memory_broker_commands option" where
  "broker_step jr now c op = (case op of
     OpProduce rec \<Rightarrow> snd (BrokerCommandLog_Produce jr now None (memory_broker jr now) rec c)
   | OpCommit p n \<Rightarrow> snd (BrokerCommandLog_CommitPartition None (memory_broker jr now) p n c))"

definition op_ok :: "broker_command_record json_record_codec \<Rightarrow> (string \<Rightarrow> string) \<Rightarrow> log_op \<Rightarrow> bool" where
  "op_ok jr compact op = (case op of OpProduce rec \<Rightarrow> requestable jr compact rec | OpCommit p n \<Rightarrow> True)"

lemma log_step_length: "length (log_of (log_step l op) p) \<le> Suc (length (log_of l p))"
proof (cases op)
  case (OpProduce rec)
  then show ?thesis
    by (cases rule: mcl_produce_cases[of l rec]) (auto simp: log_of_append)
qed simp

lemma run_sim:
  assumes "command_codec_ok jr compact"
  shows "simulates jr c l \<Longrightarrow> list_all (op_ok jr compact) ops \<Longrightarrow> \<forall>p. int (length (log_of l p) + length ops) \<le> maxInt64 \<Longrightarrow>
    \<exists>c'. foldl (broker_step jr now) (Some c) ops = Some c' \<and> simulates jr c' (run_log l ops)"
proof (induction ops arbitrary: c l)
  case (Cons op ops)
  have "\<exists>c'. broker_step jr now (Some c) op = Some c' \<and> simulates jr c' (log_step l op)"
  proof (cases op)
    case (OpProduce rec)
    have "int (length (log_of l (Partition_Normalize (clr_Partition rec)))) < maxInt64"
      using Cons.prems(3)[rule_format, of "Partition_Normalize (clr_Partition rec)"] by simp
    moreover have "requestable jr compact rec" using Cons.prems(2) OpProduce by (simp add: op_ok_def)
    ultimately obtain res c' where "BrokerCommandLog_Produce jr now None (memory_broker jr now) rec (Some c) = (res, Some c')"
        "simulates jr c' (snd (mcl_produce l rec))"
      using produce_sim[OF assms Cons.prems(1)] by blast
    then show ?thesis by (simp add: broker_step_def OpProduce)
  next
    case (OpCommit p n)
    then show ?thesis using commit_sim[OF Cons.prems(1)] by (simp add: broker_step_def)
  qed
  then obtain c' where "broker_step jr now (Some c) op = Some c'" "simulates jr c' (log_step l op)" by blast
  moreover have "\<forall>p. int (length (log_of (log_step l op) p) + length ops) \<le> maxInt64"
  proof
    fix p
    show "int (length (log_of (log_step l op) p) + length ops) \<le> maxInt64"
      using Cons.prems(3)[rule_format, of p] log_step_length[of l op p] by simp
  qed
  ultimately show ?case using Cons.IH[of c' "log_step l op"] Cons.prems(2) by simp
qed simp

lemma New_sim: "simulates jr NewMemoryBrokerCommandLogClient NewMemoryCommandLog"
  unfolding simulates_def using New_ok
  by (simp add: NewMemoryBrokerCommandLogClient_def NewMemoryCommandLog_def log_of_def)

section \<open>Properties\<close>

text \<open>
  C33: the broker command log refines the in-memory command log. After any produced commands and commits, the adapter over
  the reference client answers a further command with the same record (or refuses it too), fetches the same records and
  reports the same committed offsets as the in-memory log after the same operations, for commands with compact payloads.
\<close>

theorem broker_log_refines_memory_log:
  assumes "command_codec_ok jr compact" and "list_all (op_ok jr compact) ops" and "requestable jr compact rec"
    and "int (length ops) < maxInt64"
  shows "\<exists>c. foldl (broker_step jr now) (Some NewMemoryBrokerCommandLogClient) ops = Some c \<and>
    rel_sum (\<lambda>_ _. True) (=) (fst (BrokerCommandLog_Produce jr now None (memory_broker jr now) rec (Some c)))
      (fst (mcl_produce (run_log NewMemoryCommandLog ops) rec)) \<and>
    BrokerCommandLog_FetchPartition jr None (memory_broker jr now) p after limit (Some c) =
      Inr (mcl_fetch (run_log NewMemoryCommandLog ops) p after limit) \<and>
    BrokerCommandLog_CommittedOffset None (memory_broker jr now) p (Some c) =
      Inr (mcl_committedOffset (run_log NewMemoryCommandLog ops) p)"
proof -
  let ?l = "run_log NewMemoryCommandLog ops"
  have "\<forall>p. int (length (log_of NewMemoryCommandLog p) + length ops) \<le> maxInt64"
    using assms(4) by (simp add: log_of_def NewMemoryCommandLog_def)
  then obtain c where c: "foldl (broker_step jr now) (Some NewMemoryBrokerCommandLogClient) ops = Some c" "simulates jr c ?l"
    using run_sim[OF assms(1) New_sim assms(2)] by blast
  have "length (log_of (run_log l ops) q) \<le> length (log_of l q) + length ops" for l ops q
  proof (induction ops arbitrary: l)
    case (Cons op ops)
    show ?case using Cons.IH[of "log_step l op"] log_step_length[of l op q] by simp
  qed simp
  then have "int (length (log_of ?l q)) < maxInt64" for q
    using assms(4) by (metis add_0 list.size(3) gm_get_Nil log_of_def NewMemoryCommandLog_def memory_command_log.select_convs(1)
        of_nat_mono order_le_less_trans)
  then obtain res c' where "BrokerCommandLog_Produce jr now None (memory_broker jr now) rec (Some c) = (res, c')"
      "rel_sum (\<lambda>_ _. True) (=) res (fst (mcl_produce ?l rec))"
    using produce_sim[OF assms(1) c(2) assms(3)] by metis
  moreover have "BrokerCommandLog_CommittedOffset None (memory_broker jr now) p (Some c) = Inr (mcl_committedOffset ?l p)"
    using c(2) by (simp add: simulates_def BrokerCommandLog_CommittedOffset_def memory_command_client_def
        MemoryBroker_CommittedOffset_def mbc_committedOffset_def mcl_committedOffset_def)
  ultimately show ?thesis using c fetch_sim[OF c(2)] by simp
qed

theorem broker_log_refines_memory_log_witness:
  "\<exists>c. foldl (broker_step command_codec 9) (Some NewMemoryBrokerCommandLogClient) [OpProduce sample_record] = Some c \<and>
    rel_sum (\<lambda>_ _. True) (=) (fst (BrokerCommandLog_Produce command_codec 9 None (memory_broker command_codec 9) sample_record (Some c)))
      (fst (mcl_produce sample_log sample_record))"
proof -
  have "requestable command_codec compact_blanks sample_record"
    by (simp add: requestable_def sample_record_def command_codec_def packed_codec_def compact_blanks_def)
  moreover have "run_log NewMemoryCommandLog [OpProduce sample_record] = sample_log" by (simp add: sample_log_def)
  ultimately show ?thesis
    using broker_log_refines_memory_log[OF command_codec_sample, of "[OpProduce sample_record]" sample_record 9]
    by (simp add: op_ok_def maxInt64_def) blast
qed

text \<open>
  a retried command is refused when its payload is valid JSON that is not in compact form. The stored record holds the
  compact payload, so the comparison with the same request reports different content.
\<close>

theorem loose_payload_retry_refused:
  assumes "command_codec_ok jr compact" and "jr_Valid jr (clr_Payload rec)" and "compact (clr_Payload rec) \<noteq> clr_Payload rec"
    and "clr_Command rec \<noteq> []" and "0 < clr_EnqueuedAt rec" and "TrimSpace (clr_CID rec) \<noteq> []"
    and "list_all (jr_Text jr) [clr_ActorID rec, clr_CID rec, clr_Command rec, pKind (clr_Partition rec), pKey (clr_Partition rec)]"
  shows "case BrokerCommandLog_Produce jr now None (memory_broker jr now) rec (Some NewMemoryBrokerCommandLogClient) of (first, c) \<Rightarrow>
    (\<exists>r. first = Inr r \<and> clr_Payload r = compact (clr_Payload rec)) \<and>
    BrokerCommandLog_Produce jr now None (memory_broker jr now) rec c =
      (Inl (Errorf ''memory broker command log: duplicate command receipt %q has different content'' [Astr (clr_CID rec)]), c)"
proof -
  let ?p = "Partition_Normalize (clr_Partition rec)"
  note codec = assms(1)[unfolded command_codec_ok_def]
  define r where "r = broker_record (cloneCommandLogRecord rec)"
  have cid: "clr_CID rec \<noteq> []" using assms(6) by auto
  define key where "key = \<lparr>rk_Partition = ?p, rk_ActorID = clr_ActorID rec, rk_CID = TrimSpace (clr_CID rec)\<rparr>"
  have key: "NewCommandReceiptKey (clr_Partition rec) (clr_ActorID rec) (clr_CID rec) = Some key"
    using assms(6) by (simp add: NewCommandReceiptKey_def key_def)
  have append: "BrokerCommandLog_Produce jr now None (memory_broker jr now) rec (Some c) =
    (case mbc_append jr now c ?p (r\<lparr>bcr_Offset := 0\<rparr>) of
       (Inl e, c) \<Rightarrow> (Inl e, Some c) | (Inr msg, c) \<Rightarrow> (DecodeBrokerCommandMessage jr msg, Some c))" for c
    using assms(2, 5)
    by (auto simp: BrokerCommandLog_Produce_def memory_command_client_def MemoryBroker_AppendCommand_def r_def
        broker_record_def cloneCommandLogRecord_def Let_def split: prod.splits sum.splits)
  have ok: "command_record_ok jr (r\<lparr>bcr_Offset := 1\<rparr>)" "list_all (jr_Text jr) (command_texts (r\<lparr>bcr_Offset := 1\<rparr>))"
    using assms codec_compact(1)[OF codec assms(2)] codec_text_normal[OF codec, of "clr_Partition rec"]
    by (simp_all add: command_record_ok_def command_texts_def r_def broker_record_def Partition_Normalize_def PartitionGlobal_def)
  obtain data where data: "EncodeBrokerCommandRecord jr (r\<lparr>bcr_Offset := 1\<rparr>) = Inr data"
      "DecodeBrokerCommandRecord jr data = Inr (r\<lparr>bcr_Offset := 1, bcr_Payload := compact (clr_Payload rec)\<rparr>)"
    using Encode_command[OF assms(1) ok] by (auto simp: r_def broker_record_def)
  define msg where "msg = \<lparr>bm_Partition = ?p, bm_Offset = 1, bm_StreamSeq = 1, bm_Data = data\<rparr>"
  have decode: "\<exists>x. DecodeBrokerCommandMessage jr msg = Inr x \<and> clr_Payload x = compact (clr_Payload rec)"
    using data(2) by (simp add: DecodeBrokerCommandMessage_def msg_def r_def broker_record_def Let_def)
  have r: "bcr_CID r = clr_CID rec" "bcr_EnqueuedAt r = clr_EnqueuedAt rec" "bcr_ActorID r = clr_ActorID rec"
      "bcr_Payload r = clr_Payload rec" "command_partition (r\<lparr>bcr_Offset := 0\<rparr>) = ?p"
    by (simp_all add: r_def broker_record_def command_partition_def)
  define c where "c = \<lparr>mbc_messages = [(?p, [msg])], mbc_tails = [(?p, 1)], mbc_byReceipt = [(key, msg)], mbc_committed = [], mbc_head = 1\<rparr>"
  have prepared: "mbc_prepare now ?p 1 (r\<lparr>bcr_Offset := 0\<rparr>) = r\<lparr>bcr_Offset := 1\<rparr>"
    using cid assms(5) by (simp add: mbc_prepare_def r Let_def)
  have wrap: "wrap64 1 = 1" by (simp add: wrap64_def)
  have clone: "CloneBrokerMessage msg = msg" by (simp add: CloneBrokerMessage_def msg_def)
  have "mbc_store jr now NewMemoryBrokerCommandLogClient ?p (r\<lparr>bcr_Offset := 0\<rparr>) = (Inr msg, c)"
    using data(1) clone unfolding msg_def c_def
    by (simp add: mbc_store_def NewMemoryBrokerCommandLogClient_def r key prepared wrap gm_set_def Let_def)
  then have "mbc_append jr now NewMemoryBrokerCommandLogClient ?p (r\<lparr>bcr_Offset := 0\<rparr>) = (Inr msg, c)"
    using assms(5) by (subst mbc_append_eq) (simp_all add: r mbc_receipt_def key NewMemoryBrokerCommandLogClient_def)
  moreover have "mbc_append jr now c ?p (r\<lparr>bcr_Offset := 0\<rparr>) =
      (Inl (Errorf ''memory broker command log: duplicate command receipt %q has different content'' [Astr (clr_CID rec)]), c)"
    using assms(3, 5) data(2)
    by (subst mbc_append_eq) (simp_all add: r mbc_receipt_def c_def msg_def key SameBrokerCommandRecordIdentity_def)
  ultimately show ?thesis using decode by (simp add: append)
qed

theorem loose_payload_retry_refused_witness:
  "case BrokerCommandLog_Produce command_codec 9 None (memory_broker command_codec 9) (sample_record\<lparr>clr_Payload := ''{ }''\<rparr>)
      (Some NewMemoryBrokerCommandLogClient) of (first, c) \<Rightarrow>
    (\<exists>r. first = Inr r \<and> clr_Payload r = ''{}'') \<and>
    BrokerCommandLog_Produce command_codec 9 None (memory_broker command_codec 9) (sample_record\<lparr>clr_Payload := ''{ }''\<rparr>) c =
      (Inl (Errorf ''memory broker command log: duplicate command receipt %q has different content'' [Astr ''c1'']), c)"
proof -
  let ?rec = "sample_record\<lparr>clr_Payload := ''{ }''\<rparr>"
  have "TrimSpace (clr_CID ?rec) \<noteq> []" using sample_cid by simp
  then show ?thesis
    using loose_payload_retry_refused[OF command_codec_sample, of ?rec 9]
    by (simp add: sample_record_def command_codec_def packed_codec_def compact_blanks_def split_def)
qed

end
