(* ===== verification/Broker_Event_Log.thy ===== *)
theory Broker_Event_Log
  imports Broker_Records Event_Parity
begin

text \<open>
  The event log on a broker (\<open>internal/core/broker_event_log.go\<close>): the adapter \<open>BrokerEventStore\<close> over the client
  interface, the order of replayed events (\<open>internal/proto/event.go\<close>) and the reference client
  \<open>MemoryBrokerEventLogClient\<close>. Over the reference client the adapter refines the in-memory event store, its appends are
  idempotent by event id, and the paging loop of its scalar replay ends.
\<close>

section \<open>The client interface and the adapter\<close>

record 's broker_event_client =
  bec_AppendEvent :: "ctx \<Rightarrow> partition \<Rightarrow> broker_event_record \<Rightarrow> 's \<Rightarrow> (go_error + broker_message) \<times> 's"
  bec_FetchEvents :: "ctx \<Rightarrow> partition \<Rightarrow> int \<Rightarrow> int \<Rightarrow> 's \<Rightarrow> go_error + broker_message list"
  bec_Head :: "ctx \<Rightarrow> 's \<Rightarrow> go_error + int"
  bec_RequiresSeed :: "bool option"
  bec_ListEventPartitions :: "(ctx \<Rightarrow> int \<Rightarrow> 's \<Rightarrow> go_error + partition list) option"
  bec_ListEventPartitionOffsets :: "(ctx \<Rightarrow> int \<Rightarrow> 's \<Rightarrow> go_error + event_partition_offset list) option"
  bec_SeedEventPartitionOffset :: "(ctx \<Rightarrow> partition \<Rightarrow> int \<Rightarrow> 's \<Rightarrow> go_error option \<times> 's) option"

definition RequiresEventStoreProjectionWatermarkSeed :: "'s broker_event_client option \<Rightarrow> bool" where
  "RequiresEventStoreProjectionWatermarkSeed client =
     (case Option.bind client bec_RequiresSeed of None \<Rightarrow> False | Some b \<Rightarrow> b)"

text \<open>\<open>now\<close> and \<open>fresh\<close> are the values of \<open>nowMS()\<close> and \<open>newID("evt_")\<close> at the call.\<close>

definition BrokerEventStore_Append ::
  "'p json_codec \<Rightarrow> broker_event_record json_record_codec \<Rightarrow> int \<Rightarrow> string \<Rightarrow> ctx \<Rightarrow> 's broker_event_client option \<Rightarrow> 'p event_append \<Rightarrow>
     's \<Rightarrow> (go_error + 'p event) \<times> 's" where
  "BrokerEventStore_Append jc jr now fresh ctx client event s =
     (case ctx of Some e \<Rightarrow> (Inl e, s)
      | None \<Rightarrow>
          (case client of None \<Rightarrow> (Inl (Errorf ''broker event store: nil client'' []), s)
           | Some client \<Rightarrow>
               (case jc_Marshal jc (ea_Payload event) of
                  Inl e \<Rightarrow> (Inl e, s)
                | Inr payload \<Rightarrow>
                    (case jc_UnmarshalPayload jc (ea_Kind event) payload of
                       Inl e \<Rightarrow> (Inl e, s)
                     | Inr _ \<Rightarrow>
                         if ea_ID event \<noteq> [] \<and> ea_TS event \<le> 0
                         then (Inl (Errorf ''broker event store: event timestamp is required when event id is set'' []), s)
                         else let p = logPartitionFromEventPartition (EventPartitionFor (ea_Kind event) (ea_Scopes event))
                              in (case bec_AppendEvent client ctx p
                                         \<lparr>ber_Version = BrokerEventRecordVersion,
                                          ber_ID = (if ea_ID event = [] then fresh else ea_ID event), ber_Kind = ea_Kind event,
                                          ber_CompatibilitySeq = ea_CompatibilitySeq event, ber_Scopes = ea_Scopes event,
                                          ber_Payload = payload, ber_TS = EventAppendTimestamp (ea_TS event) now,
                                          ber_PartitionKind = pKind p, ber_PartitionKey = pKey p,
                                          ber_PartitionOffset = ea_PartitionOffset event\<rparr> s of
                                    (Inl e, s) \<Rightarrow> (Inl e, s)
                                  | (Inr msg, s) \<Rightarrow> (DecodeBrokerEventMessage jc jr msg, s))))))"

definition BrokerEventStore_Head :: "ctx \<Rightarrow> 's broker_event_client option \<Rightarrow> 's \<Rightarrow> go_error + int" where
  "BrokerEventStore_Head ctx client s =
     (case client of None \<Rightarrow> Inl (Errorf ''broker event store: nil client'' []) | Some client \<Rightarrow> bec_Head client ctx s)"

definition replay_less :: "'p event \<Rightarrow> 'p event \<Rightarrow> bool" where
  "replay_less a b =
     (if ev_Seq a = ev_Seq b then
        if ev_PartitionKind a = ev_PartitionKind b then
          if ev_PartitionKey a = ev_PartitionKey b then ev_PartitionOffset a < ev_PartitionOffset b
          else ev_PartitionKey a < ev_PartitionKey b
        else ev_PartitionKind a < ev_PartitionKind b
      else ev_Seq a < ev_Seq b)"

definition SortEventsByReplayOrder :: "'p event list \<Rightarrow> 'p event list" where
  "SortEventsByReplayOrder events = slice_stable replay_less events"

text \<open>
  The messages of one page: the largest offset seen so far and the events that were selected; then the pages of one
  partition, which the source reads until a page is empty or not full, and the partitions.
\<close>

fun replay_messages ::
  "'p json_codec \<Rightarrow> broker_event_record json_record_codec \<Rightarrow> int \<Rightarrow> string list option \<Rightarrow> broker_message list \<Rightarrow> int \<Rightarrow> 'p event list \<Rightarrow>
     go_error + int \<times> 'p event list" where
  "replay_messages jc jr after scopes [] afterOffset events = Inr (afterOffset, events)"
| "replay_messages jc jr after scopes (msg # msgs) afterOffset events =
     (case DecodeBrokerEventMessage jc jr msg of
        Inl e \<Rightarrow> Inl e
      | Inr evt \<Rightarrow>
          let afterOffset = (if ev_PartitionOffset evt > afterOffset then ev_PartitionOffset evt else afterOffset)
          in if ev_Seq evt \<le> after then replay_messages jc jr after scopes msgs afterOffset events
             else if (case scopes of None \<Rightarrow> False | Some ss \<Rightarrow> \<not> scopesOverlap (ev_Scopes evt) ss)
             then replay_messages jc jr after scopes msgs afterOffset events
             else replay_messages jc jr after scopes msgs afterOffset (events @ [evt]))"

partial_function (option) replay_pages ::
  "'p json_codec \<Rightarrow> broker_event_record json_record_codec \<Rightarrow> ctx \<Rightarrow> 's broker_event_client \<Rightarrow> 's \<Rightarrow> int \<Rightarrow> string list option \<Rightarrow> partition \<Rightarrow>
     int \<Rightarrow> 'p event list \<Rightarrow> (go_error + 'p event list) option" where
  "replay_pages jc jr ctx client s after scopes p afterOffset events =
     (case bec_FetchEvents client ctx p afterOffset 100 s of
        Inl e \<Rightarrow> Some (Inl e)
      | Inr messages \<Rightarrow>
          if messages = [] then Some (Inr events)
          else (case replay_messages jc jr after scopes messages afterOffset events of
                  Inl e \<Rightarrow> Some (Inl e)
                | Inr (afterOffset, events) \<Rightarrow>
                    if length messages < 100 then Some (Inr events)
                    else replay_pages jc jr ctx client s after scopes p afterOffset events))"

fun replay_partitions ::
  "'p json_codec \<Rightarrow> broker_event_record json_record_codec \<Rightarrow> ctx \<Rightarrow> 's broker_event_client \<Rightarrow> 's \<Rightarrow> int \<Rightarrow> string list option \<Rightarrow>
     partition list \<Rightarrow> 'p event list \<Rightarrow> (go_error + 'p event list) option" where
  "replay_partitions jc jr ctx client s after scopes [] events = Some (Inr events)"
| "replay_partitions jc jr ctx client s after scopes (p # ps) events =
     (case replay_pages jc jr ctx client s after scopes (Partition_Normalize p) 0 events of
        None \<Rightarrow> None
      | Some (Inl e) \<Rightarrow> Some (Inl e)
      | Some (Inr events) \<Rightarrow> replay_partitions jc jr ctx client s after scopes ps events)"

definition BrokerEventStore_Replay ::
  "'p json_codec \<Rightarrow> broker_event_record json_record_codec \<Rightarrow> ctx \<Rightarrow> 's broker_event_client option \<Rightarrow> int \<Rightarrow> string list option \<Rightarrow> int \<Rightarrow> 's \<Rightarrow>
     (go_error + 'p event list) option" where
  "BrokerEventStore_Replay jc jr ctx client after scopes limit s =
     (case ctx of Some e \<Rightarrow> Some (Inl e)
      | None \<Rightarrow>
          (case client of None \<Rightarrow> Some (Inl (Errorf ''broker event store: nil client'' []))
           | Some client \<Rightarrow>
               (case bec_ListEventPartitions client of
                  None \<Rightarrow> Some (Inl (Errorf ''broker event store: scalar replay requires partition listing'' []))
                | Some lister \<Rightarrow>
                    (case lister ctx 0 s of
                       Inl e \<Rightarrow> Some (Inl e)
                     | Inr partitions \<Rightarrow>
                         (case replay_partitions jc jr ctx client s after scopes partitions [] of
                            None \<Rightarrow> None
                          | Some (Inl e) \<Rightarrow> Some (Inl e)
                          | Some (Inr events) \<Rightarrow> Some (Inr (limit_slice limit (SortEventsByReplayOrder events))))))))"

fun replay_decode ::
  "'p json_codec \<Rightarrow> broker_event_record json_record_codec \<Rightarrow> partition \<Rightarrow> int \<Rightarrow> broker_message list \<Rightarrow> go_error + 'p event list" where
  "replay_decode jc jr p afterOffset [] = Inr []"
| "replay_decode jc jr p afterOffset (msg # msgs) =
     (case DecodeBrokerEventMessage jc jr msg of
        Inl e \<Rightarrow> Inl e
      | Inr evt \<Rightarrow>
          if ev_PartitionKind evt \<noteq> pKind p \<or> ev_PartitionKey evt \<noteq> pKey p
          then Inl (Errorf ''broker event store: replay returned wrong partition %s/%s for %s/%s''
                     [Astr (ev_PartitionKind evt), Astr (ev_PartitionKey evt), Astr (pKind p), Astr (pKey p)])
          else (case replay_decode jc jr p afterOffset msgs of
                  Inl e \<Rightarrow> Inl e
                | Inr events \<Rightarrow> Inr (if ev_PartitionOffset evt \<le> afterOffset then events else evt # events)))"

definition BrokerEventStore_ReplayPartition ::
  "'p json_codec \<Rightarrow> broker_event_record json_record_codec \<Rightarrow> ctx \<Rightarrow> 's broker_event_client option \<Rightarrow> string \<Rightarrow> string \<Rightarrow> int \<Rightarrow> int \<Rightarrow> 's \<Rightarrow>
     go_error + 'p event list" where
  "BrokerEventStore_ReplayPartition jc jr ctx client kind key afterOffset limit s =
     with_receiver ctx ''broker event store: nil client'' client
       (\<lambda>client. let p = Partition_Normalize (Partition kind key)
          in case bec_FetchEvents client ctx p afterOffset limit s of
               Inl e \<Rightarrow> Inl e
             | Inr messages \<Rightarrow> replay_decode jc jr p afterOffset messages)"

definition BrokerEventStore_ListEventPartitions :: "ctx \<Rightarrow> 's broker_event_client option \<Rightarrow> int \<Rightarrow> 's \<Rightarrow> go_error + partition list" where
  "BrokerEventStore_ListEventPartitions ctx client limit s =
     (case Option.bind client bec_ListEventPartitions of
        None \<Rightarrow> Inl (Errorf ''broker event store: partition listing is not supported'' [])
      | Some lister \<Rightarrow> lister ctx limit s)"

definition BrokerEventStore_ListEventPartitionOffsets ::
  "ctx \<Rightarrow> 's broker_event_client option \<Rightarrow> int \<Rightarrow> 's \<Rightarrow> go_error + event_partition_offset list" where
  "BrokerEventStore_ListEventPartitionOffsets ctx client limit s =
     (case Option.bind client bec_ListEventPartitionOffsets of
        None \<Rightarrow> Inl (Errorf ''broker event store: partition offset listing is not supported'' [])
      | Some lister \<Rightarrow> lister ctx limit s)"

definition BrokerEventStore_SeedEventPartitionOffset ::
  "ctx \<Rightarrow> 's broker_event_client option \<Rightarrow> partition \<Rightarrow> int \<Rightarrow> 's \<Rightarrow> go_error option \<times> 's" where
  "BrokerEventStore_SeedEventPartitionOffset ctx client p offset s =
     (case Option.bind client bec_SeedEventPartitionOffset of
        None \<Rightarrow> (Some (Errorf ''broker event store: partition offset seeding is not supported'' []), s)
      | Some seeder \<Rightarrow> seeder ctx p offset s)"

definition brokerEventSubjectPrefix :: string where "brokerEventSubjectPrefix = ''budgie.eventlog''"

definition BrokerEventSubject :: "partition \<Rightarrow> string" where
  "BrokerEventSubject p = BrokerSubject brokerEventSubjectPrefix p"

definition BrokerEventSubjectWildcard :: string where
  "BrokerEventSubjectWildcard = BrokerSubjectWildcard brokerEventSubjectPrefix"

definition ParseBrokerEventSubject :: "string \<Rightarrow> partition option" where
  "ParseBrokerEventSubject subject = ParseBrokerSubject brokerEventSubjectPrefix subject"

section \<open>The reference client\<close>

record memory_broker_events =
  mbe_messages :: "(partition, broker_message list) gomap"
  mbe_tails :: "(partition, int) gomap"
  mbe_byID :: "(string, broker_message) gomap"
  mbe_head :: int

definition NewMemoryBrokerEventLogClient :: memory_broker_events where
  "NewMemoryBrokerEventLogClient = \<lparr>mbe_messages = [], mbe_tails = [], mbe_byID = [], mbe_head = 0\<rparr>"

text \<open>The answer to an append whose event id is already known.\<close>

definition mbe_duplicate ::
  "broker_event_record json_record_codec \<Rightarrow> partition \<Rightarrow> broker_event_record \<Rightarrow> broker_message \<Rightarrow> go_error + broker_message" where
  "mbe_duplicate jr p r existing =
     (if Partition_Normalize (bm_Partition existing) \<noteq> p
      then Inl (Errorf ''memory broker event log: duplicate event id %q belongs to %s/%s, not %s/%s''
                 [Astr (ber_ID r), Astr (pKind (bm_Partition existing)), Astr (pKey (bm_Partition existing)), Astr (pKind p), Astr (pKey p)])
      else (case DecodeBrokerEventRecord jr (bm_Data existing) of
              Inl e \<Rightarrow> Inl e
            | Inr existingRecord \<Rightarrow>
                if \<not> SameBrokerEventRecordIdentity existingRecord r
                then Inl (Errorf ''memory broker event log: duplicate event id %q has different content'' [Astr (ber_ID r)])
                else Inr (CloneBrokerMessage existing)))"

definition mbe_store ::
  "broker_event_record json_record_codec \<Rightarrow> memory_broker_events \<Rightarrow> partition \<Rightarrow> broker_event_record \<Rightarrow>
     (go_error + broker_message) \<times> memory_broker_events" where
  "mbe_store jr c p r =
     (let offset = wrap64 (gm_get 0 (mbe_tails c) p + 1)
      in if ber_PartitionOffset r > 0 \<and> ber_PartitionOffset r \<noteq> offset
         then (Inl (Errorf ''memory broker event log: partition offset %d for %s/%s must follow current tail %d''
                     [Aint (ber_PartitionOffset r), Astr (pKind p), Astr (pKey p), Aint (gm_get 0 (mbe_tails c) p)]), c)
         else (case EncodeBrokerEventRecord jr (r\<lparr>ber_PartitionOffset := offset\<rparr>) of
                 Inl e \<Rightarrow> (Inl e, c)
               | Inr data \<Rightarrow>
                   let head = wrap64 (mbe_head c + 1);
                       msg = \<lparr>bm_Partition = p, bm_Offset = offset, bm_StreamSeq = head, bm_Data = data\<rparr>
                   in (Inr (CloneBrokerMessage msg),
                       c\<lparr>mbe_head := head, mbe_tails := gm_set p offset (mbe_tails c),
                         mbe_messages := gm_set p (gm_get [] (mbe_messages c) p @ [CloneBrokerMessage msg]) (mbe_messages c),
                         mbe_byID := (if ber_ID r \<noteq> [] then gm_set (ber_ID r) (CloneBrokerMessage msg) (mbe_byID c) else mbe_byID c)\<rparr>)))"

definition mbe_append ::
  "broker_event_record json_record_codec \<Rightarrow> memory_broker_events \<Rightarrow> partition \<Rightarrow> broker_event_record \<Rightarrow>
     (go_error + broker_message) \<times> memory_broker_events" where
  "mbe_append jr c p r =
     (let p = Partition_Normalize p;
          r = r\<lparr>ber_PartitionKind := pKind p, ber_PartitionKey := pKey p\<rparr>
      in case (if ber_ID r \<noteq> [] then map_of (mbe_byID c) (ber_ID r) else None) of
           Some existing \<Rightarrow> (mbe_duplicate jr p r existing, c)
         | None \<Rightarrow> mbe_store jr c p r)"

definition MemoryBroker_AppendEvent ::
  "broker_event_record json_record_codec \<Rightarrow> ctx \<Rightarrow> partition \<Rightarrow> broker_event_record \<Rightarrow> memory_broker_events option \<Rightarrow>
     (go_error + broker_message) \<times> memory_broker_events option" where
  "MemoryBroker_AppendEvent jr ctx p r c =
     (case ctx of Some e \<Rightarrow> (Inl e, c)
      | None \<Rightarrow>
          (case c of None \<Rightarrow> (Inl (Errorf ''memory broker event log: nil receiver'' []), c)
           | Some c \<Rightarrow> (case mbe_append jr c p r of (res, c) \<Rightarrow> (res, Some c))))"

definition mbe_fetch :: "memory_broker_events \<Rightarrow> partition \<Rightarrow> int \<Rightarrow> int \<Rightarrow> broker_message list" where
  "mbe_fetch c p afterOffset limit =
     map CloneBrokerMessage
       (collect (\<lambda>msg. \<not> bm_Offset msg \<le> afterOffset) limit 0 (gm_get [] (mbe_messages c) (Partition_Normalize p)))"

definition MemoryBroker_FetchEvents ::
  "ctx \<Rightarrow> partition \<Rightarrow> int \<Rightarrow> int \<Rightarrow> memory_broker_events option \<Rightarrow> go_error + broker_message list" where
  "MemoryBroker_FetchEvents ctx p afterOffset limit c =
     with_receiver ctx ''memory broker event log: nil receiver'' c (\<lambda>c. Inr (mbe_fetch c p afterOffset limit))"

definition MemoryBroker_Head :: "ctx \<Rightarrow> memory_broker_events option \<Rightarrow> go_error + int" where
  "MemoryBroker_Head ctx c = with_receiver ctx ''memory broker event log: nil receiver'' c (\<lambda>c. Inr (mbe_head c))"

definition mbe_seed :: "memory_broker_events \<Rightarrow> partition \<Rightarrow> int \<Rightarrow> memory_broker_events" where
  "mbe_seed c p offset =
     (let offset = (if offset < 0 then 0 else offset); p = Partition_Normalize p
      in if offset > gm_get 0 (mbe_tails c) p then c\<lparr>mbe_tails := gm_set p offset (mbe_tails c)\<rparr> else c)"

definition MemoryBroker_SeedEventPartitionOffset ::
  "ctx \<Rightarrow> partition \<Rightarrow> int \<Rightarrow> memory_broker_events option \<Rightarrow> go_error option \<times> memory_broker_events option" where
  "MemoryBroker_SeedEventPartitionOffset ctx p offset c =
     (case ctx of Some e \<Rightarrow> (Some e, c)
      | None \<Rightarrow>
          (case c of None \<Rightarrow> (Some (Errorf ''memory broker event log: nil receiver'' []), c)
           | Some c \<Rightarrow> (None, Some (mbe_seed c p offset))))"

definition mbe_listOffsets :: "memory_broker_events \<Rightarrow> int \<Rightarrow> event_partition_offset list" where
  "mbe_listOffsets c limit =
     limit_slice limit (SortEventPartitionOffsetsByLastOffset
       (map (\<lambda>(p, tail). EventPartitionOffset_Normalize \<lparr>epo_Partition = Partition_Normalize p, epo_LastOffset = tail\<rparr>) (mbe_tails c)))"

definition MemoryBroker_ListEventPartitionOffsets ::
  "ctx \<Rightarrow> int \<Rightarrow> memory_broker_events option \<Rightarrow> go_error + event_partition_offset list" where
  "MemoryBroker_ListEventPartitionOffsets ctx limit c =
     with_receiver ctx ''memory broker event log: nil receiver'' c (\<lambda>c. Inr (mbe_listOffsets c limit))"

definition MemoryBroker_ListEventPartitions :: "ctx \<Rightarrow> int \<Rightarrow> memory_broker_events option \<Rightarrow> go_error + partition list" where
  "MemoryBroker_ListEventPartitions ctx limit c =
     (case MemoryBroker_ListEventPartitionOffsets ctx 0 c of
        Inl e \<Rightarrow> Inl e
      | Inr offsets \<Rightarrow> Inr (EventPartitionsByLastOffset offsets limit))"

definition memory_event_client :: "broker_event_record json_record_codec \<Rightarrow> memory_broker_events option broker_event_client" where
  "memory_event_client jr =
     \<lparr>bec_AppendEvent = MemoryBroker_AppendEvent jr, bec_FetchEvents = MemoryBroker_FetchEvents, bec_Head = MemoryBroker_Head,
      bec_RequiresSeed = None, bec_ListEventPartitions = Some MemoryBroker_ListEventPartitions,
      bec_ListEventPartitionOffsets = Some MemoryBroker_ListEventPartitionOffsets,
      bec_SeedEventPartitionOffset = Some MemoryBroker_SeedEventPartitionOffset\<rparr>"

section \<open>The simulation relation\<close>

text \<open>The law that links the payload codec with the record codec: \<open>json.Marshal\<close> writes valid JSON in compact form.\<close>

definition payload_codec_ok :: "'p json_codec \<Rightarrow> broker_event_record json_record_codec \<Rightarrow> (string \<Rightarrow> string) \<Rightarrow> bool" where
  "payload_codec_ok jc jr compact \<longleftrightarrow> (\<forall>x raw. jc_Marshal jc x = Inr raw \<longrightarrow> jr_Valid jr raw \<and> compact raw = raw)"

definition event_rep :: "'p json_codec \<Rightarrow> broker_event_record json_record_codec \<Rightarrow> broker_message \<Rightarrow> 'p event \<Rightarrow> bool" where
  "event_rep jc jr msg e \<longleftrightarrow> DecodeBrokerEventMessage jc jr msg = Inr e \<and> bm_Partition msg = event_partition e \<and>
     bm_Offset msg = ev_PartitionOffset e \<and> Partition_Normalize (event_partition e) = event_partition e"

definition event_sim :: "'p json_codec \<Rightarrow> broker_event_record json_record_codec \<Rightarrow> memory_broker_events \<Rightarrow> 'p memory_event_store \<Rightarrow> bool" where
  "event_sim jc jr c s \<longleftrightarrow> event_store_ok jc s \<and>
     (\<forall>p. list_all2 (event_rep jc jr) (gm_get [] (mbe_messages c) p) (filter (\<lambda>e. event_partition e = p) (mes_events s))) \<and>
     (\<forall>p. gm_get 0 (mbe_tails c) p = tail_of s p) \<and> mbe_head c = int (length (mes_events s)) \<and>
     (\<forall>id. map_of (mbe_byID c) id \<noteq> None \<longleftrightarrow> id \<in> ev_ID ` set (mes_events s))"

abbreviation append_id :: "string \<Rightarrow> 'p event_append \<Rightarrow> string" where
  "append_id fresh event \<equiv> (if ea_ID event = [] then fresh else ea_ID event)"

text \<open>The appends the simulation covers: a kind, a timestamp when there is an id, text fields.\<close>

definition appendable :: "broker_event_record json_record_codec \<Rightarrow> int \<Rightarrow> string \<Rightarrow> 'p event_append \<Rightarrow> bool" where
  "appendable jr now fresh event \<longleftrightarrow> ea_Kind event \<noteq> [] \<and> fresh \<noteq> [] \<and> (ea_ID event = [] \<or> 0 < ea_TS event) \<and>
     list_all (jr_Text jr) (append_id fresh event # ea_Kind event # pKind (append_partition event) # pKey (append_partition event) # ea_Scopes event)"

definition append_record :: "int \<Rightarrow> string \<Rightarrow> 'p event_append \<Rightarrow> string \<Rightarrow> broker_event_record" where
  "append_record now fresh event payload =
     \<lparr>ber_Version = BrokerEventRecordVersion, ber_ID = append_id fresh event, ber_Kind = ea_Kind event,
      ber_CompatibilitySeq = ea_CompatibilitySeq event, ber_Scopes = ea_Scopes event, ber_Payload = payload,
      ber_TS = EventAppendTimestamp (ea_TS event) now, ber_PartitionKind = pKind (append_partition event),
      ber_PartitionKey = pKey (append_partition event), ber_PartitionOffset = ea_PartitionOffset event\<rparr>"

abbreviation memory_event_broker :: "broker_event_record json_record_codec \<Rightarrow> memory_broker_events option broker_event_client option" where
  "memory_event_broker jr \<equiv> Some (memory_event_client jr)"

lemma Append_memory:
  assumes "ea_ID event = [] \<or> 0 < ea_TS event" "jc_Marshal jc (ea_Payload event) = Inr raw" "jc_UnmarshalPayload jc (ea_Kind event) raw = Inr y"
  shows "BrokerEventStore_Append jc jr now fresh None (memory_event_broker jr) event (Some c) =
    (case mbe_append jr c (append_partition event) (append_record now fresh event raw) of
       (Inl e, c) \<Rightarrow> (Inl e, Some c) | (Inr msg, c) \<Rightarrow> (DecodeBrokerEventMessage jc jr msg, Some c))"
  using assms
  by (auto simp: BrokerEventStore_Append_def memory_event_client_def MemoryBroker_AppendEvent_def append_record_def
      Let_def split: prod.splits sum.splits)

lemma mbe_append_eq:
  assumes "record_partition r = p" "Partition_Normalize p = p" "ber_ID r \<noteq> []"
  shows "mbe_append jr c p r =
    (case map_of (mbe_byID c) (ber_ID r) of Some existing \<Rightarrow> (mbe_duplicate jr p r existing, c) | None \<Rightarrow> mbe_store jr c p r)"
proof -
  have "r\<lparr>ber_PartitionKind := pKind p, ber_PartitionKey := pKey p\<rparr> = r" using assms(1) by (auto simp: record_partition_def)
  then show ?thesis using assms(2, 3) by (simp add: mbe_append_def Let_def cong: option.case_cong)
qed

lemma append_record_sel [simp]:
  "record_partition (append_record now fresh event raw) = append_partition event"
  "ber_ID (append_record now fresh event raw) = append_id fresh event"
  "ber_PartitionOffset (append_record now fresh event raw) = ea_PartitionOffset event"
  by (simp_all add: append_record_def record_partition_def)

text \<open>Storing a record of the adapter: the message decodes to the event that the in-memory store appends.\<close>

lemma store_event:
  fixes event :: "'p event_append"
  assumes codec: "event_codec_ok jr compact" "payload_codec_ok jc jr compact" and ok: "appendable jr now fresh event"
    and raw: "jc_Marshal jc (ea_Payload event) = Inr raw" "jc_UnmarshalPayload jc (ea_Kind event) raw = Inr y"
    and offset: "0 < n" "ea_PartitionOffset event \<le> 0 \<or> ea_PartitionOffset event = n" "n = wrap64 (gm_get 0 (mbe_tails c) (append_partition event) + 1)"
  obtains data where
    "DecodeBrokerEventRecord jr data = Inr ((append_record now fresh event raw)\<lparr>ber_PartitionOffset := n\<rparr>)"
    "mbe_store jr c (append_partition event) (append_record now fresh event raw) =
      (let msg = \<lparr>bm_Partition = append_partition event, bm_Offset = n, bm_StreamSeq = wrap64 (mbe_head c + 1), bm_Data = data\<rparr>
       in (Inr msg, c\<lparr>mbe_head := wrap64 (mbe_head c + 1), mbe_tails := gm_set (append_partition event) n (mbe_tails c),
             mbe_messages := gm_set (append_partition event) (gm_get [] (mbe_messages c) (append_partition event) @ [msg]) (mbe_messages c),
             mbe_byID := gm_set (append_id fresh event) msg (mbe_byID c)\<rparr>))"
proof -
  let ?p = "append_partition event" and ?r = "(append_record now fresh event raw)\<lparr>ber_PartitionOffset := n\<rparr>"
  have raw_ok: "jr_Valid jr raw" "compact raw = raw" "raw \<noteq> []"
    using codec raw(1) codec_compact(1)[OF codec(1)[unfolded event_codec_ok_def]] by (auto simp: payload_codec_ok_def)
  have nonempty: "pKind ?p \<noteq> []" "pKey ?p \<noteq> []"
    by (simp_all add: logPartitionFromEventPartition_def Partition_Normalize_def PartitionGlobal_def)
  have "event_record_ok ?r" "list_all (jr_Text jr) (event_texts ?r)" "jr_Valid jr (ber_Payload ?r)"
    using ok raw_ok nonempty offset(1) by (simp_all add: event_record_ok_def append_record_def appendable_def event_texts_def)
  then obtain data where data: "EncodeBrokerEventRecord jr ?r = Inr data" "DecodeBrokerEventRecord jr data = Inr ?r"
    using Encode_event[OF codec(1), of ?r] raw_ok(2) by (auto simp: append_record_def)
  have id: "append_id fresh event \<noteq> []" using ok by (simp add: appendable_def)
  show ?thesis
  proof (rule that[OF data(2)])
    have "\<not> (ea_PartitionOffset event > 0 \<and> ea_PartitionOffset event \<noteq> n)" using offset(2) by auto
    then show "mbe_store jr c ?p (append_record now fresh event raw) =
      (let msg = \<lparr>bm_Partition = ?p, bm_Offset = n, bm_StreamSeq = wrap64 (mbe_head c + 1), bm_Data = data\<rparr>
       in (Inr msg, c\<lparr>mbe_head := wrap64 (mbe_head c + 1), mbe_tails := gm_set ?p n (mbe_tails c),
             mbe_messages := gm_set ?p (gm_get [] (mbe_messages c) ?p @ [msg]) (mbe_messages c),
             mbe_byID := gm_set (append_id fresh event) msg (mbe_byID c)\<rparr>))"
      unfolding mbe_store_def offset(3)[symmetric] Let_def using data(1) id by (simp add: CloneBrokerMessage_def del: if_split_asm)
  qed
qed

lemma stored_event_rep:
  assumes "DecodeBrokerEventRecord jr data = Inr ((append_record now fresh event raw)\<lparr>ber_PartitionOffset := n\<rparr>)"
    and "jc_UnmarshalPayload jc (ea_Kind event) raw = Inr y" and "n = wrap64 (tail_of s (append_partition event) + 1)"
    and "m = int (length (mes_events s) + 1)"
  shows "event_rep jc jr \<lparr>bm_Partition = append_partition event, bm_Offset = n, bm_StreamSeq = m, bm_Data = data\<rparr>
    (appended_event now fresh s event y)"
  using assms(1, 2) unfolding assms(3, 4)
  by (simp add: event_rep_def DecodeBrokerEventMessage_def append_record_def appended_event_def event_partition_def
      BrokerEventSequence_def Let_def)

lemma append_sim:
  fixes event :: "'p event_append"
  assumes codec: "event_codec_ok jr compact" "payload_codec_ok jc jr compact" "codec_stable jc" and sim: "event_sim jc jr c s"
    and ok: "appendable jr now fresh event" and new: "append_id fresh event \<notin> ev_ID ` set (mes_events s)"
    and room: "tail_of s (append_partition event) < maxInt64" "int (length (mes_events s)) < maxInt64"
  obtains res c' where "BrokerEventStore_Append jc jr now fresh None (memory_event_broker jr) event (Some c) = (res, Some c')"
    "event_sim jc jr c' (snd (mes_append jc now fresh s event))" "rel_sum (\<lambda>_ _. True) (=) res (fst (mes_append jc now fresh s event))"
proof -
  let ?p = "append_partition event"
  define n where "n = wrap64 (tail_of s ?p + 1)"
  have tail: "gm_get 0 (mbe_tails c) ?p = tail_of s ?p" and head: "mbe_head c = int (length (mes_events s))"
    and store: "event_store_ok jc s" and absent: "map_of (mbe_byID c) (append_id fresh event) = None"
    using sim new by (auto simp: event_sim_def)
  have wrap: "wrap64 (mbe_head c + 1) = int (length (mes_events s) + 1)"
    using room(2) wrap64_Suc[of "int (length (mes_events s))"] by (simp add: head)
  have n: "n = tail_of s ?p + 1" "0 < n"
    using room(1) store wrap64_Suc[of "tail_of s ?p"] by (auto simp: n_def event_store_ok_def)
  have id: "append_id fresh event \<noteq> []" using ok by (simp add: appendable_def)
  consider (payload) e where "cloneEventPayload jc (ea_Kind event) (ea_Payload event) = Inl e"
    | (decoded) y where "cloneEventPayload jc (ea_Kind event) (ea_Payload event) = Inr y"
    by (cases "cloneEventPayload jc (ea_Kind event) (ea_Payload event)") auto
  then show ?thesis
  proof cases
    case payload
    then obtain e' where "BrokerEventStore_Append jc jr now fresh None (memory_event_broker jr) event (Some c) = (Inl e', Some c)"
      unfolding BrokerEventStore_Append_def cloneEventPayload_def by (cases "jc_Marshal jc (ea_Payload event)") auto
    moreover have "mes_append jc now fresh s event = (Inl e, s)" using payload by (simp add: mes_append_def)
    ultimately show ?thesis using that sim by simp
  next
    case (decoded y)
    then obtain raw where raw: "jc_Marshal jc (ea_Payload event) = Inr raw" "jc_UnmarshalPayload jc (ea_Kind event) raw = Inr y"
      unfolding cloneEventPayload_def by (auto split: sum.splits)
    have "ea_ID event = [] \<or> 0 < ea_TS event" using ok by (simp add: appendable_def)
    note broker = Append_memory[OF this raw, of jr now fresh c, unfolded mbe_append_eq[OF append_record_sel(1) logPartition_normal, unfolded append_record_sel, OF id]]
    show ?thesis
    proof (cases "ea_PartitionOffset event > 0 \<and> ea_PartitionOffset event \<noteq> n")
      case True
      then have "\<exists>e. mbe_store jr c ?p (append_record now fresh event raw) = (Inl e, c)"
        using tail by (simp add: mbe_store_def n_def)
      moreover have "\<exists>e. mes_append jc now fresh s event = (Inl e, s)"
        using True decoded by (simp add: mes_append_def n_def tail_of_def Let_def)
      ultimately show ?thesis using that sim broker absent by auto
    next
      case False
      then have "ea_PartitionOffset event \<le> 0 \<or> ea_PartitionOffset event = n" by auto
      then obtain data where data: "DecodeBrokerEventRecord jr data = Inr ((append_record now fresh event raw)\<lparr>ber_PartitionOffset := n\<rparr>)"
        and st: "mbe_store jr c ?p (append_record now fresh event raw) =
          (let msg = \<lparr>bm_Partition = ?p, bm_Offset = n, bm_StreamSeq = int (length (mes_events s) + 1), bm_Data = data\<rparr>
           in (Inr msg, c\<lparr>mbe_head := int (length (mes_events s) + 1), mbe_tails := gm_set ?p n (mbe_tails c),
               mbe_messages := gm_set ?p (gm_get [] (mbe_messages c) ?p @ [msg]) (mbe_messages c),
               mbe_byID := gm_set (append_id fresh event) msg (mbe_byID c)\<rparr>))"
        using store_event[OF codec(1, 2) ok raw n(2) _ n_def[folded tail]] unfolding wrap by blast
      define msg where "msg = \<lparr>bm_Partition = ?p, bm_Offset = n, bm_StreamSeq = int (length (mes_events s) + 1), bm_Data = data\<rparr>"
      define evt where "evt = appended_event now fresh s event y"
      have rep: "event_rep jc jr msg evt"
        unfolding msg_def evt_def by (rule stored_event_rep[OF data raw(2) n_def refl])
      define c' where "c' = c\<lparr>mbe_head := int (length (mes_events s) + 1), mbe_tails := gm_set ?p n (mbe_tails c),
          mbe_messages := gm_set ?p (gm_get [] (mbe_messages c) ?p @ [msg]) (mbe_messages c),
          mbe_byID := gm_set (append_id fresh event) msg (mbe_byID c)\<rparr>"
      have append: "BrokerEventStore_Append jc jr now fresh None (memory_event_broker jr) event (Some c) = (Inr evt, Some c')"
      proof -
        have "mbe_store jr c ?p (append_record now fresh event raw) = (Inr msg, c')"
          using st unfolding msg_def c'_def Let_def .
        moreover have "DecodeBrokerEventMessage jc jr msg = Inr evt" using rep by (simp add: event_rep_def)
        ultimately show ?thesis unfolding broker absent by simp
      qed
      from codec(3) have mes: "mes_append jc now fresh s event = (Inr evt, s\<lparr>mes_offsets := gm_set ?p n (mes_offsets s), mes_events := mes_events s @ [evt]\<rparr>)"
      proof (cases rule: mes_append_cases[of jc now fresh s event])
        case (failed e)
        moreover have "\<not> (ea_PartitionOffset event > 0 \<and> ea_PartitionOffset event \<noteq> wrap64 (gm_get 0 (mes_offsets s) ?p + 1))"
          using False by (simp add: n_def tail_of_def)
        ultimately show ?thesis using decoded by (simp only: mes_append_def Let_def sum.case if_False) simp
      next
        case (stored y')
        then show ?thesis using decoded by (simp add: evt_def n_def)
      qed
      have evt: "event_partition evt = ?p" "ev_ID evt = append_id fresh event"
        unfolding evt_def by (simp, simp add: appended_event_def Let_def)
      have "event_store_ok jc (snd (mes_append jc now fresh s event))"
        using append_store_ok[OF codec(3) store room(1)] .
      then have "event_sim jc jr c' (snd (mes_append jc now fresh s event))"
        using sim rep unfolding event_sim_def mes c'_def by (auto simp: evt tail_of_def list_all2_appendI)
      then show ?thesis using that append mes by simp
    qed
  qed
qed

section \<open>Replaying\<close>

lemma event_rep_clone: "list_all2 (event_rep jc jr) ms es \<Longrightarrow> map CloneBrokerMessage ms = ms"
  by (induction rule: list_all2_induct) (simp_all add: event_rep_def CloneBrokerMessage_def)

lemma replay_decode_rep:
  "list_all2 (event_rep jc jr) ms es \<Longrightarrow> list_all (\<lambda>e. event_partition e = p \<and> a < ev_PartitionOffset e) es \<Longrightarrow>
   replay_decode jc jr p a ms = Inr es"
  by (induction rule: list_all2_induct) (auto simp: event_rep_def event_partition_def)

lemma fetch_rep:
  assumes "event_sim jc jr c s" "Partition_Normalize p = p"
  shows "list_all2 (event_rep jc jr) (mbe_fetch c p a n) (mes_replayPartition jc s (pKind p) (pKey p) a n)"
proof -
  let ?es = "collect (\<lambda>e. \<not> ev_PartitionOffset e \<le> a) n 0 (filter (\<lambda>e. event_partition e = p) (mes_events s))"
  let ?ms = "collect (\<lambda>msg. \<not> bm_Offset msg \<le> a) n 0 (gm_get [] (mbe_messages c) p)"
  have store: "event_store_ok jc s" using assms(1) by (simp add: event_sim_def)
  have "list_all2 (event_rep jc jr) (gm_get [] (mbe_messages c) p) (filter (\<lambda>e. event_partition e = p) (mes_events s))"
    using assms(1) by (simp add: event_sim_def)
  then have reps: "list_all2 (event_rep jc jr) ?ms ?es" by (rule collect_rel) (simp add: event_rep_def)
  have "in_partition (pKind p) (pKey p) a e \<longleftrightarrow> event_partition e = p \<and> \<not> ev_PartitionOffset e \<le> a" for e :: "'a event"
    by (cases p) (auto simp: event_partition_def)
  then have "mes_replayPartition jc s (pKind p) (pKey p) a n = ?es"
    unfolding replayPartition_eq[OF store] collect_eq filter_filter by simp
  then show ?thesis using reps event_rep_clone[OF reps] assms(2) by (simp add: mbe_fetch_def)
qed

lemma replayPartition_sim:
  assumes "event_sim jc jr c s"
  shows "BrokerEventStore_ReplayPartition jc jr None (memory_event_broker jr) k y a n (Some c) =
    Inr (mes_replayPartition jc s (pKind (Partition_Normalize (Partition k y))) (pKey (Partition_Normalize (Partition k y))) a n)"
proof -
  let ?p = "Partition_Normalize (Partition k y)"
  have store: "event_store_ok jc s" using assms by (simp add: event_sim_def)
  have "list_all (\<lambda>e. event_partition e = ?p \<and> a < ev_PartitionOffset e) (mes_replayPartition jc s (pKind ?p) (pKey ?p) a n)"
    using memory_events.replayed[OF store] unfolding list_all_iff event_partition_def by (metis partition.collapse)
  then show ?thesis
    using replay_decode_rep[OF fetch_rep[OF assms]]
    by (simp add: BrokerEventStore_ReplayPartition_def memory_event_client_def MemoryBroker_FetchEvents_def Let_def)
qed

lemma head_sim:
  "event_sim jc jr c s \<Longrightarrow> BrokerEventStore_Head None (memory_event_broker jr) (Some c) = MemoryEventStore_Head None (Some s)"
  by (simp add: event_sim_def BrokerEventStore_Head_def memory_event_client_def MemoryBroker_Head_def MemoryEventStore_Head_def)

lemma seed_sim:
  assumes "event_sim jc jr c s"
  shows "BrokerEventStore_SeedEventPartitionOffset None (memory_event_broker jr) p n (Some c) = (None, Some (mbe_seed c p n))"
    "event_sim jc jr (mbe_seed c p n) (mes_seed s p n)"
proof -
  show "BrokerEventStore_SeedEventPartitionOffset None (memory_event_broker jr) p n (Some c) = (None, Some (mbe_seed c p n))"
    by (simp add: BrokerEventStore_SeedEventPartitionOffset_def memory_event_client_def MemoryBroker_SeedEventPartitionOffset_def)
  have tails: "gm_get 0 (mbe_tails c) q = gm_get 0 (mes_offsets s) q" for q using assms by (simp add: event_sim_def tail_of_def)
  have "gm_get 0 (mbe_tails (mbe_seed c p n)) q = tail_of (mes_seed s p n) q" for q
    by (simp add: mbe_seed_def mes_seed_def tail_of_def tails Let_def)
  moreover have "mbe_messages (mbe_seed c p n) = mbe_messages c" "mbe_head (mbe_seed c p n) = mbe_head c"
    "mbe_byID (mbe_seed c p n) = mbe_byID c" "mes_events (mes_seed s p n) = mes_events s"
    by (simp_all add: mbe_seed_def mes_seed_def Let_def)
  ultimately show "event_sim jc jr (mbe_seed c p n) (mes_seed s p n)"
    using assms seed_store_ok[of jc s p n] by (simp add: event_sim_def)
qed

section \<open>Runs\<close>

definition broker_store_step ::
  "'p json_codec \<Rightarrow> broker_event_record json_record_codec \<Rightarrow> memory_broker_events option \<Rightarrow> 'p store_op \<Rightarrow> memory_broker_events option" where
  "broker_store_step jc jr c op = (case op of
     OpAppend now fresh event \<Rightarrow> snd (BrokerEventStore_Append jc jr now fresh None (memory_event_broker jr) event c)
   | OpSeed p n \<Rightarrow> snd (BrokerEventStore_SeedEventPartitionOffset None (memory_event_broker jr) p n c))"

fun store_op_ok :: "broker_event_record json_record_codec \<Rightarrow> 'p store_op \<Rightarrow> bool" where
  "store_op_ok jr (OpAppend now fresh event) = appendable jr now fresh event"
| "store_op_ok jr (OpSeed p n) = (n \<le> 2 ^ 62)"

fun op_ids :: "'p store_op list \<Rightarrow> string list" where
  "op_ids [] = []"
| "op_ids (OpAppend now fresh event # ops) = append_id fresh event # op_ids ops"
| "op_ids (OpSeed p n # ops) = op_ids ops"

lemma mes_append_events:
  assumes "codec_stable jc"
  shows "ev_ID ` set (mes_events (snd (mes_append jc now fresh s event))) \<subseteq> insert (append_id fresh event) (ev_ID ` set (mes_events s)) \<and>
    length (mes_events (snd (mes_append jc now fresh s event))) \<le> Suc (length (mes_events s))"
  using assms by (cases rule: mes_append_cases[of jc now fresh s event]) (auto simp: appended_event_def Let_def)

lemma run_event_sim:
  assumes codec: "event_codec_ok jr compact" "payload_codec_ok jc jr compact" "codec_stable jc"
  shows "event_sim jc jr c s \<Longrightarrow> list_all (store_op_ok jr) ops \<Longrightarrow> distinct (op_ids (ops @ later)) \<Longrightarrow>
    ev_ID ` set (mes_events s) \<inter> set (op_ids (ops @ later)) = {} \<Longrightarrow> (\<And>p. tail_of s p \<le> 2 ^ 62 + k) \<Longrightarrow> int (length (mes_events s)) \<le> k \<Longrightarrow>
    k + int (length ops) < 2 ^ 62 \<Longrightarrow>
    \<exists>c'. foldl (broker_store_step jc jr) (Some c) ops = Some c' \<and> event_sim jc jr c' (foldl (store_step jc) s ops) \<and>
      ev_ID ` set (mes_events (foldl (store_step jc) s ops)) \<inter> set (op_ids later) = {} \<and>
      (\<forall>p. tail_of (foldl (store_step jc) s ops) p \<le> 2 ^ 62 + (k + int (length ops))) \<and>
      int (length (mes_events (foldl (store_step jc) s ops))) \<le> k + int (length ops)"
proof (induction ops arbitrary: c s k)
  case (Cons op ops)
  have k: "0 \<le> k" "k < 2 ^ 62 - 1" using Cons.prems(6, 7) by simp_all
  have bounded: "seed_bounded op" using Cons.prems(2) by (cases op) auto
  have store: "event_store_ok jc s" using Cons.prems(1) by (simp add: event_sim_def)
  note tails = step_tail_bound[OF codec(3) store Cons.prems(5) k bounded, THEN conjunct2, rule_format]
  have "\<exists>c'. broker_store_step jc jr (Some c) op = Some c' \<and> event_sim jc jr c' (store_step jc s op) \<and>
      ev_ID ` set (mes_events (store_step jc s op)) \<inter> set (op_ids (ops @ later)) = {} \<and> int (length (mes_events (store_step jc s op))) \<le> k + 1"
  proof (cases op)
    case (OpAppend now fresh event)
    have "tail_of s (append_partition event) < maxInt64" "int (length (mes_events s)) < maxInt64"
      using Cons.prems(5)[of "append_partition event"] Cons.prems(6) k(2) by (simp_all add: maxInt64_def)
    moreover have "append_id fresh event \<notin> ev_ID ` set (mes_events s)" "appendable jr now fresh event"
      using Cons.prems(2, 4) OpAppend by auto
    ultimately obtain res c' where "BrokerEventStore_Append jc jr now fresh None (memory_event_broker jr) event (Some c) = (res, Some c')"
        "event_sim jc jr c' (snd (mes_append jc now fresh s event))"
      using append_sim[OF codec Cons.prems(1)] by blast
    moreover have "append_id fresh event \<notin> set (op_ids (ops @ later))" "ev_ID ` set (mes_events s) \<inter> set (op_ids (ops @ later)) = {}"
      using Cons.prems(3, 4) OpAppend by auto
    moreover have "ev_ID ` set (mes_events (snd (mes_append jc now fresh s event))) \<inter> set (op_ids (ops @ later)) = {}"
    proof -
      have "insert (append_id fresh event) (ev_ID ` set (mes_events s)) \<inter> set (op_ids (ops @ later)) = {}"
        using Cons.prems(3, 4) OpAppend by (simp only: append_Cons op_ids.simps distinct.simps Int_insert_left_if0) (simp add: Int_insert_right split: if_splits)
      then show ?thesis
        using mes_append_events[OF codec(3), of now fresh s event, THEN conjunct1] by (metis Int_mono order_refl subset_empty)
    qed
    ultimately show ?thesis
      using mes_append_events[OF codec(3), of now fresh s event] Cons.prems(6) by (simp add: OpAppend broker_store_step_def)
  next
    case (OpSeed p n)
    have "mes_events (mes_seed s p n) = mes_events s" by (simp add: mes_seed_def Let_def)
    then show ?thesis
      using seed_sim[OF Cons.prems(1), of p n] Cons.prems(4, 6) by (simp add: OpSeed broker_store_step_def)
  qed
  then obtain c' where c': "broker_store_step jc jr (Some c) op = Some c'" "event_sim jc jr c' (store_step jc s op)"
      "ev_ID ` set (mes_events (store_step jc s op)) \<inter> set (op_ids (ops @ later)) = {}" "int (length (mes_events (store_step jc s op))) \<le> k + 1"
    by blast
  have "distinct (op_ids (ops @ later))" "list_all (store_op_ok jr) ops" "k + 1 + int (length ops) < 2 ^ 62"
    using Cons.prems(2, 3, 7) by (cases op; simp)+
  then show ?case using Cons.IH[OF c'(2) _ _ c'(3) tails c'(4)] c'(1) by (simp add: algebra_simps)
qed simp

lemma New_event_sim: "event_sim jc jr NewMemoryBrokerEventLogClient NewMemoryEventStore"
  unfolding event_sim_def using New_event_store_ok
  by (simp add: NewMemoryBrokerEventLogClient_def NewMemoryEventStore_def tail_of_def)

section \<open>Scalar replay\<close>

definition selected :: "int \<Rightarrow> string list option \<Rightarrow> 'p event \<Rightarrow> bool" where
  "selected after scopes e \<longleftrightarrow> after < ev_Seq e \<and> (scopes = None \<or> set (ev_Scopes e) \<inter> set (the scopes) \<noteq> {})"

lemma replay_messages_rep:
  assumes "list_all2 (event_rep jc jr) ms es" "sorted_wrt (<) (map ev_PartitionOffset es)" "list_all (\<lambda>e. a < ev_PartitionOffset e) es"
  shows "replay_messages jc jr after scopes ms a evs = Inr (last_offset a es, evs @ filter (selected after scopes) es)"
  using assms
proof (induction arbitrary: a evs rule: list_all2_induct)
  case (Cons m ms e es)
  have dec: "DecodeBrokerEventMessage jc jr m = Inr e" using Cons.hyps by (simp add: event_rep_def)
  have last: "last_offset a (e # es) = last_offset (ev_PartitionOffset e) es" by (simp add: last_offset_def)
  have IH: "replay_messages jc jr after scopes ms (ev_PartitionOffset e) evs' =
      Inr (last_offset (ev_PartitionOffset e) es, evs' @ filter (selected after scopes) es)" for evs'
    using Cons.prems by (intro Cons.IH) (auto simp: list_all_iff)
  have "replay_messages jc jr after scopes (m # ms) a evs =
      replay_messages jc jr after scopes ms (ev_PartitionOffset e) (if selected after scopes e then evs @ [e] else evs)"
    using Cons.prems(2) by (auto simp: dec selected_def scopesOverlap_iff Let_def split: option.splits)
  then show ?case by (simp add: IH last)
qed (simp add: last_offset_def)

lemma replay_pages_sim:
  assumes sim: "event_sim jc jr c s" and normal: "Partition_Normalize p = p"
  shows "replay_pages jc jr None (memory_event_client jr) (Some c) after scopes p a evs =
    Some (Inr (evs @ filter (selected after scopes) (mes_replayPartition jc s (pKind p) (pKey p) a 0)))"
proof (induction "length (mes_replayPartition jc s (pKind p) (pKey p) a 0)" arbitrary: a evs rule: less_induct)
  case less
  let ?k = "pKind p" and ?y = "pKey p"
  let ?es = "mes_replayPartition jc s ?k ?y a 100" and ?all = "mes_replayPartition jc s ?k ?y a 0"
  have store: "event_store_ok jc s" using sim by (simp add: event_sim_def)
  have reps: "list_all2 (event_rep jc jr) (mbe_fetch c p a 100) ?es" by (rule fetch_rep[OF sim normal])
  have fetch: "bec_FetchEvents (memory_event_client jr) None p a 100 (Some c) = Inr (mbe_fetch c p a 100)"
    by (simp add: memory_event_client_def MemoryBroker_FetchEvents_def)
  have length: "length (mbe_fetch c p a 100) = length ?es" using reps by (rule list_all2_lengthD)
  have messages: "replay_messages jc jr after scopes (mbe_fetch c p a 100) a evs =
      Inr (last_offset a ?es, evs @ filter (selected after scopes) ?es)"
    using reps memory_events.increasing[OF store] memory_events.replayed[OF store]
    by (intro replay_messages_rep) (auto simp: list_all_iff)
  note unfold = replay_pages.simps[of jc jr None "memory_event_client jr" "Some c" after scopes p a evs, unfolded fetch sum.case messages]
  show ?case
  proof (cases "?es = []")
    case True
    then have "mbe_fetch c p a 100 = []" "?all = []" using length memory_events.progress[OF store] by auto
    then show ?thesis by (simp add: unfold)
  next
    case False
    then have nonempty: "mbe_fetch c p a 100 \<noteq> []" using length by auto
    show ?thesis
    proof (cases "length ?es < 100")
      case True
      then have "?all = ?es" using memory_events.page[OF store, of ?k ?y a 100] by (auto simp: limit_slice_def split: if_splits)
      then show ?thesis using True nonempty by (simp add: unfold length)
    next
      case False
      let ?rest = "mes_replayPartition jc s ?k ?y (last_offset a ?es) 0"
      have "length ?rest < length ?all" using \<open>?es \<noteq> []\<close> by (rule memory_events.remaining_decreases[OF store])
      then have "replay_pages jc jr None (memory_event_client jr) (Some c) after scopes p (last_offset a ?es) (evs @ filter (selected after scopes) ?es) =
          Some (Inr ((evs @ filter (selected after scopes) ?es) @ filter (selected after scopes) ?rest))"
        by (rule less.hyps)
      moreover have "?all = ?es @ ?rest" by (rule memory_events.resume[OF store])
      ultimately show ?thesis using False nonempty by (simp add: unfold length)
    qed
  qed
qed

lemma replay_partitions_sim:
  assumes "event_sim jc jr c s"
  shows "replay_partitions jc jr None (memory_event_client jr) (Some c) after scopes ps evs =
    Some (Inr (evs @ concat (map (\<lambda>p. filter (selected after scopes) (partition_events s (Partition_Normalize p))) ps)))"
proof (induction ps arbitrary: evs)
  case (Cons p ps)
  have "mes_replayPartition jc s (pKind (Partition_Normalize p)) (pKey (Partition_Normalize p)) 0 0 = partition_events s (Partition_Normalize p)"
    using replay_all[of jc s "Partition_Normalize p"] assms by (simp add: replay_of_def event_sim_def)
  then show ?case using replay_pages_sim[OF assms, of "Partition_Normalize p"] Cons by simp
qed simp

lemma broker_partitions:
  obtains ps where "MemoryBroker_ListEventPartitions None 0 (Some c) = Inr ps" "distinct ps" "set ps = Partition_Normalize ` fst ` set (mbe_tails c)"
proof -
  let ?ps = "EventPartitionsByLastOffset (mbe_listOffsets c 0) 0"
  have "distinct ?ps"
    by (simp add: EventPartitionsByLastOffset_def Let_def limit_slice_none max_tails_distinct)
  moreover have "set ?ps = Partition_Normalize ` fst ` set (mbe_tails c)"
    by (simp add: EventPartitionsByLastOffset_def mbe_listOffsets_def SortEventPartitionOffsetsByLastOffset_def Let_def limit_slice_none
        max_tails_keys image_image EventPartitionOffset_Normalize_def case_prod_beta)
  ultimately show ?thesis
    by (intro that) (simp add: MemoryBroker_ListEventPartitions_def MemoryBroker_ListEventPartitionOffsets_def)
qed

interpretation replay_order: sort_less replay_less
proof unfold_locales
  fix a b c :: "'p event"
  show "replay_less a b \<Longrightarrow> \<not> replay_less b a" by (auto simp: replay_less_def split: if_splits)
  show "replay_less a b \<Longrightarrow> replay_less a c \<or> replay_less c b"
    unfolding replay_less_def by (smt (verit) less_linear less_trans)
qed

section \<open>A concrete payload codec\<close>

definition compact_codec :: "string json_codec" where
  "compact_codec = raw_codec\<lparr>jc_Marshal := (\<lambda>s. if compact_blanks s = [] then Inl (Errorf ''invalid payload'' []) else Inr (compact_blanks s))\<rparr>"

lemma compact_codec_stable: "codec_stable compact_codec"
  by (auto simp: codec_stable_def compact_codec_def raw_codec_def cloneEventPayload_def)

lemma compact_codec_payload: "payload_codec_ok compact_codec event_codec compact_blanks"
  by (auto simp: payload_codec_ok_def compact_codec_def event_codec_def packed_codec_def)

lemma sample_appendable: "appendable event_codec 7 ''evt_1'' (sample_append\<lparr>ea_ID := i, ea_TS := 5\<rparr>)"
  by (simp add: appendable_def sample_append_def event_codec_def packed_codec_def)

section \<open>Properties\<close>



text \<open>
  C32: the scalar replay of the broker event store ends. It reads every partition page by page and returns, in replay order
  and up to the limit, exactly the events after the given sequence number that share a scope with the request.
\<close>

theorem BrokerEventStore_Replay_terminates:
  assumes "event_sim jc jr c s"
  shows "\<exists>events. BrokerEventStore_Replay jc jr None (memory_event_broker jr) after scopes limit (Some c) = Some (Inr (limit_slice limit events)) \<and>
    sorted_wrt (\<lambda>a b. \<not> replay_less b a) events \<and>
    mset events = mset (filter (\<lambda>e. after < ev_Seq e \<and> (scopes = None \<or> set (ev_Scopes e) \<inter> set (the scopes) \<noteq> {})) (mes_events s))"
proof -
  obtain ps where ps: "MemoryBroker_ListEventPartitions None 0 (Some c) = Inr ps" "distinct ps" "set ps = Partition_Normalize ` fst ` set (mbe_tails c)"
    by (rule broker_partitions)
  have store: "event_store_ok jc s" using assms by (simp add: event_sim_def)
  let ?es = "concat (map (\<lambda>p. filter (selected after scopes) (partition_events s (Partition_Normalize p))) ps)"
  have normal: "map (\<lambda>p. filter (selected after scopes) (partition_events s (Partition_Normalize p))) ps =
      map (\<lambda>p. filter (selected after scopes) (partition_events s p)) ps"
    using ps(3) by (intro map_cong) auto
  have "event_partition e \<in> set ps" if "e \<in> set (mes_events s)" for e
  proof -
    have e: "0 < gm_get 0 (mbe_tails c) (event_partition e)" "Partition_Normalize (event_partition e) = event_partition e"
      using that store assms by (auto simp: event_store_ok_def event_sim_def)
    then have "event_partition e \<in> fst ` set (mbe_tails c)"
      by (auto simp: gm_get_def split: option.splits dest: map_of_SomeD) (force dest: map_of_SomeD)
    then show ?thesis using ps(3) e(2) by force
  qed
  then have "mset ?es = mset (filter (selected after scopes) (mes_events s))"
    unfolding normal using concat_by_key[OF ps(2)] by blast
  moreover have "BrokerEventStore_Replay jc jr None (memory_event_broker jr) after scopes limit (Some c) =
      Some (Inr (limit_slice limit (SortEventsByReplayOrder ?es)))"
    using ps(1) replay_partitions_sim[OF assms, of after scopes ps "[]"]
    by (simp add: BrokerEventStore_Replay_def memory_event_client_def)
  ultimately show ?thesis
    using replay_order.sorted_slice_stable[of ?es] unfolding SortEventsByReplayOrder_def selected_def by fastforce
qed

lemma sample_run:
  obtains c where "foldl (broker_store_step compact_codec event_codec) (Some NewMemoryBrokerEventLogClient)
      [OpAppend 7 ''evt_1'' (sample_append\<lparr>ea_ID := ''a'', ea_TS := 5\<rparr>)] = Some c"
    "event_sim compact_codec event_codec c (foldl (store_step compact_codec) NewMemoryEventStore
      [OpAppend 7 ''evt_1'' (sample_append\<lparr>ea_ID := ''a'', ea_TS := 5\<rparr>)])"
proof -
  let ?ops = "[OpAppend 7 ''evt_1'' (sample_append\<lparr>ea_ID := ''a'', ea_TS := 5\<rparr>)]"
  have "list_all (store_op_ok event_codec) ?ops" "distinct (op_ids (?ops @ []))" using sample_appendable by simp_all
  moreover have "tail_of (NewMemoryEventStore :: string memory_event_store) p \<le> 2 ^ 62 + 0" for p
    by (simp add: tail_of_def NewMemoryEventStore_def)
  ultimately show ?thesis
    using run_event_sim[OF event_codec_sample compact_codec_payload compact_codec_stable New_event_sim, of ?ops "[]" 0] that
    by (auto simp: NewMemoryEventStore_def)
qed

theorem BrokerEventStore_Replay_terminates_witness:
  "\<exists>c events. foldl (broker_store_step compact_codec event_codec) (Some NewMemoryBrokerEventLogClient)
       [OpAppend 7 ''evt_1'' (sample_append\<lparr>ea_ID := ''a'', ea_TS := 5\<rparr>)] = Some c \<and>
     BrokerEventStore_Replay compact_codec event_codec None (memory_event_broker event_codec) 0 (Some [''board:b'']) 5 (Some c) =
       Some (Inr (limit_slice 5 events)) \<and> map ev_ID events = [''a'']"
proof -
  let ?s = "foldl (store_step compact_codec) NewMemoryEventStore [OpAppend 7 ''evt_1'' (sample_append\<lparr>ea_ID := ''a'', ea_TS := 5\<rparr>)]"
  let ?P = "\<lambda>e. 0 < ev_Seq e \<and> (Some [''board:b''] = None \<or> set (ev_Scopes e) \<inter> set (the (Some [''board:b''])) \<noteq> {})"
  obtain c where c: "foldl (broker_store_step compact_codec event_codec) (Some NewMemoryBrokerEventLogClient)
      [OpAppend 7 ''evt_1'' (sample_append\<lparr>ea_ID := ''a'', ea_TS := 5\<rparr>)] = Some c" "event_sim compact_codec event_codec c ?s"
    by (rule sample_run)
  obtain events where events: "BrokerEventStore_Replay compact_codec event_codec None (memory_event_broker event_codec) 0 (Some [''board:b'']) 5 (Some c) =
      Some (Inr (limit_slice 5 events))" "mset events = mset (filter ?P (mes_events ?s))"
    using BrokerEventStore_Replay_terminates[OF c(2), of 0 "Some [''board:b'']" 5] by blast
  have "map ev_ID (filter ?P (mes_events ?s)) = [''a'']" by code_simp
  then obtain e where "filter ?P (mes_events ?s) = [e]" "ev_ID e = ''a''" by (auto simp: Cons_eq_map_conv)
  then have "map ev_ID events = [''a'']" using events(2) by (simp add: mset_single_iff)
  with c(1) events(1) show ?thesis by (intro exI[of _ c] exI[of _ events] conjI)
qed

lemma step_keeps_id:
  assumes "map_of (mbe_byID c) i = Some m" "i \<noteq> []"
  shows "\<exists>c'. broker_store_step jc jr (Some c) op = Some c' \<and> map_of (mbe_byID c') i = Some m"
proof (cases op)
  case (OpAppend now fresh event)
  have append: "map_of (mbe_byID (snd (mbe_append jr c p r))) i = Some m" for p r
    using assms unfolding mbe_append_def mbe_store_def Let_def by (auto split: option.splits sum.splits)
  have "\<exists>res c'. bec_AppendEvent (memory_event_client jr) None p r (Some c) = (res, Some c') \<and> map_of (mbe_byID c') i = Some m" for p r
    using append[of p r] by (auto simp: memory_event_client_def MemoryBroker_AppendEvent_def split: prod.splits)
  then show ?thesis
    using assms(1) unfolding OpAppend broker_store_step_def BrokerEventStore_Append_def Let_def
    by (auto split: sum.splits prod.splits) (metis prod.inject)+
next
  case (OpSeed p n)
  then show ?thesis
    using assms(1) by (simp add: broker_store_step_def BrokerEventStore_SeedEventPartitionOffset_def memory_event_client_def
        MemoryBroker_SeedEventPartitionOffset_def mbe_seed_def Let_def)
qed

lemma run_keeps_id:
  "map_of (mbe_byID c) i = Some m \<Longrightarrow> i \<noteq> [] \<Longrightarrow>
   \<exists>c'. foldl (broker_store_step jc jr) (Some c) ops = Some c' \<and> map_of (mbe_byID c') i = Some m"
proof (induction ops arbitrary: c)
  case (Cons op ops)
  then show ?case using step_keeps_id[OF Cons.prems, of jc jr op] by fastforce
qed simp

lemma append_record_again:
  "ea_ID event \<noteq> [] \<Longrightarrow> 0 < ea_TS event \<Longrightarrow> append_record now fresh event raw = append_record now' fresh' event raw"
  by (simp add: append_record_def EventAppendTimestamp_def)

lemma append_known:
  assumes "ea_ID event \<noteq> []" "0 < ea_TS event" "jc_Marshal jc (ea_Payload event) = Inr raw"
    and "jc_UnmarshalPayload jc (ea_Kind event) raw = Inr y" "map_of (mbe_byID c) (ea_ID event) = Some m"
  shows "BrokerEventStore_Append jc jr now fresh None (memory_event_broker jr) event (Some c) =
    ((case mbe_duplicate jr (append_partition event) (append_record 0 [] event raw) m of
        Inl e \<Rightarrow> Inl e | Inr msg \<Rightarrow> DecodeBrokerEventMessage jc jr msg), Some c)"
proof -
  have "mbe_append jr c (append_partition event) (append_record now fresh event raw) =
      (mbe_duplicate jr (append_partition event) (append_record now fresh event raw) m, c)"
    using assms(1, 5) by (simp add: mbe_append_eq)
  then show ?thesis
    using Append_memory[OF disjI2[OF assms(2)] assms(3, 4), of jr now fresh c] append_record_again[OF assms(1, 2), of now fresh raw 0 "[]"]
    by (simp split: sum.splits)
qed

text \<open>
  appending is idempotent by event id. When an event with an id has been appended, appending it again returns the same
  event and changes nothing, no matter what was appended or seeded in between.
\<close>

theorem BrokerEventStore_Append_idempotent:
  fixes event :: "'p event_append"
  assumes "event_codec_ok jr compact" and "payload_codec_ok jc jr compact" and "appendable jr now fresh event" and "ea_ID event \<noteq> []"
    and "0 \<le> gm_get 0 (mbe_tails c) (append_partition event)" and "gm_get 0 (mbe_tails c) (append_partition event) < maxInt64"
    and "BrokerEventStore_Append jc jr now fresh None (memory_event_broker jr) event (Some c) = (Inr evt, Some c')"
  shows "\<exists>c''. foldl (broker_store_step jc jr) (Some c') ops = Some c'' \<and>
    BrokerEventStore_Append jc jr now' fresh' None (memory_event_broker jr) event (Some c'') = (Inr evt, Some c'')"
proof -
  let ?p = "append_partition event" and ?r = "append_record now fresh event"
  have ts: "0 < ea_TS event" using assms(3, 4) by (simp add: appendable_def)
  obtain raw y where raw: "jc_Marshal jc (ea_Payload event) = Inr raw" "jc_UnmarshalPayload jc (ea_Kind event) raw = Inr y"
    using assms(7) unfolding BrokerEventStore_Append_def by (auto split: sum.splits)
  have again: "append_record 0 [] event raw = ?r raw" by (rule append_record_again[OF assms(4) ts])
  note known = append_known[OF assms(4) ts raw]
  have "\<exists>m. map_of (mbe_byID c') (ea_ID event) = Some m \<and>
      (case mbe_duplicate jr ?p (append_record 0 [] event raw) m of Inl e \<Rightarrow> Inl e | Inr msg \<Rightarrow> DecodeBrokerEventMessage jc jr msg) = Inr evt"
  proof (cases "map_of (mbe_byID c) (ea_ID event)")
    case (Some m)
    then show ?thesis using known[OF Some, of jr now fresh] assms(7) by (intro exI[of _ m]) simp
  next
    case None
    define n where "n = wrap64 (gm_get 0 (mbe_tails c) ?p + 1)"
    have n: "0 < n" using assms(5, 6) wrap64_Suc[of "gm_get 0 (mbe_tails c) ?p"] by (simp add: n_def)
    have append: "BrokerEventStore_Append jc jr now fresh None (memory_event_broker jr) event (Some c) =
        (case mbe_store jr c ?p (?r raw) of (Inl e, c) \<Rightarrow> (Inl e, Some c) | (Inr msg, c) \<Rightarrow> (DecodeBrokerEventMessage jc jr msg, Some c))"
      using Append_memory[OF disjI2[OF ts] raw, of jr now fresh c] assms(4) None by (simp add: mbe_append_eq)
    have offset: "ea_PartitionOffset event \<le> 0 \<or> ea_PartitionOffset event = n"
    proof (rule ccontr)
      assume "\<not> ?thesis"
      then have "\<exists>e. mbe_store jr c ?p (?r raw) = (Inl e, c)" by (simp add: mbe_store_def n_def Let_def)
      then show False using append assms(7) by auto
    qed
    obtain data where data: "DecodeBrokerEventRecord jr data = Inr ((?r raw)\<lparr>ber_PartitionOffset := n\<rparr>)"
      and st: "mbe_store jr c ?p (?r raw) =
        (let msg = \<lparr>bm_Partition = ?p, bm_Offset = n, bm_StreamSeq = wrap64 (mbe_head c + 1), bm_Data = data\<rparr>
         in (Inr msg, c\<lparr>mbe_head := wrap64 (mbe_head c + 1), mbe_tails := gm_set ?p n (mbe_tails c),
             mbe_messages := gm_set ?p (gm_get [] (mbe_messages c) ?p @ [msg]) (mbe_messages c),
             mbe_byID := gm_set (append_id fresh event) msg (mbe_byID c)\<rparr>))"
      using store_event[OF assms(1-3) raw n offset n_def] by blast
    define msg where "msg = \<lparr>bm_Partition = ?p, bm_Offset = n, bm_StreamSeq = wrap64 (mbe_head c + 1), bm_Data = data\<rparr>"
    have "DecodeBrokerEventMessage jc jr msg = Inr evt" "map_of (mbe_byID c') (ea_ID event) = Some msg"
      using append st assms(4, 7) by (auto simp: msg_def Let_def)
    moreover have "mbe_duplicate jr ?p (?r raw) msg = Inr msg"
      using data by (simp add: mbe_duplicate_def msg_def SameBrokerEventRecordIdentity_iff CloneBrokerMessage_def)
    ultimately show ?thesis by (simp add: again)
  qed
  then obtain m where m: "map_of (mbe_byID c') (ea_ID event) = Some m"
      "(case mbe_duplicate jr ?p (append_record 0 [] event raw) m of Inl e \<Rightarrow> Inl e | Inr msg \<Rightarrow> DecodeBrokerEventMessage jc jr msg) = Inr evt"
    by blast
  obtain c'' where "foldl (broker_store_step jc jr) (Some c') ops = Some c''" "map_of (mbe_byID c'') (ea_ID event) = Some m"
    using run_keeps_id[OF m(1) assms(4)] by blast
  then show ?thesis using known[of c'' m] m(2) by simp
qed

theorem BrokerEventStore_Append_idempotent_witness:
  "\<exists>c'' evt. snd (BrokerEventStore_Append compact_codec event_codec 7 ''evt_1'' None (memory_event_broker event_codec)
       (sample_append\<lparr>ea_ID := ''a'', ea_TS := 5\<rparr>) (Some NewMemoryBrokerEventLogClient)) = Some c'' \<and>
     BrokerEventStore_Append compact_codec event_codec 8 ''evt_2'' None (memory_event_broker event_codec)
       (sample_append\<lparr>ea_ID := ''a'', ea_TS := 5\<rparr>) (Some c'') = (Inr evt, Some c'')"
proof -
  let ?e = "sample_append\<lparr>ea_ID := ''a'', ea_TS := 5\<rparr>"
  let ?first = "BrokerEventStore_Append compact_codec event_codec 7 ''evt_1'' None (memory_event_broker event_codec) ?e (Some NewMemoryBrokerEventLogClient)"
  let ?new = "NewMemoryEventStore :: string memory_event_store"
  have new: "append_id ''evt_1'' ?e \<notin> ev_ID ` set (mes_events ?new)" "tail_of ?new (append_partition ?e) < maxInt64"
      "int (length (mes_events ?new)) < maxInt64"
    by (simp_all add: NewMemoryEventStore_def tail_of_def maxInt64_def)
  have "isl (fst (mes_append compact_codec 7 ''evt_1'' ?new ?e)) = False" by code_simp
  then obtain evt c' where first: "?first = (Inr evt, Some c')"
    using append_sim[OF event_codec_sample compact_codec_payload compact_codec_stable New_event_sim sample_appendable new]
    by (metis rel_sum.cases sum.disc(1))
  have "gm_get 0 (mbe_tails NewMemoryBrokerEventLogClient) q = 0" for q by (simp add: NewMemoryBrokerEventLogClient_def)
  then show ?thesis
    using BrokerEventStore_Append_idempotent[OF event_codec_sample compact_codec_payload sample_appendable _ _ _ first, of "[]" 8 "''evt_2''"] first
    by (simp add: maxInt64_def)
qed

end
