(* ===== verification/Broker_Transaction.thy ===== *)
theory Broker_Transaction
  imports Broker_Command_Log Broker_Event_Log Command_Worker
begin

text \<open>
  Command and event transactions (\<open>internal/core/command_event_transaction.go\<close>, the records in
  \<open>internal/core/logmodel/records.go\<close>): a worker consumes a command, decides events, and appends the events and advances
  the command offset in one step. Modelled are the two finalizers that build the transactions, the store that hands them
  to a broker client and checks the answer, and the reference client over the in-memory broker logs.
  Events of a result are pointers in the source, so a nil event is \<open>None\<close>.
\<close>

section \<open>Transactions and finalizers\<close>

record 'p command_event_transaction =
  cet_CommandPartition :: partition
  cet_CommandOffset :: int
  cet_CommandSourcePosition :: source_position
  cet_Events :: "'p event_append list"

record 'p command_event_transaction_result =
  cer_Events :: "'p event option list"
  cer_CommittedPartition :: partition
  cer_CommittedOffset :: int

text \<open>
  The collaborators of a finalizer; \<open>tf_AppliedBatch\<close> is set when the recorder of applied commands also records batches.
\<close>

record ('p, 's) transaction_finalizer =
  tf_Transactions :: "(ctx \<Rightarrow> 'p command_event_transaction \<Rightarrow> 's \<Rightarrow> (go_error + 'p command_event_transaction_result) \<times> 's) option"
  tf_Events :: "(ctx \<Rightarrow> command_log_record \<Rightarrow> reply \<Rightarrow> 's \<Rightarrow> (go_error + 'p event_append list) \<times> 's) option"
  tf_Recorders :: "'s failure_recorders"
  tf_AppliedBatch :: "(command_log_record list \<Rightarrow> ack_result list \<Rightarrow> 's \<Rightarrow> go_error option \<times> 's) option"

definition commandLogTransactionCommitFailureResult :: "go_error option \<Rightarrow> finalization_result" where
  "commandLogTransactionCommitFailureResult err =
     (case err of None \<Rightarrow> zero_finalization
      | Some e \<Rightarrow> zero_finalization\<lparr>fr_CommitFailures := 1, fr_CommitFailure := Some e\<rparr>)"

definition validateCommandEventTransactionCommit ::
  "command_log_record \<Rightarrow> 'p command_event_transaction_result \<Rightarrow> go_error option" where
  "validateCommandEventTransactionCommit rec committed =
     (let p = Partition_Normalize (cer_CommittedPartition committed); q = Partition_Normalize (clr_Partition rec)
      in if cer_CommittedPartition committed = zero_partition
         then Some (Errorf ''command event transaction finalizer: missing committed partition'' [])
         else if p \<noteq> q
         then Some (Errorf ''command event transaction finalizer: committed partition %s/%s for record partition %s/%s''
                     [Astr (pKind p), Astr (pKey p), Astr (pKind q), Astr (pKey q)])
         else if cer_CommittedOffset committed < clr_Offset rec
         then Some (Errorf ''command event transaction finalizer: committed offset %d before record offset %d''
                     [Aint (cer_CommittedOffset committed), Aint (clr_Offset rec)])
         else None)"

fun tx_batch_loop :: "partition \<Rightarrow> int \<Rightarrow> command_log_record list \<Rightarrow> go_error option" where
  "tx_batch_loop p lastOffset [] = None"
| "tx_batch_loop p lastOffset (rec # recs) =
     (let q = Partition_Normalize (clr_Partition rec)
      in if q \<noteq> p
         then Some (Errorf ''command event transaction finalizer: batch mixes partition %s/%s with %s/%s''
                     [Astr (pKind p), Astr (pKey p), Astr (pKind q), Astr (pKey q)])
         else if clr_Offset rec \<le> lastOffset
         then Some (Errorf ''command event transaction finalizer: batch offset %d after %d is not increasing''
                     [Aint (clr_Offset rec), Aint lastOffset])
         else (case SourcePosition_ValidateFor (clr_SourcePosition rec) (clr_Partition rec) (clr_Offset rec) of
                 Some e \<Rightarrow> Some (Wrapf ''command event transaction finalizer: invalid source position in batch offset %d: %w''
                                  [Aint (clr_Offset rec)] e)
               | None \<Rightarrow> tx_batch_loop p (clr_Offset rec) recs))"

definition validateCommandEventTransactionBatch :: "command_log_record list \<Rightarrow> go_error option" where
  "validateCommandEventTransactionBatch records =
     (case records of [] \<Rightarrow> None
      | rec # _ \<Rightarrow> tx_batch_loop (Partition_Normalize (clr_Partition rec)) (wrap64 (clr_Offset rec - 1)) records)"

text \<open>An acknowledgement without a sequence number takes the largest one of its events.\<close>

definition raise_seq :: "'p event option list \<Rightarrow> ack_result \<Rightarrow> ack_result" where
  "raise_seq events r =
     (if ar_Seq r \<le> 0
      then foldl (\<lambda>r evt. case evt of None \<Rightarrow> r | Some e \<Rightarrow> if ev_Seq e > ar_Seq r then r\<lparr>ar_Seq := ev_Seq e\<rparr> else r) r events
      else r)"

definition record_transaction :: "command_log_record \<Rightarrow> 'p event_append list \<Rightarrow> 'p command_event_transaction" where
  "record_transaction rec events =
     \<lparr>cet_CommandPartition = clr_Partition rec, cet_CommandOffset = clr_Offset rec,
      cet_CommandSourcePosition = clr_SourcePosition rec, cet_Events = events\<rparr>"

lemma record_transaction_sel [simp]:
  "cet_CommandPartition (record_transaction rec events) = clr_Partition rec" "cet_CommandOffset (record_transaction rec events) = clr_Offset rec"
  "cet_Events (record_transaction rec events) = events"
  by (simp_all add: record_transaction_def)

text \<open>The commit of a transaction and the check of its result, which the three commits of the finalizers share.\<close>

definition commit_transaction ::
  "(ctx \<Rightarrow> 'p command_event_transaction \<Rightarrow> 's \<Rightarrow> (go_error + 'p command_event_transaction_result) \<times> 's) \<Rightarrow> ctx \<Rightarrow>
     command_log_record \<Rightarrow> 'p event_append list \<Rightarrow> 's \<Rightarrow> (go_error + 'p command_event_transaction_result) \<times> 's" where
  "commit_transaction commit ctx rec events s =
     (case commit ctx (record_transaction rec events) s of
        (Inl e, s) \<Rightarrow> (Inl e, s)
      | (Inr committed, s) \<Rightarrow>
          (case validateCommandEventTransactionCommit rec committed of
             Some e \<Rightarrow> (Inl e, s)
           | None \<Rightarrow> (Inr committed, s)))"

definition FinalizeCommandLogRecord ::
  "('p, 's) transaction_finalizer \<Rightarrow> ctx \<Rightarrow> command_log_record \<Rightarrow> reply \<Rightarrow> 's \<Rightarrow> (finalization_result \<times> go_error option) \<times> 's" where
  "FinalizeCommandLogRecord f ctx rec rp s =
     (case tf_Transactions f of
        None \<Rightarrow> ((zero_finalization, Some (Errorf ''command event transaction finalizer: nil transaction store'' [])), s)
      | Some commit \<Rightarrow>
          (case rp_Err rp of
             Some detail \<Rightarrow>
               if ed_Retryable detail then
                 (case call_recorder (rec_retryable (tf_Recorders f)) rec detail s of
                    (err, s) \<Rightarrow> ((zero_finalization\<lparr>fr_RetryableFailure := Some detail\<rparr>, err), s))
               else
                 (case commit_transaction commit ctx rec [] s of
                    (Inl e, s) \<Rightarrow> ((commandLogTransactionCommitFailureResult (Some e), Some e), s)
                  | (Inr committed, s) \<Rightarrow>
                      (case call_recorder (rec_terminal (tf_Recorders f)) rec detail s of
                         (err, s) \<Rightarrow>
                           ((zero_finalization\<lparr>fr_TerminalFailures := 1, fr_TerminalFailure := Some detail, fr_Committed := True\<rparr>, err), s)))
           | None \<Rightarrow>
               (case tf_Events f of
                  None \<Rightarrow> ((zero_finalization, Some (Errorf ''command event transaction finalizer: nil event decider'' [])), s)
                | Some decide \<Rightarrow>
                    (case decide ctx rec rp s of
                       (Inl e, s) \<Rightarrow> ((zero_finalization, Some e), s)
                     | (Inr events, s) \<Rightarrow>
                         (case commit_transaction commit ctx rec events s of
                            (Inl e, s) \<Rightarrow> ((commandLogTransactionCommitFailureResult (Some e), Some e), s)
                          | (Inr committed, s) \<Rightarrow>
                              let result = zero_finalization\<lparr>fr_Applied := 1, fr_Committed := True\<rparr>
                              in (case (rec_applied (tf_Recorders f), rp_Result rp) of
                                    (Some apply_rec, Some r) \<Rightarrow>
                                      (case apply_rec rec (raise_seq (cer_Events committed) r) s of (err, s) \<Rightarrow> ((result, err), s))
                                  | _ \<Rightarrow> ((result, None), s)))))))"

text \<open>
  The first loop of the batch finalizer: the decided events of each record, and the counts of the result so far. The
  event ranges of the source are the lengths of these lists.
\<close>

fun decide_batch ::
  "('p, 's) transaction_finalizer \<Rightarrow> ctx \<Rightarrow> (command_log_record \<times> reply) list \<Rightarrow> finalization_result \<Rightarrow> 's \<Rightarrow>
     (go_error + 'p event_append list list \<times> finalization_result) \<times> 's" where
  "decide_batch f ctx [] result s = (Inr ([], result), s)"
| "decide_batch f ctx ((rec, rp) # recs) result s =
     (case rp_Err rp of
        Some detail \<Rightarrow>
          if ed_Retryable detail then
            (Inl (Errorf ''command event transaction finalizer: retryable command at offset %d cannot be committed in a batch''
                    [Aint (clr_Offset rec)]), s)
          else
            (case decide_batch f ctx recs
                    (result\<lparr>fr_TerminalFailures := fr_TerminalFailures result + 1, fr_TerminalFailure := Some detail\<rparr>) s of
               (Inl e, s) \<Rightarrow> (Inl e, s)
             | (Inr (events, result), s) \<Rightarrow> (Inr ([] # events, result), s))
      | None \<Rightarrow>
          (case tf_Events f of
             None \<Rightarrow> (Inl (Errorf ''command event transaction finalizer: nil event decider'' []), s)
           | Some decide \<Rightarrow>
               (case decide ctx rec rp s of
                  (Inl e, s) \<Rightarrow> (Inl e, s)
                | (Inr decided, s) \<Rightarrow>
                    (case decide_batch f ctx recs (result\<lparr>fr_Applied := fr_Applied result + 1\<rparr>) s of
                       (Inl e, s) \<Rightarrow> (Inl e, s)
                     | (Inr (events, result), s) \<Rightarrow> (Inr (decided # events, result), s)))))"

text \<open>
  The second loop: terminal failures are recorded, applied records collected with their results. \<open>n\<close> is the start of the
  event range of the next record. A slice beyond the returned events panics, which is \<open>None\<close>.
\<close>

fun record_batch ::
  "('p, 's) transaction_finalizer \<Rightarrow> 'p event option list \<Rightarrow> nat \<Rightarrow> ((command_log_record \<times> reply) \<times> nat) list \<Rightarrow> 's \<Rightarrow>
     (go_error + (command_log_record \<times> ack_result) list) option \<times> 's" where
  "record_batch f committed n [] s = (Some (Inr []), s)"
| "record_batch f committed n (((rec, rp), k) # recs) s =
     (case rp_Err rp of
        Some detail \<Rightarrow>
          (case call_recorder (rec_terminal (tf_Recorders f)) rec detail s of
             (Some e, s) \<Rightarrow> (Some (Inl e), s)
           | (None, s) \<Rightarrow> record_batch f committed (n + k) recs s)
      | None \<Rightarrow>
          (case (rec_applied (tf_Recorders f), rp_Result rp) of
             (Some _, Some r) \<Rightarrow>
               if ar_Seq r \<le> 0 \<and> n + k > length committed then (None, s)
               else (case record_batch f committed (n + k) recs s of
                       (Some (Inr applied), s) \<Rightarrow> (Some (Inr ((rec, raise_seq (take k (drop n committed)) r) # applied)), s)
                     | (other, s) \<Rightarrow> (other, s))
           | _ \<Rightarrow> record_batch f committed (n + k) recs s))"

fun record_applied ::
  "(command_log_record \<Rightarrow> ack_result \<Rightarrow> 's \<Rightarrow> go_error option \<times> 's) option \<Rightarrow> (command_log_record \<times> ack_result) list \<Rightarrow> 's \<Rightarrow>
     go_error option \<times> 's" where
  "record_applied recorder [] s = (None, s)"
| "record_applied recorder ((rec, r) # applied) s =
     (case call_recorder recorder rec r s of
        (Some e, s) \<Rightarrow> (Some e, s)
      | (None, s) \<Rightarrow> record_applied recorder applied s)"

definition finish_batch ::
  "('p, 's) transaction_finalizer \<Rightarrow> (command_log_record \<times> ack_result) list \<Rightarrow> 's \<Rightarrow> go_error option \<times> 's" where
  "finish_batch f applied s =
     (if applied = [] then (None, s)
      else case tf_AppliedBatch f of
             Some batch \<Rightarrow> batch (map fst applied) (map snd applied) s
           | None \<Rightarrow> record_applied (rec_applied (tf_Recorders f)) applied s)"

text \<open>Everything after the first loop: the commit up to the last record, and the recording of the outcomes.\<close>

definition commit_batch ::
  "('p, 's) transaction_finalizer \<Rightarrow> (ctx \<Rightarrow> 'p command_event_transaction \<Rightarrow> 's \<Rightarrow> (go_error + 'p command_event_transaction_result) \<times> 's) \<Rightarrow>
     ctx \<Rightarrow> command_log_record list \<Rightarrow> reply list \<Rightarrow> 'p event_append list list \<Rightarrow> finalization_result \<Rightarrow> 's \<Rightarrow>
     (finalization_result \<times> go_error option) option \<times> 's" where
  "commit_batch f commit ctx records replies decided result s =
     (case commit_transaction commit ctx (last records) (concat decided) s of
        (Inl e, s) \<Rightarrow> (Some (commandLogTransactionCommitFailureResult (Some e), Some e), s)
      | (Inr committed, s) \<Rightarrow>
          (case record_batch f (cer_Events committed) 0 (zip (zip records replies) (map length decided)) s of
             (None, s) \<Rightarrow> (None, s)
           | (Some (Inl e), s) \<Rightarrow> (Some (result, Some e), s)
           | (Some (Inr applied), s) \<Rightarrow> (case finish_batch f applied s of (err, s) \<Rightarrow> (Some (result, err), s))))"

definition FinalizeCommandLogBatch ::
  "('p, 's) transaction_finalizer \<Rightarrow> ctx \<Rightarrow> command_log_record list \<Rightarrow> reply list \<Rightarrow> 's \<Rightarrow>
     (finalization_result \<times> go_error option) option \<times> 's" where
  "FinalizeCommandLogBatch f ctx records replies s =
     (case tf_Transactions f of
        None \<Rightarrow> (Some (zero_finalization, Some (Errorf ''command event transaction finalizer: nil transaction store'' [])), s)
      | Some commit \<Rightarrow>
          if records = [] then (Some (zero_finalization, None), s)
          else if length records \<noteq> length replies
          then (Some (zero_finalization, Some (Errorf ''command event transaction finalizer: %d records for %d replies''
                  [Aint (int (length records)), Aint (int (length replies))])), s)
          else (case validateCommandEventTransactionBatch records of
                  Some e \<Rightarrow> (Some (zero_finalization, Some e), s)
                | None \<Rightarrow>
                    if tf_Events f = None \<and> list_ex (\<lambda>rp. rp_Err rp = None) replies
                    then (Some (zero_finalization, Some (Errorf ''command event transaction finalizer: nil event decider'' [])), s)
                    else (case decide_batch f ctx (zip records replies) (zero_finalization\<lparr>fr_Committed := True\<rparr>) s of
                            (Inl e, s) \<Rightarrow> (Some (zero_finalization, Some e), s)
                          | (Inr (decided, result), s) \<Rightarrow> commit_batch f commit ctx records replies decided result s)))"

section \<open>The transaction store\<close>

record tx_client_result =
  tcr_Messages :: "broker_message list"
  tcr_CommittedPartition :: partition
  tcr_CommittedOffset :: int

record tx_client_batch_result =
  tbr_Messages :: "broker_message list"
  tbr_Commits :: "commit_position list"

text \<open>The client interface; the batch operation is optional.\<close>

record 's tx_client =
  tc_AppendEventsAndCommitCommand ::
    "ctx \<Rightarrow> commit_position \<Rightarrow> broker_event_record list \<Rightarrow> 's \<Rightarrow> (go_error + tx_client_result) \<times> 's"
  tc_AppendEventsAndCommitCommands ::
    "(ctx \<Rightarrow> commit_position list \<Rightarrow> broker_event_record list \<Rightarrow> 's \<Rightarrow> (go_error + tx_client_batch_result) \<times> 's) option"

definition brokerEventTransactionRecord :: "'p json_codec \<Rightarrow> 'p event_append \<Rightarrow> go_error + broker_event_record" where
  "brokerEventTransactionRecord jc event =
     (if TrimSpace (ea_ID event) = [] then Inl (Errorf ''broker command event transaction store: event id is required'' [])
      else if ea_TS event \<le> 0 then Inl (Errorf ''broker command event transaction store: event timestamp is required'' [])
      else (case jc_Marshal jc (ea_Payload event) of
              Inl e \<Rightarrow> Inl e
            | Inr payload \<Rightarrow>
                (case jc_UnmarshalPayload jc (ea_Kind event) payload of
                   Inl e \<Rightarrow> Inl e
                 | Inr _ \<Rightarrow>
                     let p = logPartitionFromEventPartition (EventPartitionFor (ea_Kind event) (ea_Scopes event))
                     in Inr \<lparr>ber_Version = BrokerEventRecordVersion, ber_ID = ea_ID event, ber_Kind = ea_Kind event,
                             ber_CompatibilitySeq = ea_CompatibilitySeq event, ber_Scopes = ea_Scopes event, ber_Payload = payload,
                             ber_TS = ea_TS event, ber_PartitionKind = pKind p, ber_PartitionKey = pKey p, ber_PartitionOffset = 0\<rparr>)))"

text \<open>The loops over the events of a transaction, which stop at the first error.\<close>

fun tx_records :: "'p json_codec \<Rightarrow> 'p event_append list \<Rightarrow> go_error + broker_event_record list" where
  "tx_records jc [] = Inr []"
| "tx_records jc (event # events) =
     (case brokerEventTransactionRecord jc event of
        Inl e \<Rightarrow> Inl e
      | Inr r \<Rightarrow> (case tx_records jc events of Inl e \<Rightarrow> Inl e | Inr rs \<Rightarrow> Inr (r # rs)))"

text \<open>
  The messages with the records that were requested; \<open>i\<close> counts the accepted events, \<open>offsets\<close> holds the last offset of
  each partition, \<open>allow\<close> is the option \<open>AllowPartitionOnlyEvents\<close>.
\<close>

fun tx_messages ::
  "'p json_codec \<Rightarrow> broker_event_record json_record_codec \<Rightarrow> bool \<Rightarrow> nat \<Rightarrow> int \<Rightarrow> (partition, int) gomap \<Rightarrow>
     (broker_message \<times> broker_event_record) list \<Rightarrow> go_error + 'p event list" where
  "tx_messages jc jr allow i lastSeq offsets [] = Inr []"
| "tx_messages jc jr allow i lastSeq offsets ((msg, expected) # msgs) =
     (case DecodeBrokerEventRecord jr (bm_Data msg) of
        Inl e \<Rightarrow> Inl e
      | Inr r \<Rightarrow>
          if \<not> SameBrokerEventTransactionResultIdentity r expected
          then Inl (Errorf ''broker command event transaction store: transaction returned event %d id %q for requested id %q''
                     [Aint (int i), Astr (ber_ID r), Astr (ber_ID expected)])
          else (case DecodeBrokerEventMessage jc jr msg of
                  Inl e \<Rightarrow> Inl e
                | Inr evt \<Rightarrow>
                    if ev_Seq evt \<le> 0 \<and> \<not> allow
                    then Inl (Errorf ''broker command event transaction store: transaction returned event %d id %q without scalar sequence evidence''
                               [Aint (int i), Astr (ber_ID r)])
                    else if ev_Seq evt > 0 \<and> lastSeq > 0 \<and> ev_Seq evt \<le> lastSeq
                    then Inl (Errorf ''broker command event transaction store: transaction returned event %d id %q with non-increasing scalar sequence %d after %d''
                               [Aint (int i), Astr (ber_ID r), Aint (ev_Seq evt), Aint lastSeq])
                    else let lastSeq = (if ev_Seq evt > 0 then ev_Seq evt else lastSeq);
                             p = Partition_Normalize (Partition (ev_PartitionKind evt) (ev_PartitionKey evt));
                             lastOffset = gm_get 0 offsets p
                         in if lastOffset > 0 \<and> ev_PartitionOffset evt \<le> lastOffset
                            then Inl (Errorf ''broker command event transaction store: transaction returned event %d id %q for partition %s/%s with non-increasing partition offset %d after %d''
                                       [Aint (int i), Astr (ber_ID r), Astr (pKind p), Astr (pKey p), Aint (ev_PartitionOffset evt), Aint lastOffset])
                            else (case tx_messages jc jr allow (Suc i) lastSeq (gm_set p (ev_PartitionOffset evt) offsets) msgs of
                                    Inl e \<Rightarrow> Inl e | Inr events \<Rightarrow> Inr (evt # events))))"

definition validateBrokerCommandEventTransactionMessages ::
  "'p json_codec \<Rightarrow> broker_event_record json_record_codec \<Rightarrow> bool \<Rightarrow> broker_event_record list \<Rightarrow> broker_message list \<Rightarrow> go_error + 'p event list" where
  "validateBrokerCommandEventTransactionMessages jc jr allow records messages =
     (if length messages \<noteq> length records
      then Inl (Errorf ''broker command event transaction store: transaction returned %d events for %d requested events''
                 [Aint (int (length messages)), Aint (int (length records))])
      else tx_messages jc jr allow 0 0 [] (zip messages records))"

definition tx_command :: "'p command_event_transaction \<Rightarrow> commit_position" where
  "tx_command tx = CommitPosition_Normalize
     \<lparr>cp_Partition = cet_CommandPartition tx, cp_Offset = cet_CommandOffset tx, cp_SourcePosition = cet_CommandSourcePosition tx\<rparr>"

text \<open>The store; \<open>None\<close> as the client stands for a nil store or a nil client.\<close>

definition CommitCommandEvents ::
  "'p json_codec \<Rightarrow> broker_event_record json_record_codec \<Rightarrow> bool \<Rightarrow> 's tx_client option \<Rightarrow> ctx \<Rightarrow> 'p command_event_transaction \<Rightarrow>
     's \<Rightarrow> (go_error + 'p command_event_transaction_result) \<times> 's" where
  "CommitCommandEvents jc jr allow client ctx tx s =
     (case ctx of Some e \<Rightarrow> (Inl e, s)
      | None \<Rightarrow>
          (case client of None \<Rightarrow> (Inl (Errorf ''broker command event transaction store: nil client'' []), s)
           | Some client \<Rightarrow>
               let command = tx_command tx
               in case CommitPosition_Validate command of
                    Some e \<Rightarrow> (Inl (Wrapf ''broker command event transaction store: %w'' [] e), s)
                  | None \<Rightarrow>
                      (case tx_records jc (cet_Events tx) of
                         Inl e \<Rightarrow> (Inl e, s)
                       | Inr records \<Rightarrow>
                           (case NormalizeBrokerEventTransactionRecords jr records ''one transaction'' of
                              Inl e \<Rightarrow> (Inl (Wrapf ''broker command event transaction store: %w'' [] e), s)
                            | Inr records \<Rightarrow>
                                (case tc_AppendEventsAndCommitCommand client ctx command records s of
                                   (Inl e, s) \<Rightarrow> (Inl e, s)
                                 | (Inr committed, s) \<Rightarrow>
                                     let p = Partition_Normalize (tcr_CommittedPartition committed); q = cp_Partition command
                                     in if tcr_CommittedPartition committed = zero_partition
                                        then (Inl (Errorf ''broker command event transaction store: missing committed partition'' []), s)
                                        else if p \<noteq> q
                                        then (Inl (Errorf ''broker command event transaction store: committed partition %s/%s for command partition %s/%s''
                                                     [Astr (pKind p), Astr (pKey p), Astr (pKind q), Astr (pKey q)]), s)
                                        else if tcr_CommittedOffset committed < cp_Offset command
                                        then (Inl (Errorf ''broker command event transaction store: committed offset %d before command offset %d''
                                                     [Aint (tcr_CommittedOffset committed), Aint (cp_Offset command)]), s)
                                        else (case validateBrokerCommandEventTransactionMessages jc jr allow records (tcr_Messages committed) of
                                                Inl e \<Rightarrow> (Inl e, s)
                                              | Inr events \<Rightarrow>
                                                  (Inr \<lparr>cer_Events = map Some events, cer_CommittedPartition = p,
                                                        cer_CommittedOffset = tcr_CommittedOffset committed\<rparr>, s)))))))"

text \<open>Without a batch client the transactions are committed one by one; the results before an error are returned with it.\<close>

fun commit_each ::
  "('a \<Rightarrow> 's \<Rightarrow> (go_error + 'b) \<times> 's) \<Rightarrow> 'b \<Rightarrow> 'a list \<Rightarrow> 's \<Rightarrow> ('b list \<times> go_error option) \<times> 's" where
  "commit_each commit zero [] s = (([], None), s)"
| "commit_each commit zero (tx # txs) s =
     (case commit tx s of
        (Inl e, s) \<Rightarrow> (([zero], Some e), s)
      | (Inr result, s) \<Rightarrow> (case commit_each commit zero txs s of ((results, err), s) \<Rightarrow> ((result # results, err), s)))"

fun tx_batch_records ::
  "'p json_codec \<Rightarrow> nat \<Rightarrow> 'p command_event_transaction list \<Rightarrow> go_error + (commit_position \<times> broker_event_record list) list" where
  "tx_batch_records jc i [] = Inr []"
| "tx_batch_records jc i (tx # txs) =
     (case CommitPosition_Validate (tx_command tx) of
        Some e \<Rightarrow> Inl (Wrapf ''broker command event transaction store: command %d: %w'' [Aint (int i)] e)
      | None \<Rightarrow>
          (case tx_records jc (cet_Events tx) of
             Inl e \<Rightarrow> Inl e
           | Inr rs \<Rightarrow>
               (case tx_batch_records jc (Suc i) txs of Inl e \<Rightarrow> Inl e | Inr out \<Rightarrow> Inr ((tx_command tx, rs) # out))))"

fun check_commits :: "nat \<Rightarrow> (commit_position \<times> commit_position) list \<Rightarrow> go_error + commit_position list" where
  "check_commits i [] = Inr []"
| "check_commits i ((commit, command) # cs) =
     (let commit = CommitPosition_Normalize commit; p = cp_Partition commit; q = cp_Partition command
      in if p = zero_partition
         then Inl (Errorf ''broker command event transaction store: transaction returned commit %d without partition'' [Aint (int i)])
         else if p \<noteq> q
         then Inl (Errorf ''broker command event transaction store: transaction returned commit %d partition %s/%s for command partition %s/%s''
                    [Aint (int i), Astr (pKind p), Astr (pKey p), Astr (pKind q), Astr (pKey q)])
         else if cp_Offset commit < cp_Offset command
         then Inl (Errorf ''broker command event transaction store: transaction returned commit %d offset %d before command offset %d''
                    [Aint (int i), Aint (cp_Offset commit), Aint (cp_Offset command)])
         else (case check_commits (Suc i) cs of Inl e \<Rightarrow> Inl e | Inr out \<Rightarrow> Inr (commit # out)))"

text \<open>The results of a batch: consecutive slices of the events, one for each transaction.\<close>

fun split_results :: "'p event list \<Rightarrow> (commit_position \<times> nat) list \<Rightarrow> 'p command_event_transaction_result list" where
  "split_results events [] = []"
| "split_results events ((commit, n) # cs) =
     \<lparr>cer_Events = map Some (take n events), cer_CommittedPartition = cp_Partition commit, cer_CommittedOffset = cp_Offset commit\<rparr> #
     split_results (drop n events) cs"

definition zero_tx_result :: "'p command_event_transaction_result" where
  "zero_tx_result = \<lparr>cer_Events = [], cer_CommittedPartition = zero_partition, cer_CommittedOffset = 0\<rparr>"

definition CommitCommandEventBatch ::
  "'p json_codec \<Rightarrow> broker_event_record json_record_codec \<Rightarrow> bool \<Rightarrow> 's tx_client option \<Rightarrow> ctx \<Rightarrow> 'p command_event_transaction list \<Rightarrow>
     's \<Rightarrow> ('p command_event_transaction_result list \<times> go_error option) \<times> 's" where
  "CommitCommandEventBatch jc jr allow client ctx txs s =
     (case ctx of Some e \<Rightarrow> (([], Some e), s)
      | None \<Rightarrow>
          if txs = [] then (([], None), s)
          else (case client of None \<Rightarrow> (([], Some (Errorf ''broker command event transaction store: nil client'' [])), s)
           | Some c \<Rightarrow>
               (case tc_AppendEventsAndCommitCommands c of
                  None \<Rightarrow> commit_each (CommitCommandEvents jc jr allow client ctx) zero_tx_result txs s
                | Some append_batch \<Rightarrow>
                    (case tx_batch_records jc 0 txs of
                       Inl e \<Rightarrow> (([], Some e), s)
                     | Inr prepared \<Rightarrow>
                         (case NormalizeBrokerEventTransactionRecords jr (concat (map snd prepared)) ''one transaction batch'' of
                            Inl e \<Rightarrow> (([], Some (Wrapf ''broker command event transaction store: %w'' [] e)), s)
                          | Inr records \<Rightarrow>
                              (case append_batch ctx (map fst prepared) records s of
                                 (Inl e, s) \<Rightarrow> (([], Some e), s)
                               | (Inr committed, s) \<Rightarrow>
                                   if length (tbr_Commits committed) \<noteq> length prepared
                                   then (([], Some (Errorf ''broker command event transaction store: transaction returned %d commits for %d commands''
                                            [Aint (int (length (tbr_Commits committed))), Aint (int (length prepared))])), s)
                                   else (case check_commits 0 (zip (tbr_Commits committed) (map fst prepared)) of
                                           Inl e \<Rightarrow> (([], Some e), s)
                                         | Inr commits \<Rightarrow>
                                             (case validateBrokerCommandEventTransactionMessages jc jr allow records (tbr_Messages committed) of
                                                Inl e \<Rightarrow> (([], Some e), s)
                                              | Inr events \<Rightarrow>
                                                  ((split_results events (zip commits (map (length \<circ> snd) prepared)), None), s)))))))))"

section \<open>The reference client\<close>

text \<open>The broker logs the client works on; nil logs are \<open>None\<close>, and a nil client has none of them.\<close>

record memory_transactions =
  mt_commands :: "memory_broker_commands option"
  mt_events :: "memory_broker_events option"

record memory_pending_event =
  mp_message :: broker_message
  mp_record :: broker_event_record
  mp_new :: bool

definition zero_event_record :: broker_event_record where
  "zero_event_record = \<lparr>ber_Version = 0, ber_ID = [], ber_Kind = [], ber_CompatibilitySeq = 0, ber_Scopes = [], ber_Payload = [],
     ber_TS = 0, ber_PartitionKind = [], ber_PartitionKey = [], ber_PartitionOffset = 0\<rparr>"

fun tx_commands :: "nat \<Rightarrow> commit_position list \<Rightarrow> go_error + commit_position list" where
  "tx_commands i [] = Inr []"
| "tx_commands i (command # commands) =
     (let command = CommitPosition_Normalize command
      in case CommitPosition_Validate command of
           Some e \<Rightarrow> Inl (Wrapf ''memory broker command event transaction: command %d: %w'' [Aint (int i)] e)
         | None \<Rightarrow> (case tx_commands (Suc i) commands of Inl e \<Rightarrow> Inl e | Inr out \<Rightarrow> Inr (command # out)))"

fun tx_beyond_tail :: "memory_broker_commands \<Rightarrow> nat \<Rightarrow> commit_position list \<Rightarrow> go_error option" where
  "tx_beyond_tail c i [] = None"
| "tx_beyond_tail c i (command # commands) =
     (let p = cp_Partition command; tail = gm_get 0 (mbc_tails c) p
      in if cp_Offset command > tail
         then Some (Errorf ''memory broker command event transaction: command %d offset %d is beyond tail %d for %s/%s''
                     [Aint (int i), Aint (cp_Offset command), Aint tail, Astr (pKind p), Astr (pKey p)])
         else tx_beyond_tail c (Suc i) commands)"

text \<open>A record whose id is in the event log already.\<close>

definition tx_duplicate ::
  "broker_event_record json_record_codec \<Rightarrow> partition \<Rightarrow> broker_event_record \<Rightarrow> broker_message \<Rightarrow> go_error + memory_pending_event" where
  "tx_duplicate jr p r existing =
     (if Partition_Normalize (bm_Partition existing) \<noteq> p
      then Inl (Errorf ''memory broker command event transaction: duplicate event id %q belongs to %s/%s, not %s/%s''
                 [Astr (ber_ID r), Astr (pKind (bm_Partition existing)), Astr (pKey (bm_Partition existing)), Astr (pKind p), Astr (pKey p)])
      else (case DecodeBrokerEventRecord jr (bm_Data existing) of
              Inl e \<Rightarrow> Inl e
            | Inr existingRecord \<Rightarrow>
                if \<not> SameBrokerEventRecordIdentity existingRecord r
                then Inl (Errorf ''memory broker command event transaction: duplicate event id %q has different content'' [Astr (ber_ID r)])
                else Inr \<lparr>mp_message = CloneBrokerMessage existing, mp_record = zero_event_record, mp_new = False\<rparr>))"

fun tx_pending ::
  "broker_event_record json_record_codec \<Rightarrow> memory_broker_events \<Rightarrow> (partition, int) gomap \<Rightarrow> (string, memory_pending_event) gomap \<Rightarrow>
     int \<Rightarrow> broker_event_record list \<Rightarrow> go_error + memory_pending_event list" where
  "tx_pending jr c counts byID head [] = Inr []"
| "tx_pending jr c counts byID head (r # rs) =
     (let p = Partition_Normalize (Partition (ber_PartitionKind r) (ber_PartitionKey r));
          r = r\<lparr>ber_PartitionKind := pKind p, ber_PartitionKey := pKey p\<rparr>
      in if ber_ID r = [] then Inl (Errorf ''memory broker command event transaction: event id is required'' [])
         else if ber_TS r \<le> 0 then Inl (Errorf ''memory broker command event transaction: event timestamp is required'' [])
         else (case map_of (mbe_byID c) (ber_ID r) of
                 Some existing \<Rightarrow>
                   (case tx_duplicate jr p r existing of
                      Inl e \<Rightarrow> Inl e
                    | Inr old \<Rightarrow> (case tx_pending jr c counts byID head rs of Inl e \<Rightarrow> Inl e | Inr out \<Rightarrow> Inr (old # out)))
               | None \<Rightarrow>
                   (case map_of byID (ber_ID r) of
                      Some existing \<Rightarrow>
                        if \<not> SameBrokerEventRecordIdentity (mp_record existing) r
                        then Inl (Errorf ''memory broker command event transaction: duplicate event id %q has different content'' [Astr (ber_ID r)])
                        else Inl (Errorf ''memory broker command event transaction: duplicate event id %q in one transaction'' [Astr (ber_ID r)])
                    | None \<Rightarrow>
                        let offset = wrap64 (gm_get 0 (mbe_tails c) p + gm_get 0 counts p + 1);
                            head = wrap64 (head + 1);
                            r = r\<lparr>ber_PartitionOffset := offset\<rparr>
                        in case EncodeBrokerEventRecord jr r of
                             Inl e \<Rightarrow> Inl e
                           | Inr data \<Rightarrow>
                               let new = \<lparr>mp_message = \<lparr>bm_Partition = p, bm_Offset = offset, bm_StreamSeq = head, bm_Data = data\<rparr>,
                                          mp_record = r, mp_new = True\<rparr>
                               in case tx_pending jr c (gm_set p (wrap64 (gm_get 0 counts p + 1)) counts) (gm_set (ber_ID r) new byID) head rs of
                                    Inl e \<Rightarrow> Inl e | Inr out \<Rightarrow> Inr (new # out))))"

definition tx_apply :: "memory_broker_events \<Rightarrow> memory_pending_event \<Rightarrow> memory_broker_events" where
  "tx_apply c pending =
     (let msg = mp_message pending
      in if mp_new pending
         then c\<lparr>mbe_head := bm_StreamSeq msg, mbe_tails := gm_set (bm_Partition msg) (bm_Offset msg) (mbe_tails c),
                mbe_messages := gm_set (bm_Partition msg) (gm_get [] (mbe_messages c) (bm_Partition msg) @ [CloneBrokerMessage msg]) (mbe_messages c),
                mbe_byID := gm_set (ber_ID (mp_record pending)) (CloneBrokerMessage msg) (mbe_byID c)\<rparr>
         else c)"

fun tx_commit :: "memory_broker_commands \<Rightarrow> commit_position list \<Rightarrow> commit_position list \<times> memory_broker_commands" where
  "tx_commit c [] = ([], c)"
| "tx_commit c (command # commands) =
     (let p = cp_Partition command;
          c = (if cp_Offset command > gm_get 0 (mbc_committed c) p
               then c\<lparr>mbc_committed := gm_set p (cp_Offset command) (mbc_committed c)\<rparr> else c);
          commit = \<lparr>cp_Partition = p, cp_Offset = gm_get 0 (mbc_committed c) p, cp_SourcePosition = cp_SourcePosition command\<rparr>
      in case tx_commit c commands of (commits, c) \<Rightarrow> (commit # commits, c))"

definition MemoryTransactions_AppendEventsAndCommitCommands ::
  "broker_event_record json_record_codec \<Rightarrow> ctx \<Rightarrow> commit_position list \<Rightarrow> broker_event_record list \<Rightarrow> memory_transactions \<Rightarrow>
     (go_error + tx_client_batch_result) \<times> memory_transactions" where
  "MemoryTransactions_AppendEventsAndCommitCommands jr ctx commands records m =
     (case ctx of Some e \<Rightarrow> (Inl e, m)
      | None \<Rightarrow>
          (case (mt_commands m, mt_events m) of
             (Some cc, Some ce) \<Rightarrow>
               (case tx_commands 0 commands of
                  Inl e \<Rightarrow> (Inl e, m)
                | Inr commands \<Rightarrow>
                    (case tx_beyond_tail cc 0 commands of
                       Some e \<Rightarrow> (Inl e, m)
                     | None \<Rightarrow>
                         (case tx_pending jr ce [] [] (mbe_head ce) records of
                            Inl e \<Rightarrow> (Inl e, m)
                          | Inr pending \<Rightarrow>
                              (case tx_commit cc commands of
                                 (commits, cc) \<Rightarrow>
                                   (Inr \<lparr>tbr_Messages = map (CloneBrokerMessage \<circ> mp_message) pending, tbr_Commits = commits\<rparr>,
                                    \<lparr>mt_commands = Some cc, mt_events = Some (foldl tx_apply ce pending)\<rparr>)))))
           | _ \<Rightarrow> (Inl (Errorf ''memory broker command event transaction: nil client'' []), m)))"

definition MemoryTransactions_AppendEventsAndCommitCommand ::
  "broker_event_record json_record_codec \<Rightarrow> ctx \<Rightarrow> commit_position \<Rightarrow> broker_event_record list \<Rightarrow> memory_transactions \<Rightarrow>
     (go_error + tx_client_result) \<times> memory_transactions" where
  "MemoryTransactions_AppendEventsAndCommitCommand jr ctx command records m =
     (case ctx of Some e \<Rightarrow> (Inl e, m)
      | None \<Rightarrow>
          (case MemoryTransactions_AppendEventsAndCommitCommands jr ctx [command] records m of
             (Inl e, m) \<Rightarrow> (Inl e, m)
           | (Inr batch, m) \<Rightarrow>
               (case tbr_Commits batch of
                  [commit] \<Rightarrow> (Inr \<lparr>tcr_Messages = tbr_Messages batch, tcr_CommittedPartition = cp_Partition commit,
                                    tcr_CommittedOffset = cp_Offset commit\<rparr>, m)
                | commits \<Rightarrow> (Inl (Errorf ''memory broker command event transaction: committed %d commands, want 1''
                                     [Aint (int (length commits))]), m))))"

definition memory_tx_client :: "broker_event_record json_record_codec \<Rightarrow> memory_transactions tx_client" where
  "memory_tx_client jr =
     \<lparr>tc_AppendEventsAndCommitCommand = MemoryTransactions_AppendEventsAndCommitCommand jr,
      tc_AppendEventsAndCommitCommands = Some (MemoryTransactions_AppendEventsAndCommitCommands jr)\<rparr>"

section \<open>A transaction and sequential appends\<close>

text \<open>The specification: append the records one after the other to the event log, stop at the first error.\<close>

fun append_all ::
  "broker_event_record json_record_codec \<Rightarrow> memory_broker_events \<Rightarrow> broker_event_record list \<Rightarrow>
     (go_error + broker_message list) \<times> memory_broker_events" where
  "append_all jr c [] = (Inr [], c)"
| "append_all jr c (r # rs) =
     (case mbe_append jr c (record_partition r) r of
        (Inl e, c) \<Rightarrow> (Inl e, c)
      | (Inr msg, c) \<Rightarrow>
          (case append_all jr c rs of (Inl e, c) \<Rightarrow> (Inl e, c) | (Inr msgs, c) \<Rightarrow> (Inr (msg # msgs), c)))"

lemma wrap64_add: "wrap64 (wrap64 a + b) = wrap64 (a + b)" "wrap64 (b + wrap64 a) = wrap64 (b + a)"
  by (simp_all add: wrap64_def mod_simps algebra_simps)

lemma CloneBrokerMessage_idem [simp]: "CloneBrokerMessage (CloneBrokerMessage m) = CloneBrokerMessage m"
  by (simp add: CloneBrokerMessage_def)

definition tx_requested :: "broker_event_record \<Rightarrow> bool" where
  "tx_requested r \<longleftrightarrow> ber_ID r \<noteq> [] \<and> 0 < ber_TS r \<and> ber_PartitionOffset r \<le> 0"

definition in_partition_form :: "broker_event_record \<Rightarrow> broker_event_record" where
  "in_partition_form r = r\<lparr>ber_PartitionKind := pKind (Partition_Normalize (record_partition r)),
     ber_PartitionKey := pKey (Partition_Normalize (record_partition r))\<rparr>"

lemma in_partition_form_sel [simp]:
  "ber_ID (in_partition_form r) = ber_ID r" "ber_TS (in_partition_form r) = ber_TS r"
  "ber_PartitionOffset (in_partition_form r) = ber_PartitionOffset r"
  by (simp_all add: in_partition_form_def)

lemma tx_duplicate_cases:
  obtains (bad) e e' where "mbe_duplicate jr p r m = Inl e" "tx_duplicate jr p r m = Inl e'"
  | (same) "mbe_duplicate jr p r m = Inr (CloneBrokerMessage m)"
      "tx_duplicate jr p r m = Inr \<lparr>mp_message = CloneBrokerMessage m, mp_record = zero_event_record, mp_new = False\<rparr>"
      "Partition_Normalize (bm_Partition m) = p"
      "\<exists>r'. DecodeBrokerEventRecord jr (bm_Data m) = Inr r' \<and> SameBrokerEventRecordIdentity r' r"
proof (cases "DecodeBrokerEventRecord jr (bm_Data m)")
  case (Inr r')
  then show ?thesis
    using that unfolding mbe_duplicate_def tx_duplicate_def
    by (cases "SameBrokerEventRecordIdentity r' r"; cases "Partition_Normalize (bm_Partition m) = p") auto
next
  case (Inl e)
  then show ?thesis
    using that unfolding mbe_duplicate_def tx_duplicate_def by (cases "Partition_Normalize (bm_Partition m) = p") auto
qed

text \<open>The entry of a new record, and the states of the two runs: \<open>c\<close> is the log after the appends so far.\<close>

definition new_pending :: "partition \<Rightarrow> int \<Rightarrow> int \<Rightarrow> broker_event_record \<Rightarrow> string \<Rightarrow> memory_pending_event" where
  "new_pending p offset head r data =
     \<lparr>mp_message = \<lparr>bm_Partition = p, bm_Offset = offset, bm_StreamSeq = head, bm_Data = data\<rparr>,
      mp_record = r\<lparr>ber_PartitionOffset := offset\<rparr>, mp_new = True\<rparr>"

definition tx_aligned ::
  "memory_broker_events \<Rightarrow> (partition, int) gomap \<Rightarrow> (string, memory_pending_event) gomap \<Rightarrow> int \<Rightarrow> broker_event_record list \<Rightarrow>
     memory_broker_events \<Rightarrow> bool" where
  "tx_aligned c0 counts byID head rs c \<longleftrightarrow> mbe_head c = head \<and>
     (\<forall>p. wrap64 (gm_get 0 (mbe_tails c) p + 1) = wrap64 (gm_get 0 (mbe_tails c0) p + gm_get 0 counts p + 1)) \<and>
     (\<forall>r \<in> set rs. map_of byID (ber_ID r) = None \<and> map_of (mbe_byID c) (ber_ID r) = map_of (mbe_byID c0) (ber_ID r))"

lemma store_pending:
  fixes c :: memory_broker_events
  assumes "tx_requested r" "Partition_Normalize p = p"
  defines "offset \<equiv> wrap64 (gm_get 0 (mbe_tails c) p + 1)" and "head \<equiv> wrap64 (mbe_head c + 1)"
  shows "mbe_store jr c p r =
    (case EncodeBrokerEventRecord jr (r\<lparr>ber_PartitionOffset := offset\<rparr>) of
       Inl e \<Rightarrow> (Inl e, c)
     | Inr data \<Rightarrow> (Inr (mp_message (new_pending p offset head r data)), tx_apply c (new_pending p offset head r data)))"
proof -
  have guard: "(ber_PartitionOffset r > 0 \<and> ber_PartitionOffset r \<noteq> n) = False" for n
    using assms(1) by (simp add: tx_requested_def)
  have "CloneBrokerMessage \<lparr>bm_Partition = p, bm_Offset = n, bm_StreamSeq = h, bm_Data = d\<rparr> =
      \<lparr>bm_Partition = p, bm_Offset = n, bm_StreamSeq = h, bm_Data = d\<rparr>" for n h d
    using assms(2) by (simp add: CloneBrokerMessage_def)
  then show ?thesis
    using assms(1) unfolding mbe_store_def Let_def guard offset_def head_def
    by (simp add: new_pending_def tx_apply_def tx_requested_def Let_def split: sum.split)
qed

declare tx_pending.simps(2) [simp del]

lemma tx_pending_known:
  assumes "ber_ID r \<noteq> []" "0 < ber_TS r" "map_of (mbe_byID c) (ber_ID r) = Some m"
  shows "tx_pending jr c counts byID head (r # rs) =
    (case tx_duplicate jr (Partition_Normalize (record_partition r)) (in_partition_form r) m of
       Inl e \<Rightarrow> Inl e
     | Inr old \<Rightarrow> (case tx_pending jr c counts byID head rs of Inl e \<Rightarrow> Inl e | Inr out \<Rightarrow> Inr (old # out)))"
  using assms by (simp add: tx_pending.simps(2) record_partition_def in_partition_form_def Let_def)

lemma tx_pending_new:
  assumes "ber_ID r \<noteq> []" "0 < ber_TS r" "map_of (mbe_byID c) (ber_ID r) = None" "map_of byID (ber_ID r) = None"
    and "p = Partition_Normalize (record_partition r)" "offset = wrap64 (gm_get 0 (mbe_tails c) p + gm_get 0 counts p + 1)"
  shows "tx_pending jr c counts byID head (r # rs) =
    (case EncodeBrokerEventRecord jr ((in_partition_form r)\<lparr>ber_PartitionOffset := offset\<rparr>) of
       Inl e \<Rightarrow> Inl e
     | Inr data \<Rightarrow>
         (case tx_pending jr c (gm_set p (wrap64 (gm_get 0 counts p + 1)) counts)
                 (gm_set (ber_ID r) (new_pending p offset (wrap64 (head + 1)) (in_partition_form r) data) byID) (wrap64 (head + 1)) rs of
            Inl e \<Rightarrow> Inl e
          | Inr out \<Rightarrow> Inr (new_pending p offset (wrap64 (head + 1)) (in_partition_form r) data # out)))"
  using assms(1-4) unfolding assms(5, 6)
  by (simp add: tx_pending.simps(2) record_partition_def in_partition_form_def new_pending_def Let_def cong: sum.case_cong)

lemma aligned_store:
  assumes "tx_aligned c0 counts byID head (r # rs) c" "distinct (map ber_ID (r # rs))"
    and "offset = wrap64 (gm_get 0 (mbe_tails c0) p + gm_get 0 counts p + 1)"
    and "pending = new_pending p offset (wrap64 (head + 1)) (in_partition_form r) data"
  shows "tx_aligned c0 (gm_set p (wrap64 (gm_get 0 counts p + 1)) counts) (gm_set (ber_ID r) pending byID) (wrap64 (head + 1)) rs
    (tx_apply c pending)"
proof -
  have "wrap64 (wrap64 (a + b + 1) + 1) = wrap64 (a + wrap64 (b + 1) + 1)" for a b :: int
    using wrap64_add(1)[of "a + b + 1" 1] wrap64_add(2)[of "a + 1" "b + 1"] by (simp add: algebra_simps)
  then show ?thesis
    using assms(1, 2) unfolding assms(3, 4) tx_aligned_def by (auto simp: tx_apply_def new_pending_def Let_def) (metis rev_image_eqI)
qed

lemma tx_pending_sequential:
  assumes "distinct (map ber_ID rs)" "list_all tx_requested rs" "tx_aligned c0 counts byID head rs c"
  shows "case tx_pending jr c0 counts byID head rs of
      Inl e \<Rightarrow> isl (fst (append_all jr c rs))
    | Inr pending \<Rightarrow> append_all jr c rs = (Inr (map (CloneBrokerMessage \<circ> mp_message) pending), foldl tx_apply c pending)"
  using assms
proof (induction rs arbitrary: counts byID head c)
  case (Cons r rs)
  let ?p = "Partition_Normalize (record_partition r)" and ?r = "in_partition_form r"
  have req: "tx_requested ?r" "ber_ID r \<noteq> []" "0 < ber_TS r" using Cons.prems(2) by (simp_all add: tx_requested_def)
  have append: "mbe_append jr c (record_partition r) r =
      (case map_of (mbe_byID c0) (ber_ID r) of Some m \<Rightarrow> (mbe_duplicate jr ?p ?r m, c) | None \<Rightarrow> mbe_store jr c ?p ?r)"
    using Cons.prems(3) req(2) by (simp add: mbe_append_def in_partition_form_def tx_aligned_def Let_def cong: option.case_cong)
  have absent: "map_of byID (ber_ID r) = None" and head: "mbe_head c = head"
    and tails: "wrap64 (gm_get 0 (mbe_tails c) ?p + 1) = wrap64 (gm_get 0 (mbe_tails c0) ?p + gm_get 0 counts ?p + 1)"
    using Cons.prems(3) by (simp_all add: tx_aligned_def)
  have rest: "tx_aligned c0 counts byID head rs c" "distinct (map ber_ID rs)" "list_all tx_requested rs"
    using Cons.prems by (simp_all add: tx_aligned_def)
  show ?case
  proof (cases "map_of (mbe_byID c0) (ber_ID r)")
    case (Some m)
    show ?thesis
    proof (cases rule: tx_duplicate_cases[of jr ?p ?r m])
      case (bad e e')
      then show ?thesis using tx_pending_known[OF req(2, 3) Some] Some by (simp add: append)
    next
      case same
      then show ?thesis using Some tx_pending_known[OF req(2, 3) Some] Cons.IH[OF rest(2, 3, 1)]
        by (auto simp: append tx_apply_def split: sum.splits prod.splits)
    qed
  next
    case None
    let ?n = "wrap64 (gm_get 0 (mbe_tails c0) ?p + gm_get 0 counts ?p + 1)"
    note new = tx_pending_new[OF req(2, 3) None absent refl refl]
    show ?thesis
    proof (cases "EncodeBrokerEventRecord jr (?r\<lparr>ber_PartitionOffset := ?n\<rparr>)")
      case (Inl e)
      then show ?thesis using None new store_pending[OF req(1), of ?p jr c] by (simp add: append tails)
    next
      case (Inr data)
      define pending where "pending = new_pending ?p ?n (wrap64 (head + 1)) ?r data"
      have clone: "CloneBrokerMessage (mp_message pending) = mp_message pending"
        by (simp add: pending_def new_pending_def CloneBrokerMessage_def)
      have store: "mbe_store jr c ?p ?r = (Inr (mp_message pending), tx_apply c pending)"
        using store_pending[OF req(1), of ?p jr c] Inr by (simp add: tails head pending_def)
      have "tx_pending jr c0 counts byID head (r # rs) =
          (case tx_pending jr c0 (gm_set ?p (wrap64 (gm_get 0 counts ?p + 1)) counts) (gm_set (ber_ID r) pending byID) (wrap64 (head + 1)) rs of
             Inl e \<Rightarrow> Inl e | Inr out \<Rightarrow> Inr (pending # out))"
        unfolding pending_def using new Inr by simp
      moreover note Cons.IH[OF rest(2, 3) aligned_store[OF Cons.prems(3, 1) refl pending_def]]
      ultimately show ?thesis using None store clone by (auto simp: append split: sum.splits prod.splits)
    qed
  qed
qed simp

section \<open>The commits of a transaction\<close>

lemma Validate_normal: "CommitPosition_Validate (CommitPosition_Normalize c) = CommitPosition_Validate c"
  by (simp add: CommitPosition_Validate_def)

lemma tx_commands_iff:
  "tx_commands i cs = Inr out \<longleftrightarrow> list_all (\<lambda>c. CommitPosition_Validate c = None) cs \<and> out = map CommitPosition_Normalize cs"
proof (induction cs arbitrary: i out)
  case (Cons c cs)
  show ?case
    using Cons.IH[of "Suc i"]
    by (cases "tx_commands (Suc i) cs") (auto simp: Validate_normal Let_def split: option.splits)
qed auto

lemma tx_beyond_tail_iff:
  "tx_beyond_tail c i cs = None \<longleftrightarrow> list_all (\<lambda>x. cp_Offset x \<le> gm_get 0 (mbc_tails c) (cp_Partition x)) cs"
  by (induction cs arbitrary: i) (auto simp: Let_def)

definition committable :: "memory_broker_commands \<Rightarrow> commit_position \<Rightarrow> bool" where
  "committable c x \<longleftrightarrow> CommitPosition_Validate x = None \<and> cp_Offset x \<le> gm_get 0 (mbc_tails c) (Partition_Normalize (cp_Partition x))"

definition commit_all :: "memory_broker_commands \<Rightarrow> commit_position list \<Rightarrow> memory_broker_commands" where
  "commit_all c xs = foldl (\<lambda>c x. mbc_commit c (cp_Partition x) (cp_Offset x)) c xs"

text \<open>A commit position that covers a command.\<close>

definition covers :: "commit_position \<Rightarrow> commit_position \<Rightarrow> bool" where
  "covers x commit \<longleftrightarrow> cp_Partition commit = Partition_Normalize (cp_Partition x) \<and> cp_Offset x \<le> cp_Offset commit"

lemma Validate_offset: "CommitPosition_Validate x = None \<Longrightarrow> 0 < cp_Offset x"
  by (auto simp: CommitPosition_Validate_def CommitPosition_Normalize_def Let_def split: if_splits)

lemma tx_commit_eq:
  assumes "list_all (\<lambda>x. 0 < cp_Offset x) xs"
  shows "snd (tx_commit c (map CommitPosition_Normalize xs)) = commit_all c xs \<and>
    list_all2 covers xs (fst (tx_commit c (map CommitPosition_Normalize xs)))"
  using assms
proof (induction xs arbitrary: c)
  case (Cons x xs)
  let ?c = "mbc_commit c (cp_Partition x) (cp_Offset x)"
  have "(if cp_Offset x > gm_get 0 (mbc_committed c) (Partition_Normalize (cp_Partition x))
      then c\<lparr>mbc_committed := gm_set (Partition_Normalize (cp_Partition x)) (cp_Offset x) (mbc_committed c)\<rparr> else c) = ?c"
    using Cons.prems by (simp add: mbc_commit_def Let_def)
  moreover have "cp_Offset x \<le> gm_get 0 (mbc_committed ?c) (Partition_Normalize (cp_Partition x))"
    using Cons.prems by (simp add: mbc_commit_def Let_def)
  ultimately show ?case
    using Cons.IH[of ?c] Cons.prems
    by (auto simp: CommitPosition_Normalize_def covers_def commit_all_def Let_def split: prod.splits)
qed (simp add: commit_all_def)

lemma committable_split:
  "list_all (committable c) xs \<longleftrightarrow> list_all (\<lambda>x. CommitPosition_Validate x = None) xs \<and>
     tx_beyond_tail c i (map CommitPosition_Normalize xs) = None"
  by (auto simp: tx_beyond_tail_iff list_all_iff committable_def CommitPosition_Normalize_def)

lemma committable_pos: "list_all (committable c) xs \<Longrightarrow> list_all (\<lambda>x. 0 < cp_Offset x) xs"
  using Validate_offset by (auto simp: list_all_iff committable_def)

text \<open>The client in one equation: nothing happens unless every command can be committed and every event appended.\<close>

lemma transaction_eq:
  assumes "distinct (map ber_ID rs)" "list_all tx_requested rs"
  shows "\<exists>e. MemoryTransactions_AppendEventsAndCommitCommands jr None xs rs \<lparr>mt_commands = Some cc, mt_events = Some ce\<rparr> =
    (case (list_all (committable cc) xs, append_all jr ce rs) of
       (True, (Inr msgs, ce')) \<Rightarrow>
         (Inr \<lparr>tbr_Messages = msgs, tbr_Commits = fst (tx_commit cc (map CommitPosition_Normalize xs))\<rparr>,
          \<lparr>mt_commands = Some (commit_all cc xs), mt_events = Some ce'\<rparr>)
     | _ \<Rightarrow> (Inl e, \<lparr>mt_commands = Some cc, mt_events = Some ce\<rparr>))"
proof (cases "list_all (committable cc) xs")
  case False
  then have beyond: "tx_commands 0 xs = Inr out \<Longrightarrow> \<exists>e. tx_beyond_tail cc 0 out = Some e" for out
    by (auto simp: tx_commands_iff committable_split[of cc xs 0])
  show ?thesis
  proof (cases "tx_commands 0 xs")
    case (Inr out)
    then show ?thesis using False beyond[OF Inr] by (auto simp: MemoryTransactions_AppendEventsAndCommitCommands_def)
  qed (use False in \<open>simp add: MemoryTransactions_AppendEventsAndCommitCommands_def\<close>)
next
  case True
  then have cmds: "tx_commands 0 xs = Inr (map CommitPosition_Normalize xs)" "tx_beyond_tail cc 0 (map CommitPosition_Normalize xs) = None"
    by (simp_all add: tx_commands_iff committable_split[of cc xs 0])
  have "tx_aligned ce [] [] (mbe_head ce) rs ce" by (simp add: tx_aligned_def)
  note seq = tx_pending_sequential[OF assms this, of jr]
  show ?thesis
  proof (cases "tx_pending jr ce [] [] (mbe_head ce) rs")
    case (Inl e)
    then show ?thesis
      using seq True cmds
      by (cases "append_all jr ce rs"; cases "fst (append_all jr ce rs)")
        (auto simp: MemoryTransactions_AppendEventsAndCommitCommands_def)
  next
    case (Inr pending)
    then show ?thesis
      using seq True cmds tx_commit_eq[OF committable_pos[OF True], of cc]
      by (auto simp: MemoryTransactions_AppendEventsAndCommitCommands_def split: prod.split)
  qed
qed

lemma transaction_one:
  assumes "distinct (map ber_ID rs)" "list_all tx_requested rs"
  shows "\<exists>e. MemoryTransactions_AppendEventsAndCommitCommand jr None x rs \<lparr>mt_commands = Some cc, mt_events = Some ce\<rparr> =
    (case (committable cc x, append_all jr ce rs) of
       (True, (Inr msgs, ce')) \<Rightarrow>
         (Inr \<lparr>tcr_Messages = msgs, tcr_CommittedPartition = Partition_Normalize (cp_Partition x),
               tcr_CommittedOffset = mbc_committedOffset (commit_all cc [x]) (cp_Partition x)\<rparr>,
          \<lparr>mt_commands = Some (commit_all cc [x]), mt_events = Some ce'\<rparr>)
     | _ \<Rightarrow> (Inl e, \<lparr>mt_commands = Some cc, mt_events = Some ce\<rparr>))"
proof -
  have commits: "fst (tx_commit cc [CommitPosition_Normalize x]) =
      [\<lparr>cp_Partition = Partition_Normalize (cp_Partition x), cp_Offset = mbc_committedOffset (commit_all cc [x]) (cp_Partition x),
        cp_SourcePosition = cp_SourcePosition (CommitPosition_Normalize x)\<rparr>]" if "committable cc x"
  proof -
    have "0 < cp_Offset x" using that Validate_offset by (auto simp: committable_def)
    then show ?thesis by (simp add: CommitPosition_Normalize_def commit_all_def mbc_commit_def mbc_committedOffset_def Let_def)
  qed
  obtain e where "MemoryTransactions_AppendEventsAndCommitCommands jr None [x] rs \<lparr>mt_commands = Some cc, mt_events = Some ce\<rparr> =
    (case (list_all (committable cc) [x], append_all jr ce rs) of
       (True, (Inr msgs, ce')) \<Rightarrow>
         (Inr \<lparr>tbr_Messages = msgs, tbr_Commits = fst (tx_commit cc (map CommitPosition_Normalize [x]))\<rparr>,
          \<lparr>mt_commands = Some (commit_all cc [x]), mt_events = Some ce'\<rparr>)
     | _ \<Rightarrow> (Inl e, \<lparr>mt_commands = Some cc, mt_events = Some ce\<rparr>))"
    using transaction_eq[OF assms] by blast
  then show ?thesis
    using commits by (cases "committable cc x") (auto simp: MemoryTransactions_AppendEventsAndCommitCommand_def split: sum.splits prod.splits)
qed

section \<open>What the store accepts\<close>

lemma decode_event_message:
  assumes "DecodeBrokerEventMessage jc jr msg = Inr e" "DecodeBrokerEventRecord jr (bm_Data msg) = Inr r"
  shows "ev_ID e = ber_ID r" "ev_Kind e = ber_Kind r" "ev_TS e = ber_TS r" "ev_Scopes e = ber_Scopes r"
    "event_partition e = record_partition r" "Partition_Normalize (event_partition e) = event_partition e"
    "ev_PartitionOffset e = ber_PartitionOffset r" "0 < ev_PartitionOffset e" "jc_UnmarshalPayload jc (ber_Kind r) (ber_Payload r) = Inr (ev_Payload e)"
proof -
  have ok: "event_record_ok r"
    using assms(2) by (auto simp: DecodeBrokerEventRecord_def normalizeEvent_iff split: sum.splits)
  note normal = event_ok_normal[OF ok]
  obtain payload where "jc_UnmarshalPayload jc (ber_Kind r) (ber_Payload r) = Inr payload"
    "e = \<lparr>ev_ID = ber_ID r, ev_Kind = ber_Kind r, ev_Seq = BrokerEventSequence r msg, ev_ESeq = 0,
          ev_Payload = payload, ev_TS = ber_TS r, ev_PartitionKind = ber_PartitionKind r, ev_PartitionKey = ber_PartitionKey r,
          ev_PartitionOffset = ber_PartitionOffset r, ev_Scopes = ber_Scopes r\<rparr>"
    using assms normal[unfolded record_partition_def]
    by (auto simp: DecodeBrokerEventMessage_def record_partition_def Let_def split: if_splits sum.splits)
  then show "ev_ID e = ber_ID r" "ev_Kind e = ber_Kind r" "ev_TS e = ber_TS r" "ev_Scopes e = ber_Scopes r"
    "event_partition e = record_partition r" "Partition_Normalize (event_partition e) = event_partition e"
    "ev_PartitionOffset e = ber_PartitionOffset r" "0 < ev_PartitionOffset e" "jc_UnmarshalPayload jc (ber_Kind r) (ber_Payload r) = Inr (ev_Payload e)"
    using ok normal by (simp_all add: event_partition_def record_partition_def event_record_ok_def)
qed

text \<open>The event \<open>e\<close> is the one that the record \<open>r\<close> asks for.\<close>

definition answers :: "'p json_codec \<Rightarrow> broker_event_record \<Rightarrow> 'p event \<Rightarrow> bool" where
  "answers jc r e \<longleftrightarrow> ev_ID e = ber_ID r \<and> ev_Kind e = ber_Kind r \<and> ev_TS e = ber_TS r \<and> ev_Scopes e = ber_Scopes r \<and>
     event_partition e = record_partition r \<and> jc_UnmarshalPayload jc (ber_Kind r) (ber_Payload r) = Inr (ev_Payload e)"

lemma transaction_identity:
  assumes "SameBrokerEventTransactionResultIdentity a b"
  shows "ber_ID a = ber_ID b" "ber_Kind a = ber_Kind b" "ber_TS a = ber_TS b" "ber_Scopes a = ber_Scopes b" "ber_Payload a = ber_Payload b"
    "record_partition a = record_partition b"
proof -
  obtain n where "SameBrokerEventRecordIdentity a (b\<lparr>ber_CompatibilitySeq := n\<rparr>)"
  proof (cases "0 < ber_CompatibilitySeq b")
    case True
    then show ?thesis using assms that[of "ber_CompatibilitySeq b"] by (simp add: SameBrokerEventTransactionResultIdentity_def)
  next
    case False
    then show ?thesis using assms that by (simp add: SameBrokerEventTransactionResultIdentity_def)
  qed
  then have "a\<lparr>ber_Version := 0, ber_PartitionOffset := 0\<rparr> = b\<lparr>ber_Version := 0, ber_PartitionOffset := 0, ber_CompatibilitySeq := n\<rparr>"
    by (simp add: SameBrokerEventRecordIdentity_iff)
  then show "ber_ID a = ber_ID b" "ber_Kind a = ber_Kind b" "ber_TS a = ber_TS b" "ber_Scopes a = ber_Scopes b" "ber_Payload a = ber_Payload b"
    "record_partition a = record_partition b"
    by (cases a; cases b; simp add: record_partition_def)+
qed

lemma tx_messages_Cons:
  "tx_messages jc jr allow i lastSeq offsets ((msg, r) # rest) = Inr evs \<longleftrightarrow>
     (\<exists>r' e out. DecodeBrokerEventRecord jr (bm_Data msg) = Inr r' \<and> SameBrokerEventTransactionResultIdentity r' r \<and>
        DecodeBrokerEventMessage jc jr msg = Inr e \<and> (0 < ev_Seq e \<or> allow) \<and> (0 < ev_Seq e \<longrightarrow> 0 < lastSeq \<longrightarrow> lastSeq < ev_Seq e) \<and>
        (0 < gm_get 0 offsets (event_partition e) \<longrightarrow> gm_get 0 offsets (event_partition e) < ev_PartitionOffset e) \<and>
        tx_messages jc jr allow (Suc i) (if ev_Seq e > 0 then ev_Seq e else lastSeq)
          (gm_set (event_partition e) (ev_PartitionOffset e) offsets) rest = Inr out \<and> evs = e # out)"
proof (cases "DecodeBrokerEventRecord jr (bm_Data msg)")
  case (Inr r')
  show ?thesis
  proof (cases "DecodeBrokerEventMessage jc jr msg")
    case (Inr e)
    note normal = decode_event_message(6)[OF Inr \<open>DecodeBrokerEventRecord jr (bm_Data msg) = Inr r'\<close>]
    show ?thesis
      using Inr \<open>DecodeBrokerEventRecord jr (bm_Data msg) = Inr r'\<close> normal
      by (auto simp: Let_def event_partition_def not_le not_less split: if_splits sum.splits)
  qed (use Inr in simp)
qed simp

lemma tx_messages_sound:
  assumes "length msgs = length rs" "tx_messages jc jr allow i lastSeq offsets (zip msgs rs) = Inr evs" "0 \<le> lastSeq" "\<And>p. 0 \<le> gm_get 0 offsets p"
  shows "list_all2 (answers jc) rs evs \<and> (allow \<or> sorted_wrt (<) (lastSeq # map ev_Seq evs)) \<and>
    (\<forall>p. sorted_wrt (<) (gm_get 0 offsets p # map ev_PartitionOffset (filter (\<lambda>e. event_partition e = p) evs)))"
  using assms
proof (induction msgs rs arbitrary: i lastSeq offsets evs rule: list_induct2)
  case (Cons msg msgs r rs)
  obtain r' e out where e: "DecodeBrokerEventRecord jr (bm_Data msg) = Inr r'" "SameBrokerEventTransactionResultIdentity r' r"
      "DecodeBrokerEventMessage jc jr msg = Inr e" "0 < ev_Seq e \<or> allow" "0 < ev_Seq e \<longrightarrow> 0 < lastSeq \<longrightarrow> lastSeq < ev_Seq e"
      "0 < gm_get 0 offsets (event_partition e) \<longrightarrow> gm_get 0 offsets (event_partition e) < ev_PartitionOffset e"
      "tx_messages jc jr allow (Suc i) (if ev_Seq e > 0 then ev_Seq e else lastSeq)
         (gm_set (event_partition e) (ev_PartitionOffset e) offsets) (zip msgs rs) = Inr out" "evs = e # out"
    using Cons.prems(1) unfolding zip_Cons_Cons tx_messages_Cons by blast
  note decoded = decode_event_message[OF e(3, 1)]
  have "answers jc r e" using decoded transaction_identity[OF e(2)] by (simp add: answers_def)
  moreover note IH = Cons.IH[OF e(7)]
  have IH: "list_all2 (answers jc) rs out"
      "allow \<or> sorted_wrt (<) ((if ev_Seq e > 0 then ev_Seq e else lastSeq) # map ev_Seq out)"
      "\<And>p. sorted_wrt (<) (gm_get 0 (gm_set (event_partition e) (ev_PartitionOffset e) offsets) p #
          map ev_PartitionOffset (filter (\<lambda>e. event_partition e = p) out))"
    using IH Cons.prems(2, 3) decoded(8) by auto
  moreover have "allow \<or> sorted_wrt (<) (lastSeq # map ev_Seq (e # out))"
    using IH(2) e(4, 5) Cons.prems(2) by fastforce
  moreover have "sorted_wrt (<) (gm_get 0 offsets p # map ev_PartitionOffset (filter (\<lambda>e. event_partition e = p) (e # out)))" for p
    using IH(3)[of p] e(6) decoded(8) Cons.prems(3)[of p] by (cases "event_partition e = p") fastforce+
  ultimately show ?case using e(8) by auto
qed simp

lemma tx_records_iff:
  "tx_records jc events = Inr rs \<longleftrightarrow> list_all2 (\<lambda>event r. brokerEventTransactionRecord jc event = Inr r) events rs"
proof (induction events arbitrary: rs)
  case (Cons event events)
  then show ?case by (cases "tx_records jc events") (auto simp: list_all2_Cons1 split: sum.splits)
qed auto

text \<open>The event \<open>e\<close> is the one that the append \<open>event\<close> asks for.\<close>

definition requested_event :: "'p json_codec \<Rightarrow> 'p event_append \<Rightarrow> 'p event \<Rightarrow> bool" where
  "requested_event jc event e \<longleftrightarrow> ev_ID e = TrimSpace (ea_ID event) \<and> ev_Kind e = ea_Kind event \<and> ev_TS e = ea_TS event \<and>
     ev_Scopes e = ea_Scopes event \<and> event_partition e = append_partition event \<and>
     cloneEventPayload jc (ea_Kind event) (ea_Payload event) = Inr (ev_Payload e)"

lemma brokerEventTransactionRecord_iff:
  "brokerEventTransactionRecord jc event = Inr r \<longleftrightarrow> TrimSpace (ea_ID event) \<noteq> [] \<and> 0 < ea_TS event \<and>
     (\<exists>raw y. jc_Marshal jc (ea_Payload event) = Inr raw \<and> jc_UnmarshalPayload jc (ea_Kind event) raw = Inr y \<and>
        r = (append_record 0 [] event raw)\<lparr>ber_PartitionOffset := 0\<rparr>)"
  unfolding brokerEventTransactionRecord_def append_record_def EventAppendTimestamp_def
  by (auto simp: Let_def split: sum.splits)

lemma tx_record_answers:
  assumes "brokerEventTransactionRecord jc event = Inr r" "answers jc (tx_normal r) e"
  shows "requested_event jc event e"
proof -
  obtain raw where raw: "0 < ea_TS event" "TrimSpace (ea_ID event) \<noteq> []" "jc_Marshal jc (ea_Payload event) = Inr raw"
      "r = (append_record 0 [] event raw)\<lparr>ber_PartitionOffset := 0\<rparr>"
    using assms(1) by (auto simp: brokerEventTransactionRecord_iff)
  then have "ea_ID event \<noteq> []" by auto
  then show ?thesis
    using assms(2) raw
    by (simp add: answers_def requested_event_def tx_normal_def append_record_def cloneEventPayload_def record_partition_def EventAppendTimestamp_def)
qed

lemma Commit_cases:
  assumes "CommitCommandEvents jc jr allow client ctx tx s = (Inr res, s')"
  obtains c rs committed events where "ctx = None" "client = Some c" "CommitPosition_Validate (tx_command tx) = None" "tx_records jc (cet_Events tx) = Inr rs"
    "NormalizeBrokerEventTransactionRecords jr rs ''one transaction'' = Inr (map tx_normal rs)"
    "distinct (map (\<lambda>r. TrimSpace (ber_ID r)) rs)" "list_all (tx_acceptable jr) rs"
    "tc_AppendEventsAndCommitCommand c None (tx_command tx) (map tx_normal rs) s = (Inr committed, s')"
    "Partition_Normalize (tcr_CommittedPartition committed) = Partition_Normalize (cet_CommandPartition tx)"
    "cet_CommandOffset tx \<le> tcr_CommittedOffset committed"
    "validateBrokerCommandEventTransactionMessages jc jr allow (map tx_normal rs) (tcr_Messages committed) = Inr events"
    "res = \<lparr>cer_Events = map Some events, cer_CommittedPartition = Partition_Normalize (cet_CommandPartition tx),
       cer_CommittedOffset = tcr_CommittedOffset committed\<rparr>"
proof -
  have "cp_Partition (tx_command tx) = Partition_Normalize (cet_CommandPartition tx)" "cp_Offset (tx_command tx) = cet_CommandOffset tx"
    by (simp_all add: tx_command_def CommitPosition_Normalize_def)
  then show ?thesis
    using assms that unfolding CommitCommandEvents_def
    by (auto simp: Let_def NormalizeBrokerEventTransactionRecords_def normalize_tx_loop_iff split: option.splits sum.splits prod.splits if_splits)
qed

lemma Commit_sound:
  assumes "CommitCommandEvents jc jr allow client ctx tx s = (Inr res, s')"
  shows "\<exists>events. cer_Events res = map Some events \<and> list_all2 (requested_event jc) (cet_Events tx) events \<and>
    (allow \<or> sorted_wrt (<) (0 # map ev_Seq events)) \<and>
    (\<forall>p. sorted_wrt (<) (0 # map ev_PartitionOffset (filter (\<lambda>e. event_partition e = p) events))) \<and>
    cer_CommittedPartition res = Partition_Normalize (cet_CommandPartition tx) \<and> cet_CommandOffset tx \<le> cer_CommittedOffset res"
  using assms
proof (cases rule: Commit_cases)
  case (1 c rs committed events)
  have len: "length (tcr_Messages committed) = length (map tx_normal rs)"
    "tx_messages jc jr allow 0 0 [] (zip (tcr_Messages committed) (map tx_normal rs)) = Inr events"
    using 1(11) by (auto simp: validateBrokerCommandEventTransactionMessages_def split: if_splits)
  note sound = tx_messages_sound[OF len]
  have "list_all2 (\<lambda>event r. brokerEventTransactionRecord jc event = Inr r) (cet_Events tx) rs" using 1(4) by (simp add: tx_records_iff)
  moreover have "list_all2 (\<lambda>r e. answers jc (tx_normal r) e) rs events" using sound by (simp add: list_all2_map1)
  ultimately have "list_all2 (requested_event jc) (cet_Events tx) events"
    by (rule list_all2_trans[rotated]) (rule tx_record_answers)
  then show ?thesis using 1(10, 12) sound by (intro exI[of _ events]) auto
qed

section \<open>The interface of a transaction store\<close>

text \<open>What the finalizers rely on: a result has the requested number of events and commits the command it was given.\<close>

definition settled_by ::
  "('p, 's) transaction_finalizer \<Rightarrow> (ctx \<Rightarrow> 'p command_event_transaction \<Rightarrow> 's \<Rightarrow> (go_error + 'p command_event_transaction_result) \<times> 's) \<Rightarrow>
     ctx \<Rightarrow> command_log_record \<Rightarrow> reply \<Rightarrow> 's \<Rightarrow> 'p event_append list \<Rightarrow> 'p command_event_transaction_result \<Rightarrow> 's \<Rightarrow> bool" where
  "settled_by f commit ctx rec rp s events res s2 \<longleftrightarrow>
     (case rp_Err rp of
        Some d \<Rightarrow> \<not> ed_Retryable d \<and> events = [] \<and> commit ctx (record_transaction rec events) s = (Inr res, s2)
      | None \<Rightarrow> (\<exists>decide s1. tf_Events f = Some decide \<and> decide ctx rec rp s = (Inr events, s1) \<and>
                  commit ctx (record_transaction rec events) s1 = (Inr res, s2)))"

definition retryable_reply :: "reply \<Rightarrow> bool" where
  "retryable_reply rp \<longleftrightarrow> (\<exists>d. rp_Err rp = Some d \<and> ed_Retryable d)"

locale transaction_store =
  fixes commit :: "ctx \<Rightarrow> 'p command_event_transaction \<Rightarrow> 's \<Rightarrow> (go_error + 'p command_event_transaction_result) \<times> 's"
  assumes events: "commit ctx tx s = (Inr res, s') \<Longrightarrow> length (cer_Events res) = length (cet_Events tx)"
    and committed: "commit ctx tx s = (Inr res, s') \<Longrightarrow>
      cer_CommittedPartition res = Partition_Normalize (cet_CommandPartition tx) \<and> cet_CommandOffset tx \<le> cer_CommittedOffset res"
begin

lemma normal_not_zero: "Partition_Normalize p \<noteq> zero_partition"
  by (auto simp: Partition_Normalize_def zero_partition_def PartitionGlobal_def split: if_splits)

lemma validated: "commit ctx (record_transaction rec events) s = (Inr res, s') \<Longrightarrow> validateCommandEventTransactionCommit rec res = None"
  using committed[of ctx "record_transaction rec events" s res s'] normal_not_zero[of "clr_Partition rec"]
  by (simp add: validateCommandEventTransactionCommit_def Let_def)

lemma commit_transaction_eq: "commit_transaction commit ctx rec events s = commit ctx (record_transaction rec events) s"
  using validated by (auto simp: commit_transaction_def split: sum.splits prod.splits)

text \<open>What a committed record went through: its events were decided and its transaction was accepted.\<close>

lemma record_outcome:
  assumes "tf_Transactions f = Some commit" "FinalizeCommandLogRecord f ctx rec rp s = ((result, err), s')"
  shows "fr_Committed result \<longleftrightarrow> (\<exists>events res s2. settled_by f commit ctx rec rp s events res s2)"
    "fr_Committed result \<Longrightarrow> fr_Applied result + fr_TerminalFailures result = 1"
    "\<not> fr_Committed result \<Longrightarrow> err = None \<Longrightarrow> \<exists>d. rp_Err rp = Some d \<and> ed_Retryable d"
    "rp_Err rp = Some d \<Longrightarrow> ed_Retryable d \<Longrightarrow> fr_RetryableFailure result = Some d \<and> s' = snd (call_recorder (rec_retryable (tf_Recorders f)) rec d s)"
proof -
  have "(fr_Committed result \<longleftrightarrow> (\<exists>events res s2. settled_by f commit ctx rec rp s events res s2)) \<and>
    (fr_Committed result \<longrightarrow> fr_Applied result + fr_TerminalFailures result = 1) \<and>
    (\<not> fr_Committed result \<longrightarrow> err = None \<longrightarrow> (\<exists>d. rp_Err rp = Some d \<and> ed_Retryable d)) \<and>
    (\<forall>d. rp_Err rp = Some d \<longrightarrow> ed_Retryable d \<longrightarrow>
       fr_RetryableFailure result = Some d \<and> s' = snd (call_recorder (rec_retryable (tf_Recorders f)) rec d s))"
  proof (cases "rp_Err rp")
    case (Some d)
    then show ?thesis
      using assms unfolding FinalizeCommandLogRecord_def settled_by_def
      by (cases "ed_Retryable d"; cases "commit ctx (record_transaction rec []) s"; cases "fst (commit ctx (record_transaction rec []) s)")
        (auto simp: zero_finalization_def commandLogTransactionCommitFailureResult_def commit_transaction_eq split: prod.splits)
  next
    case None
    then show ?thesis
    proof (cases "tf_Events f")
      case (Some decide)
      show ?thesis
      proof (cases "decide ctx rec rp s")
        case (Pair decided s1)
        show ?thesis
        proof (cases decided)
          case (Inr events)
          then show ?thesis
            using assms None Some Pair unfolding FinalizeCommandLogRecord_def settled_by_def
            by (cases "commit ctx (record_transaction rec events) s1"; cases "fst (commit ctx (record_transaction rec events) s1)")
              (auto simp: zero_finalization_def commandLogTransactionCommitFailureResult_def commit_transaction_eq Let_def split: prod.splits option.splits)
        qed (use assms None Some Pair in \<open>auto simp: FinalizeCommandLogRecord_def settled_by_def zero_finalization_def\<close>)
      qed
    qed (use assms in \<open>auto simp: FinalizeCommandLogRecord_def settled_by_def zero_finalization_def\<close>)
  qed
  then show "fr_Committed result \<longleftrightarrow> (\<exists>events res s2. settled_by f commit ctx rec rp s events res s2)"
    "fr_Committed result \<Longrightarrow> fr_Applied result + fr_TerminalFailures result = 1"
    "\<not> fr_Committed result \<Longrightarrow> err = None \<Longrightarrow> \<exists>d. rp_Err rp = Some d \<and> ed_Retryable d"
    "rp_Err rp = Some d \<Longrightarrow> ed_Retryable d \<Longrightarrow> fr_RetryableFailure result = Some d \<and> s' = snd (call_recorder (rec_retryable (tf_Recorders f)) rec d s)"
    by blast+
qed

lemma settled_covers:
  "settled_by f commit ctx rec rp s events res s2 \<Longrightarrow>
     cer_CommittedPartition res = Partition_Normalize (clr_Partition rec) \<and> clr_Offset rec \<le> cer_CommittedOffset res"
  using committed[of ctx "record_transaction rec events"] by (auto simp: settled_by_def split: option.splits)

text \<open>The event slices of a batch stay within the events of the result.\<close>

lemma record_batch_defined:
  "length committed = n + sum_list (map snd recs) \<Longrightarrow> fst (record_batch f committed n recs s) \<noteq> None"
proof (induction recs arbitrary: n s)
  case (Cons x recs)
  obtain rec rp k where x: "x = ((rec, rp), k)" by (metis surj_pair)
  have IH: "fst (record_batch f committed (n + k) recs s) \<noteq> None" for s
    using Cons.prems by (intro Cons.IH) (simp add: x)
  have "n + k \<le> length committed" using Cons.prems by (simp add: x)
  then show ?case
    using IH by (auto simp: x split: option.splits sum.splits prod.splits) (metis fst_conv option.distinct(1))+
qed simp

lemma decide_batch_length:
  "decide_batch f ctx recs result s = (Inr (decided, result'), s') \<Longrightarrow> length decided = length recs"
proof (induction recs arbitrary: decided result s)
  case (Cons x recs)
  then show ?case
    by (cases x) (auto split: option.splits if_splits prod.splits sum.splits)
qed simp

lemma decide_batch_result:
  "decide_batch f ctx recs result s = (Inr (decided, result'), s') \<Longrightarrow>
     fr_Applied result' = fr_Applied result + int (length (filter (\<lambda>x. rp_Err (snd x) = None) recs)) \<and>
     fr_TerminalFailures result' = fr_TerminalFailures result + int (length (filter (\<lambda>x. rp_Err (snd x) \<noteq> None) recs)) \<and>
     fr_Committed result' = fr_Committed result \<and> list_all (\<lambda>x. \<not> retryable_reply (snd x)) recs"
proof (induction recs arbitrary: decided result s)
  case (Cons x recs)
  obtain rec rp where x: "x = (rec, rp)" by (cases x)
  show ?case
  proof (cases "rp_Err rp")
    case None
    then obtain s1 d1 d2 where "decide_batch f ctx recs (result\<lparr>fr_Applied := fr_Applied result + 1\<rparr>) s1 = (Inr (d2, result'), s')" "decided = d1 # d2"
      using Cons.prems by (auto simp: x split: option.splits prod.splits sum.splits)
    from Cons.IH[OF this(1)] show ?thesis using None by (simp add: x retryable_reply_def)
  next
    case (Some d)
    then obtain d2 where "\<not> ed_Retryable d" "decide_batch f ctx recs
        (result\<lparr>fr_TerminalFailures := fr_TerminalFailures result + 1, fr_TerminalFailure := Some d\<rparr>) s = (Inr (d2, result'), s')"
      using Cons.prems by (auto simp: x split: if_splits prod.splits sum.splits)
    with Cons.IH[OF this(2)] show ?thesis using Some by (simp add: x retryable_reply_def)
  qed
qed simp

lemma commit_batch_outcome:
  assumes "commit_batch f commit ctx records replies decided r0 s = (Some (result, err), s')" "fr_Committed r0"
  shows "(fr_Committed result \<longrightarrow> result = r0 \<and> (\<exists>res s2. commit ctx (record_transaction (last records) (concat decided)) s = (Inr res, s2))) \<and>
    (\<not> fr_Committed result \<longrightarrow> err \<noteq> None)"
  using assms
  by (cases "commit ctx (record_transaction (last records) (concat decided)) s"; cases "fst (commit ctx (record_transaction (last records) (concat decided)) s)")
    (auto simp: commit_batch_def commit_transaction_eq commandLogTransactionCommitFailureResult_def zero_finalization_def
      split: prod.splits option.splits sum.splits)

lemma commit_batch_defined:
  assumes "length decided = length records" "length records = length replies"
  shows "fst (commit_batch f commit ctx records replies decided result s) \<noteq> None"
proof (cases "commit ctx (record_transaction (last records) (concat decided)) s")
  case (Pair res s')
  show ?thesis
  proof (cases res)
    case (Inr committed)
    have "map snd (zip (zip records replies) (map length decided)) = map length decided" using assms by simp
    then have "fst (record_batch f (cer_Events committed) 0 (zip (zip records replies) (map length decided)) s') \<noteq> None"
      using events[OF Pair[unfolded Inr]] by (intro record_batch_defined) (simp add: length_concat)
    then show ?thesis
      by (auto simp: commit_batch_def commit_transaction_eq Pair Inr split: option.splits sum.splits prod.splits)
  qed (simp add: commit_batch_def commit_transaction_eq Pair)
qed

lemma batch_defined:
  assumes "tf_Transactions f = Some commit"
  shows "fst (FinalizeCommandLogBatch f ctx records replies s) \<noteq> None"
proof -
  have "fst (case decide_batch f ctx (zip records replies) r0 s of
      (Inl e, s) \<Rightarrow> (Some (zero_finalization, Some e), s)
    | (Inr (decided, result), s) \<Rightarrow> commit_batch f commit ctx records replies decided result s) \<noteq> None"
    if "length records = length replies" for r0
  proof (cases "decide_batch f ctx (zip records replies) r0 s")
    case (Pair res s')
    then show ?thesis
    proof (cases res)
      case (Inr x)
      then show ?thesis
        using Pair that commit_batch_defined[of "fst x" records replies] decide_batch_length[of f ctx "zip records replies" r0 s "fst x" "snd x" s']
        by (cases x) simp
    qed simp
  qed
  then show ?thesis using assms by (simp add: FinalizeCommandLogBatch_def split: option.split)
qed

lemma batch_outcome:
  assumes "tf_Transactions f = Some commit" "FinalizeCommandLogBatch f ctx records replies s = (Some (result, err), s')"
  shows "if fr_Committed result
    then length replies = length records \<and> list_all (\<lambda>rp. \<not> retryable_reply rp) replies \<and> validateCommandEventTransactionBatch records = None \<and>
      fr_Applied result = int (length (filter (\<lambda>rp. rp_Err rp = None) replies)) \<and>
      fr_TerminalFailures result = int (length (filter (\<lambda>rp. rp_Err rp \<noteq> None) replies)) \<and>
      (\<exists>events s1 res s2. commit ctx (record_transaction (last records) events) s1 = (Inr res, s2))
    else err \<noteq> None \<or> records = []"
proof -
  let ?r0 = "zero_finalization\<lparr>fr_Committed := True\<rparr>"
  have zero: "\<not> fr_Committed zero_finalization" "fr_Applied zero_finalization = 0" "fr_TerminalFailures zero_finalization = 0"
    by (simp_all add: zero_finalization_def)
  show ?thesis
  proof (cases "records = [] \<or> length records \<noteq> length replies \<or> validateCommandEventTransactionBatch records \<noteq> None \<or>
      (tf_Events f = None \<and> list_ex (\<lambda>rp. rp_Err rp = None) replies)")
    case True
    then show ?thesis using assms zero(1) by (auto simp: FinalizeCommandLogBatch_def split: if_splits option.splits) metis+
  next
    case False
    then have same: "length replies = length records" and valid: "validateCommandEventTransactionBatch records = None" by auto
    have pairs: "map snd (zip records replies) = replies" using same by simp
    have batch: "FinalizeCommandLogBatch f ctx records replies s =
        (case decide_batch f ctx (zip records replies) ?r0 s of
           (Inl e, s) \<Rightarrow> (Some (zero_finalization, Some e), s)
         | (Inr (decided, result), s) \<Rightarrow> commit_batch f commit ctx records replies decided result s)"
      using False assms(1) unfolding FinalizeCommandLogBatch_def by auto
    show ?thesis
    proof (cases "decide_batch f ctx (zip records replies) ?r0 s")
      case (Pair dec s1)
      show ?thesis
      proof (cases dec)
        case (Inr x)
        obtain decided r1 where x: "x = (decided, r1)" by (cases x)
        note counts = decide_batch_result[OF Pair[unfolded Inr x]]
        have "length (filter (\<lambda>x. P (snd x)) (zip records replies)) = length (filter P replies)" for P
          using arg_cong[OF pairs, of "length \<circ> filter P"] by (simp add: filter_map comp_def del: map_snd_zip)
        moreover have "list_all (\<lambda>x. \<not> retryable_reply (snd x)) (zip records replies) \<longleftrightarrow> list_all (\<lambda>rp. \<not> retryable_reply rp) replies"
          using arg_cong[OF pairs, of "list_all (\<lambda>rp. \<not> retryable_reply rp)"] by (simp add: list.pred_map comp_def del: map_snd_zip)
        moreover have "commit_batch f commit ctx records replies decided r1 s1 = (Some (result, err), s')"
          using batch assms(2) Pair Inr x by simp
        ultimately show ?thesis
          using commit_batch_outcome[of f ctx records replies decided r1 s1 result err s'] counts zero same valid by auto
      qed (use batch assms(2) Pair zero(1) in simp)
    qed
  qed
qed

end

lemma Commit_store:
  assumes "CommitCommandEvents jc jr allow client ctx tx s = (Inr res, s')"
  shows "length (cer_Events res) = length (cet_Events tx)"
    "cer_CommittedPartition res = Partition_Normalize (cet_CommandPartition tx) \<and> cet_CommandOffset tx \<le> cer_CommittedOffset res"
  using Commit_sound[OF assms] by (auto simp: list_all2_lengthD)

interpretation broker_tx: transaction_store "CommitCommandEvents jc jr allow client"
  by unfold_locales (fact Commit_store)+

section \<open>Repeating a transaction\<close>

text \<open>The log \<open>c\<close> holds the record \<open>r\<close> in the message \<open>msg\<close>.\<close>

definition holds_record :: "broker_event_record json_record_codec \<Rightarrow> memory_broker_events \<Rightarrow> broker_event_record \<Rightarrow> broker_message \<Rightarrow> bool" where
  "holds_record jr c r msg \<longleftrightarrow> (\<exists>m r'. map_of (mbe_byID c) (ber_ID r) = Some m \<and> msg = CloneBrokerMessage m \<and>
     Partition_Normalize (bm_Partition m) = Partition_Normalize (record_partition r) \<and>
     DecodeBrokerEventRecord jr (bm_Data m) = Inr r' \<and> SameBrokerEventRecordIdentity r' (in_partition_form r))"

definition encodable :: "broker_event_record json_record_codec \<Rightarrow> (string \<Rightarrow> string) \<Rightarrow> broker_event_record \<Rightarrow> bool" where
  "encodable jr compact r \<longleftrightarrow> ber_Version r = BrokerEventRecordVersion \<and> jr_Valid jr (ber_Payload r) \<and>
     compact (ber_Payload r) = ber_Payload r \<and> list_all (jr_Text jr) (event_texts r)"

lemma mbe_append_form:
  "ber_ID r \<noteq> [] \<Longrightarrow> mbe_append jr c (record_partition r) r =
     (case map_of (mbe_byID c) (ber_ID r) of
        Some m \<Rightarrow> (mbe_duplicate jr (Partition_Normalize (record_partition r)) (in_partition_form r) m, c)
      | None \<Rightarrow> mbe_store jr c (Partition_Normalize (record_partition r)) (in_partition_form r))"
  by (simp add: mbe_append_def in_partition_form_def Let_def cong: option.case_cong)

lemma mbe_append_held:
  assumes "holds_record jr c r msg" "ber_ID r \<noteq> []"
  shows "mbe_append jr c (record_partition r) r = (Inr msg, c)"
  using assms by (auto simp: mbe_append_form holds_record_def mbe_duplicate_def)

lemma append_all_held:
  "list_all2 (holds_record jr c) rs msgs \<Longrightarrow> list_all (\<lambda>r. ber_ID r \<noteq> []) rs \<Longrightarrow> append_all jr c rs = (Inr msgs, c)"
  by (induction rule: list_all2_induct) (simp_all add: mbe_append_held)

lemma mbe_append_keeps:
  assumes "map_of (mbe_byID c) i = Some m" "mbe_append jr c p r = (res, c')"
  shows "map_of (mbe_byID c') i = Some m"
  using assms unfolding mbe_append_def mbe_store_def Let_def
  by (auto split: option.splits sum.splits if_splits)

lemma append_all_keeps:
  "map_of (mbe_byID c) i = Some m \<Longrightarrow> append_all jr c rs = (res, c') \<Longrightarrow> map_of (mbe_byID c') i = Some m"
proof (induction rs arbitrary: c res)
  case (Cons r rs)
  then show ?case
    by (auto split: prod.splits sum.splits dest: mbe_append_keeps)
qed simp

lemma encodable_form:
  assumes "event_codec_ok jr compact" "encodable jr compact r"
  shows "encodable jr compact (in_partition_form r)"
  using assms(2) codec_text_normal[OF assms(1)[unfolded event_codec_ok_def], of "record_partition r"]
  by (simp add: encodable_def in_partition_form_def event_texts_def record_partition_def)

lemma encode_decode:
  assumes "event_codec_ok jr compact" "encodable jr compact r" "EncodeBrokerEventRecord jr (r\<lparr>ber_PartitionOffset := n\<rparr>) = Inr data"
    and "Partition_Normalize (record_partition r) = record_partition r"
  shows "DecodeBrokerEventRecord jr data = Inr (r\<lparr>ber_PartitionOffset := n\<rparr>)"
proof -
  let ?r = "r\<lparr>ber_PartitionOffset := n\<rparr>"
  have "normalizeBrokerEventRecord ?r \<noteq> Inl e" for e
    using assms(2, 3) by (auto simp: EncodeBrokerEventRecord_def encodable_def BrokerEventRecordVersion_def)
  then obtain r' where r': "normalizeBrokerEventRecord ?r = Inr r'" by (cases "normalizeBrokerEventRecord ?r") auto
  have "r' = ?r" "event_record_ok ?r"
    using r'[unfolded normalizeEvent_iff] assms(4) by (auto simp: record_partition_def)
  moreover have "list_all (jr_Text jr) (event_texts ?r)" "jr_Valid jr (ber_Payload ?r)" "?r\<lparr>ber_Payload := compact (ber_Payload ?r)\<rparr> = ?r"
    using assms(2) by (simp_all add: encodable_def event_texts_def)
  ultimately obtain data' where "EncodeBrokerEventRecord jr ?r = Inr data'" "DecodeBrokerEventRecord jr data' = Inr ?r"
    using Encode_event[OF assms(1), of ?r] by metis
  then show ?thesis using assms(3) by simp
qed

lemma mbe_append_holds:
  assumes "event_codec_ok jr compact" "encodable jr compact r" "tx_requested r" "mbe_append jr c (record_partition r) r = (Inr msg, c')"
  shows "holds_record jr c' r msg"
proof (cases "map_of (mbe_byID c) (ber_ID r)")
  case (Some m)
  then have "mbe_duplicate jr (Partition_Normalize (record_partition r)) (in_partition_form r) m = Inr msg" "c' = c"
    using assms(3, 4) by (auto simp: mbe_append_form tx_requested_def)
  then show ?thesis using Some
    by (cases rule: tx_duplicate_cases[of jr "Partition_Normalize (record_partition r)" "in_partition_form r" m]) (auto simp: holds_record_def)
next
  case None
  let ?p = "Partition_Normalize (record_partition r)" and ?r = "in_partition_form r"
  have req: "tx_requested ?r" using assms(3) by (simp add: tx_requested_def)
  have form: "record_partition ?r = ?p" by (simp add: in_partition_form_def record_partition_def)
  let ?n = "wrap64 (gm_get 0 (mbe_tails c) ?p + 1)"
  have "mbe_store jr c ?p ?r = (Inr msg, c')" using None assms(3, 4) by (simp add: mbe_append_form tx_requested_def)
  then obtain data where data: "EncodeBrokerEventRecord jr (?r\<lparr>ber_PartitionOffset := ?n\<rparr>) = Inr data"
      "msg = mp_message (new_pending ?p ?n (wrap64 (mbe_head c + 1)) ?r data)" "c' = tx_apply c (new_pending ?p ?n (wrap64 (mbe_head c + 1)) ?r data)"
    unfolding store_pending[OF req Normalize_idem] by (auto split: sum.splits)
  have "DecodeBrokerEventRecord jr data = Inr (?r\<lparr>ber_PartitionOffset := ?n\<rparr>)"
    using encode_decode[OF assms(1) encodable_form[OF assms(1, 2)] data(1)] form by simp
  then show ?thesis
    unfolding holds_record_def data(2, 3)
    by (auto simp: new_pending_def tx_apply_def CloneBrokerMessage_def SameBrokerEventRecordIdentity_iff Let_def)
qed

lemma append_all_holds:
  assumes "event_codec_ok jr compact"
  shows "list_all (encodable jr compact) rs \<Longrightarrow> list_all tx_requested rs \<Longrightarrow> append_all jr c rs = (Inr msgs, c') \<Longrightarrow>
    list_all2 (holds_record jr c') rs msgs"
proof (induction rs arbitrary: c msgs)
  case (Cons r rs)
  obtain msg c1 out where step: "mbe_append jr c (record_partition r) r = (Inr msg, c1)" "append_all jr c1 rs = (Inr out, c')" "msgs = msg # out"
    using Cons.prems(3) by (auto split: prod.splits sum.splits)
  have "holds_record jr c1 r msg" using mbe_append_holds[OF assms _ _ step(1)] Cons.prems(1, 2) by simp
  then have "holds_record jr c' r msg" using append_all_keeps[OF _ step(2)] unfolding holds_record_def by blast
  then show ?case using Cons.IH[OF _ _ step(2)] Cons.prems(1, 2) step(3) by simp
qed simp

text \<open>Transactions over the reference client.\<close>

abbreviation memory_tx ::
  "'p json_codec \<Rightarrow> broker_event_record json_record_codec \<Rightarrow> bool \<Rightarrow> 'p command_event_transaction \<Rightarrow> memory_transactions \<Rightarrow>
     (go_error + 'p command_event_transaction_result) \<times> memory_transactions" where
  "memory_tx jc jr allow tx m \<equiv> CommitCommandEvents jc jr allow (Some (memory_tx_client jr)) None tx m"

lemma tx_normal_requested: "list_all (tx_acceptable jr) rs \<Longrightarrow> list_all tx_requested (map tx_normal rs)"
  by (auto simp: list_all_iff tx_acceptable_def tx_requested_def tx_normal_def)

lemma tx_normal_ids: "map ber_ID (map tx_normal rs) = map (\<lambda>r. TrimSpace (ber_ID r)) rs"
  by (simp add: tx_normal_def)

lemma Commit_state:
  "snd (CommitCommandEvents jc jr allow (Some c) None tx s) = s \<or>
   (\<exists>rs. list_all tx_requested rs \<and> distinct (map ber_ID rs) \<and>
      snd (CommitCommandEvents jc jr allow (Some c) None tx s) = snd (tc_AppendEventsAndCommitCommand c None (tx_command tx) rs s))"
proof (cases "CommitPosition_Validate (tx_command tx) = None \<and> \<not> isl (tx_records jc (cet_Events tx)) \<and>
    \<not> isl (NormalizeBrokerEventTransactionRecords jr (projr (tx_records jc (cet_Events tx))) ''one transaction'')")
  case True
  then obtain rs out where rs: "tx_records jc (cet_Events tx) = Inr rs" "NormalizeBrokerEventTransactionRecords jr rs ''one transaction'' = Inr out"
    by (metis sum.collapse(2) sum.sel(2))
  have "snd (CommitCommandEvents jc jr allow (Some c) None tx s) = snd (tc_AppendEventsAndCommitCommand c None (tx_command tx) out s)"
    using True rs by (auto simp: CommitCommandEvents_def Let_def split: sum.split prod.split)
  moreover have "out = map tx_normal rs" "list_all (tx_acceptable jr) rs" "distinct (map (\<lambda>r. TrimSpace (ber_ID r)) rs)"
    using rs(2) by (simp_all add: NormalizeBrokerEventTransactionRecords_def normalize_tx_loop_iff)
  then have "list_all tx_requested out" "distinct (map ber_ID out)"
    using tx_normal_requested[of jr rs] by (simp_all only: tx_normal_ids)
  ultimately show ?thesis by blast
next
  case False
  then show ?thesis by (auto simp: CommitCommandEvents_def Let_def split: option.split sum.splits)
qed

lemma append_all_result: "fst (append_all jr c rs) = Inr msgs \<Longrightarrow> append_all jr c rs = (Inr msgs, snd (append_all jr c rs))"
  by (metis prod.collapse)

lemma memory_tx_step:
  assumes "m = \<lparr>mt_commands = Some cc, mt_events = Some ce\<rparr>"
  obtains cc' ce' where "snd (memory_tx jc jr allow tx m) = \<lparr>mt_commands = Some cc', mt_events = Some ce'\<rparr>"
    "mbc_tails cc' = mbc_tails cc" "\<And>p. mbc_committedOffset cc p \<le> mbc_committedOffset cc' p"
    "\<And>i x. map_of (mbe_byID ce) i = Some x \<Longrightarrow> map_of (mbe_byID ce') i = Some x"
proof -
  consider "snd (memory_tx jc jr allow tx m) = m"
    | rs where "list_all tx_requested rs" "distinct (map ber_ID rs)"
        "snd (memory_tx jc jr allow tx m) = snd (MemoryTransactions_AppendEventsAndCommitCommand jr None (tx_command tx) rs m)"
    using Commit_state[of jc jr allow "memory_tx_client jr" tx m] by (auto simp: memory_tx_client_def)
  then show ?thesis
  proof cases
    case 1
    then show ?thesis using assms that[of cc ce] by simp
  next
    case (2 rs)
    let ?x = "tx_command tx"
    have grow: "mbc_tails (commit_all cc [?x]) = mbc_tails cc" "mbc_committedOffset cc p \<le> mbc_committedOffset (commit_all cc [?x]) p" for p
      by (simp_all add: commit_all_def mbc_commit_def mbc_committedOffset_def Let_def)
    obtain e where "MemoryTransactions_AppendEventsAndCommitCommand jr None ?x rs m =
        (case (committable cc ?x, append_all jr ce rs) of
           (True, (Inr msgs, ce')) \<Rightarrow>
             (Inr \<lparr>tcr_Messages = msgs, tcr_CommittedPartition = Partition_Normalize (cp_Partition ?x),
                   tcr_CommittedOffset = mbc_committedOffset (commit_all cc [?x]) (cp_Partition ?x)\<rparr>,
              \<lparr>mt_commands = Some (commit_all cc [?x]), mt_events = Some ce'\<rparr>)
         | _ \<Rightarrow> (Inl e, \<lparr>mt_commands = Some cc, mt_events = Some ce\<rparr>))"
      using transaction_one[OF 2(2, 1)] unfolding assms by blast
    then have "snd (memory_tx jc jr allow tx m) = m \<or>
        snd (memory_tx jc jr allow tx m) = \<lparr>mt_commands = Some (commit_all cc [?x]), mt_events = Some (snd (append_all jr ce rs))\<rparr>"
      using 2(3) assms by (cases "committable cc ?x"; cases "append_all jr ce rs"; cases "fst (append_all jr ce rs)") simp_all
    then show ?thesis
    proof
      assume "snd (memory_tx jc jr allow tx m) = m"
      then show ?thesis using assms that[of cc ce] by simp
    next
      assume "snd (memory_tx jc jr allow tx m) = \<lparr>mt_commands = Some (commit_all cc [?x]), mt_events = Some (snd (append_all jr ce rs))\<rparr>"
      then show ?thesis by (rule that[OF _ grow]) (rule append_all_keeps[OF _ prod.collapse[symmetric]])
    qed
  qed
qed

lemma memory_tx_run:
  assumes "m = \<lparr>mt_commands = Some cc, mt_events = Some ce\<rparr>"
  shows "\<exists>cc' ce'. foldl (\<lambda>m tx. snd (memory_tx jc jr allow tx m)) m txs = \<lparr>mt_commands = Some cc', mt_events = Some ce'\<rparr> \<and>
    mbc_tails cc' = mbc_tails cc \<and> (\<forall>p. mbc_committedOffset cc p \<le> mbc_committedOffset cc' p) \<and>
    (\<forall>i x. map_of (mbe_byID ce) i = Some x \<longrightarrow> map_of (mbe_byID ce') i = Some x)"
  using assms
proof (induction txs arbitrary: m cc ce)
  case (Cons tx txs)
  obtain cc1 ce1 where one: "snd (memory_tx jc jr allow tx m) = \<lparr>mt_commands = Some cc1, mt_events = Some ce1\<rparr>"
    "mbc_tails cc1 = mbc_tails cc" "\<And>p. mbc_committedOffset cc p \<le> mbc_committedOffset cc1 p"
    "\<And>i x. map_of (mbe_byID ce) i = Some x \<Longrightarrow> map_of (mbe_byID ce1) i = Some x"
    by (rule memory_tx_step[OF Cons.prems]) blast
  obtain cc' ce' where "foldl (\<lambda>m tx. snd (memory_tx jc jr allow tx m)) (snd (memory_tx jc jr allow tx m)) txs =
      \<lparr>mt_commands = Some cc', mt_events = Some ce'\<rparr>" "mbc_tails cc' = mbc_tails cc1"
      "\<And>p. mbc_committedOffset cc1 p \<le> mbc_committedOffset cc' p" "\<And>i x. map_of (mbe_byID ce1) i = Some x \<Longrightarrow> map_of (mbe_byID ce') i = Some x"
    using Cons.IH[OF one(1)] by blast
  moreover from this(3) one(3) have "mbc_committedOffset cc p \<le> mbc_committedOffset cc' p" for p by (rule order_trans[rotated])
  ultimately show ?case using one(2, 4) by auto
qed simp

definition text_event :: "broker_event_record json_record_codec \<Rightarrow> 'p event_append \<Rightarrow> bool" where
  "text_event jr event \<longleftrightarrow> list_all (jr_Text jr)
     (TrimSpace (ea_ID event) # ea_Kind event # pKind (append_partition event) # pKey (append_partition event) # ea_Scopes event)"

lemma tx_records_encodable:
  assumes "payload_codec_ok jc jr compact" "tx_records jc events = Inr rs" "list_all (text_event jr) events"
  shows "list_all (encodable jr compact) (map tx_normal rs)"
proof -
  have encodable: "encodable jr compact (tx_normal r)" if "brokerEventTransactionRecord jc event = Inr r" "text_event jr event" for event r
    using that assms(1)
    by (auto simp: brokerEventTransactionRecord_iff encodable_def tx_normal_def append_record_def text_event_def event_texts_def
        payload_codec_ok_def record_partition_def)
  have "list_all2 (\<lambda>event r. brokerEventTransactionRecord jc event = Inr r) events rs" using assms(2) by (simp add: tx_records_iff)
  then show ?thesis using assms(3) by (induction rule: list_all2_induct) (simp_all add: encodable)
qed

lemma Commit_intro:
  assumes "CommitPosition_Validate (tx_command tx) = None" "tx_records jc (cet_Events tx) = Inr rs"
    "NormalizeBrokerEventTransactionRecords jr rs ''one transaction'' = Inr out"
    "tc_AppendEventsAndCommitCommand c None (tx_command tx) out s = (Inr committed, s')"
    "tcr_CommittedPartition committed = Partition_Normalize (cet_CommandPartition tx)"
    "cet_CommandOffset tx \<le> tcr_CommittedOffset committed"
    "validateBrokerCommandEventTransactionMessages jc jr allow out (tcr_Messages committed) = Inr events"
  shows "CommitCommandEvents jc jr allow (Some c) None tx s =
    (Inr \<lparr>cer_Events = map Some events, cer_CommittedPartition = Partition_Normalize (cet_CommandPartition tx),
       cer_CommittedOffset = tcr_CommittedOffset committed\<rparr>, s')"
proof -
  have command: "cp_Partition (tx_command tx) = Partition_Normalize (cet_CommandPartition tx)" "cp_Offset (tx_command tx) = cet_CommandOffset tx"
    by (simp_all add: tx_command_def CommitPosition_Normalize_def)
  have "Partition_Normalize (cet_CommandPartition tx) \<noteq> zero_partition"
    by (auto simp: Partition_Normalize_def zero_partition_def PartitionGlobal_def split: if_splits)
  then show ?thesis using assms command by (simp add: CommitCommandEvents_def Let_def)
qed

text \<open>The state and answer of the reference client after a successful transaction.\<close>

lemma memory_tx_success:
  assumes "memory_tx jc jr allow tx \<lparr>mt_commands = Some cc, mt_events = Some ce\<rparr> = (Inr res, m)"
  obtains rs msgs events ce' where "tx_records jc (cet_Events tx) = Inr rs"
    "NormalizeBrokerEventTransactionRecords jr rs ''one transaction'' = Inr (map tx_normal rs)"
    "list_all tx_requested (map tx_normal rs)" "distinct (map ber_ID (map tx_normal rs))"
    "CommitPosition_Validate (tx_command tx) = None" "committable cc (tx_command tx)" "append_all jr ce (map tx_normal rs) = (Inr msgs, ce')"
    "m = \<lparr>mt_commands = Some (commit_all cc [tx_command tx]), mt_events = Some ce'\<rparr>"
    "validateBrokerCommandEventTransactionMessages jc jr allow (map tx_normal rs) msgs = Inr events"
    "res = \<lparr>cer_Events = map Some events, cer_CommittedPartition = Partition_Normalize (cet_CommandPartition tx),
       cer_CommittedOffset = mbc_committedOffset (commit_all cc [tx_command tx]) (cet_CommandPartition tx)\<rparr>"
  using assms
proof (cases rule: Commit_cases)
  case (1 c rs committed events)
  let ?x = "tx_command tx" and ?rs = "map tx_normal rs"
  have rs: "list_all tx_requested ?rs" "distinct (map ber_ID ?rs)"
    using tx_normal_requested[OF 1(7)] 1(6) by (simp_all only: tx_normal_ids)
  have part: "mbc_committedOffset c (cp_Partition ?x) = mbc_committedOffset c (cet_CommandPartition tx)" for c
    by (simp add: tx_command_def CommitPosition_Normalize_def mbc_committedOffset_def)
  have client: "MemoryTransactions_AppendEventsAndCommitCommand jr None ?x ?rs \<lparr>mt_commands = Some cc, mt_events = Some ce\<rparr> = (Inr committed, m)"
    using 1(2, 8) by (auto simp: memory_tx_client_def)
  then obtain msgs ce' where "committable cc ?x" "append_all jr ce ?rs = (Inr msgs, ce')"
      "m = \<lparr>mt_commands = Some (commit_all cc [?x]), mt_events = Some ce'\<rparr>" "tcr_Messages committed = msgs"
      "tcr_CommittedOffset committed = mbc_committedOffset (commit_all cc [?x]) (cp_Partition ?x)"
    using transaction_one[OF rs(2, 1), of jr ?x cc ce]
    by (cases "committable cc ?x"; cases "append_all jr ce ?rs"; cases "fst (append_all jr ce ?rs)") auto
  then show ?thesis using that 1 rs part by simp
qed

lemma commit_again:
  assumes "mbc_tails cc' = mbc_tails cc" "\<And>p. mbc_committedOffset (commit_all cc [x]) p \<le> mbc_committedOffset cc' p" "committable cc x"
  shows "committable cc' x" "commit_all cc' [x] = cc'"
proof -
  have "0 < cp_Offset x" using assms(3) Validate_offset by (auto simp: committable_def)
  then have "cp_Offset x \<le> mbc_committedOffset (commit_all cc [x]) (cp_Partition x)"
    by (simp add: commit_all_def mbc_commit_def mbc_committedOffset_def Let_def)
  then have "\<not> cp_Offset x > gm_get 0 (mbc_committed cc') (Partition_Normalize (cp_Partition x))"
    using assms(2)[of "cp_Partition x"] by (simp add: mbc_committedOffset_def)
  then show "commit_all cc' [x] = cc'" using \<open>0 < cp_Offset x\<close> by (simp add: commit_all_def mbc_commit_def Let_def)
  show "committable cc' x" using assms(1, 3) by (simp add: committable_def)
qed

lemma memory_tx_repeat:
  assumes "event_codec_ok jr compact" "payload_codec_ok jc jr compact" "list_all (text_event jr) (cet_Events tx)"
    and "memory_tx jc jr allow tx \<lparr>mt_commands = Some cc, mt_events = Some ce\<rparr> = (Inr res, m)"
    and "m' = foldl (\<lambda>m tx. snd (memory_tx jc jr allow tx m)) m txs"
  shows "\<exists>n \<ge> cer_CommittedOffset res. memory_tx jc jr allow tx m' = (Inr (res\<lparr>cer_CommittedOffset := n\<rparr>), m')"
  using assms(4)
proof (cases rule: memory_tx_success)
  case (1 rs msgs events ce1)
  let ?x = "tx_command tx" and ?rs = "map tx_normal rs"
  obtain cc' ce' where later: "m' = \<lparr>mt_commands = Some cc', mt_events = Some ce'\<rparr>"
      "mbc_tails cc' = mbc_tails (commit_all cc [?x])" "\<And>p. mbc_committedOffset (commit_all cc [?x]) p \<le> mbc_committedOffset cc' p"
      "\<And>i x. map_of (mbe_byID ce1) i = Some x \<Longrightarrow> map_of (mbe_byID ce') i = Some x"
    using memory_tx_run[OF 1(8), of jc jr allow txs] unfolding assms(5) by blast
  have "list_all2 (holds_record jr ce1) ?rs msgs"
    using append_all_holds[OF assms(1) tx_records_encodable[OF assms(2) 1(1) assms(3)] 1(3, 7)] .
  then have "list_all2 (holds_record jr ce') ?rs msgs"
    by (rule list_all2_mono) (use later(4) in \<open>unfold holds_record_def, blast\<close>)
  moreover have "list_all (\<lambda>r. ber_ID r \<noteq> []) ?rs" using 1(3) by (auto simp: list_all_iff tx_requested_def)
  ultimately have append: "append_all jr ce' ?rs = (Inr msgs, ce')" by (rule append_all_held)
  have tails: "mbc_tails cc' = mbc_tails cc" using later(2) by (simp add: commit_all_def mbc_commit_def Let_def)
  note commit = commit_again[OF tails later(3) 1(6)]
  define n where "n = mbc_committedOffset cc' (cet_CommandPartition tx)"
  have part: "cp_Partition ?x = Partition_Normalize (cet_CommandPartition tx)" "cp_Offset ?x = cet_CommandOffset tx"
    by (simp_all add: tx_command_def CommitPosition_Normalize_def)
  have client: "tc_AppendEventsAndCommitCommand (memory_tx_client jr) None ?x ?rs m' =
      (Inr \<lparr>tcr_Messages = msgs, tcr_CommittedPartition = Partition_Normalize (cet_CommandPartition tx), tcr_CommittedOffset = n\<rparr>, m')"
    using transaction_one[OF 1(4, 3), of jr ?x cc' ce'] append commit later(1)
    by (simp add: memory_tx_client_def part n_def mbc_committedOffset_def)
  have n: "cer_CommittedOffset res \<le> n" using later(3) 1(10) by (simp add: n_def)
  have "cet_CommandOffset tx \<le> cer_CommittedOffset res" using Commit_store(2)[OF assms(4)] by simp
  then have "memory_tx jc jr allow tx m' =
      (Inr \<lparr>cer_Events = map Some events, cer_CommittedPartition = Partition_Normalize (cet_CommandPartition tx), cer_CommittedOffset = n\<rparr>, m')"
    using Commit_intro[OF 1(5, 1, 2) client, of allow events] n 1(9) by simp
  then show ?thesis using n 1(10) by auto
qed

section \<open>New events are committed\<close>

definition fresh_record ::
  "'p json_codec \<Rightarrow> broker_event_record json_record_codec \<Rightarrow> (string \<Rightarrow> string) \<Rightarrow> memory_broker_events \<Rightarrow> broker_event_record \<Rightarrow> bool" where
  "fresh_record jc jr compact c r \<longleftrightarrow> encodable jr compact r \<and> ber_Kind r \<noteq> [] \<and> tx_requested r \<and>
     Partition_Normalize (record_partition r) = record_partition r \<and> ber_CompatibilitySeq r \<le> 0 \<and>
     (\<exists>y. jc_UnmarshalPayload jc (ber_Kind r) (ber_Payload r) = Inr y) \<and> map_of (mbe_byID c) (ber_ID r) = None"

lemma in_form_id: "Partition_Normalize (record_partition r) = record_partition r \<Longrightarrow> in_partition_form r = r"
  by (simp add: in_partition_form_def record_partition_def)

lemma append_fresh:
  assumes "event_codec_ok jr compact" "fresh_record jc jr compact c r" "0 \<le> gm_get 0 (mbe_tails c) (record_partition r)"
    and "gm_get 0 (mbe_tails c) (record_partition r) < maxInt64" "0 \<le> mbe_head c" "mbe_head c < maxInt64"
  obtains msg r' e c' where "mbe_append jr c (record_partition r) r = (Inr msg, c')" "DecodeBrokerEventRecord jr (bm_Data msg) = Inr r'"
    "SameBrokerEventTransactionResultIdentity r' r" "DecodeBrokerEventMessage jc jr msg = Inr e" "ev_Seq e = mbe_head c + 1"
    "event_partition e = record_partition r" "ev_PartitionOffset e = gm_get 0 (mbe_tails c) (record_partition r) + 1"
    "mbe_head c' = mbe_head c + 1" "mbe_tails c' = gm_set (record_partition r) (gm_get 0 (mbe_tails c) (record_partition r) + 1) (mbe_tails c)"
    "\<And>i. i \<noteq> ber_ID r \<Longrightarrow> map_of (mbe_byID c') i = map_of (mbe_byID c) i"
proof -
  let ?p = "record_partition r" and ?n = "gm_get 0 (mbe_tails c) (record_partition r) + 1" and ?h = "mbe_head c + 1"
  let ?r = "r\<lparr>ber_PartitionOffset := ?n\<rparr>"
  note fresh = assms(2)[unfolded fresh_record_def]
  have wrap: "wrap64 ?n = ?n" "wrap64 ?h = ?h" using assms(3-6) by (simp_all add: wrap64_Suc)
  have enc: "jr_Valid jr (ber_Payload r)" "compact (ber_Payload r) = ber_Payload r" "list_all (jr_Text jr) (event_texts r)" "ber_Version r = BrokerEventRecordVersion"
    using fresh by (simp_all add: encodable_def)
  have "ber_Payload r \<noteq> []" using codec_compact(1)[OF assms(1)[unfolded event_codec_ok_def] enc(1)] .
  moreover have "ber_PartitionKind r \<noteq> []" "ber_PartitionKey r \<noteq> []"
    using fresh by (auto simp: record_partition_def Partition_Normalize_def PartitionGlobal_def split: if_splits)
  ultimately have "event_record_ok ?r" using fresh enc(4) assms(3) by (simp add: event_record_ok_def)
  then obtain data where data: "EncodeBrokerEventRecord jr ?r = Inr data" "DecodeBrokerEventRecord jr data = Inr ?r"
    using Encode_event[OF assms(1), of ?r] enc(1-3) by (auto simp: event_texts_def)
  define msg where "msg = \<lparr>bm_Partition = ?p, bm_Offset = ?n, bm_StreamSeq = ?h, bm_Data = data\<rparr>"
  define c' where "c' = tx_apply c (new_pending ?p ?n ?h r data)"
  have "mbe_append jr c ?p r = (Inr msg, c')"
    using store_pending[of r ?p jr c] fresh data(1) wrap mbe_append_form[of r jr c] in_form_id[of r]
    by (simp add: msg_def c'_def new_pending_def tx_requested_def)
  moreover have "SameBrokerEventTransactionResultIdentity ?r r"
    by (simp add: SameBrokerEventTransactionResultIdentity_def SameBrokerEventRecordIdentity_iff)
  moreover obtain e where "DecodeBrokerEventMessage jc jr msg = Inr e" "ev_Seq e = ?h" "event_partition e = ?p" "ev_PartitionOffset e = ?n"
    using fresh data(2) by (auto simp: DecodeBrokerEventMessage_def msg_def record_partition_def BrokerEventSequence_def event_partition_def Let_def)
  moreover have "mbe_head c' = ?h" "mbe_tails c' = gm_set ?p ?n (mbe_tails c)" "i \<noteq> ber_ID r \<Longrightarrow> map_of (mbe_byID c') i = map_of (mbe_byID c) i" for i
    by (simp_all add: c'_def tx_apply_def new_pending_def Let_def)
  moreover have "DecodeBrokerEventRecord jr (bm_Data msg) = Inr ?r" using data(2) by (simp add: msg_def)
  ultimately show ?thesis using that by blast
qed

lemma append_all_fresh:
  assumes "event_codec_ok jr compact"
  shows "list_all (fresh_record jc jr compact c) rs \<Longrightarrow> distinct (map ber_ID rs) \<Longrightarrow> 0 \<le> lastSeq \<Longrightarrow> lastSeq \<le> mbe_head c \<Longrightarrow>
    (\<And>p. 0 \<le> gm_get 0 offsets p \<and> gm_get 0 offsets p \<le> gm_get 0 (mbe_tails c) p \<and> gm_get 0 (mbe_tails c) p + int (length rs) \<le> maxInt64) \<Longrightarrow>
    mbe_head c + int (length rs) \<le> maxInt64 \<Longrightarrow>
    \<exists>msgs c' evs. append_all jr c rs = (Inr msgs, c') \<and> length msgs = length rs \<and>
      tx_messages jc jr allow i lastSeq offsets (zip msgs rs) = Inr evs"
proof (induction rs arbitrary: c i lastSeq offsets)
  case (Cons r rs)
  let ?p = "record_partition r"
  have pre: "fresh_record jc jr compact c r" "0 \<le> gm_get 0 (mbe_tails c) ?p" "gm_get 0 (mbe_tails c) ?p < maxInt64" "0 \<le> mbe_head c" "mbe_head c < maxInt64"
    using Cons.prems(1, 3, 4, 6) Cons.prems(5)[of ?p] by simp_all
  obtain msg r' e c1 where one: "mbe_append jr c ?p r = (Inr msg, c1)" "DecodeBrokerEventRecord jr (bm_Data msg) = Inr r'"
    "SameBrokerEventTransactionResultIdentity r' r" "DecodeBrokerEventMessage jc jr msg = Inr e" "ev_Seq e = mbe_head c + 1"
    "event_partition e = ?p" "ev_PartitionOffset e = gm_get 0 (mbe_tails c) ?p + 1" "mbe_head c1 = mbe_head c + 1"
    "mbe_tails c1 = gm_set ?p (gm_get 0 (mbe_tails c) ?p + 1) (mbe_tails c)"
    "\<And>i. i \<noteq> ber_ID r \<Longrightarrow> map_of (mbe_byID c1) i = map_of (mbe_byID c) i"
    by (rule append_fresh[OF assms pre]) blast
  have fresh: "list_all (fresh_record jc jr compact c1) rs" "distinct (map ber_ID rs)"
    using Cons.prems(1, 2) one(10) by (auto simp: list_all_iff fresh_record_def) (metis rev_image_eqI)
  have bounds: "0 \<le> ev_Seq e" "ev_Seq e \<le> mbe_head c1" "mbe_head c1 + int (length rs) \<le> maxInt64"
    using Cons.prems(3, 4, 6) one(5, 8) by simp_all
  have "0 \<le> gm_get 0 (gm_set ?p (ev_PartitionOffset e) offsets) p \<and> gm_get 0 (gm_set ?p (ev_PartitionOffset e) offsets) p \<le> gm_get 0 (mbe_tails c1) p \<and>
      gm_get 0 (mbe_tails c1) p + int (length rs) \<le> maxInt64" for p
    using Cons.prems(5)[of p] one(7, 9) by auto
  then obtain msgs c' evs where "append_all jr c1 rs = (Inr msgs, c')" "length msgs = length rs"
      "tx_messages jc jr allow (Suc i) (ev_Seq e) (gm_set ?p (ev_PartitionOffset e) offsets) (zip msgs rs) = Inr evs"
    using Cons.IH[OF fresh bounds(1, 2) _ bounds(3), of "gm_set ?p (ev_PartitionOffset e) offsets" "Suc i"] by blast
  moreover from this(3) have "tx_messages jc jr allow i lastSeq offsets ((msg, r) # zip msgs rs) = Inr (e # evs)"
    unfolding tx_messages_Cons using one Cons.prems(3, 4) Cons.prems(5)[of ?p] by (intro exI[of _ r'] exI[of _ e] exI[of _ evs]) auto
  ultimately show ?case using one(1) by (intro exI[of _ "msg # msgs"] exI[of _ c'] exI[of _ "e # evs"]) (simp del: tx_messages.simps)
qed simp

definition new_event ::
  "'p json_codec \<Rightarrow> broker_event_record json_record_codec \<Rightarrow> memory_broker_events \<Rightarrow> 'p event_append \<Rightarrow> bool" where
  "new_event jc jr c event \<longleftrightarrow> text_event jr event \<and> ea_Kind event \<noteq> [] \<and> TrimSpace (ea_ID event) \<noteq> [] \<and> 0 < ea_TS event \<and>
     ea_CompatibilitySeq event \<le> 0 \<and> (\<exists>y. cloneEventPayload jc (ea_Kind event) (ea_Payload event) = Inr y) \<and>
     map_of (mbe_byID c) (TrimSpace (ea_ID event)) = None"

lemma new_event_record:
  assumes "event_codec_ok jr compact" "payload_codec_ok jc jr compact" "new_event jc jr c event"
  shows "\<exists>r. brokerEventTransactionRecord jc event = Inr r \<and> tx_acceptable jr r \<and> fresh_record jc jr compact c (tx_normal r) \<and> ber_ID r = ea_ID event"
proof -
  obtain raw y where raw: "jc_Marshal jc (ea_Payload event) = Inr raw" "jc_UnmarshalPayload jc (ea_Kind event) raw = Inr y"
    using assms(3) by (auto simp: new_event_def cloneEventPayload_def split: sum.splits)
  let ?r = "(append_record 0 [] event raw)\<lparr>ber_PartitionOffset := 0\<rparr>"
  have id: "ea_ID event \<noteq> []" using assms(3) by (auto simp: new_event_def)
  have "jr_Valid jr raw" "compact raw = raw" using assms(2) raw(1) by (auto simp: payload_codec_ok_def)
  moreover have "raw \<noteq> []" using codec_compact(1)[OF assms(1)[unfolded event_codec_ok_def]] calculation(1) by blast
  ultimately have "tx_acceptable jr ?r" "fresh_record jc jr compact c (tx_normal ?r)"
    using assms(3) raw(2) id
    by (auto simp: new_event_def tx_acceptable_def fresh_record_def tx_normal_def append_record_def encodable_def event_texts_def
        text_event_def tx_requested_def record_partition_def EventAppendTimestamp_def)
  moreover have "brokerEventTransactionRecord jc event = Inr ?r" using assms(3) raw by (auto simp: brokerEventTransactionRecord_iff new_event_def)
  ultimately show ?thesis using id by auto
qed

lemma new_event_records:
  assumes "event_codec_ok jr compact" "payload_codec_ok jc jr compact" "list_all (new_event jc jr c) events"
  obtains rs where "tx_records jc events = Inr rs" "list_all (tx_acceptable jr) rs" "list_all (fresh_record jc jr compact c) (map tx_normal rs)"
    "map ber_ID rs = map ea_ID events"
proof -
  have "\<exists>rs. tx_records jc events = Inr rs \<and> list_all (tx_acceptable jr) rs \<and> list_all (fresh_record jc jr compact c) (map tx_normal rs) \<and>
      map ber_ID rs = map ea_ID events"
    using assms(3)
  proof (induction events)
    case (Cons event events)
    then obtain rs where "tx_records jc events = Inr rs" "list_all (tx_acceptable jr) rs" "list_all (fresh_record jc jr compact c) (map tx_normal rs)"
      "map ber_ID rs = map ea_ID events" by auto
    moreover obtain r where "brokerEventTransactionRecord jc event = Inr r" "tx_acceptable jr r" "fresh_record jc jr compact c (tx_normal r)" "ber_ID r = ea_ID event"
      using new_event_record[OF assms(1, 2)] Cons.prems by auto
    ultimately show ?case by (intro exI[of _ "r # rs"]) simp
  qed simp
  then show ?thesis using that by blast
qed

section \<open>Properties\<close>

definition sample_transaction :: "string command_event_transaction" where
  "sample_transaction = \<lparr>cet_CommandPartition = Partition ''board'' ''b'', cet_CommandOffset = 1, cet_CommandSourcePosition = zero_source_position,
     cet_Events = [sample_append\<lparr>ea_ID := ''a'', ea_TS := 5\<rparr>]\<rparr>"

definition sample_commands :: memory_broker_commands where
  "sample_commands = NewMemoryBrokerCommandLogClient\<lparr>mbc_tails := [(Partition ''board'' ''b'', 1)]\<rparr>"

abbreviation sample_logs :: memory_transactions where
  "sample_logs \<equiv> \<lparr>mt_commands = Some sample_commands, mt_events = Some NewMemoryBrokerEventLogClient\<rparr>"

text \<open>
  C12: a transaction is atomic and does the work of single steps. Over the in-memory broker logs a group of commands with
  events fails, for reasons that single appends and commits would fail for, and then changes nothing; or every event is
  appended as by one append after the other, with the same messages, every command offset is committed as by a single
  commit, and the returned positions cover the commands.
\<close>

theorem transaction_atomic:
  assumes "distinct (map ber_ID records)" and "list_all tx_requested records"
  shows "case MemoryTransactions_AppendEventsAndCommitCommands jr None commands records \<lparr>mt_commands = Some cc, mt_events = Some ce\<rparr> of
      (Inl e, m) \<Rightarrow> m = \<lparr>mt_commands = Some cc, mt_events = Some ce\<rparr> \<and>
        (\<not> list_all (committable cc) commands \<or> isl (fst (append_all jr ce records)))
    | (Inr res, m) \<Rightarrow> list_all (committable cc) commands \<and> fst (append_all jr ce records) = Inr (tbr_Messages res) \<and>
        m = \<lparr>mt_commands = Some (commit_all cc commands), mt_events = Some (snd (append_all jr ce records))\<rparr> \<and>
        list_all2 covers commands (tbr_Commits res)"
  using transaction_eq[OF assms, of jr commands cc ce] tx_commit_eq[OF committable_pos, of cc commands cc]
  by (cases "list_all (committable cc) commands"; cases "append_all jr ce records"; cases "fst (append_all jr ce records)") auto

definition tx_sample_record :: broker_event_record where
  "tx_sample_record = sample_event_record\<lparr>ber_PartitionOffset := 0\<rparr>"

theorem transaction_atomic_witness:
  "case MemoryTransactions_AppendEventsAndCommitCommands event_codec None [tx_command sample_transaction] [tx_sample_record] sample_logs of
      (Inl e, m) \<Rightarrow> False
    | (Inr res, m) \<Rightarrow> m = \<lparr>mt_commands = Some (commit_all sample_commands [tx_command sample_transaction]),
        mt_events = Some (snd (append_all event_codec NewMemoryBrokerEventLogClient [tx_sample_record]))\<rparr>"
proof -
  have "list_all (committable sample_commands) [tx_command sample_transaction]" "list_all tx_requested [tx_sample_record]"
      "isl (fst (append_all event_codec NewMemoryBrokerEventLogClient [tx_sample_record])) = False"
    by code_simp+
  then show ?thesis
    using transaction_atomic[of "[tx_sample_record]" sample_commands NewMemoryBrokerEventLogClient "[tx_command sample_transaction]" event_codec]
    by (auto split: prod.splits sum.splits)
qed


lemma memory_tx_new:
  assumes "event_codec_ok jr compact" "payload_codec_ok jc jr compact" "list_all (new_event jc jr ce) (cet_Events tx)"
    and "distinct (map (\<lambda>event. TrimSpace (ea_ID event)) (cet_Events tx))" "committable cc (tx_command tx)"
    and "\<And>p. 0 \<le> gm_get 0 (mbe_tails ce) p \<and> gm_get 0 (mbe_tails ce) p + int (length (cet_Events tx)) \<le> maxInt64"
    and "0 \<le> mbe_head ce" "mbe_head ce + int (length (cet_Events tx)) \<le> maxInt64"
  shows "\<exists>res ce'. memory_tx jc jr allow tx \<lparr>mt_commands = Some cc, mt_events = Some ce\<rparr> =
    (Inr res, \<lparr>mt_commands = Some (commit_all cc [tx_command tx]), mt_events = Some ce'\<rparr>)"
proof -
  let ?x = "tx_command tx"
  obtain rs where rs: "tx_records jc (cet_Events tx) = Inr rs" "list_all (tx_acceptable jr) rs"
      "list_all (fresh_record jc jr compact ce) (map tx_normal rs)" "map ber_ID rs = map ea_ID (cet_Events tx)"
    by (rule new_event_records[OF assms(1-3)])
  have "map (\<lambda>r. TrimSpace (ber_ID r)) rs = map (\<lambda>event. TrimSpace (ea_ID event)) (cet_Events tx)"
    using arg_cong[OF rs(4), of "map TrimSpace"] by (simp add: comp_def)
  then have distinct: "distinct (map (\<lambda>r. TrimSpace (ber_ID r)) rs)" using assms(4) by simp
  then have normal: "NormalizeBrokerEventTransactionRecords jr rs ''one transaction'' = Inr (map tx_normal rs)"
    using rs(2) by (simp add: NormalizeBrokerEventTransactionRecords_def normalize_tx_loop_iff)
  have ids: "distinct (map ber_ID (map tx_normal rs))" using distinct by (simp only: tx_normal_ids)
  have len: "length rs = length (cet_Events tx)" using rs(4) by (metis length_map)
  obtain msgs ce' evs where append: "append_all jr ce (map tx_normal rs) = (Inr msgs, ce')" "length msgs = length (map tx_normal rs)"
      "tx_messages jc jr allow 0 0 [] (zip msgs (map tx_normal rs)) = Inr evs"
    using append_all_fresh[OF assms(1) rs(3) ids, of 0 "[]" allow 0] assms(6-8) len by auto
  define n where "n = mbc_committedOffset (commit_all cc [?x]) (cp_Partition ?x)"
  have part: "cp_Partition ?x = Partition_Normalize (cet_CommandPartition tx)" "cp_Offset ?x = cet_CommandOffset tx"
    by (simp_all add: tx_command_def CommitPosition_Normalize_def)
  have valid: "CommitPosition_Validate ?x = None" "0 < cp_Offset ?x" using assms(5) Validate_offset by (auto simp: committable_def)
  then have "cet_CommandOffset tx \<le> n"
    unfolding n_def part(2)[symmetric] by (simp add: commit_all_def mbc_commit_def mbc_committedOffset_def Let_def)
  moreover have "tc_AppendEventsAndCommitCommand (memory_tx_client jr) None ?x (map tx_normal rs) \<lparr>mt_commands = Some cc, mt_events = Some ce\<rparr> =
      (Inr \<lparr>tcr_Messages = msgs, tcr_CommittedPartition = Partition_Normalize (cet_CommandPartition tx), tcr_CommittedOffset = n\<rparr>,
       \<lparr>mt_commands = Some (commit_all cc [?x]), mt_events = Some ce'\<rparr>)"
    using transaction_one[OF ids tx_normal_requested[OF rs(2)], of jr ?x cc ce] append(1) assms(5)
    by (simp add: memory_tx_client_def n_def part)
  moreover have "validateBrokerCommandEventTransactionMessages jc jr allow (map tx_normal rs) msgs = Inr evs"
    using append(2, 3) by (simp add: validateBrokerCommandEventTransactionMessages_def)
  ultimately show ?thesis using Commit_intro[OF valid(1) rs(1) normal, of "memory_tx_client jr"] by simp
qed

lemma sample_new:
  "list_all (new_event compact_codec event_codec NewMemoryBrokerEventLogClient) (cet_Events sample_transaction)"
  "distinct (map (\<lambda>event. TrimSpace (ea_ID event)) (cet_Events sample_transaction))"
  "committable sample_commands (tx_command sample_transaction)"
  "list_all (text_event event_codec) (cet_Events sample_transaction)"
proof -
  show "list_all (text_event event_codec) (cet_Events sample_transaction)"
    by (simp add: sample_transaction_def text_event_def event_codec_def packed_codec_def list.pred_True)
  moreover have "TrimSpace ''a'' = ''a''" by (rule TrimSpace_plain) (simp add: plain_char_def)
  ultimately show "list_all (new_event compact_codec event_codec NewMemoryBrokerEventLogClient) (cet_Events sample_transaction)"
    by (simp add: sample_transaction_def new_event_def sample_append_def compact_codec_def raw_codec_def cloneEventPayload_def
        compact_blanks_def NewMemoryBrokerEventLogClient_def)
  show "distinct (map (\<lambda>event. TrimSpace (ea_ID event)) (cet_Events sample_transaction))" by (simp add: sample_transaction_def)
  show "committable sample_commands (tx_command sample_transaction)" by code_simp
qed

lemma sample_tx_committed:
  "\<exists>res ce'. memory_tx compact_codec event_codec False sample_transaction sample_logs =
     (Inr res, \<lparr>mt_commands = Some (commit_all sample_commands [tx_command sample_transaction]), mt_events = Some ce'\<rparr>)"
  by (rule memory_tx_new[OF event_codec_sample compact_codec_payload sample_new(1-3)])
    (simp_all add: NewMemoryBrokerEventLogClient_def maxInt64_def sample_transaction_def)


text \<open>
  a transaction of new events is always committed. When the command offset is not beyond the tail, the events have
  distinct new ids, a kind, a timestamp and a payload that can be encoded, and the counters have room, the store returns a
  result and the committed offset of the partition has reached the command.
\<close>

theorem CommitCommandEvents_commits_new_events:
  assumes "event_codec_ok jr compact" and "payload_codec_ok jc jr compact" and "list_all (new_event jc jr ce) (cet_Events tx)"
    and "distinct (map (\<lambda>event. TrimSpace (ea_ID event)) (cet_Events tx))" and "committable cc (tx_command tx)"
    and "\<And>p. 0 \<le> gm_get 0 (mbe_tails ce) p \<and> gm_get 0 (mbe_tails ce) p + int (length (cet_Events tx)) \<le> maxInt64"
    and "0 \<le> mbe_head ce" and "mbe_head ce + int (length (cet_Events tx)) \<le> maxInt64"
  shows "\<exists>res cc' ce'. CommitCommandEvents jc jr allow (Some (memory_tx_client jr)) None tx \<lparr>mt_commands = Some cc, mt_events = Some ce\<rparr> =
      (Inr res, \<lparr>mt_commands = Some cc', mt_events = Some ce'\<rparr>) \<and>
    cet_CommandOffset tx \<le> mbc_committedOffset cc' (cet_CommandPartition tx) \<and>
    mbc_committedOffset cc (cet_CommandPartition tx) \<le> mbc_committedOffset cc' (cet_CommandPartition tx)"
proof -
  obtain res ce' where "memory_tx jc jr allow tx \<lparr>mt_commands = Some cc, mt_events = Some ce\<rparr> =
      (Inr res, \<lparr>mt_commands = Some (commit_all cc [tx_command tx]), mt_events = Some ce'\<rparr>)"
    using memory_tx_new[OF assms] by blast
  moreover have "0 < cp_Offset (tx_command tx)" using assms(5) Validate_offset by (auto simp: committable_def)
  ultimately show ?thesis
    by (auto simp: commit_all_def mbc_commit_def mbc_committedOffset_def tx_command_def CommitPosition_Normalize_def Let_def)
qed

theorem CommitCommandEvents_commits_new_events_witness:
  "\<exists>res cc' ce'. memory_tx compact_codec event_codec False sample_transaction sample_logs =
      (Inr res, \<lparr>mt_commands = Some cc', mt_events = Some ce'\<rparr>) \<and> 1 \<le> mbc_committedOffset cc' (Partition ''board'' ''b'')"
proof -
  have "cet_CommandOffset sample_transaction = 1" "cet_CommandPartition sample_transaction = Partition ''board'' ''b''"
    by (simp_all add: sample_transaction_def)
  moreover have "0 \<le> gm_get 0 (mbe_tails NewMemoryBrokerEventLogClient) p \<and>
      gm_get 0 (mbe_tails NewMemoryBrokerEventLogClient) p + int (length (cet_Events sample_transaction)) \<le> maxInt64" for p
    by (simp add: NewMemoryBrokerEventLogClient_def maxInt64_def sample_transaction_def)
  ultimately show ?thesis
    using CommitCommandEvents_commits_new_events[OF event_codec_sample compact_codec_payload sample_new(1-3), of False]
    by (auto simp: NewMemoryBrokerEventLogClient_def maxInt64_def sample_transaction_def)
qed

text \<open>
  C14: transactions can be retried. When a transaction was committed and is sent again, after any other transactions, the
  store returns the same events and partition, an offset that is not smaller, and changes nothing.
\<close>

theorem CommitCommandEvents_idempotent:
  assumes "event_codec_ok jr compact" and "payload_codec_ok jc jr compact" and "list_all (text_event jr) (cet_Events tx)"
    and "CommitCommandEvents jc jr allow (Some (memory_tx_client jr)) None tx \<lparr>mt_commands = Some cc, mt_events = Some ce\<rparr> = (Inr res, m)"
    and "m' = foldl (\<lambda>m tx. snd (CommitCommandEvents jc jr allow (Some (memory_tx_client jr)) None tx m)) m txs"
  shows "\<exists>n. cer_CommittedOffset res \<le> n \<and>
    CommitCommandEvents jc jr allow (Some (memory_tx_client jr)) None tx m' = (Inr (res\<lparr>cer_CommittedOffset := n\<rparr>), m')"
  using memory_tx_repeat[OF assms] by blast

theorem CommitCommandEvents_idempotent_witness:
  "\<exists>res m n. memory_tx compact_codec event_codec False sample_transaction sample_logs = (Inr res, m) \<and>
     memory_tx compact_codec event_codec False sample_transaction m = (Inr (res\<lparr>cer_CommittedOffset := n\<rparr>), m)"
proof -
  obtain res m where m: "memory_tx compact_codec event_codec False sample_transaction sample_logs = (Inr res, m)" using sample_tx_committed by blast
  then show ?thesis
    using CommitCommandEvents_idempotent[OF event_codec_sample compact_codec_payload sample_new(4) m, of m "[]"] by auto
qed

text \<open>
  C31: the finalizer advances a command exactly when its transaction was accepted. A reply that is not retryable is committed
  (with the decided events, or with none after a terminal failure) at a position that covers the record, or an error is
  reported; a retryable failure is reported as such, reaches only the recorder and is never committed.
\<close>

theorem FinalizeCommandLogRecord_outcome:
  assumes "tf_Transactions f = Some (CommitCommandEvents jc jr allow client)"
    and "FinalizeCommandLogRecord f ctx rec rp s = ((result, err), s')"
  shows "(fr_Committed result \<longleftrightarrow> (\<exists>events res s2. settled_by f (CommitCommandEvents jc jr allow client) ctx rec rp s events res s2 \<and>
       cer_CommittedPartition res = Partition_Normalize (clr_Partition rec) \<and> clr_Offset rec \<le> cer_CommittedOffset res)) \<and>
    (fr_Committed result \<longrightarrow> fr_Applied result + fr_TerminalFailures result = 1) \<and>
    (fr_Committed result \<or> err \<noteq> None \<or> retryable_reply rp) \<and>
    (retryable_reply rp \<longrightarrow> \<not> fr_Committed result \<and> fr_RetryableFailure result = rp_Err rp \<and>
       s' = snd (call_recorder (rec_retryable (tf_Recorders f)) rec (the (rp_Err rp)) s))"
proof -
  note outcome = broker_tx.record_outcome[OF assms]
  have retryable: "\<not> fr_Committed result" if "retryable_reply rp"
    unfolding outcome(1) using that by (auto simp: retryable_reply_def settled_by_def)
  have "fr_Committed result \<longleftrightarrow> (\<exists>events res s2. settled_by f (CommitCommandEvents jc jr allow client) ctx rec rp s events res s2 \<and>
       cer_CommittedPartition res = Partition_Normalize (clr_Partition rec) \<and> clr_Offset rec \<le> cer_CommittedOffset res)"
    unfolding outcome(1) by (auto dest: broker_tx.settled_covers)
  then show ?thesis by (rule conjI) (use outcome(2-4) retryable in \<open>auto simp: retryable_reply_def\<close>)
qed

definition sample_finalizer :: "(string, memory_transactions) transaction_finalizer" where
  "sample_finalizer = \<lparr>tf_Transactions = Some (CommitCommandEvents compact_codec event_codec False (Some (memory_tx_client event_codec))),
     tf_Events = Some (\<lambda>ctx rec rp s. (Inr (cet_Events sample_transaction), s)),
     tf_Recorders = \<lparr>rec_applied = None, rec_terminal = None, rec_retryable = None\<rparr>, tf_AppliedBatch = None\<rparr>"

abbreviation sample_reply :: reply where "sample_reply \<equiv> \<lparr>rp_Result = None, rp_Err = None\<rparr>"

lemma sample_settled:
  "\<exists>res s2. settled_by sample_finalizer (CommitCommandEvents compact_codec event_codec False (Some (memory_tx_client event_codec))) None
     (sample_record\<lparr>clr_Offset := 1\<rparr>) sample_reply sample_logs (cet_Events sample_transaction) res s2"
proof -
  have "record_transaction (sample_record\<lparr>clr_Offset := 1\<rparr>) (cet_Events sample_transaction) = sample_transaction"
    by (simp add: record_transaction_def sample_record_def sample_transaction_def)
  then show ?thesis using sample_tx_committed by (auto simp: settled_by_def sample_finalizer_def)
qed

theorem FinalizeCommandLogRecord_outcome_witness:
  "fr_Committed (fst (fst (FinalizeCommandLogRecord sample_finalizer None (sample_record\<lparr>clr_Offset := 1\<rparr>) sample_reply sample_logs)))"
proof -
  obtain result err s' where run: "FinalizeCommandLogRecord sample_finalizer None (sample_record\<lparr>clr_Offset := 1\<rparr>) sample_reply sample_logs = ((result, err), s')"
    by (metis surj_pair)
  have store: "tf_Transactions sample_finalizer = Some (CommitCommandEvents compact_codec event_codec False (Some (memory_tx_client event_codec)))"
    by (simp add: sample_finalizer_def)
  obtain res s2 where settled: "settled_by sample_finalizer (CommitCommandEvents compact_codec event_codec False (Some (memory_tx_client event_codec))) None
      (sample_record\<lparr>clr_Offset := 1\<rparr>) sample_reply sample_logs (cet_Events sample_transaction) res s2"
    using sample_settled by blast
  show ?thesis
    using FinalizeCommandLogRecord_outcome[OF store run] settled broker_tx.settled_covers[OF settled] run by auto
qed

lemma tx_batch_loop_None:
  "tx_batch_loop p n recs = None \<longleftrightarrow> list_all (\<lambda>r. Partition_Normalize (clr_Partition r) = p \<and>
      SourcePosition_ValidateFor (clr_SourcePosition r) (clr_Partition r) (clr_Offset r) = None) recs \<and> sorted_wrt (<) (n # map clr_Offset recs)"
proof (induction recs arbitrary: n)
  case (Cons r recs)
  then show ?case by (auto simp: Let_def split: option.split)
qed simp

text \<open>A batch that may be committed: records of one partition with valid positions and increasing offsets.\<close>

definition one_batch :: "command_log_record list \<Rightarrow> bool" where
  "one_batch records \<longleftrightarrow> sorted_wrt (<) (map clr_Offset records) \<and>
     list_all (\<lambda>r. Partition_Normalize (clr_Partition r) = Partition_Normalize (clr_Partition (hd records)) \<and>
       SourcePosition_ValidateFor (clr_SourcePosition r) (clr_Partition r) (clr_Offset r) = None) records"

lemma batch_valid: "validateCommandEventTransactionBatch records = None \<Longrightarrow> one_batch records"
  by (cases records) (auto simp: validateCommandEventTransactionBatch_def tx_batch_loop_None one_batch_def simp del: tx_batch_loop.simps)

text \<open>
  a batch is finalized as a whole. The batch finalizer never slices beyond the returned events. When it commits, there
  is a reply for every record, none of them retryable, the records are of one partition with increasing offsets and
  valid positions, the counts are those of the replies and the store has accepted a transaction for the last record; when
  it does not commit, it reports an error or the batch is empty.
\<close>

theorem FinalizeCommandLogBatch_outcome:
  assumes "tf_Transactions f = Some (CommitCommandEvents jc jr allow client)"
  shows "\<exists>result err s'. FinalizeCommandLogBatch f ctx records replies s = (Some (result, err), s') \<and>
    (if fr_Committed result
     then length replies = length records \<and> list_all (\<lambda>rp. \<not> retryable_reply rp) replies \<and> one_batch records \<and>
       fr_Applied result = int (length (filter (\<lambda>rp. rp_Err rp = None) replies)) \<and>
       fr_TerminalFailures result = int (length (filter (\<lambda>rp. rp_Err rp \<noteq> None) replies)) \<and>
       (\<exists>events s1 res s2. CommitCommandEvents jc jr allow client ctx (record_transaction (last records) events) s1 = (Inr res, s2))
     else err \<noteq> None \<or> records = [])"
proof -
  obtain result err s' where "FinalizeCommandLogBatch f ctx records replies s = (Some (result, err), s')"
    using broker_tx.batch_defined[OF assms, of ctx records replies s] by (metis not_None_eq prod.collapse)
  then show ?thesis using broker_tx.batch_outcome[OF assms, of ctx records replies s result err s'] batch_valid[of records] by (auto split: if_splits)
qed

theorem FinalizeCommandLogBatch_outcome_witness:
  "\<exists>result err s'. FinalizeCommandLogBatch sample_finalizer None [sample_record\<lparr>clr_Offset := 1\<rparr>] [] sample_logs = (Some (result, err), s') \<and>
     \<not> fr_Committed result \<and> err \<noteq> None"
proof -
  have store: "tf_Transactions sample_finalizer = Some (CommitCommandEvents compact_codec event_codec False (Some (memory_tx_client event_codec)))"
    by (simp add: sample_finalizer_def)
  show ?thesis
    using FinalizeCommandLogBatch_outcome[OF store, of None "[sample_record\<lparr>clr_Offset := 1\<rparr>]" "[]" sample_logs] by (auto split: if_splits)
qed

end
