(* ===== verification/Stream_Cursor.thy ===== *)
theory Stream_Cursor
  imports Broker_Event_Log
begin

text \<open>
  The resume position of a live stream and what is sent on it: the \<open>Cursor\<close> of \<open>internal/proto/wire.go\<close>, replay from
  the event table (\<open>internal/core/log.go\<close>, \<open>core.go\<close>), delivery with gap repair
  (\<open>internal/core/stream_delivery.go\<close>) and its uses by the WebSocket and SSE transports
  (\<open>internal/wsapi/conn.go\<close>, \<open>internal/httpapi/events.go\<close>).

  The queries on the event table are the parameter \<open>event_db\<close>; what SQL promises of them is \<open>event_db_ok\<close>. A transport
  is a function on its own state that may fail. The duplicate entries a client may send in a cursor are kept in their
  order by the stable sort that stands for \<open>sort.Slice\<close>; only their maximum is ever read.
\<close>

section \<open>Durable events\<close>

definition durableEventKinds :: "string list" where
  "durableEventKinds =
     [''thread.new'', ''post.appended'', ''post.attachment_added'', ''post.edited'',
      ''post.redacted'', ''post.flags_set'', ''post.restored'', ''post.deletion_cleared'',
      ''post.purged'', ''thread.title_set'', ''thread.locked'', ''thread.moved'',
      ''user.sanctioned'', ''user.sanction_cleared'', ''content_filter.set'', ''board.automod_rule_set'',
      ''board.automod_rule_deleted'', ''board.automod_triggered'', ''role.granted'', ''role.revoked'',
      ''board.created'', ''board.settings_set'', ''board.member_requirements_set'', ''board.moderator_set'',
      ''board.member_set'', ''board.member_application_submitted'', ''board.member_application_reviewed'', ''board.recommended_set'',
      ''board.favorite_set'', ''favorite_folder.created'', ''favorite_folder.updated'', ''favorite_folder.deleted'',
      ''favorite_tree.imported'', ''board.zap_set'', ''mail.sent'', ''mail.attachment_added'',
      ''mail.group_set'', ''mail.group_deleted'', ''mail.copy_updated'', ''direct_message.sent'',
      ''direct_message.read'', ''direct_message.deleted'', ''direct_message.settings_set'', ''user.relationship_set'',
      ''user.blessed'', ''digest.entry_upserted'', ''digest.entry_updated'', ''digest.entry_body_set'',
      ''digest.entry_removed'', ''digest.directory_set'', ''digest.path_moved'', ''digest.path_copied'',
      ''digest.path_deleted'', ''community_stats.snapshot_recorded'', ''counter.checkpointed'', ''user.mentioned'',
      ''notification.created'', ''user.trust_level_changed'', ''post.flagged'', ''review.resolved'']"

definition Event_IsDurable :: "'p event \<Rightarrow> bool" where
  "Event_IsDurable e \<longleftrightarrow> ev_Kind e \<in> set durableEventKinds"

definition eventHasPartitionOffset :: "'p event \<Rightarrow> bool" where
  "eventHasPartitionOffset e \<longleftrightarrow> ev_PartitionKind e \<noteq> [] \<and> ev_PartitionKey e \<noteq> [] \<and> ev_PartitionOffset e > 0"

definition ensureEventPartition :: "'p event \<Rightarrow> 'p event" where
  "ensureEventPartition evt =
     (let evt = (if ev_PartitionKind evt = [] \<or> ev_PartitionKey evt = []
                 then let p = EventPartitionFor (ev_Kind evt) (ev_Scopes evt)
                      in evt\<lparr>ev_PartitionKind := pKind p, ev_PartitionKey := pKey p\<rparr>
                 else evt)
      in if ev_PartitionOffset evt = 0 \<and> ev_Seq evt > 0 then evt\<lparr>ev_PartitionOffset := ev_Seq evt\<rparr> else evt)"

section \<open>Cursors\<close>

record partition_cursor =
  pc_Kind :: string
  pc_Key :: string
  pc_Offset :: int

record cursor =
  cu_Seq :: int
  cu_Partitions :: "partition_cursor list"

definition zero_cursor :: cursor where
  "zero_cursor = \<lparr>cu_Seq = 0, cu_Partitions = []\<rparr>"

definition Cursor_AfterSeq :: "cursor \<Rightarrow> int \<Rightarrow> int" where
  "Cursor_AfterSeq c fallback = (if cu_Seq c > 0 then cu_Seq c else fallback)"

definition CursorFromHead :: "int \<Rightarrow> cursor" where
  "CursorFromHead head = (if head \<le> 0 then zero_cursor else \<lparr>cu_Seq = head, cu_Partitions = []\<rparr>)"

definition CursorFromEvent :: "'p event option \<Rightarrow> cursor" where
  "CursorFromEvent e =
     (case e of None \<Rightarrow> zero_cursor
      | Some e \<Rightarrow>
          if \<not> Event_IsDurable e then zero_cursor
          else \<lparr>cu_Seq = ev_Seq e,
                cu_Partitions =
                  (if ev_PartitionKind e \<noteq> [] \<and> ev_PartitionKey e \<noteq> [] \<and> ev_PartitionOffset e > 0
                   then [\<lparr>pc_Kind = ev_PartitionKind e, pc_Key = ev_PartitionKey e, pc_Offset = ev_PartitionOffset e\<rparr>]
                   else [])\<rparr>)"

definition Cursor_Empty :: "cursor \<Rightarrow> bool" where
  "Cursor_Empty c \<longleftrightarrow> cu_Seq c = 0 \<and> cu_Partitions c = []"

definition Cursor_PartitionOnly :: "cursor \<Rightarrow> cursor" where
  "Cursor_PartitionOnly c = c\<lparr>cu_Seq := 0\<rparr>"

fun offset_loop :: "string \<Rightarrow> string \<Rightarrow> int \<Rightarrow> partition_cursor list \<Rightarrow> int" where
  "offset_loop kind key mx [] = mx"
| "offset_loop kind key mx (part # parts) =
     (if pc_Kind part \<noteq> kind \<or> pc_Key part \<noteq> key then offset_loop kind key mx parts
      else offset_loop kind key (if pc_Offset part > mx then pc_Offset part else mx) parts)"

definition Cursor_PartitionOffset :: "cursor \<Rightarrow> string \<Rightarrow> string \<Rightarrow> int \<times> bool" where
  "Cursor_PartitionOffset c kind key = (let mx = offset_loop kind key 0 (cu_Partitions c) in (mx, mx > 0))"

text \<open>The loop of \<open>observePartition\<close>: the first entry of the partition is raised; \<open>None\<close> when there is none.\<close>

fun raise_entry :: "string \<Rightarrow> string \<Rightarrow> int \<Rightarrow> partition_cursor list \<Rightarrow> partition_cursor list option" where
  "raise_entry kind key offset [] = None"
| "raise_entry kind key offset (part # parts) =
     (if pc_Kind part \<noteq> kind \<or> pc_Key part \<noteq> key
      then map_option (\<lambda>ps. part # ps) (raise_entry kind key offset parts)
      else Some ((if offset > pc_Offset part then part\<lparr>pc_Offset := offset\<rparr> else part) # parts))"

definition cursor_less :: "partition_cursor \<Rightarrow> partition_cursor \<Rightarrow> bool" where
  "cursor_less a b = (if pc_Kind a = pc_Kind b then pc_Key a < pc_Key b else pc_Kind a < pc_Kind b)"

definition Cursor_observePartition :: "cursor \<Rightarrow> string \<Rightarrow> string \<Rightarrow> int \<Rightarrow> cursor" where
  "Cursor_observePartition c kind key offset =
     (if kind = [] \<or> key = [] \<or> offset \<le> 0 then c
      else case raise_entry kind key offset (cu_Partitions c) of
             Some ps \<Rightarrow> c\<lparr>cu_Partitions := ps\<rparr>
           | None \<Rightarrow>
               c\<lparr>cu_Partitions :=
                   slice_stable cursor_less (cu_Partitions c @ [\<lparr>pc_Kind = kind, pc_Key = key, pc_Offset = offset\<rparr>])\<rparr>)"

definition Cursor_ObserveEvent :: "cursor \<Rightarrow> 'p event option \<Rightarrow> cursor" where
  "Cursor_ObserveEvent c e =
     (case e of None \<Rightarrow> c
      | Some e \<Rightarrow>
          if \<not> Event_IsDurable e then c
          else let c = (if ev_Seq e > cu_Seq c then c\<lparr>cu_Seq := ev_Seq e\<rparr> else c)
               in if \<not> eventHasPartitionOffset e then c
                  else Cursor_observePartition c (ev_PartitionKind e) (ev_PartitionKey e) (ev_PartitionOffset e))"

definition Cursor_SeenEvent :: "cursor \<Rightarrow> 'p event option \<Rightarrow> bool" where
  "Cursor_SeenEvent c e =
     (case e of None \<Rightarrow> False
      | Some e \<Rightarrow>
          if \<not> Event_IsDurable e then False
          else let (offset, known) = Cursor_PartitionOffset c (ev_PartitionKind e) (ev_PartitionKey e)
               in if eventHasPartitionOffset e \<and> known then ev_PartitionOffset e \<le> offset
                  else cu_Seq c > 0 \<and> ev_Seq e > 0 \<and> ev_Seq e \<le> cu_Seq c)"

definition Cursor_PartitionGapBeforeEvent :: "cursor \<Rightarrow> 'p event option \<Rightarrow> bool" where
  "Cursor_PartitionGapBeforeEvent c e =
     (case e of None \<Rightarrow> False
      | Some e \<Rightarrow>
          if \<not> Event_IsDurable e \<or> \<not> eventHasPartitionOffset e then False
          else let (offset, known) = Cursor_PartitionOffset c (ev_PartitionKind e) (ev_PartitionKey e)
               in if known then ev_PartitionOffset e > wrap64 (offset + 1)
                  else cu_Partitions c \<noteq> [] \<and> ev_PartitionOffset e > 1)"

definition Cursor_ScalarGapBeforeEvent :: "cursor \<Rightarrow> 'p event option \<Rightarrow> bool" where
  "Cursor_ScalarGapBeforeEvent c e =
     (case e of None \<Rightarrow> False
      | Some e \<Rightarrow>
          if \<not> Event_IsDurable e \<or> cu_Seq c \<le> 0 \<or> ev_Seq e \<le> 0 then False
          else ev_Seq e > wrap64 (cu_Seq c + 1))"

definition DurableEventAtOrAfter :: "'p event option \<Rightarrow> 'p event option \<Rightarrow> bool" where
  "DurableEventAtOrAfter candidate current =
     (case (candidate, current) of
        (Some candidate, Some current) \<Rightarrow>
          if \<not> Event_IsDurable candidate \<or> \<not> Event_IsDurable current then False
          else if eventHasPartitionOffset candidate \<and> eventHasPartitionOffset current \<and>
                  ev_PartitionKind candidate = ev_PartitionKind current \<and>
                  ev_PartitionKey candidate = ev_PartitionKey current
               then ev_PartitionOffset candidate \<ge> ev_PartitionOffset current
          else if ev_Seq candidate > 0 \<and> ev_Seq current > 0 then ev_Seq candidate \<ge> ev_Seq current
          else False
      | _ \<Rightarrow> False)"

section \<open>Replay from the event table\<close>

text \<open>
  The result of a query: an error, or the rows, each of which may fail to scan, and \<open>rows.Err()\<close> after the last one.
  The columns are those of the queries in \<open>log.go\<close>.
\<close>

record event_row =
  er_id :: string
  er_seq :: int
  er_kind :: string
  er_scopes :: string
  er_payload :: string
  er_ts :: int
  er_partition_kind :: string
  er_partition_key :: string
  er_partition_offset :: int

type_synonym 'r query_rows = "go_error + (go_error + 'r) list \<times> go_error option"

record event_db =
  db_selectAfter :: "int \<Rightarrow> event_row query_rows"
  db_selectPartition :: "string \<Rightarrow> string \<Rightarrow> int \<Rightarrow> event_row query_rows"
  db_selectOffsets :: "int option \<Rightarrow> (string \<times> string \<times> int) query_rows"
  db_selectMaxSeq :: "go_error + int option"

definition row_event :: "event_row \<Rightarrow> 'p \<Rightarrow> 'p event" where
  "row_event r p =
     \<lparr>ev_ID = er_id r, ev_Kind = er_kind r, ev_Seq = er_seq r, ev_ESeq = 0, ev_Payload = p, ev_TS = er_ts r,
      ev_PartitionKind = er_partition_kind r, ev_PartitionKey = er_partition_key r,
      ev_PartitionOffset = er_partition_offset r, ev_Scopes = split_on CHR '','' (er_scopes r)\<rparr>"

fun scanEventRows ::
  "'p json_codec \<Rightarrow> string list option \<Rightarrow> int \<Rightarrow> 'p event list \<Rightarrow> (go_error + event_row) list \<times> go_error option \<Rightarrow> go_error + 'p event list" where
  "scanEventRows jc filterScopes limit events ([], err) = (case err of None \<Rightarrow> Inr events | Some e \<Rightarrow> Inl e)"
| "scanEventRows jc filterScopes limit events (Inl e # rows, err) = Inl e"
| "scanEventRows jc filterScopes limit events (Inr r # rows, err) =
     (let evtScopes = split_on CHR '','' (er_scopes r)
      in if (case filterScopes of None \<Rightarrow> False | Some fs \<Rightarrow> \<not> scopesOverlap evtScopes fs)
         then scanEventRows jc filterScopes limit events (rows, err)
         else case jc_UnmarshalPayload jc (er_kind r) (er_payload r) of
                Inl e \<Rightarrow> Inl e
              | Inr p \<Rightarrow>
                  let events = events @ [row_event r p]
                  in if limit > 0 \<and> int (length events) \<ge> limit then Inr events
                     else scanEventRows jc filterScopes limit events (rows, err))"

definition headSeq :: "event_db \<Rightarrow> go_error + int" where
  "headSeq db =
     (case db_selectMaxSeq db of Inl e \<Rightarrow> Inl e | Inr head \<Rightarrow> Inr (case head of None \<Rightarrow> 0 | Some n \<Rightarrow> n))"

definition replayEvents ::
  "event_db \<Rightarrow> 'p json_codec \<Rightarrow> int \<Rightarrow> string list option \<Rightarrow> int \<Rightarrow> go_error + 'p event list" where
  "replayEvents db jc after filterScopes limit =
     (case db_selectAfter db after of Inl e \<Rightarrow> Inl e | Inr rows \<Rightarrow> scanEventRows jc filterScopes limit [] rows)"

definition replayPartitionEventsFiltered ::
  "event_db \<Rightarrow> 'p json_codec \<Rightarrow> string \<Rightarrow> string \<Rightarrow> int \<Rightarrow> string list option \<Rightarrow> int \<Rightarrow> go_error + 'p event list" where
  "replayPartitionEventsFiltered db jc kind key afterOffset filterScopes limit =
     (if kind = [] \<or> key = [] then Inr []
      else case db_selectPartition db kind key afterOffset of
             Inl e \<Rightarrow> Inl e | Inr rows \<Rightarrow> scanEventRows jc filterScopes limit [] rows)"

definition replayPartitionEvents ::
  "event_db \<Rightarrow> 'p json_codec \<Rightarrow> string \<Rightarrow> string \<Rightarrow> int \<Rightarrow> int \<Rightarrow> go_error + 'p event list" where
  "replayPartitionEvents db jc kind key afterOffset limit =
     replayPartitionEventsFiltered db jc kind key afterOffset None limit"

fun scan_offsets ::
  "event_partition_offset list \<Rightarrow> (go_error + string \<times> string \<times> int) list \<times> go_error option \<Rightarrow> go_error + event_partition_offset list" where
  "scan_offsets offsets ([], err) = (case err of None \<Rightarrow> Inr offsets | Some e \<Rightarrow> Inl e)"
| "scan_offsets offsets (Inl e # rows, err) = Inl e"
| "scan_offsets offsets (Inr (kind, key, offset) # rows, err) =
     scan_offsets
       (offsets @ [EventPartitionOffset_Normalize
          \<lparr>epo_Partition = Partition_Normalize (Partition kind key), epo_LastOffset = offset\<rparr>]) (rows, err)"

definition SQLEventStore_ListEventPartitionOffsets ::
  "event_db option \<Rightarrow> ctx \<Rightarrow> int \<Rightarrow> go_error + event_partition_offset list" where
  "SQLEventStore_ListEventPartitionOffsets db ctx limit =
     (case ctx of Some e \<Rightarrow> Inl e
      | None \<Rightarrow>
          (case db of None \<Rightarrow> Inl (Errorf ''sql event store: nil db'' [])
           | Some db \<Rightarrow>
               (case db_selectOffsets db (if limit > 0 then Some limit else None) of
                  Inl e \<Rightarrow> Inl e
                | Inr rows \<Rightarrow>
                    (case scan_offsets [] rows of
                       Inl e \<Rightarrow> Inl e
                     | Inr offsets \<Rightarrow> Inr (SortEventPartitionOffsetsByLastOffset offsets)))))"

definition Core_Head :: "event_db \<Rightarrow> go_error + int" where
  "Core_Head db = headSeq db"

definition Core_Replay ::
  "event_db \<Rightarrow> 'p json_codec \<Rightarrow> int \<Rightarrow> string list option \<Rightarrow> int \<Rightarrow> go_error + 'p event list" where
  "Core_Replay db jc after scopes limit = replayEvents db jc after scopes limit"

definition offset_less :: "event_partition_offset \<Rightarrow> event_partition_offset \<Rightarrow> bool" where
  "offset_less a b = Partition_Less (epo_Partition a) (epo_Partition b)"

fun head_partitions :: "event_partition_offset list \<Rightarrow> partition_cursor list" where
  "head_partitions [] = []"
| "head_partitions (offset # offsets) =
     (if epo_LastOffset offset \<le> 0 then head_partitions offsets
      else let partition = Partition_Normalize (epo_Partition offset)
           in \<lparr>pc_Kind = pKind partition, pc_Key = pKey partition, pc_Offset = epo_LastOffset offset\<rparr>
              # head_partitions offsets)"

definition Core_HeadCursor :: "event_db \<Rightarrow> go_error + cursor" where
  "Core_HeadCursor db =
     (case Core_Head db of
        Inl e \<Rightarrow> Inl e
      | Inr head \<Rightarrow>
          (case listEventPartitionOffsets None (Some (SQLEventStore_ListEventPartitionOffsets (Some db))) 0 of
             Inl e \<Rightarrow> Inl e
           | Inr (offsets, _) \<Rightarrow>
               let cursor = CursorFromHead head
               in Inr (cursor\<lparr>cu_Partitions :=
                         cu_Partitions cursor @ head_partitions (slice_stable offset_less offsets)\<rparr>)))"

text \<open>
  \<open>ReplayCursor\<close>: the offset to start after in each partition the cursor names, the partitions to read, in order, and
  their events.
\<close>

fun after_by_partition :: "(partition, int) gomap \<Rightarrow> partition_cursor list \<Rightarrow> (partition, int) gomap" where
  "after_by_partition m [] = m"
| "after_by_partition m (part # parts) =
     (let partition = Partition_Normalize (Partition (pc_Kind part) (pc_Key part))
      in after_by_partition
           (if pc_Offset part > gm_get 0 m partition then gm_set partition (pc_Offset part) m else m) parts)"

fun replay_batches ::
  "event_db \<Rightarrow> 'p json_codec \<Rightarrow> (partition, int) gomap \<Rightarrow> string list option \<Rightarrow> int \<Rightarrow> partition list \<Rightarrow> go_error + 'p event list" where
  "replay_batches db jc after scopes limit [] = Inr []"
| "replay_batches db jc after scopes limit (p # ps) =
     (case replayPartitionEventsFiltered db jc (pKind p) (pKey p) (gm_get 0 after p) scopes limit of
        Inl e \<Rightarrow> Inl e
      | Inr batch \<Rightarrow>
          (case replay_batches db jc after scopes limit ps of Inl e \<Rightarrow> Inl e | Inr events \<Rightarrow> Inr (batch @ events)))"

definition Core_ReplayCursor ::
  "event_db \<Rightarrow> 'p json_codec \<Rightarrow> cursor \<Rightarrow> string list option \<Rightarrow> int \<Rightarrow> go_error + 'p event list" where
  "Core_ReplayCursor db jc cursor scopes limit =
     (if cu_Seq cursor > 0 \<or> cu_Partitions cursor = [] then Core_Replay db jc (Cursor_AfterSeq cursor 0) scopes limit
      else
        let limit = (if limit \<le> 0 then 100 else limit);
            after = after_by_partition [] (cu_Partitions cursor)
        in case listEventPartitionOffsets None (Some (SQLEventStore_ListEventPartitionOffsets (Some db))) 0 of
             Inl e \<Rightarrow> Inl e
           | Inr (offsets, _) \<Rightarrow>
               let partitions = SortPartitions (dedup_partitions [] (map epo_Partition offsets @ map fst after))
               in case replay_batches db jc after scopes limit partitions of
                    Inl e \<Rightarrow> Inl e
                  | Inr events \<Rightarrow>
                      let events = SortEventsByReplayOrder events
                      in Inr (if int (length events) > limit then take (nat limit) events else events))"

section \<open>Delivery\<close>

definition gapReplayLimit :: int where
  "gapReplayLimit = 1000"

text \<open>The loop over the replayed events, then the whole of \<open>DeliverWithGapRepair\<close> on a cursor that is not nil.\<close>

fun deliver_missed ::
  "('t \<Rightarrow> 'p event \<Rightarrow> go_error option \<times> 't) \<Rightarrow> 'p event \<Rightarrow> 'p event list \<Rightarrow> cursor \<Rightarrow> 't \<Rightarrow> go_error option \<times> cursor \<times> 't" where
  "deliver_missed deliver evt [] cursor t = (None, cursor, t)"
| "deliver_missed deliver evt (m # missed) cursor t =
     (if Cursor_SeenEvent cursor (Some m) \<or> DurableEventAtOrAfter (Some m) (Some evt)
      then deliver_missed deliver evt missed cursor t
      else case deliver t m of
             (Some err, t) \<Rightarrow> (Some err, cursor, t)
           | (None, t) \<Rightarrow> deliver_missed deliver evt missed (Cursor_ObserveEvent cursor (Some m)) t)"

definition repair_gap ::
  "(cursor \<Rightarrow> go_error + 'p event list) \<Rightarrow> ('t \<Rightarrow> 'p event \<Rightarrow> go_error option \<times> 't) \<Rightarrow> (go_error \<Rightarrow> go_error option) \<Rightarrow>
   'p event \<Rightarrow> cursor \<Rightarrow> 't \<Rightarrow> go_error option \<times> cursor \<times> 't" where
  "repair_gap replay deliver onReplayErr evt cursor t =
     (if Cursor_PartitionGapBeforeEvent cursor (Some evt) \<or> Cursor_ScalarGapBeforeEvent cursor (Some evt)
      then let replayCursor = (if Cursor_PartitionGapBeforeEvent cursor (Some evt)
                               then Cursor_PartitionOnly cursor else cursor)
           in case replay replayCursor of
                Inl err \<Rightarrow> (case onReplayErr err of Some err \<Rightarrow> (Some err, cursor, t) | None \<Rightarrow> (None, cursor, t))
              | Inr missed \<Rightarrow> deliver_missed deliver evt missed cursor t
      else (None, cursor, t))"

definition deliver_at ::
  "(cursor \<Rightarrow> go_error + 'p event list) \<Rightarrow> ('t \<Rightarrow> 'p event \<Rightarrow> go_error option \<times> 't) \<Rightarrow> (go_error \<Rightarrow> go_error option) \<Rightarrow>
   'p event \<Rightarrow> cursor \<Rightarrow> 't \<Rightarrow> go_error option \<times> cursor \<times> 't" where
  "deliver_at replay deliver onReplayErr evt cursor t =
     (if \<not> Event_IsDurable evt then (let (err, t) = deliver t evt in (err, cursor, t))
      else if Cursor_SeenEvent cursor (Some evt) then (None, cursor, t)
      else case repair_gap replay deliver onReplayErr evt cursor t of
             (Some err, cursor, t) \<Rightarrow> (Some err, cursor, t)
           | (None, cursor, t) \<Rightarrow>
               (case deliver t evt of
                  (Some err, t) \<Rightarrow> (Some err, cursor, t)
                | (None, t) \<Rightarrow> (None, Cursor_ObserveEvent cursor (Some evt), t)))"

definition DeliverWithGapRepair ::
  "event_db \<Rightarrow> 'p json_codec \<Rightarrow> cursor option \<Rightarrow> 'p event \<Rightarrow> string list option \<Rightarrow>
   ('t \<Rightarrow> 'p event \<Rightarrow> go_error option \<times> 't) \<Rightarrow> (go_error \<Rightarrow> go_error option) \<Rightarrow> 't \<Rightarrow> go_error option \<times> cursor option \<times> 't" where
  "DeliverWithGapRepair db jc cursor evt scopes deliver onReplayErr t =
     (let (err, cursor', t) =
        deliver_at (\<lambda>c. Core_ReplayCursor db jc c scopes gapReplayLimit) deliver onReplayErr evt
          (case cursor of None \<Rightarrow> zero_cursor | Some c \<Rightarrow> c) t
      in (err, map_option (\<lambda>_. cursor') cursor, t))"

text \<open>
  The transports: \<open>deliverSSEEvent\<close> returns the error of a failed replay, \<open>deliverEvent\<close> of the WebSocket connection
  logs it. \<open>write\<close> is the transport's own write function.
\<close>

definition deliverSSEEvent ::
  "event_db \<Rightarrow> 'p json_codec \<Rightarrow> ('t \<Rightarrow> 'p event \<Rightarrow> go_error option \<times> 't) \<Rightarrow> 'p event \<Rightarrow> string list option \<Rightarrow> cursor \<Rightarrow> 't \<Rightarrow>
   go_error option \<times> cursor option \<times> 't" where
  "deliverSSEEvent db jc write evt scopes cursor t =
     DeliverWithGapRepair db jc (Some cursor) evt scopes write (\<lambda>err. Some err) t"

definition wsConn_deliverEvent ::
  "event_db \<Rightarrow> 'p json_codec \<Rightarrow> ('t \<Rightarrow> 'p event \<Rightarrow> go_error option \<times> 't) \<Rightarrow> 'p event \<Rightarrow> string list option \<Rightarrow> cursor \<Rightarrow> 't \<Rightarrow>
   go_error option \<times> cursor option \<times> 't" where
  "wsConn_deliverEvent db jc write evt scopes cursor t =
     DeliverWithGapRepair db jc (Some cursor) evt scopes write (\<lambda>err. None) t"

fun write_backlog ::
  "('t \<Rightarrow> 'p event \<Rightarrow> go_error option \<times> 't) \<Rightarrow> 'p event list \<Rightarrow> cursor \<Rightarrow> 't \<Rightarrow> go_error option \<times> cursor \<times> 't" where
  "write_backlog write [] cursor t = (None, cursor, t)"
| "write_backlog write (evt # events) cursor t =
     (case write t evt of
        (Some err, t) \<Rightarrow> (Some err, cursor, t)
      | (None, t) \<Rightarrow> write_backlog write events (Cursor_ObserveEvent cursor (Some evt)) t)"

definition wsConn_replayBacklog ::
  "event_db \<Rightarrow> 'p json_codec \<Rightarrow> ('t \<Rightarrow> 'p event \<Rightarrow> go_error option \<times> 't) \<Rightarrow> string list option \<Rightarrow> int \<Rightarrow> cursor \<Rightarrow> 't \<Rightarrow>
   go_error option \<times> cursor \<times> 't" where
  "wsConn_replayBacklog db jc write scopes limit cursor t =
     (case Core_ReplayCursor db jc cursor scopes limit of
        Inl err \<Rightarrow> (Some err, cursor, t)
      | Inr events \<Rightarrow> write_backlog write events cursor t)"

definition cursorFromResumePayload :: "cursor option \<Rightarrow> int \<Rightarrow> cursor \<Rightarrow> cursor" where
  "cursorFromResumePayload resumeCursor resumeAfter fallback =
     (case resumeCursor of
        Some cursor \<Rightarrow> if Cursor_Empty cursor \<and> resumeAfter > 0 then CursorFromHead resumeAfter else cursor
      | None \<Rightarrow> if resumeAfter > 0 then CursorFromHead resumeAfter else fallback)"

text \<open>The live loop of a transport over the events its subscription yields: it stops at the first error.\<close>

fun stream_loop ::
  "(cursor \<Rightarrow> 'p event \<Rightarrow> 't \<Rightarrow> go_error option \<times> cursor option \<times> 't) \<Rightarrow> 'p event list \<Rightarrow> cursor \<Rightarrow> 't \<Rightarrow> cursor \<times> 't" where
  "stream_loop step [] cursor t = (cursor, t)"
| "stream_loop step (evt # evts) cursor t =
     (case step cursor evt t of
        (Some err, cursor', t) \<Rightarrow> (case cursor' of Some c \<Rightarrow> (c, t) | None \<Rightarrow> (cursor, t))
      | (None, cursor', t) \<Rightarrow> stream_loop step evts (case cursor' of Some c \<Rightarrow> c | None \<Rightarrow> cursor) t)"

fun observe_events :: "cursor \<Rightarrow> 'p event list \<Rightarrow> cursor" where
  "observe_events cursor [] = cursor"
| "observe_events cursor (evt # events) = observe_events (Cursor_ObserveEvent cursor (Some evt)) events"

definition observeEventPartition :: "cursor \<Rightarrow> 'p event option \<Rightarrow> bool \<times> cursor" where
  "observeEventPartition cursor evt =
     (case evt of None \<Rightarrow> (False, cursor)
      | Some e \<Rightarrow>
          if \<not> Event_IsDurable e then (False, cursor)
          else if ev_PartitionKind e = [] \<or> ev_PartitionKey e = [] \<or> ev_PartitionOffset e \<le> 0 then (False, cursor)
          else let seq = cu_Seq cursor; cursor = Cursor_ObserveEvent cursor (Some e)
               in (True, cursor\<lparr>cu_Seq := seq\<rparr>))"

fun observe_partitions :: "bool \<Rightarrow> cursor \<Rightarrow> 'p event list \<Rightarrow> bool \<times> cursor" where
  "observe_partitions observed cursor [] = (observed, cursor)"
| "observe_partitions observed cursor (evt # events) =
     (let (ok, cursor) = observeEventPartition cursor (Some evt)
      in observe_partitions (if ok then True else observed) cursor events)"

definition deliveredCursorFromEvents :: "cursor \<Rightarrow> int \<Rightarrow> string list \<Rightarrow> 'p event list \<Rightarrow> cursor" where
  "deliveredCursorFromEvents start after scopes events =
     (let cursor = (if Cursor_Empty start \<and> after > 0 then CursorFromHead after else start)
      in if events = [] then cursor
         else if scopes = [] then observe_events cursor events
         else let (observedPartition, scopedCursor) = observe_partitions False (Cursor_PartitionOnly cursor) events
              in if observedPartition then scopedCursor else observe_events cursor events)"

section \<open>The cursor as a map of offsets\<close>

abbreviation cursor_offset :: "cursor \<Rightarrow> string \<Rightarrow> string \<Rightarrow> int" where
  "cursor_offset c kind key \<equiv> fst (Cursor_PartitionOffset c kind key)"

lemma le_offset_loop:
  "t \<le> offset_loop kind key mx ps \<longleftrightarrow> t \<le> mx \<or> (\<exists>p \<in> set ps. pc_Kind p = kind \<and> pc_Key p = key \<and> t \<le> pc_Offset p)"
  by (induction ps arbitrary: mx) auto

lemma int_eqI: "(\<And>t. t \<le> a \<longleftrightarrow> t \<le> b) \<Longrightarrow> a = (b :: int)"
  by (meson order_antisym order_refl)

lemma cursor_offset_nonneg [simp]: "0 \<le> cursor_offset c kind key"
  by (simp add: Cursor_PartitionOffset_def Let_def le_offset_loop)

lemma cursor_known [simp]: "snd (Cursor_PartitionOffset c kind key) \<longleftrightarrow> 0 < cursor_offset c kind key"
  by (simp add: Cursor_PartitionOffset_def Let_def)

lemma offset_loop_raise:
  assumes "raise_entry kind key offset ps = Some ps'"
  shows "offset_loop k y mx ps' = (if k = kind \<and> y = key then max offset (offset_loop k y mx ps) else offset_loop k y mx ps)"
  using assms
proof (induction ps arbitrary: ps' mx)
  case (Cons p ps)
  show ?case
  proof (cases "pc_Kind p \<noteq> kind \<or> pc_Key p \<noteq> key")
    case True
    with Cons.prems obtain qs where "raise_entry kind key offset ps = Some qs" "ps' = p # qs" by auto
    with Cons.IH show ?thesis by auto
  next
    case False
    with Cons.prems have "ps' = (if offset > pc_Offset p then p\<lparr>pc_Offset := offset\<rparr> else p) # ps" by auto
    with False show ?thesis by (auto intro!: int_eqI simp: le_offset_loop le_max_iff_disj)
  qed
qed simp

lemma raise_entry_None: "raise_entry kind key offset ps = None \<Longrightarrow> p \<in> set ps \<Longrightarrow> \<not> (pc_Kind p = kind \<and> pc_Key p = key)"
  by (induction ps) (auto split: if_splits)

lemma cursor_offset_observePartition:
  assumes "kind \<noteq> []" "key \<noteq> []" "0 < offset"
  shows "cursor_offset (Cursor_observePartition c kind key offset) k y =
           (if k = kind \<and> y = key then max offset (cursor_offset c k y) else cursor_offset c k y)"
proof (cases "raise_entry kind key offset (cu_Partitions c)")
  case None
  with assms show ?thesis
    by (auto intro!: int_eqI
        simp: Cursor_observePartition_def Cursor_PartitionOffset_def Let_def le_offset_loop le_max_iff_disj)
next
  case (Some ps)
  with assms show ?thesis
    by (simp add: Cursor_observePartition_def Cursor_PartitionOffset_def Let_def offset_loop_raise)
qed

text \<open>What is observed of an event: its partition and offset, when it is durable and has one.\<close>

definition positioned :: "'p event \<Rightarrow> bool" where
  "positioned e \<longleftrightarrow> Event_IsDurable e \<and> eventHasPartitionOffset e"

abbreviation in_stream :: "string \<Rightarrow> string \<Rightarrow> 'p event \<Rightarrow> bool" where
  "in_stream kind key e \<equiv> positioned e \<and> ev_PartitionKind e = kind \<and> ev_PartitionKey e = key"

abbreviation behind :: "cursor \<Rightarrow> 'p event \<Rightarrow> int" where
  "behind c e \<equiv> cursor_offset c (ev_PartitionKind e) (ev_PartitionKey e)"

lemma cursor_offset_set_Seq [simp]: "cursor_offset (c\<lparr>cu_Seq := n\<rparr>) kind key = cursor_offset c kind key"
  by (simp add: Cursor_PartitionOffset_def)

lemma cursor_offset_observe:
  "cursor_offset (Cursor_ObserveEvent c (Some e)) kind key =
     (if in_stream kind key e then max (ev_PartitionOffset e) (cursor_offset c kind key) else cursor_offset c kind key)"
  by (auto simp: Cursor_ObserveEvent_def positioned_def eventHasPartitionOffset_def Let_def cursor_offset_observePartition)

lemma cu_Seq_observe:
  "cu_Seq (Cursor_ObserveEvent c (Some e)) = (if Event_IsDurable e then max (ev_Seq e) (cu_Seq c) else cu_Seq c)"
  by (auto simp: Cursor_ObserveEvent_def Cursor_observePartition_def Let_def split: option.splits)

lemma seen_positioned:
  "positioned e \<Longrightarrow> 0 < behind c e \<Longrightarrow> Cursor_SeenEvent c (Some e) \<longleftrightarrow> ev_PartitionOffset e \<le> behind c e"
  by (simp add: positioned_def Cursor_SeenEvent_def case_prod_unfold)

lemma unseen_ahead: "positioned e \<Longrightarrow> \<not> Cursor_SeenEvent c (Some e) \<Longrightarrow> behind c e < ev_PartitionOffset e"
  using seen_positioned[of e c] cursor_offset_nonneg[of c "ev_PartitionKind e" "ev_PartitionKey e"]
  by (cases "0 < behind c e") (auto simp: positioned_def eventHasPartitionOffset_def)

lemma not_after_positioned:
  "positioned m \<Longrightarrow> positioned e \<Longrightarrow> ev_PartitionKind m = ev_PartitionKind e \<Longrightarrow> ev_PartitionKey m = ev_PartitionKey e \<Longrightarrow>
   DurableEventAtOrAfter (Some m) (Some e) \<longleftrightarrow> ev_PartitionOffset e \<le> ev_PartitionOffset m"
  by (simp add: positioned_def DurableEventAtOrAfter_def)

section \<open>Order and uniqueness of what is sent\<close>

text \<open>
  A transport that records what it sent; \<open>fails\<close> decides, from what was sent so far, whether the next write fails.
\<close>

definition recording :: "('p event list \<Rightarrow> 'p event \<Rightarrow> go_error option) \<Rightarrow> 'p event list \<Rightarrow> 'p event \<Rightarrow> go_error option \<times> 'p event list" where
  "recording fails sent e = (case fails sent e of Some err \<Rightarrow> (Some err, sent) | None \<Rightarrow> (None, sent @ [e]))"

lemma recording_None: "fails sent e = None \<Longrightarrow> recording fails sent e = (None, sent @ [e])"
  by (simp add: recording_def)

text \<open>
  What holds between a cursor and the events sent since it was \<open>c0\<close>: in every partition their offsets increase, from
  above the offset of \<open>c0\<close> up to the offset of the cursor, and the cursor never went back.
\<close>

definition stream_ok :: "cursor \<Rightarrow> 'p event list \<Rightarrow> cursor \<Rightarrow> bool" where
  "stream_ok c0 sent c \<longleftrightarrow>
     cu_Seq c0 \<le> cu_Seq c \<and>
     (\<forall>kind key. cursor_offset c0 kind key \<le> cursor_offset c kind key \<and>
        sorted_wrt (<) (map ev_PartitionOffset (filter (in_stream kind key) sent)) \<and>
        (\<forall>e \<in> set sent. in_stream kind key e \<longrightarrow>
           cursor_offset c0 kind key < ev_PartitionOffset e \<and> ev_PartitionOffset e \<le> cursor_offset c kind key))"

lemma stream_ok_start [simp]: "stream_ok c [] c"
  by (simp add: stream_ok_def)

lemma stream_ok_skip: "stream_ok c0 sent c \<Longrightarrow> \<not> positioned e \<Longrightarrow> stream_ok c0 (sent @ [e]) c"
  by (auto simp: stream_ok_def)

lemma stream_ok_send:
  assumes ok: "stream_ok c0 sent c" and ahead: "positioned e \<Longrightarrow> behind c e < ev_PartitionOffset e"
  shows "stream_ok c0 (sent @ [e]) (Cursor_ObserveEvent c (Some e))"
  unfolding stream_ok_def
proof (intro conjI allI)
  show "cu_Seq c0 \<le> cu_Seq (Cursor_ObserveEvent c (Some e))"
    using ok by (auto simp: stream_ok_def cu_Seq_observe)
  fix kind key
  have old: "cursor_offset c0 kind key \<le> cursor_offset c kind key"
    "sorted_wrt (<) (map ev_PartitionOffset (filter (in_stream kind key) sent))"
    "\<forall>x \<in> set sent. in_stream kind key x \<longrightarrow>
       cursor_offset c0 kind key < ev_PartitionOffset x \<and> ev_PartitionOffset x \<le> cursor_offset c kind key"
    using ok by (auto simp: stream_ok_def)
  from old(1) show "cursor_offset c0 kind key \<le> cursor_offset (Cursor_ObserveEvent c (Some e)) kind key"
    by (simp add: cursor_offset_observe le_max_iff_disj)
  from old ahead show "sorted_wrt (<) (map ev_PartitionOffset (filter (in_stream kind key) (sent @ [e])))"
    by (fastforce simp: sorted_wrt_append)
  from old ahead show "\<forall>x \<in> set (sent @ [e]). in_stream kind key x \<longrightarrow> cursor_offset c0 kind key < ev_PartitionOffset x \<and>
      ev_PartitionOffset x \<le> cursor_offset (Cursor_ObserveEvent c (Some e)) kind key"
    by (auto simp: cursor_offset_observe)
qed

lemma deliver_missed_ok:
  assumes "deliver_missed (recording fails) evt missed c sent = (err, c', sent')"
    "stream_ok c0 sent c" "positioned evt \<Longrightarrow> behind c evt < ev_PartitionOffset evt"
  shows "stream_ok c0 sent' c' \<and> (positioned evt \<longrightarrow> behind c' evt < ev_PartitionOffset evt)"
  using assms
proof (induction missed arbitrary: c sent)
  case (Cons m missed)
  show ?case
  proof (cases "Cursor_SeenEvent c (Some m) \<or> DurableEventAtOrAfter (Some m) (Some evt) \<or> fails sent m \<noteq> None")
    case True
    with Cons show ?thesis by (auto simp: recording_def split: if_splits)
  next
    case False
    let ?c = "Cursor_ObserveEvent c (Some m)"
    from False Cons.prems(2) have "stream_ok c0 (sent @ [m]) ?c"
      by (intro stream_ok_send) (auto dest: unseen_ahead)
    moreover from False Cons.prems(3) have "positioned evt \<Longrightarrow> behind ?c evt < ev_PartitionOffset evt"
      using not_after_positioned[of m evt] by (auto simp: cursor_offset_observe)
    moreover from False Cons.prems(1) have "deliver_missed (recording fails) evt missed ?c (sent @ [m]) = (err, c', sent')"
      by (simp add: recording_None)
    ultimately show ?thesis using Cons.IH by blast
  qed
qed simp

lemma repair_gap_ok:
  assumes "repair_gap replay (recording fails) onErr evt c sent = (err, c', sent')"
    "stream_ok c0 sent c" "positioned evt \<Longrightarrow> behind c evt < ev_PartitionOffset evt"
  shows "stream_ok c0 sent' c' \<and> (positioned evt \<longrightarrow> behind c' evt < ev_PartitionOffset evt)"
  using assms deliver_missed_ok[OF _ assms(2)]
  by (auto simp: repair_gap_def Let_def split: if_splits sum.splits option.splits)

lemma deliver_at_ok:
  assumes "deliver_at replay (recording fails) onErr evt c sent = (err, c', sent')" "stream_ok c0 sent c"
  shows "stream_ok c0 sent' c'"
proof (cases "Event_IsDurable evt \<and> \<not> Cursor_SeenEvent c (Some evt)")
  case True
  then have ahead: "positioned evt \<Longrightarrow> behind c evt < ev_PartitionOffset evt" by (simp add: unseen_ahead)
  obtain e1 c1 s1 where r: "repair_gap replay (recording fails) onErr evt c sent = (e1, c1, s1)" by (metis prod_cases3)
  with repair_gap_ok[OF r assms(2) ahead] True assms(1) show ?thesis
    by (auto simp: deliver_at_def recording_def intro: stream_ok_send split: option.splits)
next
  case False
  with assms show ?thesis
    by (auto simp: deliver_at_def recording_def positioned_def intro: stream_ok_skip split: option.splits if_splits)
qed

lemma DeliverWithGapRepair_ok:
  assumes "DeliverWithGapRepair db jc (Some c) evt scopes (recording fails) onErr sent = (err, c', sent')" "stream_ok c0 sent c"
  obtains c1 where "c' = Some c1" "stream_ok c0 sent' c1"
  using assms deliver_at_ok by (fastforce simp: DeliverWithGapRepair_def split: prod.splits)

text \<open>Both transports deliver by this step.\<close>

lemma stream_loop_ok:
  assumes step: "\<And>c e t. \<exists>onErr. step c e t = DeliverWithGapRepair db jc (Some c) e scopes (recording fails) onErr t"
    and "stream_loop step evts c sent = (c', sent')" "stream_ok c0 sent c"
  shows "stream_ok c0 sent' c'"
  using assms(2,3)
proof (induction evts arbitrary: c sent)
  case (Cons evt evts)
  obtain err c1 s1 where s: "step c evt sent = (err, c1, s1)" by (metis prod_cases3)
  from step[of c evt sent] s obtain onErr
    where d: "DeliverWithGapRepair db jc (Some c) evt scopes (recording fails) onErr sent = (err, c1, s1)" by auto
  obtain c2 where c1: "c1 = Some c2" and ok: "stream_ok c0 s1 c2" by (rule DeliverWithGapRepair_ok[OF d Cons.prems(2)])
  show ?case
  proof (cases err)
    case None
    with Cons.prems(1) s c1 have "stream_loop step evts c2 s1 = (c', sent')" by simp
    then show ?thesis using ok by (rule Cons.IH)
  next
    case (Some e)
    with Cons.prems(1) s c1 ok show ?thesis by simp
  qed
qed simp

text \<open>
  C9: Whatever the database answers and whichever writes fail, a live stream sends no event of a partition twice or out of
  order: the offsets it sends in a partition increase strictly and lie above the offset of the cursor the stream started
  with. The cursor never goes back and covers every event that was sent. This holds for both transports.
\<close>

theorem stream_exactly_in_order:
  assumes "step \<in> {\<lambda>c e. deliverSSEEvent db jc (recording fails) e scopes c,
                   \<lambda>c e. wsConn_deliverEvent db jc (recording fails) e scopes c}"
    and run: "stream_loop step evts c [] = (c', sent)"
  shows "sorted_wrt (<) (map ev_PartitionOffset (filter (in_stream kind key) sent)) \<and>
         (\<forall>e \<in> set sent. in_stream kind key e \<longrightarrow>
            fst (Cursor_PartitionOffset c kind key) < ev_PartitionOffset e \<and> Cursor_SeenEvent c' (Some e)) \<and>
         fst (Cursor_PartitionOffset c kind key) \<le> fst (Cursor_PartitionOffset c' kind key) \<and> cu_Seq c \<le> cu_Seq c'"
proof -
  have "\<And>c e t. \<exists>onErr. step c e t = DeliverWithGapRepair db jc (Some c) e scopes (recording fails) onErr t"
    using assms(1) by (auto simp: deliverSSEEvent_def wsConn_deliverEvent_def)
  then have ok: "stream_ok c sent c'" by (rule stream_loop_ok[OF _ run stream_ok_start])
  have "Cursor_SeenEvent c' (Some e)" if e: "e \<in> set sent" "in_stream kind key e" for e
  proof -
    from ok e have "ev_PartitionOffset e \<le> cursor_offset c' kind key" by (auto simp: stream_ok_def)
    moreover from e(2) have "0 < ev_PartitionOffset e" by (simp add: positioned_def eventHasPartitionOffset_def)
    ultimately show ?thesis using e(2) by (simp add: seen_positioned)
  qed
  with ok show ?thesis by (auto simp: stream_ok_def)
qed

section \<open>Gap repair is complete\<close>

text \<open>
  What SQL promises of the queries over a table of events, and what the event writer keeps of the table: durable events
  with a partition and an offset, one row per offset, and offsets that grow with the sequence number.
\<close>

abbreviation row_partition :: "event_row \<Rightarrow> partition" where
  "row_partition r \<equiv> Partition (er_partition_kind r) (er_partition_key r)"

definition event_db_ok :: "event_db \<Rightarrow> event_row list \<Rightarrow> bool" where
  "event_db_ok db table \<longleftrightarrow>
     (\<forall>a. db_selectAfter db a = Inr (map Inr (sort_key er_seq (filter (\<lambda>r. er_seq r > a) table)), None)) \<and>
     (\<forall>kind key a. db_selectPartition db kind key a =
        Inr (map Inr (sort_key (\<lambda>r. (er_partition_offset r, er_seq r))
               (filter (\<lambda>r. row_partition r = Partition kind key \<and> er_partition_offset r > a) table)), None)) \<and>
     (\<exists>offs. db_selectOffsets db None = Inr (map Inr offs, None) \<and>
        (\<forall>r \<in> set table. \<exists>n. (er_partition_kind r, er_partition_key r, n) \<in> set offs))"

definition table_ok :: "event_row list \<Rightarrow> bool" where
  "table_ok table \<longleftrightarrow> distinct table \<and>
     (\<forall>r \<in> set table. er_kind r \<in> set durableEventKinds \<and> er_partition_kind r \<noteq> [] \<and> er_partition_key r \<noteq> [] \<and>
        er_partition_offset r > 0 \<and> er_seq r > 0) \<and>
     (\<forall>r \<in> set table. \<forall>q \<in> set table. row_partition r = row_partition q \<longrightarrow>
        (er_partition_offset r < er_partition_offset q \<longrightarrow> er_seq r < er_seq q) \<and>
        (er_partition_offset r = er_partition_offset q \<longrightarrow> r = q))"

definition rows_decode :: "'p json_codec \<Rightarrow> event_row list \<Rightarrow> bool" where
  "rows_decode jc table \<longleftrightarrow> (\<forall>r \<in> set table. \<exists>p. jc_UnmarshalPayload jc (er_kind r) (er_payload r) = Inr p)"

definition stored :: "'p json_codec \<Rightarrow> event_row \<Rightarrow> 'p event" where
  "stored jc r = row_event r (projr (jc_UnmarshalPayload jc (er_kind r) (er_payload r)))"

definition row_matches :: "string list option \<Rightarrow> event_row \<Rightarrow> bool" where
  "row_matches scopes r =
     (case scopes of None \<Rightarrow> True | Some fs \<Rightarrow> scopesOverlap (split_on CHR '','' (er_scopes r)) fs)"

lemma stored_simps [simp]:
  "ev_Kind (stored jc r) = er_kind r" "ev_Seq (stored jc r) = er_seq r"
  "ev_PartitionKind (stored jc r) = er_partition_kind r" "ev_PartitionKey (stored jc r) = er_partition_key r"
  "ev_PartitionOffset (stored jc r) = er_partition_offset r"
  by (simp_all add: stored_def row_event_def)

lemma rows_decode_mono: "rows_decode jc table \<Longrightarrow> set rows \<subseteq> set table \<Longrightarrow> rows_decode jc rows"
  by (auto simp: rows_decode_def)

lemma scan_rows:
  assumes "rows_decode jc rows" "limit \<le> 0 \<or> int (length acc) < limit"
  shows "scanEventRows jc scopes limit acc (map Inr rows, None) =
           Inr (limit_slice limit (acc @ map (stored jc) (filter (row_matches scopes) rows)))"
  using assms
proof (induction rows arbitrary: acc)
  case Nil
  then show ?case by (auto simp: limit_slice_def)
next
  case (Cons r rows)
  then obtain p where p: "jc_UnmarshalPayload jc (er_kind r) (er_payload r) = Inr p" by (auto simp: rows_decode_def)
  have dec: "rows_decode jc rows" using Cons.prems(1) by (simp add: rows_decode_def)
  have ev: "row_event r p = stored jc r" by (simp add: stored_def p)
  show ?case
  proof (cases "row_matches scopes r")
    case False
    then have "case scopes of None \<Rightarrow> False | Some fs \<Rightarrow> \<not> scopesOverlap (split_on CHR '','' (er_scopes r)) fs"
      by (auto simp: row_matches_def split: option.splits)
    with False Cons.IH[OF dec Cons.prems(2)] show ?thesis by (simp add: Let_def)
  next
    case True
    then have m: "\<not> (case scopes of None \<Rightarrow> False | Some fs \<Rightarrow> \<not> scopesOverlap (split_on CHR '','' (er_scopes r)) fs)"
      by (auto simp: row_matches_def split: option.splits)
    show ?thesis
    proof (cases "limit > 0 \<and> int (length (acc @ [stored jc r])) \<ge> limit")
      case full: True
      with Cons.prems(2) have "nat limit = Suc (length acc)" by auto
      with full have "limit_slice limit (acc @ stored jc r # map (stored jc) (filter (row_matches scopes) rows)) = acc @ [stored jc r]"
        by (simp add: limit_slice_take)
      with full m p True show ?thesis by (simp add: Let_def ev)
    next
      case False
      then have "limit \<le> 0 \<or> int (length (acc @ [stored jc r])) < limit" by auto
      from Cons.IH[OF dec this] False m p True show ?thesis by (auto simp: Let_def ev)
    qed
  qed
qed

text \<open>The rows of a partition behind an offset, in order, as the replay of that partition returns them.\<close>

definition partition_rows :: "event_row list \<Rightarrow> string list option \<Rightarrow> partition \<Rightarrow> int \<Rightarrow> event_row list" where
  "partition_rows table scopes p a =
     filter (row_matches scopes) (sort_key (\<lambda>r. (er_partition_offset r, er_seq r))
       (filter (\<lambda>r. row_partition r = p \<and> er_partition_offset r > a) table))"

lemma replay_partition_rows:
  assumes "event_db_ok db table" "rows_decode jc table" "pKind p \<noteq> []" "pKey p \<noteq> []" "0 < limit"
  shows "replayPartitionEventsFiltered db jc (pKind p) (pKey p) a scopes limit =
           Inr (limit_slice limit (map (stored jc) (partition_rows table scopes p a)))"
  using assms scan_rows[of jc "sort_key (\<lambda>r. (er_partition_offset r, er_seq r))
    (filter (\<lambda>r. row_partition r = p \<and> er_partition_offset r > a) table)" limit "[]" scopes]
  by (cases p) (simp add: replayPartitionEventsFiltered_def event_db_ok_def partition_rows_def rows_decode_def)

lemma replay_batches_rows:
  assumes "event_db_ok db table" "rows_decode jc table" "0 < limit" "\<And>p. p \<in> set ps \<Longrightarrow> pKind p \<noteq> [] \<and> pKey p \<noteq> []"
  shows "replay_batches db jc after scopes limit ps =
           Inr (concat (map (\<lambda>p. limit_slice limit (map (stored jc) (partition_rows table scopes p (gm_get 0 after p)))) ps))"
  using assms(4) by (induction ps) (simp_all add: replay_partition_rows[OF assms(1,2) _ _ assms(3)])

text \<open>The start offsets are those of the cursor, when its entries name partitions.\<close>

definition cursor_ok :: "cursor \<Rightarrow> bool" where
  "cursor_ok c \<longleftrightarrow> (\<forall>p \<in> set (cu_Partitions c). pc_Kind p \<noteq> [] \<and> pc_Key p \<noteq> [])"

lemma after_by_partition_get:
  assumes "\<And>p. p \<in> set ps \<Longrightarrow> pc_Kind p \<noteq> [] \<and> pc_Key p \<noteq> []" "0 \<le> gm_get 0 m (Partition kind key)"
  shows "gm_get 0 (after_by_partition m ps) (Partition kind key) = offset_loop kind key (gm_get 0 m (Partition kind key)) ps"
  using assms by (induction ps arbitrary: m) (auto simp: Let_def Normalize_id)

lemma after_by_partition_offset:
  "cursor_ok c \<Longrightarrow> gm_get 0 (after_by_partition [] (cu_Partitions c)) p = cursor_offset c (pKind p) (pKey p)"
  using after_by_partition_get[of "cu_Partitions c" "[]" "pKind p" "pKey p"]
  by (simp add: cursor_ok_def Cursor_PartitionOffset_def Let_def)

lemma scan_offsets_rows:
  "scan_offsets acc (map Inr rows, None) =
     Inr (acc @ map (\<lambda>(kind, key, n). EventPartitionOffset_Normalize
       \<lparr>epo_Partition = Partition_Normalize (Partition kind key), epo_LastOffset = n\<rparr>) rows)"
  by (induction rows arbitrary: acc) auto

text \<open>The partitions a cursor replay reads: all of the table's, once each, and their start offsets.\<close>

lemma replay_cursor_rows:
  assumes db: "event_db_ok db table" and dec: "rows_decode jc table" and tab: "table_ok table"
    and c: "cu_Seq c = 0" "cu_Partitions c \<noteq> []" "cursor_ok c" and limit: "0 < limit"
  obtains ps where "distinct ps" "\<And>r. r \<in> set table \<Longrightarrow> row_partition r \<in> set ps"
    "Core_ReplayCursor db jc c scopes limit =
       Inr (limit_slice limit (SortEventsByReplayOrder (concat (map (\<lambda>p. limit_slice limit
         (map (stored jc) (partition_rows table scopes p (cursor_offset c (pKind p) (pKey p))))) ps))))"
proof -
  from db obtain offs where offs: "db_selectOffsets db None = Inr (map Inr offs, None)"
    "\<And>r. r \<in> set table \<Longrightarrow> \<exists>n. (er_partition_kind r, er_partition_key r, n) \<in> set offs"
    by (auto simp: event_db_ok_def)
  let ?o = "\<lambda>(kind, key, n). EventPartitionOffset_Normalize \<lparr>epo_Partition = Partition_Normalize (Partition kind key), epo_LastOffset = n\<rparr>"
  let ?offs = "map EventPartitionOffset_Normalize (SortEventPartitionOffsetsByLastOffset (map ?o offs))"
  let ?after = "after_by_partition [] (cu_Partitions c)"
  let ?ps = "SortPartitions (dedup_partitions [] (map epo_Partition ?offs @ map fst ?after))"
  have list: "listEventPartitionOffsets None (Some (SQLEventStore_ListEventPartitionOffsets (Some db))) 0 = Inr (?offs, False)"
    by (simp add: listEventPartitionOffsets_def SQLEventStore_ListEventPartitionOffsets_def query_limit_def offs(1)
        scan_offsets_rows Let_def)
  have d: "distinct ?ps" by (simp add: SortPartitions_def distinct_dedup)
  have norm: "p \<in> set ?ps \<Longrightarrow> pKind p \<noteq> [] \<and> pKey p \<noteq> []" for p
    by (auto simp: SortPartitions_def set_dedup)
  have cover: "row_partition r \<in> set ?ps" if r: "r \<in> set table" for r
  proof -
    from offs(2)[OF r] obtain n where n: "(er_partition_kind r, er_partition_key r, n) \<in> set offs" by blast
    have "Partition_Normalize (row_partition r) = row_partition r"
      using tab r by (auto simp: table_ok_def intro: Normalize_id)
    with n show ?thesis
      by (force simp: SortPartitions_def set_dedup SortEventPartitionOffsetsByLastOffset_def EventPartitionOffset_Normalize_def)
  qed
  have "Core_ReplayCursor db jc c scopes limit =
      Inr (limit_slice limit (SortEventsByReplayOrder (concat (map (\<lambda>p. limit_slice limit
        (map (stored jc) (partition_rows table scopes p (cursor_offset c (pKind p) (pKey p))))) ?ps))))"
    using c limit replay_batches_rows[where after = ?after and scopes = scopes, OF db dec limit norm]
    by (simp add: Core_ReplayCursor_def list Let_def after_by_partition_offset limit_slice_def del: map_append)
  with d cover show thesis by (rule that)
qed

text \<open>The rows ahead of a cursor that a subscriber of the scopes may see.\<close>

definition row_ahead :: "string list option \<Rightarrow> cursor \<Rightarrow> event_row \<Rightarrow> bool" where
  "row_ahead scopes c r \<longleftrightarrow>
     row_matches scopes r \<and> cursor_offset c (er_partition_kind r) (er_partition_key r) < er_partition_offset r"

lemma mset_partition_rows:
  "mset (partition_rows table scopes p (cursor_offset c (pKind p) (pKey p))) =
     mset (filter (row_ahead scopes c) (filter (\<lambda>r. row_partition r = p) table))"
  by (cases p) (auto simp: partition_rows_def row_ahead_def filter_filter_mset intro!: filter_mset_cong)

lemma replay_cursor_complete:
  assumes db: "event_db_ok db table" and dec: "rows_decode jc table" and tab: "table_ok table"
    and c: "cu_Seq c = 0" "cu_Partitions c \<noteq> []" "cursor_ok c" and limit: "0 < limit"
    and few: "int (length (filter (row_ahead scopes c) table)) \<le> limit"
  obtains missed where "Core_ReplayCursor db jc c scopes limit = Inr missed"
    "mset missed = image_mset (stored jc) (mset (filter (row_ahead scopes c) table))"
    "sorted_wrt (\<lambda>a b. \<not> replay_less b a) missed"
proof -
  obtain ps where ps: "distinct ps" "\<And>r. r \<in> set table \<Longrightarrow> row_partition r \<in> set ps"
    and replay: "Core_ReplayCursor db jc c scopes limit =
       Inr (limit_slice limit (SortEventsByReplayOrder (concat (map (\<lambda>p. limit_slice limit
         (map (stored jc) (partition_rows table scopes p (cursor_offset c (pKind p) (pKey p))))) ps))))"
    using replay_cursor_rows[OF db dec tab c limit] by blast
  let ?rows = "\<lambda>p. partition_rows table scopes p (cursor_offset c (pKind p) (pKey p))"
  have short: "limit_slice limit (map (stored jc) (?rows p)) = map (stored jc) (?rows p)" for p
  proof -
    have "length (?rows p) = length (filter (row_ahead scopes c) (filter (\<lambda>r. row_partition r = p) table))"
      by (metis mset_partition_rows size_mset)
    also have "\<dots> \<le> length (filter (row_ahead scopes c) table)"
      using length_filter_le[of "\<lambda>r. row_partition r = p" "filter (row_ahead scopes c) table"] by (simp add: conj_commute)
    finally show ?thesis using few by (simp add: limit_slice_def)
  qed
  let ?all = "concat (map (\<lambda>p. map (stored jc) (?rows p)) ps)"
  have "?all = map (stored jc) (concat (map ?rows ps))" by (simp add: map_concat comp_def)
  then have "mset ?all = image_mset (stored jc) (mset (concat (map ?rows ps)))" by (simp only: mset_map)
  also have "mset (concat (map ?rows ps)) =
      mset (concat (map (\<lambda>p. filter (row_ahead scopes c) (filter (\<lambda>r. row_partition r = p) table)) ps))"
    by (simp add: mset_concat comp_def mset_partition_rows del: filter_filter mset_filter)
  also have "\<dots> = mset (filter (row_ahead scopes c) table)" using ps by (rule concat_by_key)
  finally have all: "mset ?all = image_mset (stored jc) (mset (filter (row_ahead scopes c) table))" .
  then have "size (mset ?all) = length (filter (row_ahead scopes c) table)" by (simp only: size_image_mset size_mset)
  then have "length ?all \<le> nat limit" using few by simp
  then have "Core_ReplayCursor db jc c scopes limit = Inr (SortEventsByReplayOrder ?all)"
    using limit by (simp add: replay short limit_slice_take SortEventsByReplayOrder_def)
  then show thesis
    by (rule that) (simp_all only: SortEventsByReplayOrder_def mset_slice_stable all replay_order.sorted_slice_stable)
qed

lemma sorted_wrt_distinct: "sorted_wrt R xs \<Longrightarrow> distinct xs \<Longrightarrow> sorted_wrt (\<lambda>a b. R a b \<and> a \<noteq> b) xs"
  by (induction xs) auto

lemma stored_inj: "table_ok table \<Longrightarrow> inj_on (stored jc) (set table)"
proof (rule inj_onI)
  fix r q
  assume *: "table_ok table" "r \<in> set table" "q \<in> set table" "stored jc r = stored jc q"
  from *(4) have "row_partition r = row_partition q \<and> er_partition_offset r = er_partition_offset q"
    using stored_simps[of jc r] stored_simps[of jc q] by metis
  with * show "r = q" by (auto simp: table_ok_def)
qed

lemma stored_positioned: "table_ok table \<Longrightarrow> r \<in> set table \<Longrightarrow> positioned (stored jc r)"
  by (auto simp: table_ok_def positioned_def Event_IsDurable_def eventHasPartitionOffset_def)

text \<open>Sorted by sequence number, the missed events of one partition are sorted by offset.\<close>

lemma missed_by_offset:
  assumes tab: "table_ok table" and missed: "mset missed = image_mset (stored jc) (mset (filter P table))"
    and sorted: "sorted_wrt (\<lambda>a b. \<not> replay_less b a) missed"
  shows "sorted_wrt (<) (map ev_PartitionOffset (filter (in_stream kind key) missed))"
proof -
  from tab have "distinct (map (stored jc) (filter P table))"
    by (auto simp: distinct_map table_ok_def intro: inj_on_subset[OF stored_inj[OF tab]])
  moreover have ms: "mset missed = mset (map (stored jc) (filter P table))" using missed by simp
  ultimately have "distinct missed" using mset_eq_imp_distinct_iff by blast
  with sorted have "sorted_wrt (\<lambda>a b. \<not> replay_less b a \<and> a \<noteq> b) missed" by (rule sorted_wrt_distinct)
  then have "sorted_wrt (\<lambda>a b. \<not> replay_less b a \<and> a \<noteq> b) (filter (in_stream kind key) missed)"
    by (rule sorted_wrt_filter)
  then have "sorted_wrt (\<lambda>a b. ev_PartitionOffset a < ev_PartitionOffset b) (filter (in_stream kind key) missed)"
  proof (rule sorted_wrt_mono_rel[rotated])
    fix a b
    assume ab: "a \<in> set (filter (in_stream kind key) missed)" "b \<in> set (filter (in_stream kind key) missed)"
      "\<not> replay_less b a \<and> a \<noteq> b"
    from ms have "set missed = stored jc ` set (filter P table)" by (metis set_map set_mset_mset)
    with ab obtain r q where rq: "r \<in> set table" "q \<in> set table" "a = stored jc r" "b = stored jc q" "r \<noteq> q" by auto
    with ab tab have "er_partition_offset q < er_partition_offset r \<longrightarrow> er_seq q < er_seq r"
      "er_partition_offset q \<noteq> er_partition_offset r" by (auto simp: table_ok_def)
    with ab(3) rq show "ev_PartitionOffset a < ev_PartitionOffset b" by (auto simp: replay_less_def)
  qed
  then show ?thesis by (simp add: sorted_wrt_map)
qed

text \<open>A transport on which every write succeeds.\<close>

abbreviation sending :: "'p event list \<Rightarrow> 'p event \<Rightarrow> go_error option \<times> 'p event list" where
  "sending \<equiv> recording (\<lambda>sent e. None)"

abbreviation same_stream :: "'p event \<Rightarrow> 'p event \<Rightarrow> bool" where
  "same_stream evt \<equiv> in_stream (ev_PartitionKind evt) (ev_PartitionKey evt)"

lemma deliver_missed_sends:
  assumes "positioned evt" "0 < behind c evt" "\<And>m. m \<in> set missed \<Longrightarrow> same_stream evt m \<Longrightarrow> behind c evt < ev_PartitionOffset m"
    "sorted_wrt (<) (map ev_PartitionOffset (filter (same_stream evt) missed))"
  shows "\<exists>c' sent'. deliver_missed sending evt missed c sent = (None, c', sent') \<and>
           filter (same_stream evt) sent' = filter (same_stream evt) sent @
             filter (\<lambda>m. same_stream evt m \<and> ev_PartitionOffset m < ev_PartitionOffset evt) missed"
  using assms(2-)
proof (induction missed arbitrary: c sent)
  case (Cons m missed)
  let ?c = "Cursor_ObserveEvent c (Some m)"
  show ?case
  proof (cases "Cursor_SeenEvent c (Some m) \<or> DurableEventAtOrAfter (Some m) (Some evt)")
    case True
    have "\<not> (same_stream evt m \<and> ev_PartitionOffset m < ev_PartitionOffset evt)"
      using True Cons.prems(1) Cons.prems(2)[of m] assms(1) by (auto simp: seen_positioned not_after_positioned)
    with True Cons.IH[OF Cons.prems(1)] Cons.prems(2,3) show ?thesis by (auto split: if_splits)
  next
    case False
    then have off: "same_stream evt m \<Longrightarrow> ev_PartitionOffset m < ev_PartitionOffset evt"
      using not_after_positioned[of m evt] assms(1) by auto
    have "0 < behind ?c evt" using Cons.prems(1) by (auto simp: cursor_offset_observe)
    moreover have "behind ?c evt < ev_PartitionOffset x" if "x \<in> set missed" "same_stream evt x" for x
      using that Cons.prems(2,3) by (auto simp: cursor_offset_observe)
    moreover have "sorted_wrt (<) (map ev_PartitionOffset (filter (same_stream evt) missed))"
      using Cons.prems(3) by (auto split: if_splits)
    ultimately show ?thesis
      using Cons.IH[of ?c "sent @ [m]"] False off by (auto simp: recording_None)
  qed
qed simp

text \<open>When no offset is missing, the replayed events add nothing to the partition.\<close>

lemma deliver_missed_adjacent:
  assumes "positioned evt" "0 < behind c evt" "ev_PartitionOffset evt = behind c evt + 1"
  shows "\<exists>c' sent'. deliver_missed sending evt missed c sent = (None, c', sent') \<and>
           filter (same_stream evt) sent' = filter (same_stream evt) sent"
  using assms(2-)
proof (induction missed arbitrary: c sent)
  case (Cons m missed)
  show ?case
  proof (cases "Cursor_SeenEvent c (Some m) \<or> DurableEventAtOrAfter (Some m) (Some evt)")
    case True
    with Cons show ?thesis by simp
  next
    case False
    then have other: "\<not> same_stream evt m"
      using Cons.prems assms(1) by (auto simp: seen_positioned not_after_positioned)
    then have "behind (Cursor_ObserveEvent c (Some m)) evt = behind c evt" by (auto simp: cursor_offset_observe)
    with Cons.IH[of "Cursor_ObserveEvent c (Some m)" "sent @ [m]"] Cons.prems False other show ?thesis
      by (auto simp: recording_None)
  qed
qed simp

lemma gap_when_known:
  assumes "positioned evt" "0 < behind c evt" "behind c evt < ev_PartitionOffset evt" "ev_PartitionOffset evt \<le> maxInt64"
  shows "Cursor_PartitionGapBeforeEvent c (Some evt) \<longleftrightarrow> ev_PartitionOffset evt \<noteq> behind c evt + 1"
proof -
  have "wrap64 (behind c evt + 1) = behind c evt + 1" using assms by (intro wrap64_Suc) auto
  with assms show ?thesis by (auto simp: Cursor_PartitionGapBeforeEvent_def positioned_def case_prod_unfold)
qed

lemma known_partitions: "0 < cursor_offset c kind key \<Longrightarrow> cu_Partitions c \<noteq> []"
  by (auto simp: Cursor_PartitionOffset_def)

lemma ahead_unseen:
  "positioned evt \<Longrightarrow> 0 < behind c evt \<Longrightarrow> behind c evt < ev_PartitionOffset evt \<Longrightarrow> \<not> Cursor_SeenEvent c (Some evt)"
  by (simp add: seen_positioned)

lemma row_ahead_PartitionOnly [simp]: "row_ahead scopes (Cursor_PartitionOnly c) = row_ahead scopes c"
  by (rule ext) (simp add: row_ahead_def Cursor_PartitionOnly_def)

text \<open>What the repair sends in the partition of the live event.\<close>

lemma repair_gap_sends:
  assumes db: "event_db_ok db table" and dec: "rows_decode jc table" and tab: "table_ok table" and c: "cursor_ok c"
    and evt: "positioned evt" "0 < behind c evt" "behind c evt < ev_PartitionOffset evt" "ev_PartitionOffset evt \<le> maxInt64"
    and few: "int (length (filter (row_ahead scopes c) table)) \<le> gapReplayLimit"
  obtains c' sent where
    "repair_gap (\<lambda>c. Core_ReplayCursor db jc c scopes gapReplayLimit) sending onErr evt c [] = (None, c', sent)"
    "sorted_wrt (<) (map ev_PartitionOffset (filter (same_stream evt) sent))"
    "set (filter (same_stream evt) sent) =
       stored jc ` {r \<in> set table. row_matches scopes r \<and> row_partition r = event_partition evt \<and>
                      behind c evt < er_partition_offset r \<and> er_partition_offset r < ev_PartitionOffset evt}"
proof (cases "ev_PartitionOffset evt = behind c evt + 1")
  case True
  then have "\<not> Cursor_PartitionGapBeforeEvent c (Some evt)" using evt gap_when_known by blast
  moreover have "\<exists>c' sent. repair_gap (\<lambda>c. Core_ReplayCursor db jc c scopes gapReplayLimit) sending onErr evt c [] = (None, c', sent) \<and>
      filter (same_stream evt) sent = []"
  proof (cases "Cursor_ScalarGapBeforeEvent c (Some evt)")
    case gap: True
    then have "0 < cu_Seq c" by (auto simp: Cursor_ScalarGapBeforeEvent_def split: if_splits)
    moreover have "rows_decode jc (sort_key er_seq (filter (\<lambda>r. er_seq r > a) table))" for a
      using dec by (auto simp: rows_decode_def)
    ultimately obtain missed where "Core_ReplayCursor db jc c scopes gapReplayLimit = Inr missed"
      using db by (auto simp: Core_ReplayCursor_def Core_Replay_def replayEvents_def event_db_ok_def scan_rows gapReplayLimit_def)
    with deliver_missed_adjacent[OF evt(1,2) True, of missed "[]"] gap \<open>\<not> Cursor_PartitionGapBeforeEvent c (Some evt)\<close>
    show ?thesis by (auto simp: repair_gap_def)
  qed (simp add: repair_gap_def \<open>\<not> Cursor_PartitionGapBeforeEvent c (Some evt)\<close>)
  moreover have "{r \<in> set table. row_matches scopes r \<and> row_partition r = event_partition evt \<and>
      behind c evt < er_partition_offset r \<and> er_partition_offset r < ev_PartitionOffset evt} = {}" using True by auto
  ultimately show thesis using that by (elim exE conjE) (simp only: list.set image_empty list.map sorted_wrt.simps)
next
  case False
  then have gap: "Cursor_PartitionGapBeforeEvent c (Some evt)" using evt gap_when_known by blast
  let ?c = "Cursor_PartitionOnly c"
  have c': "cu_Seq ?c = 0" "cu_Partitions ?c \<noteq> []" "cursor_ok ?c" "0 < gapReplayLimit"
    using c known_partitions[OF evt(2)] by (simp_all add: cursor_ok_def Cursor_PartitionOnly_def gapReplayLimit_def)
  have few': "int (length (filter (row_ahead scopes ?c) table)) \<le> gapReplayLimit" using few by simp
  obtain missed where missed: "Core_ReplayCursor db jc ?c scopes gapReplayLimit = Inr missed"
    "mset missed = image_mset (stored jc) (mset (filter (row_ahead scopes c) table))"
    "sorted_wrt (\<lambda>a b. \<not> replay_less b a) missed"
    by (rule replay_cursor_complete[OF db dec tab c' few']) simp
  from missed(2) have members: "set missed = stored jc ` {r \<in> set table. row_ahead scopes c r}"
    by (simp flip: set_mset_mset)
  have sorted: "sorted_wrt (<) (map ev_PartitionOffset (filter (same_stream evt) missed))"
    by (rule missed_by_offset[OF tab missed(2,3)])
  from members have "behind c evt < ev_PartitionOffset m" if "m \<in> set missed" "same_stream evt m" for m
    using that by (auto simp: row_ahead_def)
  from deliver_missed_sends[OF evt(1,2) this sorted, of "[]"] obtain c' sent
    where "deliver_missed sending evt missed c [] = (None, c', sent)"
      and sent: "filter (same_stream evt) sent = filter (\<lambda>m. same_stream evt m \<and> ev_PartitionOffset m < ev_PartitionOffset evt) missed"
    unfolding filter.simps append_Nil by blast
  then have "repair_gap (\<lambda>c. Core_ReplayCursor db jc c scopes gapReplayLimit) sending onErr evt c [] = (None, c', sent)"
    using gap missed(1) by (simp add: repair_gap_def)
  moreover have "sorted_wrt (<) (map ev_PartitionOffset (filter (same_stream evt) sent))"
  proof -
    have "sorted_wrt (\<lambda>a b. ev_PartitionOffset a < ev_PartitionOffset b)
        (filter (\<lambda>m. ev_PartitionOffset m < ev_PartitionOffset evt) (filter (same_stream evt) missed))"
      by (rule sorted_wrt_filter) (simp only: sorted[unfolded sorted_wrt_map])
    then show ?thesis unfolding sent sorted_wrt_map by (simp add: conj_ac)
  qed
  moreover have "set (filter (same_stream evt) sent) =
      stored jc ` {r \<in> set table. row_matches scopes r \<and> row_partition r = event_partition evt \<and>
                     behind c evt < er_partition_offset r \<and> er_partition_offset r < ev_PartitionOffset evt}"
    unfolding sent using members stored_positioned[OF tab]
    by (auto simp: row_ahead_def event_partition_def)
  ultimately show thesis by (rule that)
qed

text \<open>
  C10: Gap repair loses nothing. Let the database hold the events, with at most 1000 of them ahead of the cursor. When a
  durable event arrives in a partition the cursor knows, whatever was dropped in between, the stream sends, in that
  partition, every stored event between the cursor and the live event that matches the scopes, in the order of their
  offsets, and then the live event.
\<close>

theorem gap_repair_complete:
  assumes "event_db_ok db table" "rows_decode jc table" "table_ok table" "cursor_ok c"
    and evt: "Event_IsDurable evt" "eventHasPartitionOffset evt" "ev_PartitionOffset evt \<le> maxInt64"
      "Cursor_PartitionOffset c (ev_PartitionKind evt) (ev_PartitionKey evt) = (n, True)" "n < ev_PartitionOffset evt"
    and "int (length (filter (row_ahead scopes c) table)) \<le> gapReplayLimit"
  shows "\<exists>c' sent missed.
           DeliverWithGapRepair db jc (Some c) evt scopes (recording (\<lambda>_ _. None)) onErr [] = (None, Some c', sent) \<and>
           filter (in_stream (ev_PartitionKind evt) (ev_PartitionKey evt)) sent = missed @ [evt] \<and>
           sorted_wrt (<) (map ev_PartitionOffset missed) \<and>
           set missed = stored jc ` {r \<in> set table. row_matches scopes r \<and> row_partition r = event_partition evt \<and>
                                       n < er_partition_offset r \<and> er_partition_offset r < ev_PartitionOffset evt}"
proof -
  have n: "behind c evt = n" and "0 < behind c evt"
    using cursor_known[of c "ev_PartitionKind evt" "ev_PartitionKey evt"] by (simp_all add: evt(4) del: cursor_known)
  then have pos: "positioned evt" "0 < behind c evt" "behind c evt < ev_PartitionOffset evt"
    using evt by (simp_all add: positioned_def)
  obtain c' sent where repair:
    "repair_gap (\<lambda>c. Core_ReplayCursor db jc c scopes gapReplayLimit) sending onErr evt c [] = (None, c', sent)"
    and sent: "sorted_wrt (<) (map ev_PartitionOffset (filter (same_stream evt) sent))"
      "set (filter (same_stream evt) sent) =
        stored jc ` {r \<in> set table. row_matches scopes r \<and> row_partition r = event_partition evt \<and>
                       behind c evt < er_partition_offset r \<and> er_partition_offset r < ev_PartitionOffset evt}"
    by (rule repair_gap_sends[OF assms(1-4) pos evt(3) assms(10)])
  have "DeliverWithGapRepair db jc (Some c) evt scopes sending onErr [] =
      (None, Some (Cursor_ObserveEvent c' (Some evt)), sent @ [evt])"
    using evt(1) ahead_unseen[OF pos] by (simp add: DeliverWithGapRepair_def deliver_at_def repair recording_None)
  moreover have "filter (same_stream evt) (sent @ [evt]) = filter (same_stream evt) sent @ [evt]"
    using pos(1) by simp
  ultimately show ?thesis using sent unfolding n by blast
qed

text \<open>A database that answers from a table, and a small table: one thread, and one event of a board.\<close>

definition table_db :: "event_row list \<Rightarrow> event_db" where
  "table_db table =
     \<lparr>db_selectAfter = (\<lambda>a. Inr (map Inr (sort_key er_seq (filter (\<lambda>r. er_seq r > a) table)), None)),
      db_selectPartition = (\<lambda>kind key a. Inr (map Inr (sort_key (\<lambda>r. (er_partition_offset r, er_seq r))
        (filter (\<lambda>r. row_partition r = Partition kind key \<and> er_partition_offset r > a) table)), None)),
      db_selectOffsets = (\<lambda>limit. Inr (map Inr ((case limit of None \<Rightarrow> id | Some n \<Rightarrow> take (nat n))
        (map (\<lambda>r. (er_partition_kind r, er_partition_key r, er_partition_offset r)) table)), None)),
      db_selectMaxSeq = Inr (if table = [] then None else Some (Max (er_seq ` set table)))\<rparr>"

lemma table_db_ok: "event_db_ok (table_db table) table"
  unfolding event_db_ok_def table_db_def
  by (force intro!: exI[of _ "map (\<lambda>r. (er_partition_kind r, er_partition_key r, er_partition_offset r)) table"])

definition sample_row :: "string \<Rightarrow> string \<Rightarrow> int \<Rightarrow> int \<Rightarrow> event_row" where
  "sample_row kind key seq offset =
     \<lparr>er_id = ''evt'', er_seq = seq, er_kind = ''post.appended'', er_scopes = ''board:b1'', er_payload = ''{}'', er_ts = 0,
      er_partition_kind = kind, er_partition_key = key, er_partition_offset = offset\<rparr>"

lemma sample_row_simps [simp]:
  "er_seq (sample_row kind key seq offset) = seq" "er_kind (sample_row kind key seq offset) = ''post.appended''"
  "er_partition_kind (sample_row kind key seq offset) = kind" "er_partition_key (sample_row kind key seq offset) = key"
  "er_partition_offset (sample_row kind key seq offset) = offset" "er_payload (sample_row kind key seq offset) = ''{}''"
  by (simp_all add: sample_row_def)

lemma sample_row_durable [simp]: "''post.appended'' \<in> set durableEventKinds"
  by (simp add: durableEventKinds_def)

definition sample_rows :: "event_row list" where
  "sample_rows = [sample_row ''thread'' ''t1'' 1 1, sample_row ''thread'' ''t1'' 2 2,
                  sample_row ''board'' ''b1'' 3 1, sample_row ''thread'' ''t1'' 4 3]"

definition thread_cursor :: "int \<Rightarrow> int \<Rightarrow> cursor" where
  "thread_cursor seq offset =
     \<lparr>cu_Seq = seq, cu_Partitions = [\<lparr>pc_Kind = ''thread'', pc_Key = ''t1'', pc_Offset = offset\<rparr>]\<rparr>"

lemma thread_cursor_offset: "0 < offset \<Longrightarrow> Cursor_PartitionOffset (thread_cursor seq offset) ''thread'' ''t1'' = (offset, True)"
  by (simp add: thread_cursor_def Cursor_PartitionOffset_def)

lemma thread_cursor_ok: "cursor_ok (thread_cursor seq offset)"
  by (simp add: cursor_ok_def thread_cursor_def)

lemma raw_rows_decode: "rows_decode raw_codec table"
  by (simp add: rows_decode_def raw_codec_def)

lemma sample_row_event:
  "0 < offset \<Longrightarrow> Event_IsDurable (stored jc (sample_row ''thread'' ''t1'' seq offset)) \<and>
     eventHasPartitionOffset (stored jc (sample_row ''thread'' ''t1'' seq offset))"
  by (simp add: Event_IsDurable_def eventHasPartitionOffset_def)

theorem gap_repair_complete_witness:
  "\<exists>c' sent missed.
     DeliverWithGapRepair (table_db sample_rows) raw_codec (Some (thread_cursor 1 1))
       (stored raw_codec (sample_row ''thread'' ''t1'' 4 3)) None (recording (\<lambda>_ _. None)) Some [] = (None, Some c', sent) \<and>
     filter (in_stream ''thread'' ''t1'') sent = missed @ [stored raw_codec (sample_row ''thread'' ''t1'' 4 3)] \<and>
     set missed = {stored raw_codec (sample_row ''thread'' ''t1'' 2 2)}"
proof -
  have tab: "table_ok sample_rows"
    by (auto simp: table_ok_def sample_rows_def sample_row_def durableEventKinds_def)
  have few: "int (length (filter (row_ahead None (thread_cursor 1 1)) sample_rows)) \<le> gapReplayLimit"
    using length_filter_le[of "row_ahead None (thread_cursor 1 1)" sample_rows]
    by (simp add: gapReplayLimit_def sample_rows_def[THEN arg_cong[where f = length]])
  have rows: "{r \<in> set sample_rows. row_matches None r \<and> er_partition_kind r = ''thread'' \<and> er_partition_key r = ''t1'' \<and>
      1 < er_partition_offset r \<and> er_partition_offset r < 3} = {sample_row ''thread'' ''t1'' 2 2}"
    by (auto simp: sample_rows_def row_matches_def)
  show ?thesis
    using gap_repair_complete[OF table_db_ok raw_rows_decode tab thread_cursor_ok _ _ _ _ _ few,
        of "stored raw_codec (sample_row ''thread'' ''t1'' 4 3)" 1 Some]
      sample_row_event[of 3 raw_codec 4] thread_cursor_offset[of 1 1]
    by (simp add: event_partition_def rows maxInt64_def) blast
qed

section \<open>Where gap repair loses events\<close>

text \<open>
  C23: A failed repair is not retried. When the replay of a gap fails, the WebSocket connection sends the live event and
  moves its cursor past the gap: every event of the gap then counts as seen, and the next event of the partition shows no
  gap. The comment on \<open>deliverEvent\<close> says the gap stays visible so that a later event retries the repair.
\<close>

theorem failed_repair_hides_gap:
  fixes evt :: "'p event"
  assumes "db_selectOffsets db None = Inl err"
    and evt: "Event_IsDurable evt" "eventHasPartitionOffset evt" "ev_PartitionOffset evt < maxInt64"
      "Cursor_PartitionOffset c (ev_PartitionKind evt) (ev_PartitionKey evt) = (n, True)" "n + 1 < ev_PartitionOffset evt"
  shows "\<exists>c'. wsConn_deliverEvent db jc (recording (\<lambda>_ _. None)) evt scopes c [] = (None, Some c', [evt]) \<and>
           (\<forall>m :: 'p event. in_stream (ev_PartitionKind evt) (ev_PartitionKey evt) m \<longrightarrow>
              (Cursor_SeenEvent c' (Some m) \<longleftrightarrow> ev_PartitionOffset m \<le> ev_PartitionOffset evt) \<and>
              (ev_PartitionOffset m = ev_PartitionOffset evt + 1 \<longrightarrow> \<not> Cursor_PartitionGapBeforeEvent c' (Some m)))"
proof -
  let ?c = "Cursor_ObserveEvent c (Some evt)"
  have n: "behind c evt = n" and "0 < behind c evt"
    using cursor_known[of c "ev_PartitionKind evt" "ev_PartitionKey evt"] by (simp_all add: evt(4) del: cursor_known)
  then have pos: "positioned evt" "0 < behind c evt" "behind c evt < ev_PartitionOffset evt"
    using evt by (simp_all add: positioned_def)
  have "Cursor_PartitionGapBeforeEvent c (Some evt)" using gap_when_known[OF pos] evt n by simp
  moreover have "Core_ReplayCursor db jc (Cursor_PartitionOnly c) scopes gapReplayLimit = Inl err"
    using known_partitions[OF pos(2)] assms(1)
    by (simp add: Core_ReplayCursor_def Cursor_PartitionOnly_def listEventPartitionOffsets_def
        SQLEventStore_ListEventPartitionOffsets_def query_limit_def)
  ultimately have "wsConn_deliverEvent db jc sending evt scopes c [] = (None, Some ?c, [evt])"
    using evt(1) ahead_unseen[OF pos]
    by (simp add: wsConn_deliverEvent_def DeliverWithGapRepair_def deliver_at_def repair_gap_def recording_None)
  moreover have at: "behind ?c m = ev_PartitionOffset evt" if "same_stream evt m" for m
    using that pos by (simp add: cursor_offset_observe)
  have "Cursor_SeenEvent ?c (Some m) \<longleftrightarrow> ev_PartitionOffset m \<le> ev_PartitionOffset evt" if "same_stream evt m" for m
    using that at[OF that] pos by (simp add: seen_positioned)
  moreover have "\<not> Cursor_PartitionGapBeforeEvent ?c (Some m)"
    if "same_stream evt m" "ev_PartitionOffset m = ev_PartitionOffset evt + 1" for m
    using gap_when_known[of m ?c] at[OF that(1)] that pos evt(3) by simp
  ultimately show ?thesis by blast
qed

definition no_rows_db :: event_db where
  "no_rows_db = (table_db sample_rows)\<lparr>db_selectOffsets := (\<lambda>_. Inl (Errorf ''connection lost'' []))\<rparr>"

theorem failed_repair_hides_gap_witness:
  "\<exists>c'. wsConn_deliverEvent no_rows_db raw_codec (recording (\<lambda>_ _. None)) (stored raw_codec (sample_row ''thread'' ''t1'' 4 3))
          None (thread_cursor 1 1) [] = (None, Some c', [stored raw_codec (sample_row ''thread'' ''t1'' 4 3)]) \<and>
        Cursor_SeenEvent c' (Some (stored raw_codec (sample_row ''thread'' ''t1'' 2 2)))"
proof -
  have "db_selectOffsets no_rows_db None = Inl (Errorf ''connection lost'' [])" by (simp add: no_rows_db_def)
  from failed_repair_hides_gap[OF this, of "stored raw_codec (sample_row ''thread'' ''t1'' 4 3)" "thread_cursor 1 1" 1 raw_codec None]
  show ?thesis
    using sample_row_event[of 3 raw_codec 4] sample_row_event[of 2 raw_codec 2] thread_cursor_offset[of 1 1]
    by (auto simp: maxInt64_def positioned_def)
qed

lemma length_filter_concat_ge: "q \<in> set ps \<Longrightarrow> length (filter P (f q)) \<le> length (filter P (concat (map f ps)))"
  by (induction ps) auto

lemma length_filter_slice_stable: "length (filter P (slice_stable lt xs)) = length (filter P xs)"
  by (metis mset_filter mset_slice_stable size_mset)

lemma take_sorted_below:
  fixes f :: "'a \<Rightarrow> int"
  assumes "sorted (map f xs)" "n \<le> length (filter (\<lambda>x. f x \<le> t) xs)" "x \<in> set (take n xs)"
  shows "f x \<le> t"
  using assms
proof (induction xs arbitrary: n)
  case (Cons a xs)
  show ?case
  proof (cases "f a \<le> t")
    case True
    with Cons.prems Cons.IH[of "n - 1"] show ?thesis by (cases n) auto
  next
    case False
    with Cons.prems(1) have "filter (\<lambda>x. f x \<le> t) (a # xs) = []" by (auto simp: filter_empty_conv)
    with Cons.prems(2) have "n = 0" by (simp only: list.size le_zero_eq)
    with Cons.prems(3) show ?thesis by simp
  qed
qed simp

lemma deliver_missed_seen:
  "(\<And>m. m \<in> set missed \<Longrightarrow> Cursor_SeenEvent c (Some m)) \<Longrightarrow> deliver_missed deliver evt missed c t = (None, c, t)"
  by (induction missed) auto

text \<open>The rows a replay from a partition-only cursor returns, when the oldest of them fill the limit.\<close>

lemma replay_cursor_oldest:
  assumes db: "event_db_ok db table" and dec: "rows_decode jc table" and tab: "table_ok table"
    and c: "cu_Seq c = 0" "cu_Partitions c \<noteq> []" "cursor_ok c" and limit: "0 < limit"
    and q: "cursor_offset c (pKind q) (pKey q) = 0" "\<And>r. r \<in> set table \<Longrightarrow> row_partition r = q \<Longrightarrow> er_seq r \<le> t"
      "limit \<le> int (length (filter (\<lambda>r. row_matches scopes r \<and> row_partition r = q) table))"
  obtains missed where "Core_ReplayCursor db jc c scopes limit = Inr missed"
    "\<And>m. m \<in> set missed \<Longrightarrow> \<exists>r \<in> set table. m = stored jc r \<and> row_ahead scopes c r \<and> er_seq r \<le> t"
proof -
  obtain ps where ps: "distinct ps" "\<And>r. r \<in> set table \<Longrightarrow> row_partition r \<in> set ps"
    and replay: "Core_ReplayCursor db jc c scopes limit =
       Inr (limit_slice limit (SortEventsByReplayOrder (concat (map (\<lambda>p. limit_slice limit
         (map (stored jc) (partition_rows table scopes p (cursor_offset c (pKind p) (pKey p))))) ps))))"
    using replay_cursor_rows[OF db dec tab c limit] by blast
  let ?rows = "\<lambda>p. partition_rows table scopes p (cursor_offset c (pKind p) (pKey p))"
  let ?batch = "\<lambda>p. limit_slice limit (map (stored jc) (?rows p))"
  let ?all = "SortEventsByReplayOrder (concat (map ?batch ps))"
  have rows: "set (?rows p) = {r \<in> set table. row_partition r = p \<and> row_ahead scopes c r}" for p
    by (metis (no_types, lifting) filter_filter mset_partition_rows set_filter set_mset_mset Collect_cong)
  have members: "\<exists>r \<in> set table. m = stored jc r \<and> row_ahead scopes c r" if "m \<in> set ?all" for m
    using that rows by (auto simp: SortEventsByReplayOrder_def dest!: set_limit_slice)
  have "filter (row_ahead scopes c) (filter (\<lambda>r. row_partition r = q) table) =
      filter (\<lambda>r. row_matches scopes r \<and> row_partition r = q) table"
    using q(1) tab by (auto simp: row_ahead_def table_ok_def intro!: filter_cong)
  then have "length (?rows q) = length (filter (\<lambda>r. row_matches scopes r \<and> row_partition r = q) table)"
    by (metis mset_partition_rows size_mset)
  with q(3) limit have full: "length (?batch q) = nat limit" by (simp add: limit_slice_take)
  from q(3) limit have "0 < length (filter (\<lambda>r. row_matches scopes r \<and> row_partition r = q) table)" by linarith
  then have "q \<in> set ps" using ps(2) by (auto simp: filter_empty_conv)
  moreover have "filter (\<lambda>e. ev_Seq e \<le> t) (?batch q) = ?batch q"
    using rows[of q] q(2) by (auto simp: filter_id_conv dest!: set_limit_slice)
  ultimately have "nat limit \<le> length (filter (\<lambda>e. ev_Seq e \<le> t) (concat (map ?batch ps)))"
    using full length_filter_concat_ge[of q ps "\<lambda>e. ev_Seq e \<le> t" ?batch] by simp
  then have many: "nat limit \<le> length (filter (\<lambda>e. ev_Seq e \<le> t) ?all)"
    by (simp add: SortEventsByReplayOrder_def length_filter_slice_stable)
  have "sorted (map ev_Seq ?all)"
    using replay_order.sorted_slice_stable[of "concat (map ?batch ps)"] unfolding SortEventsByReplayOrder_def sorted_wrt_map
    by (rule sorted_wrt_mono_rel[rotated]) (auto simp: replay_less_def split: if_splits)
  then have "ev_Seq m \<le> t" if "m \<in> set (take (nat limit) ?all)" for m
    using many that by (rule take_sorted_below)
  with members limit show thesis
    using that[of "take (nat limit) ?all"] replay by (fastforce simp: limit_slice_take dest: in_set_takeD)
qed

text \<open>
  C22: Old events of unknown partitions can use up the repair. The replay of a partition gap starts at the beginning of
  every partition that the cursor does not name, and the limit of 1000 events is applied to the oldest events before
  those the cursor has seen are skipped. With 1000 old events in one such partition and a cursor that is otherwise up to
  date, the repair sends nothing, the live event is sent and every missing event counts as seen from then on.
\<close>

theorem gap_repair_starved:
  assumes db: "event_db_ok db table" "rows_decode jc table" "table_ok table" and c: "cursor_ok c"
    and evt: "Event_IsDurable evt" "eventHasPartitionOffset evt" "ev_PartitionOffset evt \<le> maxInt64"
      "Cursor_PartitionOffset c (ev_PartitionKind evt) (ev_PartitionKey evt) = (n, True)" "n + 1 < ev_PartitionOffset evt"
    and old: "Cursor_PartitionOffset c (pKind q) (pKey q) = (0, False)"
      "\<forall>r \<in> set table. row_partition r = q \<longrightarrow> er_seq r \<le> cu_Seq c"
      "gapReplayLimit \<le> int (length (filter (\<lambda>r. row_matches scopes r \<and> row_partition r = q) table))"
    and current: "\<forall>r \<in> set table. row_ahead scopes c r \<longrightarrow>
      0 < fst (Cursor_PartitionOffset c (er_partition_kind r) (er_partition_key r)) \<longrightarrow> cu_Seq c < er_seq r"
  shows "\<exists>c'. DeliverWithGapRepair db jc (Some c) evt scopes (recording (\<lambda>_ _. None)) onErr [] = (None, Some c', [evt]) \<and>
           (\<forall>r \<in> set table. row_partition r = event_partition evt \<longrightarrow> er_partition_offset r \<le> ev_PartitionOffset evt \<longrightarrow>
              Cursor_SeenEvent c' (Some (stored jc r)))"
proof -
  let ?c = "Cursor_ObserveEvent c (Some evt)" and ?p = "Cursor_PartitionOnly c"
  have n: "behind c evt = n" and "0 < behind c evt"
    using cursor_known[of c "ev_PartitionKind evt" "ev_PartitionKey evt"] by (simp_all add: evt(4) del: cursor_known)
  then have pos: "positioned evt" "0 < behind c evt" "behind c evt < ev_PartitionOffset evt"
    using evt by (simp_all add: positioned_def)
  have p: "cu_Seq ?p = 0" "cu_Partitions ?p \<noteq> []" "cursor_ok ?p" "0 < gapReplayLimit"
      "cursor_offset ?p (pKind q) (pKey q) = 0"
    using c known_partitions[OF pos(2)] old(1) by (simp_all add: cursor_ok_def Cursor_PartitionOnly_def gapReplayLimit_def)
  obtain missed where missed: "Core_ReplayCursor db jc ?p scopes gapReplayLimit = Inr missed"
    "\<And>m. m \<in> set missed \<Longrightarrow> \<exists>r \<in> set table. m = stored jc r \<and> row_ahead scopes ?p r \<and> er_seq r \<le> cu_Seq c"
    by (rule replay_cursor_oldest[OF db p(1-5) _ old(3), where t = "cu_Seq c"]) (use old(2) in blast)+
  have "Cursor_SeenEvent c (Some m)" if m: "m \<in> set missed" for m
  proof -
    from missed(2)[OF m] obtain r where r: "r \<in> set table" "m = stored jc r" "row_ahead scopes c r" "er_seq r \<le> cu_Seq c" by auto
    with current have "\<not> 0 < cursor_offset c (er_partition_kind r) (er_partition_key r)" by force
    moreover from r(1) db(3) have "0 < er_seq r" by (simp add: table_ok_def)
    ultimately show ?thesis
      using r stored_positioned[OF db(3) r(1), of jc]
      by (simp add: Cursor_SeenEvent_def positioned_def case_prod_unfold)
  qed
  then have "deliver_missed sending evt missed c [] = (None, c, [])" by (rule deliver_missed_seen)
  moreover have "Cursor_PartitionGapBeforeEvent c (Some evt)" using gap_when_known[OF pos evt(3)] evt(5) n by simp
  ultimately have "DeliverWithGapRepair db jc (Some c) evt scopes sending onErr [] = (None, Some ?c, [evt])"
    using evt(1) ahead_unseen[OF pos] missed(1)
    by (simp add: DeliverWithGapRepair_def deliver_at_def repair_gap_def recording_None)
  moreover have "Cursor_SeenEvent ?c (Some (stored jc r))"
    if "r \<in> set table" "row_partition r = event_partition evt" "er_partition_offset r \<le> ev_PartitionOffset evt" for r
    using that pos stored_positioned[OF db(3) that(1), of jc]
    by (auto simp: seen_positioned cursor_offset_observe event_partition_def)
  ultimately show ?thesis by blast
qed

text \<open>A thousand events of a board, and a subscriber who has only seen the first event of a thread.\<close>

definition busy_rows :: "nat \<Rightarrow> event_row list" where
  "busy_rows n = map (\<lambda>i. sample_row ''board'' ''b1'' (int i) (int i)) [1..<Suc n] @
     map (\<lambda>i. sample_row ''thread'' ''t1'' (int (n + i)) (int i)) [1..<4]"

lemma set_busy_rows:
  "r \<in> set (busy_rows n) \<longleftrightarrow>
     (\<exists>i. 1 \<le> i \<and> i \<le> n \<and> r = sample_row ''board'' ''b1'' (int i) (int i)) \<or>
     (\<exists>i. 1 \<le> i \<and> i < 4 \<and> r = sample_row ''thread'' ''t1'' (int (n + i)) (int i))"
  by (auto simp: busy_rows_def simp del: upt_Suc upt_rec_numeral)

lemma sample_row_eq [simp]:
  "sample_row kind key seq offset = sample_row kind' key' seq' offset' \<longleftrightarrow>
     kind = kind' \<and> key = key' \<and> seq = seq' \<and> offset = offset'"
  by (auto simp: sample_row_def)

lemma busy_rows_ok: "table_ok (busy_rows n)"
proof -
  have "distinct (busy_rows n)"
    by (auto simp: busy_rows_def distinct_map inj_on_def simp del: upt_Suc upt_rec_numeral)
  then show ?thesis by (auto simp: table_ok_def set_busy_rows)
qed

lemma busy_board_rows:
  "length (filter (\<lambda>r. row_matches None r \<and> row_partition r = Partition ''board'' ''b1'') (busy_rows n)) = n"
proof -
  have "filter (\<lambda>r. row_matches None r \<and> row_partition r = Partition ''board'' ''b1'') (busy_rows n) =
      map (\<lambda>i. sample_row ''board'' ''b1'' (int i) (int i)) [1..<Suc n]"
    by (simp add: busy_rows_def row_matches_def filter_map comp_def del: upt_Suc upt_rec_numeral)
  then show ?thesis by simp
qed

theorem gap_repair_starved_witness:
  "sample_row ''thread'' ''t1'' 1002 2 \<in> set (busy_rows 1000) \<and>
   (\<exists>c'. DeliverWithGapRepair (table_db (busy_rows 1000)) raw_codec (Some (thread_cursor 1001 1))
           (stored raw_codec (sample_row ''thread'' ''t1'' 1003 3)) None (recording (\<lambda>_ _. None)) Some [] =
             (None, Some c', [stored raw_codec (sample_row ''thread'' ''t1'' 1003 3)]) \<and>
         Cursor_SeenEvent c' (Some (stored raw_codec (sample_row ''thread'' ''t1'' 1002 2))))"
proof -
  let ?e = "stored raw_codec (sample_row ''thread'' ''t1'' 1003 3)" and ?c = "thread_cursor 1001 1"
  have row: "sample_row ''thread'' ''t1'' 1002 2 \<in> set (busy_rows 1000)"
    unfolding set_busy_rows by (intro disjI2 exI[of _ 2]) simp
  have limit: "gapReplayLimit \<le> int (length (filter (\<lambda>r. row_matches None r \<and>
      row_partition r = Partition ''board'' ''b1'') (busy_rows 1000)))"
    unfolding busy_board_rows by (simp add: gapReplayLimit_def)
  have q: "Cursor_PartitionOffset ?c (pKind (Partition ''board'' ''b1'')) (pKey (Partition ''board'' ''b1'')) = (0, False)"
    by (simp add: thread_cursor_def Cursor_PartitionOffset_def)
  have old: "\<forall>r \<in> set (busy_rows 1000). row_partition r = Partition ''board'' ''b1'' \<longrightarrow> er_seq r \<le> cu_Seq ?c"
    by (auto simp: set_busy_rows thread_cursor_def)
  have current: "\<forall>r \<in> set (busy_rows 1000). row_ahead None ?c r \<longrightarrow>
      0 < fst (Cursor_PartitionOffset ?c (er_partition_kind r) (er_partition_key r)) \<longrightarrow> cu_Seq ?c < er_seq r"
  proof (intro ballI impI)
    fix r
    assume "r \<in> set (busy_rows 1000)" "row_ahead None ?c r"
      "0 < fst (Cursor_PartitionOffset ?c (er_partition_kind r) (er_partition_key r))"
    then show "cu_Seq ?c < er_seq r"
      by (elim set_busy_rows[THEN iffD1, THEN disjE] exE conjE)
        (simp_all add: row_ahead_def thread_cursor_def Cursor_PartitionOffset_def)
  qed
  show ?thesis
    using row gap_repair_starved[OF table_db_ok raw_rows_decode busy_rows_ok thread_cursor_ok _ _ _ _ _ q old limit current, of ?e 1 Some]
      sample_row_event[of 3 raw_codec 1003] thread_cursor_offset[of 1 1001]
    by (fastforce simp: maxInt64_def event_partition_def)
qed

text \<open>A stream that misses the second event of the thread, gets the third twice and the first late.\<close>

definition sample_live :: "string event list" where
  "sample_live = map (\<lambda>i. stored raw_codec (sample_row ''thread'' ''t1'' i i)) [3, 3, 1]"

theorem stream_exactly_in_order_witness:
  "\<exists>c' sent.
     stream_loop (\<lambda>c e. deliverSSEEvent no_rows_db raw_codec (recording (\<lambda>_ _. None)) e None c) sample_live (thread_cursor 2 2) [] =
       (c', sent) \<and>
     sorted_wrt (<) (map ev_PartitionOffset (filter (in_stream ''thread'' ''t1'') sent)) \<and>
     (\<forall>e \<in> set sent. in_stream ''thread'' ''t1'' e \<longrightarrow> 2 < ev_PartitionOffset e \<and> Cursor_SeenEvent c' (Some e))"
proof -
  let ?step = "\<lambda>c e. deliverSSEEvent no_rows_db raw_codec (recording (\<lambda>_ _. None)) e None c"
  obtain c' sent where run: "stream_loop ?step sample_live (thread_cursor 2 2) [] = (c', sent)" by fastforce
  have step: "?step \<in> {?step, \<lambda>c e. wsConn_deliverEvent no_rows_db raw_codec (recording (\<lambda>_ _. None)) e None c}" by simp
  from stream_exactly_in_order[OF step run, of "''thread''" "''t1''"] run thread_cursor_offset[of 2 2]
  show ?thesis by auto
qed

end
