(* ===== verification/Event_Bus.thy ===== *)
theory Event_Bus
  imports Stream_Cursor
begin

text \<open>
  The in-process event bus (\<open>MemBus\<close> of \<open>internal/core/pubsub.go\<close>): subscriptions with a bounded buffer, scopes that
  change while a subscription is live, and publishing that drops instead of blocking. A pointer to a subscription is a
  number and the heap maps it to its contents. A send on a closed channel panics: that is \<open>None\<close>.

  The second half is the bus under concurrent use. The locks of the source make every bus operation, every send and every
  receive one step; a publish is a snapshot of the subscriptions followed by one send per subscription, and the steps of
  other goroutines fall in between.
\<close>

section \<open>The bus\<close>

record 'p subscription =
  su_Ch :: "'p event list"
  su_cap :: nat
  su_closed :: bool
  su_scopes :: "string list"

record 'p mem_bus =
  mb_subs :: "nat list"
  mb_subscriptionBuffer :: int
  mb_heap :: "nat \<Rightarrow> 'p subscription option"
  mb_next :: nat

definition defaultSubscriptionBuffer :: int where
  "defaultSubscriptionBuffer = 512"

definition NewMemBusWithBuffer :: "int \<Rightarrow> 'p mem_bus" where
  "NewMemBusWithBuffer bufferSize =
     \<lparr>mb_subs = [], mb_subscriptionBuffer = (if bufferSize \<le> 0 then defaultSubscriptionBuffer else bufferSize),
      mb_heap = (\<lambda>p. None), mb_next = 0\<rparr>"

definition NewMemBus :: "'p mem_bus" where
  "NewMemBus = NewMemBusWithBuffer defaultSubscriptionBuffer"

definition hasScope :: "'p subscription \<Rightarrow> string \<Rightarrow> bool" where
  "hasScope s scope \<longleftrightarrow> scope \<in> set (su_scopes s)"

fun add_scopes :: "string list \<Rightarrow> string list \<Rightarrow> string list" where
  "add_scopes m [] = m"
| "add_scopes m (sc # scs) = add_scopes (List.insert sc m) scs"

fun remove_scopes :: "string list \<Rightarrow> string list \<Rightarrow> string list" where
  "remove_scopes m [] = m"
| "remove_scopes m (sc # scs) = remove_scopes (removeAll sc m) scs"

definition MemBus_Subscribe :: "'p mem_bus \<Rightarrow> string list \<Rightarrow> nat \<times> 'p mem_bus" where
  "MemBus_Subscribe b scopes =
     (let p = mb_next b;
          s = \<lparr>su_Ch = [], su_cap = nat (mb_subscriptionBuffer b), su_closed = False, su_scopes = add_scopes [] scopes\<rparr>
      in (p, b\<lparr>mb_heap := (mb_heap b)(p \<mapsto> s), mb_next := p + 1, mb_subs := mb_subs b @ [p]\<rparr>))"

definition MemBus_Unsubscribe :: "'p mem_bus \<Rightarrow> nat \<Rightarrow> 'p mem_bus option" where
  "MemBus_Unsubscribe b p =
     (if p \<in> set (mb_subs b) then
        (case mb_heap b p of
           None \<Rightarrow> None
         | Some s \<Rightarrow>
             if su_closed s then None
             else Some (b\<lparr>mb_subs := remove1 p (mb_subs b), mb_heap := (mb_heap b)(p \<mapsto> s\<lparr>su_closed := True\<rparr>)\<rparr>))
      else Some b)"

definition MemBus_AddScopes :: "'p mem_bus \<Rightarrow> nat \<Rightarrow> string list \<Rightarrow> 'p mem_bus" where
  "MemBus_AddScopes b p scopes =
     b\<lparr>mb_heap := (mb_heap b)(p := map_option (\<lambda>s. s\<lparr>su_scopes := add_scopes (su_scopes s) scopes\<rparr>) (mb_heap b p))\<rparr>"

definition MemBus_RemoveScopes :: "'p mem_bus \<Rightarrow> nat \<Rightarrow> string list \<Rightarrow> 'p mem_bus" where
  "MemBus_RemoveScopes b p scopes =
     b\<lparr>mb_heap := (mb_heap b)(p := map_option (\<lambda>s. s\<lparr>su_scopes := remove_scopes (su_scopes s) scopes\<rparr>) (mb_heap b p))\<rparr>"

fun matchesAny :: "'p subscription \<Rightarrow> string list \<Rightarrow> bool" where
  "matchesAny s [] = False"
| "matchesAny s (sc # scs) = (if sc \<in> set (su_scopes s) then True else matchesAny s scs)"

text \<open>One turn of the loop of \<open>PublishLocal\<close>: the scope test and the send that does not block.\<close>

definition publish_one :: "'p event \<Rightarrow> 'p mem_bus \<Rightarrow> nat \<Rightarrow> 'p mem_bus option" where
  "publish_one evt b p =
     (case mb_heap b p of
        None \<Rightarrow> None
      | Some s \<Rightarrow>
          if matchesAny s (ev_Scopes evt) then
            if su_closed s then None
            else if length (su_Ch s) < su_cap s
                 then Some (b\<lparr>mb_heap := (mb_heap b)(p \<mapsto> s\<lparr>su_Ch := su_Ch s @ [evt]\<rparr>)\<rparr>)
                 else Some b
          else Some b)"

fun publish_loop :: "'p event \<Rightarrow> nat list \<Rightarrow> 'p mem_bus \<Rightarrow> 'p mem_bus option" where
  "publish_loop evt [] b = Some b"
| "publish_loop evt (p # ps) b = (case publish_one evt b p of None \<Rightarrow> None | Some b \<Rightarrow> publish_loop evt ps b)"

definition MemBus_PublishLocal :: "'p mem_bus \<Rightarrow> 'p event \<Rightarrow> 'p mem_bus option" where
  "MemBus_PublishLocal b evt = (let evt = ensureEventPartition evt in publish_loop evt (mb_subs b) b)"

definition MemBus_Publish :: "'p mem_bus \<Rightarrow> 'p event \<Rightarrow> 'p mem_bus option" where
  "MemBus_Publish b evt = MemBus_PublishLocal b evt"

section \<open>Queue statistics\<close>

record scope_queue_stats =
  sq_Scope :: string
  sq_Subscribers :: nat
  sq_QueueDepthTotal :: nat
  sq_QueueDepthMax :: nat
  sq_QueueCapacityTotal :: nat
  sq_QueueCapacityMax :: nat

record bus_queue_stats =
  bq_Subscribers :: nat
  bq_QueueDepthTotal :: nat
  bq_QueueDepthMax :: nat
  bq_QueueCapacityTotal :: nat
  bq_QueueCapacityMax :: nat
  bq_Scopes :: "scope_queue_stats list"

definition zero_scope_stats :: "string \<Rightarrow> scope_queue_stats" where
  "zero_scope_stats scope =
     \<lparr>sq_Scope = scope, sq_Subscribers = 0, sq_QueueDepthTotal = 0, sq_QueueDepthMax = 0,
      sq_QueueCapacityTotal = 0, sq_QueueCapacityMax = 0\<rparr>"

definition count_scope :: "nat \<Rightarrow> nat \<Rightarrow> scope_queue_stats \<Rightarrow> scope_queue_stats" where
  "count_scope depth capacity st =
     st\<lparr>sq_Subscribers := sq_Subscribers st + 1,
        sq_QueueDepthTotal := sq_QueueDepthTotal st + depth,
        sq_QueueCapacityTotal := sq_QueueCapacityTotal st + capacity,
        sq_QueueDepthMax := (if depth > sq_QueueDepthMax st then depth else sq_QueueDepthMax st),
        sq_QueueCapacityMax := (if capacity > sq_QueueCapacityMax st then capacity else sq_QueueCapacityMax st)\<rparr>"

fun stats_scopes :: "nat \<Rightarrow> nat \<Rightarrow> string list \<Rightarrow> (string, scope_queue_stats) gomap \<Rightarrow> (string, scope_queue_stats) gomap" where
  "stats_scopes depth capacity [] m = m"
| "stats_scopes depth capacity (scope # scopes) m =
     (if scope = [] then stats_scopes depth capacity scopes m
      else stats_scopes depth capacity scopes
             (gm_set scope (count_scope depth capacity (gm_get (zero_scope_stats scope) m scope)) m))"

fun stats_subs ::
  "'p subscription list \<Rightarrow> bus_queue_stats \<Rightarrow> (string, scope_queue_stats) gomap \<Rightarrow> bus_queue_stats \<times> (string, scope_queue_stats) gomap" where
  "stats_subs [] st m = (st, m)"
| "stats_subs (s # ss) st m =
     (let depth = length (su_Ch s); capacity = su_cap s
      in stats_subs ss
           (st\<lparr>bq_QueueDepthTotal := bq_QueueDepthTotal st + depth,
               bq_QueueCapacityTotal := bq_QueueCapacityTotal st + capacity,
               bq_QueueDepthMax := (if depth > bq_QueueDepthMax st then depth else bq_QueueDepthMax st),
               bq_QueueCapacityMax := (if capacity > bq_QueueCapacityMax st then capacity else bq_QueueCapacityMax st)\<rparr>)
           (stats_scopes depth capacity (su_scopes s) m))"

definition MemBus_QueueStats :: "'p mem_bus \<Rightarrow> bus_queue_stats" where
  "MemBus_QueueStats b =
     (let subs = List.map_filter (mb_heap b) (mb_subs b);
          st = \<lparr>bq_Subscribers = length subs, bq_QueueDepthTotal = 0, bq_QueueDepthMax = 0,
                bq_QueueCapacityTotal = 0, bq_QueueCapacityMax = 0, bq_Scopes = []\<rparr>;
          (st, m) = stats_subs subs st []
      in st\<lparr>bq_Scopes := slice_stable (\<lambda>a b. sq_Scope a < sq_Scope b) (map snd m)\<rparr>)"

section \<open>The bus under concurrent use\<close>

text \<open>
  A configuration: the bus and the publishes under way, each with the subscriptions it still has to send to. \<open>None\<close> is a
  process that panicked.
\<close>

type_synonym 'p bus_config = "('p mem_bus \<times> ('p event \<times> nat list) list) option"

inductive bus_step :: "'p bus_config \<Rightarrow> 'p bus_config \<Rightarrow> bool" where
  subscribe: "bus_step (Some (b, pubs)) (Some (snd (MemBus_Subscribe b scopes), pubs))"
| unsubscribe: "bus_step (Some (b, pubs)) (map_option (\<lambda>b. (b, pubs)) (MemBus_Unsubscribe b p))"
| add: "bus_step (Some (b, pubs)) (Some (MemBus_AddScopes b p scopes, pubs))"
| remove: "bus_step (Some (b, pubs)) (Some (MemBus_RemoveScopes b p scopes, pubs))"
| publish: "bus_step (Some (b, pubs)) (Some (b, pubs @ [(ensureEventPartition evt, mb_subs b)]))"
| send: "i < length pubs \<Longrightarrow> pubs ! i = (evt, p # ps) \<Longrightarrow>
    bus_step (Some (b, pubs)) (map_option (\<lambda>b. (b, pubs[i := (evt, ps)])) (publish_one evt b p))"
| receive: "mb_heap b p = Some s \<Longrightarrow> su_Ch s = evt # evts \<Longrightarrow>
    bus_step (Some (b, pubs)) (Some (b\<lparr>mb_heap := (mb_heap b)(p \<mapsto> s\<lparr>su_Ch := evts\<rparr>)\<rparr>, pubs))"

inductive_cases bus_stepE: "bus_step c c'"

section \<open>Invariant\<close>

definition bus_ok :: "'p mem_bus \<Rightarrow> bool" where
  "bus_ok b \<longleftrightarrow>
     distinct (mb_subs b) \<and> 0 < mb_subscriptionBuffer b \<and>
     (\<forall>p. mb_next b \<le> p \<longrightarrow> mb_heap b p = None) \<and>
     (\<forall>p \<in> set (mb_subs b). mb_heap b p \<noteq> None) \<and>
     (\<forall>p s. mb_heap b p = Some s \<longrightarrow>
        (su_closed s \<longleftrightarrow> p \<notin> set (mb_subs b)) \<and> su_cap s = nat (mb_subscriptionBuffer b) \<and> length (su_Ch s) \<le> nat (mb_subscriptionBuffer b))"

lemma bus_okD:
  assumes "bus_ok b"
  shows "distinct (mb_subs b)" "p \<in> set (mb_subs b) \<Longrightarrow> \<exists>s. mb_heap b p = Some s \<and> \<not> su_closed s"
    "mb_heap b p = Some s \<Longrightarrow> length (su_Ch s) \<le> su_cap s" "mb_heap b (mb_next b) = None"
    "p \<in> set (mb_subs b) \<Longrightarrow> p \<noteq> mb_next b"
  using assms unfolding bus_ok_def by (simp, metis not_None_eq, metis, simp, metis order_refl)

lemma NewMemBusWithBuffer_ok: "bus_ok (NewMemBusWithBuffer n)"
  by (simp add: bus_ok_def NewMemBusWithBuffer_def defaultSubscriptionBuffer_def)

lemma Subscribe_ok: "bus_ok b \<Longrightarrow> bus_ok (snd (MemBus_Subscribe b scopes))"
  using bus_okD(5)[of b] unfolding bus_ok_def MemBus_Subscribe_def Let_def by auto

lemma Unsubscribe_ok:
  assumes "bus_ok b"
  obtains b' where "MemBus_Unsubscribe b p = Some b'" "bus_ok b'"
proof (cases "p \<in> set (mb_subs b)")
  case True
  from bus_okD(2)[OF assms True] obtain s where s: "mb_heap b p = Some s" "\<not> su_closed s" by blast
  let ?b = "b\<lparr>mb_subs := remove1 p (mb_subs b), mb_heap := (mb_heap b)(p \<mapsto> s\<lparr>su_closed := True\<rparr>)\<rparr>"
  have "bus_ok ?b" using assms s True unfolding bus_ok_def by (auto simp: set_remove1_eq)
  then show thesis using True s that[of ?b] by (simp add: MemBus_Unsubscribe_def)
next
  case False
  then show thesis using assms that by (simp add: MemBus_Unsubscribe_def)
qed

text \<open>Steps that change one subscription's buffer or scopes only.\<close>

lemma bus_ok_update:
  assumes "bus_ok b" "mb_heap b p = Some s" "su_closed s' = su_closed s" "su_cap s' = su_cap s" "length (su_Ch s') \<le> su_cap s"
  shows "bus_ok (b\<lparr>mb_heap := (mb_heap b)(p \<mapsto> s')\<rparr>)"
  using assms unfolding bus_ok_def by auto

lemma Scopes_ok: "bus_ok b \<Longrightarrow> bus_ok (MemBus_AddScopes b p scopes)" "bus_ok b \<Longrightarrow> bus_ok (MemBus_RemoveScopes b p scopes)"
  using bus_ok_update[of b p] bus_okD(3)[of b p]
  by (cases "mb_heap b p"; auto simp: MemBus_AddScopes_def MemBus_RemoveScopes_def fun_upd_idem)+

lemma publish_one_ok: "bus_ok b \<Longrightarrow> publish_one evt b p = Some b' \<Longrightarrow> bus_ok b'"
  using bus_ok_update[of b p] by (auto simp: publish_one_def split: option.splits if_splits)

text \<open>The subscriptions of publishes under way exist: they were registered when the publish took its snapshot.\<close>

definition config_ok :: "'p mem_bus \<times> ('p event \<times> nat list) list \<Rightarrow> bool" where
  "config_ok c \<longleftrightarrow> bus_ok (fst c) \<and> (\<forall>(evt, ps) \<in> set (snd c). \<forall>p \<in> set ps. mb_heap (fst c) p \<noteq> None)"

lemma config_ok_keep:
  assumes "config_ok (b, pubs)" "bus_ok b'" "\<And>p. mb_heap b p \<noteq> None \<Longrightarrow> mb_heap b' p \<noteq> None"
  shows "config_ok (b', pubs)"
  using assms unfolding config_ok_def by fastforce

lemma publish_one_heap: "publish_one evt b p = Some b' \<Longrightarrow> mb_heap b q \<noteq> None \<Longrightarrow> mb_heap b' q \<noteq> None"
  by (auto simp: publish_one_def split: option.splits if_splits)

lemma Subscribe_heap: "mb_heap b q \<noteq> None \<Longrightarrow> mb_heap (snd (MemBus_Subscribe b scopes)) q \<noteq> None"
  by (simp add: MemBus_Subscribe_def Let_def)

lemma Scopes_heap:
  "mb_heap b q \<noteq> None \<Longrightarrow> mb_heap (MemBus_AddScopes b p scopes) q \<noteq> None"
  "mb_heap b q \<noteq> None \<Longrightarrow> mb_heap (MemBus_RemoveScopes b p scopes) q \<noteq> None"
  by (auto simp: MemBus_AddScopes_def MemBus_RemoveScopes_def)

lemma Unsubscribe_heap: "MemBus_Unsubscribe b p = Some b' \<Longrightarrow> mb_heap b q \<noteq> None \<Longrightarrow> mb_heap b' q \<noteq> None"
  by (auto simp: MemBus_Unsubscribe_def split: option.splits if_splits)

lemma config_ok_sent:
  assumes "config_ok (b, pubs)" "i < length pubs" "pubs ! i = (evt, p # ps)"
  shows "config_ok (b, pubs[i := (evt, ps)])"
proof -
  have "(evt, p # ps) \<in> set pubs" using assms(2,3) by (metis nth_mem)
  with assms(1) show ?thesis
    unfolding config_ok_def by (fastforce dest!: set_update_subset_insert[THEN subsetD])
qed

lemma bus_step_ok:
  assumes "bus_step (Some c) (Some c')" "config_ok c"
  shows "config_ok c'"
  using assms(1)
proof (cases rule: bus_step.cases)
  case (subscribe b pubs scopes)
  with assms(2) have ok: "config_ok (b, pubs)" by simp
  then have "config_ok (snd (MemBus_Subscribe b scopes), pubs)"
    by (rule config_ok_keep) (use ok in \<open>auto simp: config_ok_def Subscribe_ok Subscribe_heap\<close>)
  with subscribe show ?thesis by simp
next
  case (unsubscribe b pubs p)
  then obtain b' where b': "MemBus_Unsubscribe b p = Some b'" "c' = (b', pubs)"
    by (cases "MemBus_Unsubscribe b p") auto
  moreover have ok: "config_ok (b, pubs)" using assms(2) unsubscribe by simp
  moreover have "bus_ok b'" using Unsubscribe_ok[of b p] ok b'(1) by (auto simp: config_ok_def)
  ultimately show ?thesis using config_ok_keep Unsubscribe_heap by blast
next
  case (add b pubs p scopes)
  with assms(2) have "config_ok (b, pubs)" by simp
  then have "config_ok (MemBus_AddScopes b p scopes, pubs)"
    by (rule config_ok_keep) (use \<open>config_ok (b, pubs)\<close> in \<open>auto simp: config_ok_def Scopes_ok Scopes_heap\<close>)
  with add show ?thesis by simp
next
  case (remove b pubs p scopes)
  with assms(2) have "config_ok (b, pubs)" by simp
  then have "config_ok (MemBus_RemoveScopes b p scopes, pubs)"
    by (rule config_ok_keep) (use \<open>config_ok (b, pubs)\<close> in \<open>auto simp: config_ok_def Scopes_ok Scopes_heap\<close>)
  with remove show ?thesis by simp
next
  case (publish b pubs evt)
  with assms(2) show ?thesis by (auto simp: config_ok_def bus_ok_def)
next
  case (send i pubs evt p ps b)
  then obtain b' where b': "publish_one evt b p = Some b'" "c' = (b', pubs[i := (evt, ps)])"
    by (cases "publish_one evt b p") auto
  from assms(2) send have "config_ok (b, pubs[i := (evt, ps)])" by (auto intro: config_ok_sent)
  with b' show ?thesis
    using config_ok_keep publish_one_heap publish_one_ok by (metis config_ok_def fst_conv)
next
  case (receive b p s evt evts pubs)
  with assms(2) have ok: "config_ok (b, pubs)" by simp
  then have "bus_ok (b\<lparr>mb_heap := (mb_heap b)(p \<mapsto> s\<lparr>su_Ch := evts\<rparr>)\<rparr>)"
    using receive bus_okD(3)[of b p s] by (intro bus_ok_update) (auto simp: config_ok_def)
  with ok receive show ?thesis by (auto intro: config_ok_keep)
qed

text \<open>A step panics only by sending to a subscription that was removed while the publish was under way.\<close>

lemma bus_step_panic:
  assumes "bus_step (Some (b, pubs)) None" "config_ok (b, pubs)"
  shows "\<exists>evt p ps. (evt, p # ps) \<in> set pubs \<and> p \<notin> set (mb_subs b)"
  using assms(1)
proof (cases rule: bus_step.cases)
  case (unsubscribe p)
  with assms(2) show ?thesis using Unsubscribe_ok[of b p] by (auto simp: config_ok_def)
next
  case (send i evt p ps)
  then have "publish_one evt b p = None" "(evt, p # ps) \<in> set pubs" by (simp, metis nth_mem)
  with assms(2) obtain s where "mb_heap b p = Some s" "su_closed s"
    by (fastforce simp: config_ok_def publish_one_def split: option.splits if_splits)
  with assms(2) \<open>(evt, p # ps) \<in> set pubs\<close> show ?thesis by (auto simp: config_ok_def bus_ok_def)
qed

lemma bus_reachable_ok:
  assumes "bus_step\<^sup>*\<^sup>* (Some c) d" "config_ok c"
  shows "d = None \<or> (\<exists>c'. d = Some c' \<and> config_ok c')"
  using assms(1)
proof (induction rule: rtranclp_induct)
  case (step d d')
  from step.IH show ?case
  proof (elim disjE exE conjE)
    assume "d = None"
    with step.hyps(2) show ?thesis by (auto elim: bus_stepE)
  next
    fix c'
    assume "d = Some c'" "config_ok c'"
    with step.hyps(2) show ?thesis by (cases d') (auto dest: bus_step_ok)
  qed
qed (simp add: assms(2))

text \<open>
  C18: However subscribers, publishers and receivers interleave, as long as the process has not panicked every registered
  subscription is open, every removed one is closed and no buffer holds more than the configured number of events. The
  next step panics only when a publish reaches a subscription that was removed after the publish had started.
\<close>

theorem bus_reachable_invariant:
  assumes "bus_step\<^sup>*\<^sup>* (Some (NewMemBusWithBuffer n, [])) (Some (b, pubs))"
  shows "distinct (mb_subs b) \<and>
         (\<forall>p s. mb_heap b p = Some s \<longrightarrow> (su_closed s \<longleftrightarrow> p \<notin> set (mb_subs b)) \<and> int (length (su_Ch s)) \<le> mb_subscriptionBuffer b) \<and>
         (bus_step (Some (b, pubs)) None \<longrightarrow> (\<exists>evt p ps. (evt, p # ps) \<in> set pubs \<and> p \<notin> set (mb_subs b)))"
proof -
  have "config_ok (NewMemBusWithBuffer n, [])" by (simp add: config_ok_def NewMemBusWithBuffer_ok)
  with bus_reachable_ok[OF assms] have ok: "config_ok (b, pubs)" by auto
  then have "int (length (su_Ch s)) \<le> mb_subscriptionBuffer b" if "mb_heap b p = Some s" for p s
    using that unfolding config_ok_def bus_ok_def by (metis fst_conv int_nat_eq nat_le_iff order_less_imp_le of_nat_le_iff)
  with ok bus_step_panic[OF _ ok] show ?thesis by (auto simp: config_ok_def bus_ok_def)
qed

definition sample_event :: "string event" where
  "sample_event = stored raw_codec (sample_row ''board'' ''b1'' 1 1)"

lemma sample_event_scopes: "ev_Scopes sample_event = [''board:b1'']"
  by (simp add: sample_event_def stored_def row_event_def sample_row_def)

theorem bus_reachable_invariant_witness:
  "\<exists>b :: string mem_bus. bus_step\<^sup>*\<^sup>* (Some (NewMemBusWithBuffer 1, [])) (Some (b, [(ensureEventPartition sample_event, [0])])) \<and>
     mb_subs b = [0] \<and> distinct (mb_subs b)"
proof -
  let ?b = "snd (MemBus_Subscribe (NewMemBusWithBuffer 1 :: string mem_bus) [''board:b1''])"
  have "mb_subs ?b = [0]" by (simp add: MemBus_Subscribe_def NewMemBusWithBuffer_def)
  then have "bus_step (Some (?b, [])) (Some (?b, [(ensureEventPartition sample_event, [0])]))"
    using bus_step.publish[of ?b "[]" sample_event] by simp
  moreover have "bus_step (Some (NewMemBusWithBuffer 1, [])) (Some (?b, []))" by (rule bus_step.subscribe)
  ultimately have run: "bus_step\<^sup>*\<^sup>* (Some (NewMemBusWithBuffer 1, [])) (Some (?b, [(ensureEventPartition sample_event, [0])]))"
    by (meson converse_rtranclp_into_rtranclp r_into_rtranclp)
  with bus_reachable_invariant[OF run] \<open>mb_subs ?b = [0]\<close> show ?thesis by blast
qed

text \<open>What one publish does to a buffer.\<close>

definition accept_event :: "'p event \<Rightarrow> 'p subscription \<Rightarrow> 'p subscription" where
  "accept_event evt s =
     (if matchesAny s (ev_Scopes evt) \<and> length (su_Ch s) < su_cap s then s\<lparr>su_Ch := su_Ch s @ [evt]\<rparr> else s)"

lemma matchesAny_iff: "matchesAny s scopes \<longleftrightarrow> (\<exists>sc \<in> set scopes. hasScope s sc)"
  by (induction scopes) (auto simp: hasScope_def)

lemma publish_loop_accepts:
  assumes "distinct ps" "\<forall>p \<in> set ps. \<exists>s. mb_heap b p = Some s \<and> \<not> su_closed s"
  shows "publish_loop evt ps b =
           Some (b\<lparr>mb_heap := (\<lambda>p. if p \<in> set ps then map_option (accept_event evt) (mb_heap b p) else mb_heap b p)\<rparr>)"
  using assms
proof (induction ps arbitrary: b)
  case (Cons p ps)
  then obtain s where s: "mb_heap b p = Some s" "\<not> su_closed s" by auto
  let ?b = "b\<lparr>mb_heap := (mb_heap b)(p \<mapsto> accept_event evt s)\<rparr>"
  from s have "publish_one evt b p = Some ?b" by (auto simp: publish_one_def accept_event_def fun_upd_idem)
  moreover have "\<forall>q \<in> set ps. \<exists>s. mb_heap ?b q = Some s \<and> \<not> su_closed s" using Cons.prems by auto
  ultimately show ?case using Cons.IH[of ?b] Cons.prems(1) s by (auto intro!: mem_bus.fold_congs simp: fun_eq_iff)
qed (simp add: fun_eq_iff)

text \<open>
  A publish that no unsubscribe overtakes does not panic. It appends the event, completed with its partition, to the
  buffer of every registered subscription that has one of the event's scopes and room left, and changes nothing else: a
  subscription with a full buffer loses the event.
\<close>

theorem PublishLocal_delivers:
  assumes "bus_step\<^sup>*\<^sup>* (Some (NewMemBusWithBuffer n, [])) (Some (b, pubs))"
  shows "\<exists>b'. MemBus_PublishLocal b evt = Some b' \<and> mb_subs b' = mb_subs b \<and>
     (\<forall>p s. mb_heap b p = Some s \<longrightarrow>
        mb_heap b' p = Some (if p \<in> set (mb_subs b) \<and> (\<exists>sc \<in> set (ev_Scopes evt). hasScope s sc) \<and> length (su_Ch s) < su_cap s
                             then s\<lparr>su_Ch := su_Ch s @ [ensureEventPartition evt]\<rparr> else s))"
proof -
  have "config_ok (NewMemBusWithBuffer n, [])" by (simp add: config_ok_def NewMemBusWithBuffer_ok)
  with bus_reachable_ok[OF assms] have ok: "bus_ok b" by (auto simp: config_ok_def)
  have "ev_Scopes (ensureEventPartition evt) = ev_Scopes evt" by (simp add: ensureEventPartition_def Let_def)
  then show ?thesis
    using publish_loop_accepts[OF bus_okD(1)[OF ok], of b] bus_okD(2)[OF ok]
    by (auto simp: MemBus_PublishLocal_def accept_event_def matchesAny_iff)
qed

theorem PublishLocal_delivers_witness:
  "\<exists>b :: string mem_bus. bus_step\<^sup>*\<^sup>* (Some (NewMemBusWithBuffer 1, [])) (Some (b, [])) \<and>
     (\<exists>b' s. MemBus_PublishLocal b sample_event = Some b' \<and> mb_heap b' 0 = Some s \<and>
             su_Ch s = [ensureEventPartition sample_event])"
proof -
  let ?b = "snd (MemBus_Subscribe (NewMemBusWithBuffer 1 :: string mem_bus) [''board:b1''])"
  have run: "bus_step\<^sup>*\<^sup>* (Some (NewMemBusWithBuffer 1, [])) (Some (?b, []))"
    by (rule r_into_rtranclp) (rule bus_step.subscribe)
  have b: "mb_subs ?b = [0]"
    "mb_heap ?b 0 = Some \<lparr>su_Ch = [], su_cap = 1, su_closed = False, su_scopes = [''board:b1'']\<rparr>"
    by (simp_all add: MemBus_Subscribe_def NewMemBusWithBuffer_def)
  from PublishLocal_delivers[OF run, of sample_event] run b show ?thesis
    by (force simp: sample_event_scopes hasScope_def)
qed

lemma send_step:
  "publish_one evt b p = Some b' \<Longrightarrow> bus_step (Some (b, [(evt, p # ps)])) (Some (b', [(evt, ps)]))"
  using bus_step.send[of 0 "[(evt, p # ps)]" evt p ps b] by simp

lemma panic_step: "publish_one evt b p = None \<Longrightarrow> bus_step (Some (b, [(evt, p # ps)])) None"
  using bus_step.send[of 0 "[(evt, p # ps)]" evt p ps b] by simp

lemma publish_reaches_closed:
  assumes "\<And>q. q \<in> set qs \<Longrightarrow> q \<noteq> p \<and> (\<exists>s. mb_heap b q = Some s \<and> \<not> su_closed s)"
    "mb_heap b p = Some s" "su_closed s" "matchesAny s (ev_Scopes evt)"
  shows "bus_step\<^sup>*\<^sup>* (Some (b, [(evt, qs @ p # ps)])) None"
  using assms
proof (induction qs arbitrary: b)
  case Nil
  then have "publish_one evt b p = None" by (simp add: publish_one_def)
  then show ?case unfolding append_Nil by (intro r_into_rtranclp panic_step)
next
  case (Cons q qs)
  then obtain t where t: "q \<noteq> p" "mb_heap b q = Some t" "\<not> su_closed t" by auto
  let ?b = "b\<lparr>mb_heap := (mb_heap b)(q \<mapsto> accept_event evt t)\<rparr>"
  have "publish_one evt b q = Some ?b" using t by (auto simp: publish_one_def accept_event_def fun_upd_idem)
  then have "bus_step (Some (b, [(evt, (q # qs) @ p # ps)])) (Some (?b, [(evt, qs @ p # ps)]))" by (simp add: send_step)
  moreover have "bus_step\<^sup>*\<^sup>* (Some (?b, [(evt, qs @ p # ps)])) None"
    using Cons.prems t by (intro Cons.IH) (auto simp: accept_event_def)
  ultimately show ?case by (rule converse_rtranclp_into_rtranclp)
qed



section \<open>What the statistics count\<close>

lemma stats_subs_totals:
  "stats_subs ss st m = (st', m') \<Longrightarrow>
     bq_QueueDepthTotal st' = bq_QueueDepthTotal st + sum_list (map (length \<circ> su_Ch) ss) \<and>
     bq_QueueCapacityTotal st' = bq_QueueCapacityTotal st + sum_list (map su_cap ss) \<and>
     bq_QueueDepthMax st' = fold max (map (length \<circ> su_Ch) ss) (bq_QueueDepthMax st) \<and>
     bq_Subscribers st' = bq_Subscribers st"
proof (induction ss arbitrary: st m)
  case (Cons s ss)
  have mx: "(if a > b then a else b) = max a b" for a b :: nat by auto
  from Cons.IH[OF Cons.prems[unfolded stats_subs.simps Let_def]] show ?case
    by (simp only: mx) simp
qed simp

lemma QueueStats_totals:
  "bq_QueueDepthTotal (MemBus_QueueStats b) = sum_list (map (length \<circ> su_Ch) (List.map_filter (mb_heap b) (mb_subs b)))"
  "bq_QueueDepthMax (MemBus_QueueStats b) = fold max (map (length \<circ> su_Ch) (List.map_filter (mb_heap b) (mb_subs b))) 0"
  "bq_Subscribers (MemBus_QueueStats b) = length (List.map_filter (mb_heap b) (mb_subs b))"
  unfolding MemBus_QueueStats_def Let_def by (auto split: prod.splits dest!: stats_subs_totals)

end
