(* ===== verification/Rate_Limiter.thy ===== *)
theory Rate_Limiter
  imports Go_Prelude
begin

text \<open>
  The brute-force limiter of the login paths (\<open>internal/ratelimit/ratelimit.go\<close>). Times are nanoseconds since the zero
  time of the \<open>time\<close> package, so the zero \<open>time.Time\<close> is 0; durations are 64-bit: \<open>Sub\<close> saturates and a product wraps.
  The value of the clock at a call is the argument \<open>now\<close>. The shared store behind the \<open>Store\<close> interface (Redis in
  production) is a method table over a state.
\<close>

section \<open>Times and durations\<close>

definition time_Sub :: "int \<Rightarrow> int \<Rightarrow> int" where
  "time_Sub t u = max (- (2 ^ 63)) (min maxInt64 (t - u))"

definition time_Before :: "int \<Rightarrow> int \<Rightarrow> bool" where
  "time_Before t u \<longleftrightarrow> t < u"

definition time_After :: "int \<Rightarrow> int \<Rightarrow> bool" where
  "time_After t u \<longleftrightarrow> u < t"

section \<open>The limiter\<close>

record rl_entry =
  en_count :: int
  en_windowStart :: int
  en_lockUntil :: int
  en_strikes :: int

record 's rl_store =
  rs_Fail :: "string \<Rightarrow> int \<Rightarrow> int \<Rightarrow> int \<Rightarrow> 's \<Rightarrow> (go_error + int) \<times> 's"
  rs_RetryAfter :: "string \<Rightarrow> 's \<Rightarrow> (go_error + int) \<times> 's"
  rs_Reset :: "string \<Rightarrow> 's \<Rightarrow> go_error option \<times> 's"

record 's limiter =
  li_entries :: "string \<Rightarrow> rl_entry option"
  li_threshold :: int
  li_window :: int
  li_lockout :: int
  li_lastPrune :: int
  li_store :: "'s rl_store option"

definition New :: "int \<Rightarrow> int \<Rightarrow> int \<Rightarrow> 's limiter" where
  "New threshold window lockout =
     \<lparr>li_entries = (\<lambda>k. None), li_threshold = threshold, li_window = window, li_lockout = lockout, li_lastPrune = 0,
      li_store = None\<rparr>"

definition Limiter_SetStore :: "'s limiter option \<Rightarrow> 's rl_store option \<Rightarrow> 's limiter option" where
  "Limiter_SetStore l s = (case l of None \<Rightarrow> None | Some l \<Rightarrow> Some (l\<lparr>li_store := s\<rparr>))"

definition retryAfterLocal :: "'s limiter \<Rightarrow> int \<Rightarrow> string \<Rightarrow> int" where
  "retryAfterLocal l now key =
     (case li_entries l key of
        None \<Rightarrow> 0
      | Some e \<Rightarrow> if time_Before now (en_lockUntil e) then time_Sub (en_lockUntil e) now else 0)"

definition Limiter_RetryAfter :: "'s limiter option \<Rightarrow> int \<Rightarrow> string \<Rightarrow> 's \<Rightarrow> int \<times> 's" where
  "Limiter_RetryAfter l now key st =
     (case l of None \<Rightarrow> (0, st)
      | Some l \<Rightarrow>
          if li_threshold l \<le> 0 then (0, st)
          else let d = retryAfterLocal l now key
               in case li_store l of
                    None \<Rightarrow> (d, st)
                  | Some store \<Rightarrow>
                      (case rs_RetryAfter store key st of
                         (Inr rd, st) \<Rightarrow> (if rd > d then rd else d, st)
                       | (Inl err, st) \<Rightarrow> (d, st)))"

fun max_retry :: "'s limiter option \<Rightarrow> int \<Rightarrow> int \<Rightarrow> string list \<Rightarrow> 's \<Rightarrow> int \<times> 's" where
  "max_retry l now worst [] st = (worst, st)"
| "max_retry l now worst (k # ks) st =
     (let (w, st) = Limiter_RetryAfter l now k st in max_retry l now (if w > worst then w else worst) ks st)"

definition Limiter_MaxRetryAfter :: "'s limiter option \<Rightarrow> int \<Rightarrow> string list \<Rightarrow> 's \<Rightarrow> int \<times> 's" where
  "Limiter_MaxRetryAfter l now keys st = max_retry l now 0 keys st"

definition prune_expired :: "'s limiter \<Rightarrow> int \<Rightarrow> rl_entry \<Rightarrow> bool" where
  "prune_expired l now e \<longleftrightarrow> time_After now (en_lockUntil e) \<and> time_Sub now (en_windowStart e) > li_window l"

definition pruneLocked :: "'s limiter \<Rightarrow> int \<Rightarrow> 's limiter" where
  "pruneLocked l now =
     (if time_Sub now (li_lastPrune l) < li_window l then l
      else l\<lparr>li_lastPrune := now,
             li_entries := (\<lambda>k. case li_entries l k of
                                  None \<Rightarrow> None
                                | Some e \<Rightarrow> if prune_expired l now e then None else Some e)\<rparr>)"

definition fail_entry :: "'s limiter \<Rightarrow> int \<Rightarrow> rl_entry \<Rightarrow> bool \<times> rl_entry" where
  "fail_entry l now e =
     (let e = (if time_Sub now (en_windowStart e) > li_window l then e\<lparr>en_count := 0, en_windowStart := now\<rparr> else e);
          e = e\<lparr>en_count := wrap64 (en_count e + 1)\<rparr>
      in if en_count e \<ge> li_threshold l then
           let mult = 2 ^ nat (min (en_strikes e) 3)
           in (True, e\<lparr>en_lockUntil := now + wrap64 (li_lockout l * mult), en_count := 0, en_windowStart := now,
                      en_strikes := wrap64 (en_strikes e + 1)\<rparr>)
         else (False, e))"

definition failLocal :: "'s limiter \<Rightarrow> int \<Rightarrow> string \<Rightarrow> bool \<times> 's limiter" where
  "failLocal l now key =
     (let l = pruneLocked l now;
          e = (case li_entries l key of
                 None \<Rightarrow> \<lparr>en_count = 0, en_windowStart = now, en_lockUntil = 0, en_strikes = 0\<rparr>
               | Some e \<Rightarrow> e);
          (locked, e) = fail_entry l now e
      in (locked, l\<lparr>li_entries := (li_entries l)(key \<mapsto> e)\<rparr>))"

definition Limiter_Fail :: "'s limiter option \<Rightarrow> int \<Rightarrow> string \<Rightarrow> 's \<Rightarrow> bool \<times> 's limiter option \<times> 's" where
  "Limiter_Fail l now key st =
     (case l of None \<Rightarrow> (False, l, st)
      | Some l \<Rightarrow>
          if li_threshold l \<le> 0 then (False, Some l, st)
          else let (local, l) = failLocal l now key
               in case li_store l of
                    None \<Rightarrow> (local, Some l, st)
                  | Some store \<Rightarrow>
                      (case rs_Fail store key (li_threshold l) (li_window l) (li_lockout l) st of
                         (Inl err, st) \<Rightarrow> (local, Some l, st)
                       | (Inr d, st) \<Rightarrow> (local \<or> d > 0, Some l, st)))"

definition Limiter_Reset :: "'s limiter option \<Rightarrow> string \<Rightarrow> 's \<Rightarrow> 's limiter option \<times> 's" where
  "Limiter_Reset l key st =
     (case l of None \<Rightarrow> (None, st)
      | Some l \<Rightarrow>
          let l = l\<lparr>li_entries := (li_entries l)(key := None)\<rparr>
          in case li_store l of None \<Rightarrow> (Some l, st) | Some store \<Rightarrow> (Some l, snd (rs_Reset store key st)))"

section \<open>Runs of the limiter\<close>

text \<open>The calls of a process, each at the time it takes the lock: failures, queries and resets of keys.\<close>

datatype rl_op = OpFail string | OpRetryAfter string | OpReset string

fun rl_step :: "'s limiter option \<times> 's \<Rightarrow> int \<times> rl_op \<Rightarrow> 's limiter option \<times> 's" where
  "rl_step (l, st) (now, OpFail k) = snd (Limiter_Fail l now k st)"
| "rl_step (l, st) (now, OpRetryAfter k) = (l, snd (Limiter_RetryAfter l now k st))"
| "rl_step (l, st) (now, OpReset k) = Limiter_Reset l k st"

text \<open>The clock does not go back.\<close>

fun clock_ok :: "int \<Rightarrow> (int \<times> rl_op) list \<Rightarrow> bool" where
  "clock_ok t [] = True"
| "clock_ok t ((now, op) # ops) = (t \<le> now \<and> clock_ok now ops)"

definition policy_ok :: "'s limiter \<Rightarrow> bool" where
  "policy_ok l \<longleftrightarrow> 0 < li_threshold l \<and> li_threshold l \<le> maxInt64 \<and> 0 \<le> li_window l \<and> 0 \<le> li_lockout l \<and>
     li_lockout l * 8 \<le> maxInt64"

text \<open>
  An entry at time \<open>t\<close>, after at most \<open>n\<close> failures: its counters fit, and its lock ends no later than a lock set at
  \<open>t\<close> with its next strike would.
\<close>

abbreviation penalty :: "'s limiter \<Rightarrow> rl_entry \<Rightarrow> int" where
  "penalty l e \<equiv> li_lockout l * 2 ^ nat (min (en_strikes e) 3)"

definition entry_ok :: "'s limiter \<Rightarrow> int \<Rightarrow> int \<Rightarrow> rl_entry \<Rightarrow> bool" where
  "entry_ok l t n e \<longleftrightarrow> 0 \<le> en_count e \<and> en_count e < li_threshold l \<and> 0 \<le> en_strikes e \<and> en_strikes e \<le> n \<and>
     en_lockUntil e \<le> t + penalty l e"

definition limiter_ok :: "int \<Rightarrow> int \<Rightarrow> 's limiter \<Rightarrow> bool" where
  "limiter_ok t n l \<longleftrightarrow> policy_ok l \<and> 0 \<le> t \<and> 0 \<le> n \<and> (\<forall>k e. li_entries l k = Some e \<longrightarrow> entry_ok l t n e)"

lemma strike_factor: "1 \<le> (2 :: int) ^ nat (min n 3)" "(2 :: int) ^ nat (min n 3) \<le> 8"
proof -
  have "(2 :: int) ^ nat (min n 3) \<le> 2 ^ 3" by (rule power_increasing) auto
  then show "1 \<le> (2 :: int) ^ nat (min n 3)" "(2 :: int) ^ nat (min n 3) \<le> 8" by simp_all
qed

lemma penalty_bounds:
  assumes "policy_ok l"
  shows "li_lockout l \<le> penalty l e" "penalty l e \<le> li_lockout l * 8" "wrap64 (penalty l e) = penalty l e"
proof -
  have lo: "0 \<le> li_lockout l" "li_lockout l * 8 \<le> maxInt64" using assms by (simp_all add: policy_ok_def)
  show ge: "li_lockout l \<le> penalty l e" using mult_left_mono[OF strike_factor(1) lo(1)] by simp
  show le: "penalty l e \<le> li_lockout l * 8" using mult_left_mono[OF strike_factor(2) lo(1)] .
  show "wrap64 (penalty l e) = penalty l e" using lo ge le by (intro wrap64_id) auto
qed

lemma penalty_mono:
  "policy_ok l \<Longrightarrow> 0 \<le> en_strikes e \<Longrightarrow> en_strikes e \<le> en_strikes e' \<Longrightarrow> penalty l e \<le> penalty l e'"
  by (intro mult_left_mono power_increasing) (auto simp: policy_ok_def)

lemma entry_ok_later: "entry_ok l t n e \<Longrightarrow> t \<le> t' \<Longrightarrow> n \<le> n' \<Longrightarrow> entry_ok l t' n' e"
  by (simp add: entry_ok_def)

text \<open>Pruning drops only entries whose lock is over.\<close>

lemma pruneLocked_entries:
  "li_entries (pruneLocked l now) k = Some e \<Longrightarrow> li_entries l k = Some e"
  "li_entries l k = Some e \<Longrightarrow> now \<le> en_lockUntil e \<Longrightarrow> li_entries (pruneLocked l now) k = Some e"
  by (auto simp: pruneLocked_def prune_expired_def time_After_def split: option.splits if_splits)

lemma pruneLocked_policy [simp]:
  "li_threshold (pruneLocked l now) = li_threshold l" "li_window (pruneLocked l now) = li_window l"
  "li_lockout (pruneLocked l now) = li_lockout l" "li_store (pruneLocked l now) = li_store l"
  by (simp_all add: pruneLocked_def)

lemma fail_entry_ok:
  assumes pol: "policy_ok l" and e: "entry_ok l now n e" and n: "n < maxInt64" and f: "fail_entry l now e = (locked, e')"
  shows "entry_ok l now (n + 1) e'" "en_lockUntil e \<le> en_lockUntil e'" "locked \<Longrightarrow> now + li_lockout l \<le> en_lockUntil e'"
proof -
  define e1 where "e1 = (if time_Sub now (en_windowStart e) > li_window l then e\<lparr>en_count := 0, en_windowStart := now\<rparr> else e)"
  have e1: "entry_ok l now n e1" "en_lockUntil e1 = en_lockUntil e" "en_strikes e1 = en_strikes e"
    using e pol by (auto simp: e1_def entry_ok_def policy_ok_def)
  have c: "wrap64 (en_count e1 + 1) = en_count e1 + 1"
    using e1(1) pol by (intro wrap64_Suc) (auto simp: entry_ok_def policy_ok_def)
  have s: "wrap64 (en_strikes e + 1) = en_strikes e + 1" using e n by (intro wrap64_Suc) (auto simp: entry_ok_def)
  have f': "(locked, e') =
      (if en_count e1 + 1 \<ge> li_threshold l
       then (True, e1\<lparr>en_lockUntil := now + penalty l e, en_count := 0, en_windowStart := now, en_strikes := en_strikes e + 1\<rparr>)
       else (False, e1\<lparr>en_count := en_count e1 + 1\<rparr>))"
    using f penalty_bounds(3)[OF pol, of e] unfolding fail_entry_def e1_def[symmetric]
    by (auto simp: Let_def c s e1(3) split: if_splits)
  have mono: "penalty l e \<le> penalty l e''" if "en_strikes e'' = en_strikes e + 1" for e''
    using pol e that by (intro penalty_mono) (auto simp: entry_ok_def)
  show "entry_ok l now (n + 1) e'"
    using f' e1 e mono[of e'] pol by (auto simp: entry_ok_def policy_ok_def split: if_splits)
  show "en_lockUntil e \<le> en_lockUntil e'" using f' e e1(2) by (auto simp: entry_ok_def split: if_splits)
  show "locked \<Longrightarrow> now + li_lockout l \<le> en_lockUntil e'" using f' penalty_bounds(1)[OF pol] by (auto split: if_splits)
qed

lemma failLocal_policy:
  assumes "failLocal l now key = (locked, l')"
  shows "li_threshold l' = li_threshold l" "li_window l' = li_window l" "li_lockout l' = li_lockout l" "li_store l' = li_store l"
  using assms by (auto simp: failLocal_def Let_def split: prod.splits)

lemma failLocal_entry:
  assumes ok: "limiter_ok t n l" and t: "t \<le> now" and n: "n < maxInt64" and f: "failLocal l now key = (locked, l')"
  obtains e e' where "entry_ok l now n e" "fail_entry (pruneLocked l now) now e = (locked, e')"
    "li_entries l' = (li_entries (pruneLocked l now))(key \<mapsto> e')"
    "\<And>d. li_entries l key = Some d \<Longrightarrow> now \<le> en_lockUntil d \<Longrightarrow> e = d"
proof -
  define e where "e = (case li_entries (pruneLocked l now) key of
      None \<Rightarrow> \<lparr>en_count = 0, en_windowStart = now, en_lockUntil = 0, en_strikes = 0\<rparr> | Some e \<Rightarrow> e)"
  have "entry_ok l now n e"
  proof (cases "li_entries (pruneLocked l now) key")
    case None
    with ok t penalty_bounds(1)[of l e] show ?thesis by (auto simp: e_def entry_ok_def limiter_ok_def policy_ok_def)
  next
    case (Some d)
    with ok t show ?thesis
      by (auto simp: e_def limiter_ok_def dest!: pruneLocked_entries(1) intro: entry_ok_later)
  qed
  moreover obtain e' where "fail_entry (pruneLocked l now) now e = (locked, e')"
    "li_entries l' = (li_entries (pruneLocked l now))(key \<mapsto> e')"
    using f by (auto simp: failLocal_def Let_def e_def split: prod.splits)
  moreover have "e = d" if "li_entries l key = Some d" "now \<le> en_lockUntil d" for d
    using pruneLocked_entries(2)[OF that] by (simp add: e_def)
  ultimately show thesis by (rule that)
qed

lemma fail_entry_prune [simp]: "fail_entry (pruneLocked l now) = fail_entry l"
  by (rule ext)+ (simp add: fail_entry_def Let_def)

text \<open>A failure keeps the invariant and never ends the lock of a key earlier.\<close>

lemma failLocal_ok:
  assumes ok: "limiter_ok t n l" and t: "t \<le> now" and n: "n < maxInt64" and f: "failLocal l now key = (locked, l')"
  shows "limiter_ok now (n + 1) l'"
    and "li_entries l k = Some d \<Longrightarrow> now \<le> en_lockUntil d \<Longrightarrow> \<exists>d'. li_entries l' k = Some d' \<and> en_lockUntil d \<le> en_lockUntil d'"
    and "locked \<Longrightarrow> \<exists>d'. li_entries l' key = Some d' \<and> now + li_lockout l \<le> en_lockUntil d'"
proof -
  have pol: "policy_ok l" using ok by (simp add: limiter_ok_def)
  obtain e e' where e: "entry_ok l now n e" "fail_entry l now e = (locked, e')"
    "li_entries l' = (li_entries (pruneLocked l now))(key \<mapsto> e')"
    "\<And>d. li_entries l key = Some d \<Longrightarrow> now \<le> en_lockUntil d \<Longrightarrow> e = d"
    using failLocal_entry[OF assms] by auto
  note e' = fail_entry_ok[OF pol e(1) n e(2)]
  have same: "entry_ok l' = entry_ok l" "policy_ok l' = policy_ok l"
    using failLocal_policy[OF f] by (auto simp: fun_eq_iff entry_ok_def policy_ok_def)
  have "entry_ok l now (n + 1) d" if "li_entries (pruneLocked l now) k = Some d" for k d
    using pruneLocked_entries(1)[OF that] ok t entry_ok_later[of l t n d now "n + 1"] by (auto simp: limiter_ok_def)
  then show "limiter_ok now (n + 1) l'" using ok t e'(1) e(3) same by (auto simp: limiter_ok_def)
  show "\<exists>d'. li_entries l' k = Some d' \<and> en_lockUntil d \<le> en_lockUntil d'"
    if d: "li_entries l k = Some d" "now \<le> en_lockUntil d"
    using pruneLocked_entries(2)[OF d] e(3,4) e'(2) d by (cases "k = key") auto
  show "\<exists>d'. li_entries l' key = Some d' \<and> now + li_lockout l \<le> en_lockUntil d'" if locked
    using e'(3)[OF that] e(3) by simp
qed

lemma Fail_local:
  assumes "0 < li_threshold l" "failLocal l now key = (locked, l')"
  obtains b st' where "Limiter_Fail (Some l) now key st = (b, Some l', st')" "locked \<Longrightarrow> b"
    "li_store l = None \<Longrightarrow> b = locked"
proof (cases "li_store l")
  case None
  with assms failLocal_policy(4)[OF assms(2)] that[of locked st] show thesis by (simp add: Limiter_Fail_def)
next
  case (Some store)
  obtain r st' where "rs_Fail store key (li_threshold l') (li_window l') (li_lockout l') st = (r, st')" by fastforce
  with Some assms failLocal_policy(4)[OF assms(2)] that[of "case r of Inl e \<Rightarrow> locked | Inr d \<Rightarrow> locked \<or> d > 0" st']
  show thesis by (cases r) (simp_all add: Limiter_Fail_def)
qed

lemma rl_step_ok:
  assumes ok: "limiter_ok t n l" and t: "t \<le> now" and n: "n < maxInt64" and run: "rl_step (Some l, st) (now, op) = (l', st')"
  obtains l1 where "l' = Some l1" "limiter_ok now (n + 1) l1" "li_lockout l1 = li_lockout l \<and> li_store l1 = li_store l"
    "\<And>d. op \<noteq> OpReset k \<Longrightarrow> li_entries l k = Some d \<Longrightarrow> now \<le> en_lockUntil d \<Longrightarrow>
       \<exists>d'. li_entries l1 k = Some d' \<and> en_lockUntil d \<le> en_lockUntil d'"
proof (cases op)
  case (OpFail key)
  obtain locked l1 where f: "failLocal l now key = (locked, l1)" by fastforce
  have th: "0 < li_threshold l" using ok by (simp add: limiter_ok_def policy_ok_def)
  obtain b st2 where "Limiter_Fail (Some l) now key st = (b, Some l1, st2)" by (rule Fail_local[OF th f])
  then have "l' = Some l1" using run OpFail by simp
  then show thesis using failLocal_ok(1,2)[OF ok t n f] failLocal_policy(3,4)[OF f] that by blast
next
  case (OpRetryAfter key)
  then have "l' = Some l" using run by simp
  moreover have "limiter_ok now (n + 1) l"
    using ok t entry_ok_later[of l t n _ now "n + 1"] by (auto simp: limiter_ok_def)
  ultimately show thesis using that by blast
next
  case (OpReset key)
  let ?l = "l\<lparr>li_entries := (li_entries l)(key := None)\<rparr>"
  have "l' = Some ?l" using run OpReset by (auto simp: Limiter_Reset_def Let_def split: option.splits)
  moreover have "entry_ok ?l now (n + 1) e = entry_ok l now (n + 1) e" "policy_ok ?l = policy_ok l" for e
    by (simp_all add: entry_ok_def policy_ok_def)
  then have "limiter_ok now (n + 1) ?l"
    using ok t entry_ok_later[of l t n _ now "n + 1"] by (auto simp: limiter_ok_def)
  ultimately show thesis using OpReset that[of ?l] by auto
qed

fun last_time :: "int \<Rightarrow> (int \<times> rl_op) list \<Rightarrow> int" where
  "last_time t [] = t"
| "last_time t ((now, op) # ops) = last_time now ops"

lemma last_time_ge: "clock_ok t ops \<Longrightarrow> t \<le> last_time t ops"
  by (induction ops arbitrary: t) (auto intro: order_trans)

lemma clock_ok_append: "clock_ok t (xs @ ys) \<longleftrightarrow> clock_ok t xs \<and> clock_ok (last_time t xs) ys"
  by (induction xs arbitrary: t) auto

lemma rl_run_ok:
  assumes "limiter_ok t n l" "clock_ok t ops" "n + int (length ops) \<le> maxInt64" "foldl rl_step (Some l, st) ops = (l', st')"
  shows "\<exists>l1. l' = Some l1 \<and> limiter_ok (last_time t ops) (n + int (length ops)) l1 \<and> li_lockout l1 = li_lockout l \<and> li_store l1 = li_store l \<and>
    (\<forall>d. OpReset k \<notin> snd ` set ops \<longrightarrow> li_entries l k = Some d \<longrightarrow> last_time t ops \<le> en_lockUntil d \<longrightarrow>
       (\<exists>d'. li_entries l1 k = Some d' \<and> en_lockUntil d \<le> en_lockUntil d'))"
  using assms
proof (induction ops arbitrary: t n l st)
  case (Cons x ops)
  obtain now op where x: "x = (now, op)" by fastforce
  have t: "t \<le> now" "clock_ok now ops" and n: "n < maxInt64" using Cons.prems(2,3) x by auto
  obtain l2 st2 where s: "rl_step (Some l, st) (now, op) = (l2, st2)" by fastforce
  obtain l1 where l1: "l2 = Some l1" "limiter_ok now (n + 1) l1" "li_lockout l1 = li_lockout l \<and> li_store l1 = li_store l"
    "\<And>d. op \<noteq> OpReset k \<Longrightarrow> li_entries l k = Some d \<Longrightarrow> now \<le> en_lockUntil d \<Longrightarrow>
       \<exists>d'. li_entries l1 k = Some d' \<and> en_lockUntil d \<le> en_lockUntil d'"
    by (rule rl_step_ok[OF Cons.prems(1) t(1) n s, where k = k]) blast
  have "n + 1 + int (length ops) \<le> maxInt64" "foldl rl_step (Some l1, st2) ops = (l', st')"
    using Cons.prems(3,4) s l1(1) x by auto
  from Cons.IH[OF l1(2) t(2) this] obtain l3 where l3: "l' = Some l3"
    "limiter_ok (last_time now ops) (n + 1 + int (length ops)) l3" "li_lockout l3 = li_lockout l1 \<and> li_store l3 = li_store l1"
    "\<And>d. OpReset k \<notin> snd ` set ops \<Longrightarrow> li_entries l1 k = Some d \<Longrightarrow> last_time now ops \<le> en_lockUntil d \<Longrightarrow>
       \<exists>d'. li_entries l3 k = Some d' \<and> en_lockUntil d \<le> en_lockUntil d'" by blast
  have keep: "\<exists>d'. li_entries l3 k = Some d' \<and> en_lockUntil d \<le> en_lockUntil d'"
    if d: "OpReset k \<notin> snd ` set (x # ops)" "li_entries l k = Some d" "last_time now ops \<le> en_lockUntil d" for d
  proof -
    have "now \<le> en_lockUntil d" using last_time_ge[OF t(2)] d(3) by linarith
    with l1(4) d x obtain d1 where "li_entries l1 k = Some d1" "en_lockUntil d \<le> en_lockUntil d1" by auto
    with l3(4)[of d1] d show ?thesis using x by fastforce
  qed
  show ?case using l3(1-3) l1(3) keep x by (auto simp: algebra_simps)
qed auto

lemma New_limiter_ok:
  assumes "0 < threshold" "threshold \<le> maxInt64" "0 \<le> window" "0 \<le> lockout" "lockout * 8 \<le> maxInt64"
  shows "limiter_ok 0 0 ((New threshold window lockout)\<lparr>li_store := store\<rparr>)"
  using assms by (simp add: limiter_ok_def policy_ok_def New_def)

lemma retryAfterLocal_locked:
  assumes "limiter_ok t n l" "t \<le> now" "li_entries l k = Some d" "now < u" "u \<le> en_lockUntil d"
  shows "u - now \<le> retryAfterLocal l now k"
proof -
  have "en_lockUntil d \<le> t + penalty l d" "policy_ok l" using assms(1,3) by (auto simp: limiter_ok_def entry_ok_def)
  with penalty_bounds(2)[of l d] assms(2) have "en_lockUntil d - now \<le> maxInt64" by (auto simp: policy_ok_def)
  with assms show ?thesis by (auto simp: retryAfterLocal_def time_Before_def time_Sub_def maxInt64_def)
qed



text \<open>
  C27: Waiting times are bounded: without a shared store no key is ever told to wait longer than eight times the configured
  lockout, however often it failed, and never a negative time.
\<close>

theorem RetryAfter_bounds:
  assumes "0 < threshold" "threshold \<le> maxInt64" "0 \<le> window" "0 \<le> lockout" "lockout * 8 \<le> maxInt64"
    and run: "foldl rl_step (Some (New threshold window lockout), st0) ops = (l, st)"
    and clock: "clock_ok 0 ops" "int (length ops) \<le> maxInt64" "last_time 0 ops \<le> t"
  shows "0 \<le> fst (Limiter_RetryAfter l t k st) \<and> fst (Limiter_RetryAfter l t k st) \<le> lockout * 8"
proof -
  have "New threshold window lockout = (New threshold window lockout)\<lparr>li_store := None\<rparr>" by (simp add: New_def)
  with New_limiter_ok[OF assms(1-5), of None] have "limiter_ok 0 0 (New threshold window lockout :: 'a limiter)" by metis
  from rl_run_ok[OF this clock(1) _ run] clock(2) obtain l1 where l1: "l = Some l1"
    "limiter_ok (last_time 0 ops) (0 + int (length ops)) l1" "li_lockout l1 = lockout" "li_store l1 = None" by (auto simp: New_def)
  have "0 \<le> retryAfterLocal l1 t k \<and> retryAfterLocal l1 t k \<le> lockout * 8"
  proof (cases "li_entries l1 k")
    case (Some e)
    with l1 have "en_lockUntil e \<le> last_time 0 ops + penalty l1 e" "policy_ok l1"
      by (auto simp: limiter_ok_def entry_ok_def)
    with penalty_bounds(2)[of l1 e] l1(3) clock(3) Some assms(4) show ?thesis
      by (auto simp: retryAfterLocal_def time_Before_def time_Sub_def maxInt64_def)
  qed (use assms(4) in \<open>simp add: retryAfterLocal_def\<close>)
  with l1 show ?thesis by (auto simp: Limiter_RetryAfter_def assms(4))
qed

theorem RetryAfter_bounds_witness:
  "fst (Limiter_RetryAfter (fst (foldl rl_step (Some (New 1 100 10), ()) [(5, OpFail ''u''), (6, OpFail ''u'')])) 7 ''u'' ()) \<le> 10 * 8"
proof -
  obtain l st where run: "foldl rl_step (Some (New 1 100 10), ()) [(5, OpFail ''u''), (6, OpFail ''u'')] = (l, st)"
    by (metis surj_pair)
  have "fst (Limiter_RetryAfter l 7 ''u'' st) \<le> 10 * 8"
    by (rule RetryAfter_bounds[THEN conjunct2, OF _ _ _ _ _ run]) (simp_all add: maxInt64_def)
  then show ?thesis unfolding run by simp
qed

section \<open>When a key is locked\<close>

text \<open>One failure inside the window: it counts, and locks at the threshold.\<close>

lemma failLocal_counts:
  assumes "li_entries l k = Some e" "en_windowStart e \<le> now" "now \<le> en_windowStart e + li_window l"
    and "0 \<le> en_count e" "en_count e < li_threshold l" "li_threshold l \<le> maxInt64" "0 \<le> li_window l"
  shows "fst (failLocal l now k) \<longleftrightarrow> en_count e + 1 = li_threshold l"
    and "en_count e + 1 < li_threshold l \<Longrightarrow>
           li_entries (snd (failLocal l now k)) k = Some (e\<lparr>en_count := en_count e + 1\<rparr>)"
proof -
  have w: "\<not> time_Sub now (en_windowStart e) > li_window l" using assms(2,3,7) by (simp add: time_Sub_def)
  have p: "li_entries (pruneLocked l now) k = Some e"
    using assms(1) w by (simp add: pruneLocked_def prune_expired_def)
  have c: "wrap64 (en_count e + 1) = en_count e + 1" using assms(4-6) by (intro wrap64_Suc) auto
  have f: "failLocal l now k =
      (let (locked, e') = fail_entry l now e in (locked, (pruneLocked l now)\<lparr>li_entries := (li_entries (pruneLocked l now))(k \<mapsto> e')\<rparr>))"
    by (simp add: failLocal_def p Let_def)
  show "fst (failLocal l now k) \<longleftrightarrow> en_count e + 1 = li_threshold l"
    and "en_count e + 1 < li_threshold l \<Longrightarrow> li_entries (snd (failLocal l now k)) k = Some (e\<lparr>en_count := en_count e + 1\<rparr>)"
    unfolding f using assms(5) w c by (auto simp: fail_entry_def Let_def)
qed

fun fail_results :: "'s limiter option \<Rightarrow> string \<Rightarrow> int list \<Rightarrow> 's \<Rightarrow> bool list" where
  "fail_results l k [] st = []"
| "fail_results l k (now # ts) st = (let (b, l, st) = Limiter_Fail l now k st in b # fail_results l k ts st)"

lemma fail_results_run:
  assumes "li_entries l k = Some e" "li_store l = None" "sorted ts" "\<forall>t \<in> set ts. en_windowStart e \<le> t \<and> t \<le> en_windowStart e + li_window l"
    and "0 < li_threshold l" "li_threshold l \<le> maxInt64" "0 \<le> li_window l"
    and "0 \<le> en_count e" "en_count e + int (length ts) = li_threshold l" "ts \<noteq> []"
  shows "fail_results (Some l) k ts st = replicate (length ts - 1) False @ [True]"
  using assms
proof (induction ts arbitrary: l e st)
  case (Cons now ts)
  obtain locked l' where f: "failLocal l now k = (locked, l')" by fastforce
  have e: "en_windowStart e \<le> now" "now \<le> en_windowStart e + li_window l" "en_count e < li_threshold l"
    using Cons.prems(4,9) by auto
  note c = failLocal_counts[OF Cons.prems(1) e(1,2) Cons.prems(8) e(3) Cons.prems(6,7), unfolded f fst_conv snd_conv]
  obtain st' where F: "Limiter_Fail (Some l) now k st = (locked, Some l', st')"
    by (rule Fail_local[OF Cons.prems(5) f, of st]) (use Cons.prems(2) in blast)
  note pol = failLocal_policy[OF f]
  show ?case
  proof (cases "ts = []")
    case True
    with Cons.prems(9) c(1) F show ?thesis by simp
  next
    case False
    with Cons.prems(9) have lt: "en_count e + 1 < li_threshold l" by (cases ts) auto
    have "fail_results (Some l') k ts st' = replicate (length ts - 1) False @ [True]"
      using c(2)[OF lt] Cons.prems False pol by (intro Cons.IH[where e = "e\<lparr>en_count := en_count e + 1\<rparr>"]) auto
    with F c(1) lt False show ?thesis by (cases ts) auto
  qed
qed simp

text \<open>
  A key is locked exactly when the configured number of failures falls into one window: of that many failures of a key
  that has no history, all within the window, only the last one locks it.
\<close>

theorem Fail_threshold:
  assumes l: "li_entries l k = None" "li_store l = None"
    and pol: "0 < li_threshold l" "li_threshold l \<le> maxInt64" "0 \<le> li_window l"
    and ts: "sorted ts" "\<forall>t \<in> set ts. t \<le> hd ts + li_window l" "int (length ts) = li_threshold l"
  shows "fail_results (Some l) k ts st = replicate (length ts - 1) False @ [True]"
proof -
  from pol(1) ts(3) obtain now rest where r: "ts = now # rest" by (cases ts) auto
  obtain locked l' where f: "failLocal l now k = (locked, l')" by fastforce
  have none: "li_entries (pruneLocked l now) k = None" using l(1) by (simp add: pruneLocked_def)
  have first: "locked \<longleftrightarrow> li_threshold l \<le> 1" "\<not> locked \<Longrightarrow>
      li_entries l' k = Some \<lparr>en_count = 1, en_windowStart = now, en_lockUntil = 0, en_strikes = 0\<rparr>"
    using f pol(3) by (auto simp: failLocal_def none fail_entry_def time_Sub_def wrap64_def maxInt64_def Let_def split: if_splits)
  obtain st' where F: "Limiter_Fail (Some l) now k st = (locked, Some l', st')"
    by (rule Fail_local[OF pol(1) f, of st]) (use l(2) in blast)
  note same = failLocal_policy[OF f]
  show ?thesis
  proof (cases "rest = []")
    case True
    with r ts(3) F first(1) show ?thesis by simp
  next
    case False
    then have "\<not> locked" using first(1) r ts(3) by (cases rest) auto
    moreover have "fail_results (Some l') k rest st' = replicate (length rest - 1) False @ [True]"
      by (rule fail_results_run[OF first(2)[OF \<open>\<not> locked\<close>]]) (use r ts pol l(2) same False in auto)
    ultimately show ?thesis using r F False by (cases rest) auto
  qed
qed

theorem Fail_threshold_witness:
  "fail_results (Some (New 3 100 10)) ''u'' [50, 60, 150] () = [False, False, True]"
proof -
  have "fail_results (Some (New 3 100 10)) ''u'' [50, 60, 150] () = replicate (length [50, 60, 150 :: int] - 1) False @ [True]"
    by (rule Fail_threshold) (simp_all add: New_def maxInt64_def)
  then show ?thesis by (simp add: numeral_2_eq_2)
qed

end
