(* ===== verification/Projection_Worker.thy ===== *)
theory Projection_Worker
  imports Event_Parity
begin

text \<open>
  The worker that materializes an event store into the projection database
  (\<open>internal/core/event_store_materializer.go\<close>, \<open>internal/core/logmodel/watermarks.go\<close>,
  \<open>internal/core/projections/watermarks.go\<close>), in its SQLite configuration: one watermark per partition says up to which
  offset the events are applied, and a batch is applied in the transaction that moves the watermark.

  The table of watermarks is modelled as it is. The rest of the database is an arbitrary state \<open>'v\<close>, and the statements
  that apply an event to it are the parameters of \<open>projection_sql\<close>, each of which may fail; a transaction that is not
  committed leaves the database as it was. \<open>toLower\<close> is \<open>strings.ToLower\<close>, whose Unicode tables are not reproduced.
\<close>

section \<open>Watermarks\<close>

definition DefaultEventStoreProjectionSource :: string where
  "DefaultEventStoreProjectionSource = ''event-store''"

definition NormalizeEventStoreProjectionSource :: "(string \<Rightarrow> string) \<Rightarrow> string \<Rightarrow> string" where
  "NormalizeEventStoreProjectionSource toLower source =
     (let source = TrimSpace (toLower source)
      in if source = [] then DefaultEventStoreProjectionSource else source)"

definition EventStoreProjectionWatermarkName :: "(string \<Rightarrow> string) \<Rightarrow> string \<Rightarrow> partition \<Rightarrow> string" where
  "EventStoreProjectionWatermarkName toLower source p =
     (let p = Partition_Normalize p
      in ''event-store-projection:'' @
         EncodeSubjectToken (NormalizeEventStoreProjectionSource toLower source) @ '':'' @
         EncodeSubjectToken (pKind p) @ '':'' @ EncodeSubjectToken (pKey p))"

record 'v projection_db =
  pd_watermarks :: "(string, int) gomap"
  pd_view :: 'v

record ('v, 'p) projection_sql =
  ps_lookupErr :: "'v projection_db \<Rightarrow> go_error option"
  ps_beginErr :: "'v projection_db \<Rightarrow> go_error option"
  ps_index :: "'p event \<Rightarrow> 'v \<Rightarrow> go_error + int \<times> 'v"
  ps_apply :: "'p event \<Rightarrow> int \<Rightarrow> 'v \<Rightarrow> go_error + 'v"
  ps_sideEffects :: "'p event \<Rightarrow> int \<Rightarrow> 'v \<Rightarrow> go_error + 'v"
  ps_recordErr :: "'v projection_db \<Rightarrow> go_error option"
  ps_commitErr :: "'v projection_db \<Rightarrow> go_error option"

definition LookupProjectionWatermarkAppliedSeq :: "('v, 'p) projection_sql \<Rightarrow> 'v projection_db \<Rightarrow> string \<Rightarrow> go_error + int \<times> bool" where
  "LookupProjectionWatermarkAppliedSeq sql db watermark =
     (case ps_lookupErr sql db of
        Some e \<Rightarrow> Inl e
      | None \<Rightarrow> Inr (case map_of (pd_watermarks db) watermark of None \<Rightarrow> (0, False) | Some applied \<Rightarrow> (applied, True)))"

definition RecordProjectionWatermarkApplied ::
  "('v, 'p) projection_sql \<Rightarrow> 'v projection_db \<Rightarrow> string \<Rightarrow> int \<Rightarrow> go_error + 'v projection_db" where
  "RecordProjectionWatermarkApplied sql db watermark appliedSeq =
     (let watermark = TrimSpace watermark
      in if watermark = [] then Inl (Errorf ''projection watermark name required'' [])
         else let appliedSeq = (if appliedSeq < 0 then 0 else appliedSeq)
              in case ps_recordErr sql db of
                   Some e \<Rightarrow> Inl e
                 | None \<Rightarrow> Inr (db\<lparr>pd_watermarks := gm_set watermark appliedSeq (pd_watermarks db)\<rparr>))"

section \<open>Materializing one partition\<close>

record materialization_config =
  mc_Source :: string
  mc_Partition :: partition
  mc_Limit :: int

record materialization_result =
  mr_Source :: string
  mr_Partition :: partition
  mr_StartedOffset :: int
  mr_LastOffset :: int
  mr_Applied :: int
  mr_Watermark :: string

text \<open>The events to apply: those after the watermark, without a gap.\<close>

fun select_events :: "partition \<Rightarrow> int \<Rightarrow> 'p event list \<Rightarrow> go_error + 'p event list" where
  "select_events target lastOff [] = Inr []"
| "select_events target lastOff (evt # evts) =
     (let partition = Partition_Normalize (Partition (ev_PartitionKind evt) (ev_PartitionKey evt))
      in if partition \<noteq> target then
           Inl (Errorf ''event store materializer: replay returned wrong partition %s/%s for %s/%s''
             [Astr (pKind partition), Astr (pKey partition), Astr (pKind target), Astr (pKey target)])
         else if ev_PartitionOffset evt \<le> lastOff then select_events target lastOff evts
         else if ev_PartitionOffset evt \<noteq> wrap64 (lastOff + 1) then
           Inl (Errorf ''event store materializer: offset gap in %s/%s: got %d after %d''
             [Astr (pKind target), Astr (pKey target), Aint (ev_PartitionOffset evt), Aint lastOff])
         else case select_events target (ev_PartitionOffset evt) evts of
                Inl e \<Rightarrow> Inl e | Inr rest \<Rightarrow> Inr (evt # rest))"

text \<open>One turn of the apply loop, and the loop; the counters of the result run along.\<close>

definition apply_event :: "('v, 'p) projection_sql \<Rightarrow> partition \<Rightarrow> 'p event \<Rightarrow> 'v \<Rightarrow> go_error + 'v" where
  "apply_event sql target evt v =
     (case (if ev_Seq evt \<le> 0 then ps_index sql evt v else Inr (ev_Seq evt, v)) of
        Inl e \<Rightarrow> Inl (Wrapf ''event store materializer: index compatibility event %s/%s offset %d: %w''
          [Astr (pKind target), Astr (pKey target), Aint (ev_PartitionOffset evt)] e)
      | Inr (seq, v) \<Rightarrow>
          (case ps_apply sql evt seq v of
             Inl e \<Rightarrow> Inl (Wrapf ''event store materializer: apply %s/%s offset %d: %w''
               [Astr (pKind target), Astr (pKey target), Aint (ev_PartitionOffset evt)] e)
           | Inr v \<Rightarrow>
               (case ps_sideEffects sql evt seq v of
                  Inl e \<Rightarrow> Inl (Wrapf ''event store materializer: side effects for %s/%s offset %d: %w''
                    [Astr (pKind target), Astr (pKey target), Aint (ev_PartitionOffset evt)] e)
                | Inr v \<Rightarrow> Inr v)))"

fun apply_events ::
  "('v, 'p) projection_sql \<Rightarrow> 'p event list \<Rightarrow> materialization_result \<Rightarrow> 'v \<Rightarrow> materialization_result \<times> (go_error + 'v)" where
  "apply_events sql [] res v = (res, Inr v)"
| "apply_events sql (evt # evts) res v =
     (case apply_event sql (mr_Partition res) evt v of
        Inl e \<Rightarrow> (res, Inl e)
      | Inr v \<Rightarrow>
          apply_events sql evts (res\<lparr>mr_LastOffset := ev_PartitionOffset evt, mr_Applied := mr_Applied res + 1\<rparr>) v)"

text \<open>The transaction: apply, move the watermark, commit. The database keeps its old value when a step fails.\<close>

definition apply_batch ::
  "('v, 'p) projection_sql \<Rightarrow> 'p event list \<Rightarrow> materialization_result \<Rightarrow> 'v projection_db \<Rightarrow>
   materialization_result \<times> go_error option \<times> 'v projection_db" where
  "apply_batch sql evts res db =
     (case ps_beginErr sql db of
        Some e \<Rightarrow> (res, Some e, db)
      | None \<Rightarrow>
          (case apply_events sql evts res (pd_view db) of
             (res, Inl e) \<Rightarrow> (res, Some e, db)
           | (res, Inr v) \<Rightarrow>
               if mr_Applied res = 0 then (res, None, db)
               else case RecordProjectionWatermarkApplied sql (db\<lparr>pd_view := v\<rparr>) (mr_Watermark res) (mr_LastOffset res) of
                      Inl e \<Rightarrow> (res, Some e, db)
                    | Inr db' \<Rightarrow> (case ps_commitErr sql db' of Some e \<Rightarrow> (res, Some e, db) | None \<Rightarrow> (res, None, db'))))"

definition apply_replayed ::
  "('v, 'p) projection_sql \<Rightarrow> 'p event list \<Rightarrow> materialization_result \<Rightarrow> 'v projection_db \<Rightarrow>
   materialization_result \<times> go_error option \<times> 'v projection_db" where
  "apply_replayed sql events res db =
     (if events = [] then (res, None, db)
      else case select_events (mr_Partition res) (mr_StartedOffset res) events of
             Inl e \<Rightarrow> (res, Some e, db)
           | Inr evts \<Rightarrow> if evts = [] then (res, None, db) else apply_batch sql evts res db)"

definition materialize_from ::
  "('v, 'p) projection_sql \<Rightarrow> ctx \<Rightarrow> ('s, 'p) event_store \<Rightarrow> int \<Rightarrow> materialization_result \<Rightarrow> 'v projection_db \<Rightarrow>
   materialization_result \<times> go_error option \<times> 'v projection_db" where
  "materialize_from sql ctx store limit res db =
     (case LookupProjectionWatermarkAppliedSeq sql db (mr_Watermark res) of
        Inl e \<Rightarrow> (res, Some e, db)
      | Inr (applied, found) \<Rightarrow>
          let applied = (if \<not> found then 0 else applied);
              res = res\<lparr>mr_StartedOffset := applied, mr_LastOffset := applied\<rparr>
          in case es_replayPartition store ctx (es_state store) (pKind (mr_Partition res)) (pKey (mr_Partition res)) applied limit of
               Inl e \<Rightarrow> (res, Some e, db)
             | Inr events \<Rightarrow> apply_replayed sql events res db)"

text \<open>\<open>core\<close> is \<open>None\<close> for a nil core and \<open>Some False\<close> for a core without a database.\<close>

definition MaterializeEventStorePartition ::
  "(string \<Rightarrow> string) \<Rightarrow> ('v, 'p) projection_sql \<Rightarrow> ctx \<Rightarrow> bool option \<Rightarrow> ('s, 'p) event_store option \<Rightarrow> materialization_config \<Rightarrow>
   'v projection_db \<Rightarrow> materialization_result \<times> go_error option \<times> 'v projection_db" where
  "MaterializeEventStorePartition toLower sql ctx core store config db =
     (let source = NormalizeEventStoreProjectionSource toLower (mc_Source config);
          partition = Partition_Normalize (mc_Partition config);
          result = \<lparr>mr_Source = source, mr_Partition = partition, mr_StartedOffset = 0, mr_LastOffset = 0, mr_Applied = 0,
                    mr_Watermark = EventStoreProjectionWatermarkName toLower source partition\<rparr>
      in case ctx of Some e \<Rightarrow> (result, Some e, db)
         | None \<Rightarrow>
             if core \<noteq> Some True then (result, Some (Errorf ''event store materializer: core is not initialized'' []), db)
             else case store of
                    None \<Rightarrow> (result, Some (Errorf ''event store materializer: nil event store'' []), db)
                  | Some store \<Rightarrow>
                      let limit = (if mc_Limit config \<le> 0 then 100 else mc_Limit config)
                      in materialize_from sql ctx store limit result db)"

section \<open>The worker\<close>

record ('s, 'p) projection_worker =
  pw_core :: "bool option"
  pw_store :: "('s, 'p) event_store option"
  pw_partitions :: "partition_lister option"
  pw_source :: string
  pw_batchSize :: int
  pw_partitionLimit :: int

text \<open>The interval of the timer loop is not part of the model.\<close>

definition NewEventStoreProjectionWorker ::
  "(string \<Rightarrow> string) \<Rightarrow> ('s, 'p) projection_worker \<Rightarrow> go_error + ('s, 'p) projection_worker" where
  "NewEventStoreProjectionWorker toLower config =
     (if pw_core config = None then Inl (Errorf ''event store projection worker: nil core'' [])
      else case pw_store config of
             None \<Rightarrow> Inl (Errorf ''event store projection worker: nil event store'' [])
           | Some store \<Rightarrow>
               (case (case pw_partitions config of None \<Rightarrow> store_lister store | Some l \<Rightarrow> Some l) of
                  None \<Rightarrow> Inl (Errorf ''event store projection worker: nil partition lister'' [])
                | Some lister \<Rightarrow>
                    Inr (config\<lparr>pw_partitions := Some lister,
                                pw_source := NormalizeEventStoreProjectionSource toLower (pw_source config),
                                pw_batchSize := (if pw_batchSize config \<le> 0 then 100 else pw_batchSize config),
                                pw_partitionLimit := (if pw_partitionLimit config \<le> 0 then 100 else pw_partitionLimit config)\<rparr>)))"

fun materialize_partitions ::
  "(string \<Rightarrow> string) \<Rightarrow> ('v, 'p) projection_sql \<Rightarrow> ctx \<Rightarrow> ('s, 'p) projection_worker \<Rightarrow> partition list \<Rightarrow> 'v projection_db \<Rightarrow>
   materialization_result list \<times> go_error option \<times> 'v projection_db" where
  "materialize_partitions toLower sql ctx w [] db = ([], None, db)"
| "materialize_partitions toLower sql ctx w (p # ps) db =
     (case MaterializeEventStorePartition toLower sql ctx (pw_core w) (pw_store w)
             \<lparr>mc_Source = pw_source w, mc_Partition = p, mc_Limit = pw_batchSize w\<rparr> db of
        (res, Some e, db) \<Rightarrow> ([res], Some e, db)
      | (res, None, db) \<Rightarrow> (case materialize_partitions toLower sql ctx w ps db of (rs, err, db) \<Rightarrow> (res # rs, err, db)))"

definition MaterializeOnce ::
  "(string \<Rightarrow> string) \<Rightarrow> ('v, 'p) projection_sql \<Rightarrow> ctx \<Rightarrow> ('s, 'p) projection_worker option \<Rightarrow> 'v projection_db \<Rightarrow>
   materialization_result list \<times> go_error option \<times> 'v projection_db" where
  "MaterializeOnce toLower sql ctx w db =
     (case ctx of Some e \<Rightarrow> ([], Some e, db)
      | None \<Rightarrow>
          (case w of None \<Rightarrow> ([], Some (Errorf ''event store projection worker: nil receiver'' []), db)
           | Some w \<Rightarrow>
               if pw_core w = None then ([], Some (Errorf ''event store projection worker: nil core'' []), db)
               else if pw_store w = None then ([], Some (Errorf ''event store projection worker: nil event store'' []), db)
               else if pw_partitions w = None then ([], Some (Errorf ''event store projection worker: nil partition lister'' []), db)
               else case listEventPartitionsWithLimit ctx (pw_partitions w) (pw_partitionLimit w) of
                      Inl e \<Rightarrow> ([], Some e, db)
                    | Inr (partitions, limited) \<Rightarrow>
                        if limited then
                          ([], Some (Errorf ''event store projection worker: partition limit %d did not cover every broker event partition''
                             [Aint (pw_partitionLimit w)]), db)
                        else materialize_partitions toLower sql ctx w partitions db))"

definition eventStoreProjectionWorkerShouldContinue :: "materialization_result list \<Rightarrow> int \<Rightarrow> bool" where
  "eventStoreProjectionWorkerShouldContinue results batchSize =
     (let batchSize = (if batchSize \<le> 0 then 100 else batchSize) in list_ex (\<lambda>r. mr_Applied r \<ge> batchSize) results)"

text \<open>
  \<open>DrainOnce\<close> repeats \<open>MaterializeOnce\<close>; \<open>None\<close> is a loop that does not end. The source reads \<open>w.batchSize\<close> after a
  call without error, so the receiver is not nil there.
\<close>

partial_function (option) drain_loop ::
  "(string \<Rightarrow> string) \<Rightarrow> ('v, 'p) projection_sql \<Rightarrow> ctx \<Rightarrow> ('s, 'p) projection_worker option \<Rightarrow> materialization_result list \<Rightarrow>
   'v projection_db \<Rightarrow> (materialization_result list \<times> go_error option \<times> 'v projection_db) option" where
  "drain_loop toLower sql ctx w results db =
     (case MaterializeOnce toLower sql ctx w db of
        (batch, Some e, db) \<Rightarrow> Some (results @ batch, Some e, db)
      | (batch, None, db) \<Rightarrow>
          if eventStoreProjectionWorkerShouldContinue batch (case w of None \<Rightarrow> 0 | Some w \<Rightarrow> pw_batchSize w)
          then drain_loop toLower sql ctx w (results @ batch) db
          else Some (results @ batch, None, db))"

definition DrainOnce ::
  "(string \<Rightarrow> string) \<Rightarrow> ('v, 'p) projection_sql \<Rightarrow> ctx \<Rightarrow> ('s, 'p) projection_worker option \<Rightarrow> 'v projection_db \<Rightarrow>
   (materialization_result list \<times> go_error option \<times> 'v projection_db) option" where
  "DrainOnce toLower sql ctx w db = drain_loop toLower sql ctx w [] db"

section \<open>Watermark names\<close>

lemma enc64_plain [simp]: "i < 64 \<Longrightarrow> plain_char (enc64 i)" "i < 64 \<Longrightarrow> CHR '':'' \<noteq> enc64 i"
proof -
  assume i: "i < 64"
  then have "(of_char (enc64 i) :: nat) \<noteq> 58" by (auto simp: of_char_enc64)
  then have "enc64 i \<noteq> CHR '':''" by auto
  then show "CHR '':'' \<noteq> enc64 i" by (rule not_sym)
  from i show "plain_char (enc64 i)" by (auto simp: plain_char_def of_char_enc64)
qed

lemma b64_encode_plain: "list_all plain_char (b64_encode s)" "CHR '':'' \<notin> set (b64_encode s)"
  by (induction s rule: b64_encode.induct) (simp_all add: Let_def)

interpretation watermark_token: token_codec EncodeSubjectToken DecodeSubjectToken "CHR '':''"
  by unfold_locales
    (simp_all add: EncodeSubjectToken_def DecodeSubjectToken_def b64_decode_encode b64_encode_plain)

lemma WatermarkName_TrimSpace [simp]:
  "TrimSpace (EventStoreProjectionWatermarkName toLower source p) = EventStoreProjectionWatermarkName toLower source p"
  "EventStoreProjectionWatermarkName toLower source p \<noteq> []"
proof -
  have "list_all plain_char ''event-store-projection:''" "list_all plain_char '':''" by code_simp+
  then show "TrimSpace (EventStoreProjectionWatermarkName toLower source p) = EventStoreProjectionWatermarkName toLower source p"
    by (intro TrimSpace_plain) (simp add: EventStoreProjectionWatermarkName_def Let_def EncodeSubjectToken_def b64_encode_plain)
  show "EventStoreProjectionWatermarkName toLower source p \<noteq> []" by (simp add: EventStoreProjectionWatermarkName_def Let_def)
qed

text \<open>One source has one watermark per partition.\<close>

lemma WatermarkName_inj:
  "EventStoreProjectionWatermarkName toLower source p = EventStoreProjectionWatermarkName toLower source q \<longleftrightarrow>
   Partition_Normalize p = Partition_Normalize q" (is "?l \<longleftrightarrow> ?r")
proof
  let ?enc = "\<lambda>p. EncodeSubjectToken (pKind (Partition_Normalize p)) @ CHR '':'' # EncodeSubjectToken (pKey (Partition_Normalize p))"
  assume ?l
  then have "split_on (CHR '':'') (?enc p) = split_on (CHR '':'') (?enc q)"
    by (simp add: EventStoreProjectionWatermarkName_def Let_def)
  then show ?r unfolding watermark_token.split_pair by (simp add: watermark_token.enc_inj partition.expand)
qed (simp add: EventStoreProjectionWatermarkName_def Let_def)

section \<open>A batch is applied as a whole\<close>

text \<open>Applying events one after the other.\<close>

fun project :: "('v, 'p) projection_sql \<Rightarrow> partition \<Rightarrow> 'p event list \<Rightarrow> 'v \<Rightarrow> go_error + 'v" where
  "project sql p [] v = Inr v"
| "project sql p (e # es) v = (case apply_event sql p e v of Inl err \<Rightarrow> Inl err | Inr v \<Rightarrow> project sql p es v)"

lemma apply_events_project:
  assumes "apply_events sql evts res v = (res', Inr v')"
  shows "project sql (mr_Partition res) evts v = Inr v' \<and>
    res' = res\<lparr>mr_Applied := mr_Applied res + int (length evts),
               mr_LastOffset := (if evts = [] then mr_LastOffset res else ev_PartitionOffset (last evts))\<rparr>"
  using assms
proof (induction evts arbitrary: res v)
  case (Cons e evts)
  then obtain v1 where "apply_event sql (mr_Partition res) e v = Inr v1" by (auto split: sum.splits)
  with Cons.prems Cons.IH[of "res\<lparr>mr_LastOffset := ev_PartitionOffset e, mr_Applied := mr_Applied res + 1\<rparr>" v1]
  show ?case by auto
qed auto

lemma select_events_contiguous:
  assumes "select_events p n events = Inr evts" "0 \<le> n" "\<forall>e \<in> set events. ev_PartitionOffset e \<le> maxInt64"
  shows "map ev_PartitionOffset evts = [n + 1..n + int (length evts)] \<and> set evts \<subseteq> set events \<and>
         (\<forall>e \<in> set evts. Partition_Normalize (event_partition e) = p)"
  using assms
proof (induction events arbitrary: n evts)
  case (Cons e events)
  show ?case
  proof (cases "ev_PartitionOffset e \<le> n")
    case True
    with Cons.prems Cons.IH[of n evts] show ?thesis by (auto simp: Let_def split: if_splits)
  next
    case False
    then have "wrap64 (n + 1) = n + 1" using Cons.prems(2,3) by (intro wrap64_Suc) auto
    with False Cons.prems(1) obtain rest where rest: "select_events p (n + 1) events = Inr rest" "evts = e # rest"
      "ev_PartitionOffset e = n + 1" "Partition_Normalize (event_partition e) = p"
      by (auto simp: Let_def event_partition_def split: if_splits sum.splits)
    from Cons.IH[OF rest(1)] Cons.prems(2,3) have
      "map ev_PartitionOffset rest = [n + 1 + 1..n + 1 + int (length rest)] \<and> set rest \<subseteq> set events \<and>
       (\<forall>e \<in> set rest. Partition_Normalize (event_partition e) = p)" by simp
    with rest show ?thesis by (auto simp: upto_rec1 algebra_simps)
  qed
qed auto

abbreviation watermark :: "'v projection_db \<Rightarrow> string \<Rightarrow> int" where
  "watermark db name \<equiv> gm_get 0 (pd_watermarks db) name"

lemma apply_batch_cases:
  assumes "apply_batch sql evts res db = (res', err, db')" "evts \<noteq> []" "mr_Applied res = 0"
    "mr_Watermark res = EventStoreProjectionWatermarkName toLower source p" "0 \<le> ev_PartitionOffset (last evts)"
  shows "db' = db \<and> err \<noteq> None \<or>
    err = None \<and> (\<exists>v. project sql (mr_Partition res) evts (pd_view db) = Inr v \<and>
      db' = \<lparr>pd_watermarks = gm_set (mr_Watermark res) (ev_PartitionOffset (last evts)) (pd_watermarks db), pd_view = v\<rparr> \<and>
      res' = res\<lparr>mr_Applied := int (length evts), mr_LastOffset := ev_PartitionOffset (last evts)\<rparr>)"
proof (cases "ps_beginErr sql db")
  case None
  obtain r1 out where a: "apply_events sql evts res (pd_view db) = (r1, out)" by fastforce
  show ?thesis
  proof (cases out)
    case (Inl e)
    with None a assms(1) show ?thesis by (auto simp: apply_batch_def)
  next
    case (Inr v)
    from apply_events_project[OF a[unfolded Inr]] assms(2,3) have r1: "project sql (mr_Partition res) evts (pd_view db) = Inr v"
      "r1 = res\<lparr>mr_Applied := int (length evts), mr_LastOffset := ev_PartitionOffset (last evts)\<rparr>" by auto
    have "mr_Applied r1 \<noteq> 0" "TrimSpace (mr_Watermark r1) = mr_Watermark res" "mr_Watermark res \<noteq> []"
      "\<not> mr_LastOffset r1 < 0" "mr_LastOffset r1 = ev_PartitionOffset (last evts)"
      using r1(2) assms(2,4,5) by auto
    with None a Inr r1 assms(1) show ?thesis
      by (auto simp: apply_batch_def RecordProjectionWatermarkApplied_def Let_def split: option.splits)
  qed
qed (use assms(1) in \<open>auto simp: apply_batch_def\<close>)

text \<open>The watermark a call of \<open>MaterializeEventStorePartition\<close> works with, and what its store replays.\<close>

abbreviation config_watermark :: "(string \<Rightarrow> string) \<Rightarrow> materialization_config \<Rightarrow> string" where
  "config_watermark toLower config \<equiv>
     EventStoreProjectionWatermarkName toLower (NormalizeEventStoreProjectionSource toLower (mc_Source config)) (mc_Partition config)"

abbreviation config_replay :: "('s, 'p) event_store \<Rightarrow> materialization_config \<Rightarrow> int \<Rightarrow> go_error + 'p event list" where
  "config_replay store config n \<equiv>
     es_replayPartition store None (es_state store) (pKind (Partition_Normalize (mc_Partition config)))
       (pKey (Partition_Normalize (mc_Partition config))) n (if mc_Limit config \<le> 0 then 100 else mc_Limit config)"

lemma WatermarkName_Normalize [simp]:
  "EventStoreProjectionWatermarkName toLower source (Partition_Normalize p) = EventStoreProjectionWatermarkName toLower source p"
  by (simp add: EventStoreProjectionWatermarkName_def)

text \<open>Either nothing changes, or the selected events went through \<open>apply_batch\<close>.\<close>

lemma Lookup_watermark:
  "LookupProjectionWatermarkAppliedSeq sql db w = (case ps_lookupErr sql db of
     Some e \<Rightarrow> Inl e | None \<Rightarrow> Inr (watermark db w, gm_has (pd_watermarks db) w))"
  by (simp add: LookupProjectionWatermarkAppliedSeq_def gm_get_def gm_has_def split: option.split)

lemma watermark_found: "(if \<not> gm_has (pd_watermarks db) w then 0 else watermark db w) = watermark db w"
  by (auto simp: gm_get_def gm_has_def)

lemma materialize_from_found:
  assumes "ps_lookupErr sql db = None"
    "es_replayPartition store ctx (es_state store) (pKind (mr_Partition res)) (pKey (mr_Partition res))
       (watermark db (mr_Watermark res)) limit = Inr events"
  shows "materialize_from sql ctx store limit res db =
    apply_replayed sql events (res\<lparr>mr_StartedOffset := watermark db (mr_Watermark res), mr_LastOffset := watermark db (mr_Watermark res)\<rparr>) db"
  using assms by (simp add: materialize_from_def Lookup_watermark watermark_found Let_def)

lemma materialize_from_cases:
  assumes "materialize_from sql None store limit res0 db = (res, err, db')"
  shows "db' = db \<and> mr_Applied res = mr_Applied res0 \<and> (err = None \<longrightarrow>
      (\<exists>events. es_replayPartition store None (es_state store) (pKind (mr_Partition res0)) (pKey (mr_Partition res0))
         (watermark db (mr_Watermark res0)) limit = Inr events \<and>
       select_events (mr_Partition res0) (watermark db (mr_Watermark res0)) events = Inr [])) \<or>
    (\<exists>events evts n. es_replayPartition store None (es_state store) (pKind (mr_Partition res0)) (pKey (mr_Partition res0))
         (watermark db (mr_Watermark res0)) limit = Inr events \<and>
       select_events (mr_Partition res0) (watermark db (mr_Watermark res0)) events = Inr evts \<and> evts \<noteq> [] \<and>
       apply_batch sql evts (res0\<lparr>mr_StartedOffset := n, mr_LastOffset := n\<rparr>) db = (res, err, db'))"
proof (cases "ps_lookupErr sql db")
  case None
  let ?n = "watermark db (mr_Watermark res0)"
  let ?res = "res0\<lparr>mr_StartedOffset := ?n, mr_LastOffset := ?n\<rparr>"
  show ?thesis
  proof (cases "es_replayPartition store None (es_state store) (pKind (mr_Partition res0)) (pKey (mr_Partition res0)) ?n limit")
    case (Inl e)
    with None assms show ?thesis by (auto simp: materialize_from_def Lookup_watermark watermark_found Let_def)
  next
    case (Inr events)
    with None assms have "apply_replayed sql events ?res db = (res, err, db')" by (simp add: materialize_from_found)
    with Inr show ?thesis
      by (cases "select_events (mr_Partition res0) ?n events") (auto simp: apply_replayed_def split: if_splits)
  qed
qed (use assms in \<open>auto simp: materialize_from_def Lookup_watermark\<close>)

lemma last_of_range: "map f xs = [n + 1..n + int (length xs)] \<Longrightarrow> xs \<noteq> [] \<Longrightarrow> f (last xs) = n + int (length xs)"
proof -
  assume *: "map f xs = [n + 1..n + int (length xs)]" "xs \<noteq> []"
  then have "last (map f xs) = last [n + 1..n + int (length xs)]" by simp
  moreover have "n + 1 \<le> n + int (length xs)" using *(2) by (cases xs) auto
  ultimately show ?thesis using *(2) by (simp add: last_map upto_rec2)
qed

text \<open>
  C8: Applying events and moving the watermark are one step. Whatever the store replays and whichever statement fails, a
  call leaves the database as it was, or it applies a gapless run of events of this partition that starts right after the
  watermark, in order, and moves the watermark exactly to the last of them; other watermarks do not change. So every
  event is applied exactly once, also when calls fail and are repeated.
\<close>

theorem MaterializeEventStorePartition_atomic:
  assumes m: "MaterializeEventStorePartition toLower sql ctx core (Some store) config db = (res, err, db')"
    and n: "0 \<le> watermark db (config_watermark toLower config)"
    and width: "\<forall>events. config_replay store config (watermark db (config_watermark toLower config)) = Inr events \<longrightarrow>
      (\<forall>e \<in> set events. ev_PartitionOffset e \<le> maxInt64)"
  shows "db' = db \<or> (\<exists>events evts. let w = config_watermark toLower config; p = Partition_Normalize (mc_Partition config); n = watermark db w
     in err = None \<and> config_replay store config n = Inr events \<and> set evts \<subseteq> set events \<and> evts \<noteq> [] \<and>
        (\<forall>e \<in> set evts. Partition_Normalize (event_partition e) = p) \<and>
        map ev_PartitionOffset evts = [n + 1..n + int (length evts)] \<and>
        project sql p evts (pd_view db) = Inr (pd_view db') \<and>
        pd_watermarks db' = gm_set w (n + int (length evts)) (pd_watermarks db) \<and>
        mr_Applied res = int (length evts) \<and> mr_LastOffset res = n + int (length evts))"
proof (cases "ctx = None \<and> core = Some True")
  case True
  let ?p = "Partition_Normalize (mc_Partition config)" and ?w = "config_watermark toLower config"
  let ?res = "\<lparr>mr_Source = NormalizeEventStoreProjectionSource toLower (mc_Source config), mr_Partition = ?p,
    mr_StartedOffset = 0, mr_LastOffset = 0, mr_Applied = 0, mr_Watermark = ?w\<rparr>"
  have start: "materialize_from sql None store (if mc_Limit config \<le> 0 then 100 else mc_Limit config) ?res db = (res, err, db')"
    using m True by (simp add: MaterializeEventStorePartition_def Let_def)
  show ?thesis
  proof (rule disjE[OF materialize_from_cases[OF start]])
    assume "\<exists>events evts n. es_replayPartition store None (es_state store) (pKind (mr_Partition ?res)) (pKey (mr_Partition ?res))
        (watermark db (mr_Watermark ?res)) (if mc_Limit config \<le> 0 then 100 else mc_Limit config) = Inr events \<and>
      select_events (mr_Partition ?res) (watermark db (mr_Watermark ?res)) events = Inr evts \<and> evts \<noteq> [] \<and>
      apply_batch sql evts (?res\<lparr>mr_StartedOffset := n, mr_LastOffset := n\<rparr>) db = (res, err, db')"
    then obtain events evts k where e: "config_replay store config (watermark db ?w) = Inr events"
      "select_events ?p (watermark db ?w) events = Inr evts" "evts \<noteq> []"
      "apply_batch sql evts (?res\<lparr>mr_StartedOffset := k, mr_LastOffset := k\<rparr>) db = (res, err, db')" by auto
    have run: "map ev_PartitionOffset evts = [watermark db ?w + 1..watermark db ?w + int (length evts)] \<and>
        set evts \<subseteq> set events \<and> (\<forall>e \<in> set evts. Partition_Normalize (event_partition e) = ?p)"
      by (rule select_events_contiguous[OF e(2) n]) (use width e(1) in blast)
    have l: "ev_PartitionOffset (last evts) = watermark db ?w + int (length evts)" using run e(3) by (intro last_of_range) auto
    have "db' = db \<and> err \<noteq> None \<or> err = None \<and> (\<exists>v. project sql ?p evts (pd_view db) = Inr v \<and>
        db' = \<lparr>pd_watermarks = gm_set ?w (ev_PartitionOffset (last evts)) (pd_watermarks db), pd_view = v\<rparr> \<and>
        mr_Applied res = int (length evts) \<and> mr_LastOffset res = ev_PartitionOffset (last evts))"
      using apply_batch_cases[OF e(4,3)] l n by fastforce
    with run e(1,3) l show ?thesis unfolding Let_def by auto
  qed blast
qed (use m in \<open>auto simp: MaterializeEventStorePartition_def Let_def split: option.splits if_splits\<close>)

section \<open>Draining an in-memory store\<close>

text \<open>A store without seeded partitions: the events of a partition have the offsets 1, 2, 3 up to its tail.\<close>

definition dense_store :: "'p memory_event_store \<Rightarrow> bool" where
  "dense_store s \<longleftrightarrow> (\<forall>p. tail_of s p \<le> maxInt64 \<and>
     map ev_PartitionOffset (filter (\<lambda>e. event_partition e = p) (mes_events s)) = [1..tail_of s p])"

text \<open>No statement fails.\<close>

definition sql_total :: "('v, 'p) projection_sql \<Rightarrow> bool" where
  "sql_total sql \<longleftrightarrow>
     (\<forall>db. ps_lookupErr sql db = None \<and> ps_beginErr sql db = None \<and> ps_recordErr sql db = None \<and> ps_commitErr sql db = None) \<and>
     (\<forall>e v. \<exists>n v'. ps_index sql e v = Inr (n, v')) \<and> (\<forall>e n v. \<exists>v'. ps_apply sql e n v = Inr v') \<and>
     (\<forall>e n v. \<exists>v'. ps_sideEffects sql e n v = Inr v')"

lemma apply_event_total:
  assumes "sql_total sql"
  shows "\<exists>v'. apply_event sql p e v = Inr v'"
proof -
  obtain n v1 where 1: "(if ev_Seq e \<le> 0 then ps_index sql e v else Inr (ev_Seq e, v)) = Inr (n, v1)"
    using assms unfolding sql_total_def by (cases "ev_Seq e \<le> 0") fastforce+
  obtain v2 where 2: "ps_apply sql e n v1 = Inr v2" using assms unfolding sql_total_def by blast
  obtain v3 where "ps_sideEffects sql e n v2 = Inr v3" using assms unfolding sql_total_def by blast
  then show ?thesis by (simp add: apply_event_def 1 2)
qed

lemma apply_events_total: "sql_total sql \<Longrightarrow> \<exists>res' v'. apply_events sql evts res v = (res', Inr v')"
proof (induction evts arbitrary: res v)
  case (Cons e evts)
  obtain v1 where "apply_event sql (mr_Partition res) e v = Inr v1" using apply_event_total[OF Cons.prems] by blast
  with Cons show ?case by simp
qed simp

lemma apply_batch_total:
  assumes "sql_total sql" "mr_Watermark res = EventStoreProjectionWatermarkName toLower source p"
  shows "\<exists>res' db'. apply_batch sql evts res db = (res', None, db')"
proof -
  obtain r v where a: "apply_events sql evts res (pd_view db) = (r, Inr v)" using apply_events_total[OF assms(1)] by blast
  have w: "mr_Watermark r = mr_Watermark res" using apply_events_project[OF a] by simp
  have none: "ps_beginErr sql d = None" "ps_recordErr sql d = None" "ps_commitErr sql d = None" for d
    using assms(1) by (simp_all add: sql_total_def)
  show ?thesis by (simp add: apply_batch_def a none RecordProjectionWatermarkApplied_def w assms(2) Let_def)
qed

lemma select_events_all:
  assumes "map ev_PartitionOffset es = [n + 1..m]" "0 \<le> n" "m \<le> maxInt64" "\<forall>e \<in> set es. event_partition e = p" "Partition_Normalize p = p"
  shows "select_events p n es = Inr es"
  using assms
proof (induction es arbitrary: n)
  case (Cons e es)
  have m: "n + 1 \<le> m" using Cons.prems(1) by (cases "n + 1 \<le> m") auto
  then have "ev_PartitionOffset e = n + 1" "map ev_PartitionOffset es = [n + 1 + 1..m]"
    using Cons.prems(1) by (simp_all add: upto_rec1)
  moreover have "wrap64 (n + 1) = n + 1" using Cons.prems(2,3) m by (intro wrap64_Suc) auto
  ultimately show ?case using Cons by (simp add: event_partition_def Let_def)
qed simp

lemma filter_upto: "0 \<le> n \<Longrightarrow> filter (\<lambda>x. n < x) [1..m] = [n + 1..m]"
proof (induction "nat m" arbitrary: m)
  case (Suc k)
  then have "[1..m] = [1..m - 1] @ [m]" by (simp add: upto_rec2)
  moreover have "[n + 1..m] = (if n < m then [n + 1..m - 1] @ [m] else [])" by (simp add: upto_rec2)
  moreover have "filter (\<lambda>x. n < x) [1..m - 1] = [n + 1..m - 1]" using Suc by (intro Suc.hyps) auto
  ultimately show ?case by auto
qed simp

lemma take_upto: "take k [a..m] = [a..min m (a + int k - 1)]"
proof (induction k arbitrary: a)
  case (Suc k)
  then show ?case by (cases "a \<le> m") (auto simp: upto_rec1)
qed simp

text \<open>What a page of the store holds.\<close>

lemma dense_page:
  fixes p :: partition
  assumes "event_store_ok jc s" "dense_store s" "0 \<le> n" "0 < b"
  defines "es \<equiv> mes_replayPartition jc s (pKind p) (pKey p) n b"
  shows "map ev_PartitionOffset es = [n + 1..min (tail_of s p) (n + b)]" "\<forall>e \<in> set es. event_partition e = p"
proof -
  let ?P = "\<lambda>e. event_partition e = p \<and> n < ev_PartitionOffset e"
  have P: "(\<lambda>evt. \<not> (ev_PartitionKind evt \<noteq> pKind p \<or> ev_PartitionKey evt \<noteq> pKey p \<or> ev_PartitionOffset evt \<le> n)) = ?P"
    by (cases p) (auto simp: event_partition_def fun_eq_iff)
  have "map (cloneEvent jc) xs = xs" if "set xs \<subseteq> set (mes_events s)" for xs
    using that assms(1) by (induction xs) (auto simp: event_store_ok_def)
  moreover have "set (limit_slice b (filter ?P (mes_events s))) \<subseteq> set (mes_events s)" by (auto dest: set_limit_slice)
  ultimately have es: "es = limit_slice b (filter ?P (mes_events s))"
    unfolding es_def mes_replayPartition_def P collect_eq by blast
  then show "\<forall>e \<in> set es. event_partition e = p" by (auto dest: set_limit_slice)
  have "map ev_PartitionOffset (filter ?P (mes_events s)) =
      filter (\<lambda>x. n < x) (map ev_PartitionOffset (filter (\<lambda>e. event_partition e = p) (mes_events s)))"
    by (simp add: filter_map comp_def conj_commute)
  also have "\<dots> = [n + 1..tail_of s p]" using assms(2,3) by (simp add: dense_store_def filter_upto)
  finally have "map ev_PartitionOffset es = take (nat b) [n + 1..tail_of s p]"
    using assms(4) by (simp add: es limit_slice_take flip: take_map)
  also have "\<dots> = [n + 1..min (tail_of s p) (n + b)]" using assms(4) by (simp add: take_upto)
  finally show "map ev_PartitionOffset es = [n + 1..min (tail_of s p) (n + b)]" .
qed

abbreviation worker_mark :: "(string \<Rightarrow> string) \<Rightarrow> ('s, 'p) projection_worker \<Rightarrow> partition \<Rightarrow> string" where
  "worker_mark toLower w p \<equiv>
     EventStoreProjectionWatermarkName toLower (NormalizeEventStoreProjectionSource toLower (pw_source w)) p"

text \<open>One partition: the watermark moves by a page, or to the tail.\<close>

lemma materialize_dense:
  assumes s: "event_store_ok jc s" "dense_store s" and sql: "sql_total sql" and p: "Partition_Normalize p = p"
    and w: "pw_store w = Some (memory_store jc now fresh s)" "0 < pw_batchSize w"
    and n: "watermark db (worker_mark toLower w p) = n" "0 \<le> n" "n \<le> tail_of s p"
  obtains res db' where
    "MaterializeEventStorePartition toLower sql None (Some True) (pw_store w)
       \<lparr>mc_Source = pw_source w, mc_Partition = p, mc_Limit = pw_batchSize w\<rparr> db = (res, None, db')"
    "mr_Applied res = min (tail_of s p) (n + pw_batchSize w) - n"
    "\<And>q. Partition_Normalize q = q \<Longrightarrow> watermark db' (worker_mark toLower w q) =
       (if q = p then min (tail_of s p) (n + pw_batchSize w) else watermark db (worker_mark toLower w q))"
proof -
  let ?b = "pw_batchSize w" and ?m = "min (tail_of s p) (n + pw_batchSize w)"
  let ?es = "mes_replayPartition jc s (pKind p) (pKey p) n ?b"
  let ?res = "\<lparr>mr_Source = NormalizeEventStoreProjectionSource toLower (pw_source w), mr_Partition = p, mr_StartedOffset = n,
    mr_LastOffset = n, mr_Applied = 0, mr_Watermark = worker_mark toLower w p\<rparr>"
  note page = dense_page[OF s n(2) w(2), of p]
  have "tail_of s p \<le> maxInt64" using s(2) by (simp add: dense_store_def)
  then have sel: "select_events p n ?es = Inr ?es" using select_events_all[OF page(1) n(2) _ page(2) p] by simp
  have len: "int (length ?es) = ?m - n" using arg_cong[OF page(1), of length] w(2) n(3) by simp
  have call: "MaterializeEventStorePartition toLower sql None (Some True) (pw_store w)
      \<lparr>mc_Source = pw_source w, mc_Partition = p, mc_Limit = ?b\<rparr> db =
      (if ?es = [] then (?res, None, db) else apply_batch sql ?es ?res db)"
  proof -
    have "ps_lookupErr sql db = None" using sql by (simp add: sql_total_def)
    note found = materialize_from_found[where res = "?res\<lparr>mr_StartedOffset := 0, mr_LastOffset := 0\<rparr>"
        and store = "memory_store jc now fresh s" and limit = ?b and ctx = None and events = ?es, OF this]
    show ?thesis
      using w found n(1) p sel
      by (simp add: MaterializeEventStorePartition_def apply_replayed_def memory_store_def
          MemoryEventStore_ReplayPartition_def with_receiver_def Let_def)
  qed
  show thesis
  proof (cases "?es = []")
    case True
    then have "?m = n" using len by simp
    with True call that[of ?res db] n(1) show thesis by auto
  next
    case False
    have off: "ev_PartitionOffset (last ?es) = ?m" using last_of_range[of _ ?es n] page(1) len False by simp
    obtain r db' where a: "apply_batch sql ?es ?res db = (r, None, db')"
      using apply_batch_total[OF sql, of ?res toLower "NormalizeEventStoreProjectionSource toLower (pw_source w)" p ?es db] by auto
    with apply_batch_cases[OF a False, of toLower "NormalizeEventStoreProjectionSource toLower (pw_source w)" p] off n w(2) have r: "mr_Applied r = int (length ?es)"
      "pd_watermarks db' = gm_set (worker_mark toLower w p) ?m (pd_watermarks db)" by auto
    with call False a len p that[of r db'] show thesis by (auto simp: WatermarkName_inj)
  qed
qed

lemma materialize_all_dense:
  assumes s: "event_store_ok jc s" "dense_store s" and sql: "sql_total sql"
    and w: "pw_core w = Some True" "pw_store w = Some (memory_store jc now fresh s)" "0 < pw_batchSize w"
    and "distinct ps" "\<forall>p \<in> set ps. Partition_Normalize p = p \<and> 0 \<le> watermark db (worker_mark toLower w p) \<and>
           watermark db (worker_mark toLower w p) \<le> tail_of s p"
  shows "\<exists>rs db'. materialize_partitions toLower sql None w ps db = (rs, None, db') \<and>
    map mr_Applied rs = map (\<lambda>p. min (tail_of s p) (watermark db (worker_mark toLower w p) + pw_batchSize w) -
      watermark db (worker_mark toLower w p)) ps \<and>
    (\<forall>q. Partition_Normalize q = q \<longrightarrow> watermark db' (worker_mark toLower w q) =
       (if q \<in> set ps then min (tail_of s q) (watermark db (worker_mark toLower w q) + pw_batchSize w)
        else watermark db (worker_mark toLower w q)))"
  using assms(7,8)
proof (induction ps arbitrary: db)
  case (Cons p ps)
  let ?n = "watermark db (worker_mark toLower w p)"
  have p: "Partition_Normalize p = p" "0 \<le> ?n" "?n \<le> tail_of s p" using Cons.prems(2) by simp_all
  obtain res db1 where m: "MaterializeEventStorePartition toLower sql None (Some True) (pw_store w)
       \<lparr>mc_Source = pw_source w, mc_Partition = p, mc_Limit = pw_batchSize w\<rparr> db = (res, None, db1)"
    "mr_Applied res = min (tail_of s p) (?n + pw_batchSize w) - ?n"
    "\<And>q. Partition_Normalize q = q \<Longrightarrow> watermark db1 (worker_mark toLower w q) =
       (if q = p then min (tail_of s p) (?n + pw_batchSize w) else watermark db (worker_mark toLower w q))"
    by (rule materialize_dense[OF s sql p(1) w(2,3) refl p(2,3)]) blast
  have same: "watermark db1 (worker_mark toLower w q) = watermark db (worker_mark toLower w q)" if "q \<in> set ps" for q
    using that m(3)[of q] Cons.prems by auto
  have "\<exists>rs db'. materialize_partitions toLower sql None w ps db1 = (rs, None, db') \<and>
    map mr_Applied rs = map (\<lambda>p. min (tail_of s p) (watermark db1 (worker_mark toLower w p) + pw_batchSize w) -
      watermark db1 (worker_mark toLower w p)) ps \<and>
    (\<forall>q. Partition_Normalize q = q \<longrightarrow> watermark db' (worker_mark toLower w q) =
       (if q \<in> set ps then min (tail_of s q) (watermark db1 (worker_mark toLower w q) + pw_batchSize w)
        else watermark db1 (worker_mark toLower w q)))"
    using Cons.prems same by (intro Cons.IH) auto
  then obtain rs db' where r: "materialize_partitions toLower sql None w ps db1 = (rs, None, db')"
    "map mr_Applied rs = map (\<lambda>p. min (tail_of s p) (watermark db1 (worker_mark toLower w p) + pw_batchSize w) -
      watermark db1 (worker_mark toLower w p)) ps"
    "\<And>q. Partition_Normalize q = q \<Longrightarrow> watermark db' (worker_mark toLower w q) =
       (if q \<in> set ps then min (tail_of s q) (watermark db1 (worker_mark toLower w q) + pw_batchSize w)
        else watermark db1 (worker_mark toLower w q))" by blast
  have "materialize_partitions toLower sql None w (p # ps) db = (res # rs, None, db')" using m(1) r(1) w(1) by simp
  moreover have "map mr_Applied rs = map (\<lambda>p. min (tail_of s p) (watermark db (worker_mark toLower w p) + pw_batchSize w) -
      watermark db (worker_mark toLower w p)) ps" using r(2) same by simp
  moreover have "watermark db' (worker_mark toLower w q) =
      (if q \<in> set (p # ps) then min (tail_of s q) (watermark db (worker_mark toLower w q) + pw_batchSize w)
       else watermark db (worker_mark toLower w q))" if "Partition_Normalize q = q" for q
    using r(3)[OF that] m(3)[OF that] same[of q] Cons.prems(1) by auto
  ultimately show ?case using m(2) by auto
qed simp

text \<open>A worker over an in-memory store whose partition limit covers all partitions.\<close>

definition worker_ok :: "'p json_codec \<Rightarrow> 'p memory_event_store \<Rightarrow> ('p memory_event_store option, 'p) projection_worker \<Rightarrow> bool" where
  "worker_ok jc s w \<longleftrightarrow> pw_core w = Some True \<and> (\<exists>now fresh. pw_store w = Some (memory_store jc now fresh s)) \<and>
     pw_partitions w = Some (memory_lister s) \<and> 0 < pw_batchSize w \<and>
     int (length (mes_listPartitions s 0)) \<le> pw_partitionLimit w \<and> 0 < pw_partitionLimit w \<and> pw_partitionLimit w < maxInt64"

lemma list_all_partitions:
  assumes "int (length (mes_listPartitions s 0)) \<le> limit" "0 < limit" "limit < maxInt64"
  shows "listEventPartitionsWithLimit None (Some (memory_lister s)) limit = Inr (dedup_partitions [] (mes_listPartitions s 0), False)"
proof -
  have "query_limit limit = limit + 1" using assms by (simp add: query_limit_def wrap64_Suc)
  then have "mes_listPartitions s (query_limit limit) = mes_listPartitions s 0"
    using assms listPartitions_slice[of s "limit + 1"] by (simp add: limit_slice_def)
  then show ?thesis using assms
    by (simp add: listEventPartitionsWithLimit_def memory_lister_def MemoryEventStore_ListEventPartitions_def with_receiver_def Let_def)
qed

text \<open>Watermarks that lie within their partitions, and the number of events behind them.\<close>

definition marks_ok :: "(string \<Rightarrow> string) \<Rightarrow> 'p memory_event_store \<Rightarrow> ('s, 'p) projection_worker \<Rightarrow> 'v projection_db \<Rightarrow> bool" where
  "marks_ok toLower s w db \<longleftrightarrow> (\<forall>p. Partition_Normalize p = p \<longrightarrow>
     0 \<le> watermark db (worker_mark toLower w p) \<and> watermark db (worker_mark toLower w p) \<le> tail_of s p)"

definition lag :: "(string \<Rightarrow> string) \<Rightarrow> 'p memory_event_store \<Rightarrow> ('s, 'p) projection_worker \<Rightarrow> 'v projection_db \<Rightarrow> nat" where
  "lag toLower s w db =
     (\<Sum>p \<leftarrow> dedup_partitions [] (mes_listPartitions s 0). nat (tail_of s p - watermark db (worker_mark toLower w p)))"

lemma MaterializeOnce_dense:
  assumes s: "event_store_ok jc s" "dense_store s" and sql: "sql_total sql" and w: "worker_ok jc s w" and marks: "marks_ok toLower s w db"
  defines "ps \<equiv> dedup_partitions [] (mes_listPartitions s 0)"
  obtains rs db' where "MaterializeOnce toLower sql None (Some w) db = (rs, None, db')"
    "map mr_Applied rs = map (\<lambda>p. min (tail_of s p) (watermark db (worker_mark toLower w p) + pw_batchSize w) -
      watermark db (worker_mark toLower w p)) ps"
    "\<And>q. Partition_Normalize q = q \<Longrightarrow> watermark db' (worker_mark toLower w q) =
       (if q \<in> set ps then min (tail_of s q) (watermark db (worker_mark toLower w q) + pw_batchSize w)
        else watermark db (worker_mark toLower w q))"
proof -
  obtain now fresh where w': "pw_core w = Some True" "pw_store w = Some (memory_store jc now fresh s)" "0 < pw_batchSize w"
    and l: "pw_partitions w = Some (memory_lister s)"
      "listEventPartitionsWithLimit None (Some (memory_lister s)) (pw_partitionLimit w) = Inr (ps, False)"
    using w list_all_partitions[of s "pw_partitionLimit w"] by (auto simp: worker_ok_def ps_def)
  have ps: "distinct ps" "\<forall>p \<in> set ps. Partition_Normalize p = p \<and> 0 \<le> watermark db (worker_mark toLower w p) \<and>
      watermark db (worker_mark toLower w p) \<le> tail_of s p"
  proof -
    show "distinct ps" by (simp add: ps_def distinct_dedup)
    have "\<forall>p \<in> set ps. Partition_Normalize p = p" by (auto simp: ps_def set_dedup)
    with marks show "\<forall>p \<in> set ps. Partition_Normalize p = p \<and> 0 \<le> watermark db (worker_mark toLower w p) \<and>
        watermark db (worker_mark toLower w p) \<le> tail_of s p" by (simp add: marks_ok_def)
  qed
  have "MaterializeOnce toLower sql None (Some w) db = materialize_partitions toLower sql None w ps db"
    using w' l by (simp add: MaterializeOnce_def)
  with materialize_all_dense[OF s sql w' ps] that show thesis by auto
qed

lemma tail_listed:
  assumes "event_store_ok jc s" "0 < tail_of s p" "Partition_Normalize p = p"
  shows "p \<in> set (dedup_partitions [] (mes_listPartitions s 0))"
proof -
  have "p \<in> fst ` set (mes_offsets s)"
    using assms(2) by (auto simp: tail_of_def gm_get_def split: option.splits dest!: map_of_SomeD intro: rev_image_eqI)
  then show ?thesis using assms(3) by (force simp: set_dedup set_listPartitions)
qed

lemma sum_list_strict_mono_ex:
  fixes f g :: "'a \<Rightarrow> nat"
  assumes "\<And>x. x \<in> set xs \<Longrightarrow> f x \<le> g x" "\<exists>x \<in> set xs. f x < g x"
  shows "sum_list (map f xs) < sum_list (map g xs)"
  using assms
proof (induction xs)
  case (Cons x xs)
  have "sum_list (map f xs) \<le> sum_list (map g xs)" using Cons.prems(1) by (intro sum_list_mono) auto
  with Cons show ?case by (cases "f x < g x") (fastforce simp: add_less_le_mono add_le_less_mono)+
qed simp

lemma drain_dense:
  assumes s: "event_store_ok jc s" "dense_store s" and sql: "sql_total sql" and w: "worker_ok jc s w" and "marks_ok toLower s w db"
  shows "\<exists>results' db'. drain_loop toLower sql None (Some w) results db = Some (results', None, db') \<and>
    (\<forall>p. Partition_Normalize p = p \<longrightarrow> watermark db' (worker_mark toLower w p) = tail_of s p)"
  using assms(5)
proof (induction "lag toLower s w db" arbitrary: results db rule: less_induct)
  case less
  let ?ps = "dedup_partitions [] (mes_listPartitions s 0)" and ?b = "pw_batchSize w"
  let ?n = "\<lambda>p. watermark db (worker_mark toLower w p)"
  have b: "0 < ?b" using w by (simp add: worker_ok_def)
  obtain rs db1 where m: "MaterializeOnce toLower sql None (Some w) db = (rs, None, db1)"
    "map mr_Applied rs = map (\<lambda>p. min (tail_of s p) (?n p + ?b) - ?n p) ?ps"
    "\<And>q. Partition_Normalize q = q \<Longrightarrow> watermark db1 (worker_mark toLower w q) =
       (if q \<in> set ?ps then min (tail_of s q) (?n q + ?b) else ?n q)"
    by (rule MaterializeOnce_dense[OF s sql w less.prems]) blast
  have norm: "p \<in> set ?ps \<Longrightarrow> Partition_Normalize p = p" for p by (auto simp: set_dedup)
  have marks: "marks_ok toLower s w db1" using less.prems m(3) b by (auto simp: marks_ok_def)
  have continue: "eventStoreProjectionWorkerShouldContinue rs ?b \<longleftrightarrow> (\<exists>p \<in> set ?ps. ?n p + ?b \<le> tail_of s p)"
  proof -
    have "eventStoreProjectionWorkerShouldContinue rs ?b \<longleftrightarrow> (\<exists>a \<in> set (map mr_Applied rs). ?b \<le> a)"
      using b by (auto simp: eventStoreProjectionWorkerShouldContinue_def list_ex_iff)
    then show ?thesis unfolding m(2) by force
  qed
  show ?case
  proof (cases "eventStoreProjectionWorkerShouldContinue rs ?b")
    case True
    then obtain p where p: "p \<in> set ?ps" "?n p + ?b \<le> tail_of s p" using continue by blast
    have "lag toLower s w db1 < lag toLower s w db"
      unfolding lag_def
    proof (rule sum_list_strict_mono_ex)
      show "nat (tail_of s q - watermark db1 (worker_mark toLower w q)) \<le> nat (tail_of s q - ?n q)" if "q \<in> set ?ps" for q
        using m(3)[OF norm[OF that]] that less.prems norm[OF that] b by (auto simp: marks_ok_def)
      show "\<exists>q \<in> set ?ps. nat (tail_of s q - watermark db1 (worker_mark toLower w q)) < nat (tail_of s q - ?n q)"
        using p m(3)[OF norm[OF p(1)]] b by (intro bexI[of _ p]) auto
    qed
    from less.hyps[OF this marks, of "results @ rs"] True m(1) show ?thesis by (subst drain_loop.simps) simp
  next
    case False
    then have "watermark db1 (worker_mark toLower w p) = tail_of s p" if "Partition_Normalize p = p" for p
      using that m(3)[OF that] continue less.prems tail_listed[OF s(1), of p] by (fastforce simp: marks_ok_def)
    with False m(1) show ?thesis by (subst drain_loop.simps) simp
  qed
qed


section \<open>A sample worker\<close>

text \<open>A database whose projection is the list of the ids applied so far, and the worker over the sample store.\<close>

definition list_sql :: "(string list, 'p) projection_sql" where
  "list_sql = \<lparr>ps_lookupErr = (\<lambda>_. None), ps_beginErr = (\<lambda>_. None), ps_index = (\<lambda>e v. Inr (1, v)),
     ps_apply = (\<lambda>e n v. Inr (v @ [ev_ID e])), ps_sideEffects = (\<lambda>e n v. Inr v), ps_recordErr = (\<lambda>_. None), ps_commitErr = (\<lambda>_. None)\<rparr>"

lemma list_sql_total [simp]: "sql_total list_sql"
  by (simp add: sql_total_def list_sql_def)

definition empty_db :: "string list projection_db" where
  "empty_db = \<lparr>pd_watermarks = [], pd_view = []\<rparr>"

definition sample_worker :: "(string memory_event_store option, string) projection_worker" where
  "sample_worker = \<lparr>pw_core = Some True, pw_store = Some (memory_store raw_codec 1 ''e'' sample_store),
     pw_partitions = Some (memory_lister sample_store), pw_source = ''broker'', pw_batchSize = 1, pw_partitionLimit = 10\<rparr>"

lemma sample_store_offsets: "mes_offsets sample_store = [(Partition ''board'' ''b'', 1)]"
  by code_simp

lemma sample_store_dense: "dense_store sample_store"
  by (auto simp: dense_store_def sample_store_events tail_of_def sample_store_offsets gm_get_def event_partition_def maxInt64_def)

lemma sample_worker_ok: "worker_ok raw_codec sample_store sample_worker"
proof -
  have "length (mes_listPartitions sample_store 0) = 1" by (simp add: sample_store_offsets mes_listPartitions_def) code_simp
  then show ?thesis by (auto simp: worker_ok_def sample_worker_def maxInt64_def)
qed

lemma sample_marks: "marks_ok toLower sample_store sample_worker empty_db"
  by (auto simp: marks_ok_def empty_db_def tail_of_def sample_store_offsets gm_get_def)


lemma list_sql_project: "project list_sql q es v = Inr (v @ map ev_ID es)"
  by (induction es arbitrary: v) (simp_all add: apply_event_def list_sql_def)

theorem MaterializeEventStorePartition_atomic_witness:
  "let w = EventStoreProjectionWatermarkName id (NormalizeEventStoreProjectionSource id ''broker'') (Partition ''board'' ''b'');
       db' = snd (snd (MaterializeEventStorePartition id list_sql None (Some True) (Some (memory_store raw_codec 1 ''e'' sample_store))
             \<lparr>mc_Source = ''broker'', mc_Partition = Partition ''board'' ''b'', mc_Limit = 5\<rparr> empty_db))
   in gm_get 0 (pd_watermarks db') w = int (length (pd_view db'))"
proof -
  let ?cfg = "\<lparr>mc_Source = ''broker'', mc_Partition = Partition ''board'' ''b'', mc_Limit = 5\<rparr>"
  let ?store = "memory_store raw_codec 1 ''e'' sample_store"
  obtain res err db' where m: "MaterializeEventStorePartition id list_sql None (Some True) (Some ?store) ?cfg empty_db = (res, err, db')"
    by (metis prod_cases3)
  have n: "watermark empty_db (config_watermark id ?cfg) = 0" by (simp add: empty_db_def)
  have width: "\<forall>events. config_replay ?store ?cfg (watermark empty_db (config_watermark id ?cfg)) = Inr events \<longrightarrow>
      (\<forall>e \<in> set events. ev_PartitionOffset e \<le> maxInt64)"
    unfolding n
    by (auto simp: memory_store_def MemoryEventStore_ReplayPartition_def with_receiver_def mes_replayPartition_def
        sample_store_events collect_eq maxInt64_def dest!: set_limit_slice split: if_splits)
  have "gm_get 0 (pd_watermarks db') (config_watermark id ?cfg) = int (length (pd_view db'))"
    using MaterializeEventStorePartition_atomic[OF m _ width] n unfolding Let_def
    by (auto simp: list_sql_project empty_db_def dest: map_eq_imp_length_eq dest!: sym[where t = "pd_view db'"])
  then show ?thesis by (simp add: m Let_def)
qed

end
