(* ===== verification/Post_Text.thy ===== *)
theory Post_Text
  imports Go_Prelude
begin

text \<open>
  The text of a post: poll markup (\<open>internal/core/commandparse/parse.go\<close>) and the block that quotes the article
  replied to (\<open>internal/proto/command.go\<close>).

  A string is its bytes. \<open>strings.ToLower\<close> works on runes, so decoding and encoding of UTF-8 is modelled; the lower case of
  a rune outside ASCII is the parameter \<open>U\<close> (the tables of package \<open>unicode\<close>). A slice expression with bounds out of range
  panics: such a run has the result \<open>None\<close>.
\<close>

section \<open>Runes\<close>

definition byte_of :: "string \<Rightarrow> nat \<Rightarrow> nat" where
  "byte_of s i = (if i < length s then of_char (s ! i) else 0)"

definition cont_byte :: "nat \<Rightarrow> bool" where
  "cont_byte b \<longleftrightarrow> 0x80 \<le> b \<and> b \<le> 0xBF"

text \<open>\<open>utf8.DecodeRuneInString\<close> on a non-empty string: the rune and the number of bytes read.\<close>

definition decode_rune :: "string \<Rightarrow> nat \<times> nat" where
  "decode_rune s =
     (let b0 = byte_of s 0; b1 = byte_of s 1; b2 = byte_of s 2; b3 = byte_of s 3
      in if b0 < 0x80 then (b0, 1)
         else if 0xC2 \<le> b0 \<and> b0 \<le> 0xDF \<and> cont_byte b1
         then ((b0 - 0xC0) * 64 + (b1 - 0x80), 2)
         else if 0xE0 \<le> b0 \<and> b0 \<le> 0xEF \<and> cont_byte b1 \<and> cont_byte b2
                 \<and> (b0 = 0xE0 \<longrightarrow> 0xA0 \<le> b1) \<and> (b0 = 0xED \<longrightarrow> b1 \<le> 0x9F)
         then ((b0 - 0xE0) * 4096 + (b1 - 0x80) * 64 + (b2 - 0x80), 3)
         else if 0xF0 \<le> b0 \<and> b0 \<le> 0xF4 \<and> cont_byte b1 \<and> cont_byte b2 \<and> cont_byte b3
                 \<and> (b0 = 0xF0 \<longrightarrow> 0x90 \<le> b1) \<and> (b0 = 0xF4 \<longrightarrow> b1 \<le> 0x8F)
         then ((b0 - 0xF0) * 262144 + (b1 - 0x80) * 4096 + (b2 - 0x80) * 64 + (b3 - 0x80), 4)
         else (0xFFFD, 1))"

lemma decode_rune_width: "0 < snd (decode_rune s)"
  by (auto simp: decode_rune_def Let_def)

function runes :: "string \<Rightarrow> nat list" where
  "runes s = (if s = [] then [] else fst (decode_rune s) # runes (drop (snd (decode_rune s)) s))"
  by pat_completeness auto
termination by (relation "measure length") (auto simp: decode_rune_width)

declare runes.simps [simp del]

definition encode_rune :: "nat \<Rightarrow> string" where
  "encode_rune r =
     (let r = (if r > 0x10FFFF \<or> (0xD800 \<le> r \<and> r \<le> 0xDFFF) then 0xFFFD else r)
      in map char_of
           (if r < 0x80 then [r]
            else if r < 0x800 then [0xC0 + r div 64, 0x80 + r mod 64]
            else if r < 0x10000 then [0xE0 + r div 4096, 0x80 + r div 64 mod 64, 0x80 + r mod 64]
            else [0xF0 + r div 262144, 0x80 + r div 4096 mod 64, 0x80 + r div 64 mod 64, 0x80 + r mod 64]))"

definition rune_lower :: "(nat \<Rightarrow> nat) \<Rightarrow> nat \<Rightarrow> nat" where
  "rune_lower U r = (if r < 0x80 then (if 65 \<le> r \<and> r \<le> 90 then r + 32 else r) else U r)"

definition ToLower :: "(nat \<Rightarrow> nat) \<Rightarrow> string \<Rightarrow> string" where
  "ToLower U s = concat (map (encode_rune \<circ> rune_lower U) (runes s))"

section \<open>Searching and slicing\<close>

text \<open>\<open>strings.Index\<close>, with \<open>None\<close> for \<open>-1\<close>, and \<open>s[lo:hi]\<close>, with \<open>None\<close> for a panic.\<close>

fun go_index :: "string \<Rightarrow> string \<Rightarrow> nat option" where
  "go_index [] sub = (if sub = [] then Some 0 else None)"
| "go_index (c # cs) sub =
     (if HasPrefix (c # cs) sub then Some 0 else map_option Suc (go_index cs sub))"

definition go_slice :: "string \<Rightarrow> nat \<Rightarrow> nat \<Rightarrow> string option" where
  "go_slice s lo hi = (if lo \<le> hi \<and> hi \<le> length s then Some (drop lo (take hi s)) else None)"

definition TrimLeft :: "string \<Rightarrow> string \<Rightarrow> string" where
  "TrimLeft s cutset = dropWhile (\<lambda>c. c \<in> set cutset) s"

definition TrimRight :: "string \<Rightarrow> string \<Rightarrow> string" where
  "TrimRight s cutset = rev (dropWhile (\<lambda>c. c \<in> set cutset) (rev s))"

section \<open>Poll expiry\<close>

text \<open>
  What \<open>ParsePollExpires\<close> asks of packages \<open>time\<close> and \<open>strconv\<close>: the clock in nanoseconds; \<open>time.ParseDuration\<close>; for a number
  of days or weeks, the whole hours of its product with 24 or 168 when \<open>strconv.ParseFloat\<close> accepts it as positive; and
  \<open>time.ParseInLocation\<close> (\<open>True\<close>) and \<open>time.Parse\<close> (\<open>False\<close>) for a layout, in milliseconds.
\<close>

record poll_clock =
  pc_Now :: int
  pc_ParseDuration :: "string \<Rightarrow> int option"
  pc_Hours :: "string \<Rightarrow> int \<Rightarrow> int option"
  pc_ParseTime :: "bool \<Rightarrow> string \<Rightarrow> string \<Rightarrow> int option"

definition after_now :: "poll_clock \<Rightarrow> int \<Rightarrow> int" where
  "after_now C dur = (pc_Now C + dur) div 1000000"

definition local_layouts :: "string list" where
  "local_layouts = [''2006-01-02T15:04:05'', ''2006-01-02T15:04'', ''2006-01-02'']"

definition poll_layouts :: "string list" where
  "poll_layouts = [''2006-01-02T15:04:05Z07:00'', ''2006-01-02T15:04:05.999999999Z07:00''] @ local_layouts"

fun parse_layouts :: "poll_clock \<Rightarrow> string \<Rightarrow> string list \<Rightarrow> int option" where
  "parse_layouts C raw [] = None"
| "parse_layouts C raw (layout # layouts) =
     (case (if layout \<in> set local_layouts then pc_ParseTime C True layout raw else None) of
        Some t \<Rightarrow> Some t
      | None \<Rightarrow> (case pc_ParseTime C False layout raw of Some t \<Rightarrow> Some t | None \<Rightarrow> parse_layouts C raw layouts))"

definition TrimSuffix_hours :: "poll_clock \<Rightarrow> string \<Rightarrow> char \<Rightarrow> int \<Rightarrow> int option" where
  "TrimSuffix_hours C raw suffix factor =
     (if raw \<noteq> [] \<and> last raw = suffix
      then map_option (\<lambda>h. after_now C (wrap64 (h * 3600000000000))) (pc_Hours C (butlast raw) factor) else None)"

definition ParsePollExpires :: "(nat \<Rightarrow> nat) \<Rightarrow> poll_clock \<Rightarrow> string \<Rightarrow> go_error + int" where
  "ParsePollExpires U C raw =
     (let raw = TrimSpace raw; rawLower = ToLower U raw
      in if raw = [] then Inr 0
         else case Atoi raw of
           Some n \<Rightarrow> Inr (if n \<le> 0 then 0 else if n < 1000000000000 then n * 1000 else n)
         | None \<Rightarrow>
             (case pc_ParseDuration C rawLower of
                Some dur \<Rightarrow> Inr (if dur \<le> 0 then 0 else after_now C dur)
              | None \<Rightarrow>
                  (case TrimSuffix_hours C rawLower (CHR ''d'') 24 of
                     Some t \<Rightarrow> Inr t
                   | None \<Rightarrow>
                       (case TrimSuffix_hours C rawLower (CHR ''w'') 168 of
                          Some t \<Rightarrow> Inr t
                        | None \<Rightarrow>
                            (case parse_layouts C raw poll_layouts of
                               Some t \<Rightarrow> Inr t
                             | None \<Rightarrow> Inl (Errorf ''invalid poll expiry: %q'' [Astr raw]))))))"

section \<open>Poll markup\<close>

text \<open>
  The regular expression of the opening tag, \<open>\[poll(?:\s+expires\s*=\s*([^\]]+))?\s*\]\<close> anchored at both ends and
  ignoring case, on a text whose only closing bracket is its last character. The result is the first submatch.
\<close>

definition re_space :: "char \<Rightarrow> bool" where
  "re_space c \<longleftrightarrow> c \<in> set [CHR 0x09, CHR 0x0A, CHR 0x0C, CHR 0x0D, CHR 0x20]"

definition ascii_upper :: "char \<Rightarrow> char" where
  "ascii_upper c = (let n = of_char c :: nat in if 97 \<le> n \<and> n \<le> 122 then char_of (n - 32) else c)"

text \<open>The letter s also folds to U+017F, the long s.\<close>

fun match_fold :: "string \<Rightarrow> string \<Rightarrow> string option" where
  "match_fold [] s = Some s"
| "match_fold (l # ls) s =
     (case s of
        [] \<Rightarrow> None
      | c # cs \<Rightarrow>
          if c = l \<or> c = ascii_upper l then match_fold ls cs
          else if l = CHR ''s'' \<and> HasPrefix s [CHR 0xC5, CHR 0xBF] then match_fold ls (drop 2 s)
          else None)"

definition poll_tag_value :: "string \<Rightarrow> string option" where
  "poll_tag_value t =
     (let u = takeWhile (\<lambda>c. c \<noteq> CHR '']'') t; v = dropWhile re_space u
      in if v \<noteq> [] then Some v else if u \<noteq> [] then Some [last u] else None)"

definition poll_tag_expires :: "string \<Rightarrow> string option" where
  "poll_tag_expires r =
     (if r = [] \<or> \<not> re_space (hd r) then None
      else case match_fold ''expires'' (dropWhile re_space r) of
             None \<Rightarrow> None
           | Some s \<Rightarrow> (case dropWhile re_space s of
                          c # t \<Rightarrow> if c = CHR ''='' then poll_tag_value t else None
                        | [] \<Rightarrow> None))"

definition pollTagOpenRe :: "string \<Rightarrow> string option" where
  "pollTagOpenRe tag =
     (case match_fold ''[poll'' tag of
        None \<Rightarrow> None
      | Some r \<Rightarrow> (case poll_tag_expires r of
                     Some v \<Rightarrow> Some v
                   | None \<Rightarrow> if dropWhile re_space r = '']'' then Some [] else None))"

record poll_block =
  pb_Question :: string
  pb_Options :: "string list"
  pb_ExpiresAt :: int

definition maxPollOptions :: nat where
  "maxPollOptions = 20"

fun poll_lines :: "string list \<Rightarrow> string \<Rightarrow> string list \<Rightarrow> string \<times> string list" where
  "poll_lines [] question options = (question, options)"
| "poll_lines (line # rest) question options =
     (let line = TrimSpace line
      in if line = [] then poll_lines rest question options
         else if question = [] \<and> \<not> HasPrefix line ''-'' \<and> \<not> HasPrefix line ''*''
         then poll_lines rest line options
         else if length options < maxPollOptions
         then let opt = TrimLeft line ''-* ''
              in poll_lines rest question (if opt \<noteq> [] then options @ [opt] else options)
         else poll_lines rest question options)"

definition poll_close :: string where
  "poll_close = ''[/poll]''"

text \<open>The part after the opening tag \<open>body[start:openClose+1]\<close> has been recognised; \<open>rest\<close> is what follows the tag.\<close>

definition parse_poll_body ::
  "(nat \<Rightarrow> nat) \<Rightarrow> string \<Rightarrow> nat \<Rightarrow> nat \<Rightarrow> string \<Rightarrow> int \<Rightarrow> (poll_block option \<times> string) option" where
  "parse_poll_body U body start afterTag rest expiresAt =
     (case (case go_index rest poll_close of
              Some i \<Rightarrow> Some i
            | None \<Rightarrow> go_index (ToLower U rest) poll_close) of
        None \<Rightarrow> Some (None, body)
      | Some i \<Rightarrow>
          let endPos = i + afterTag
          in case go_slice body afterTag endPos of
               None \<Rightarrow> None
             | Some raw \<Rightarrow>
                 let inner = TrimSpace raw
                 in if inner = [] then Some (None, body)
                    else let (question, options) = poll_lines (split_on (CHR 0x0A) inner) [] []
                         in if question = [] \<or> length options < 2 then Some (None, body)
                            else case go_slice body (endPos + length poll_close) (length body) of
                                   None \<Rightarrow> None
                                 | Some tail \<Rightarrow>
                                     let cleanBody = TrimSpace (take start body); after = TrimSpace tail
                                     in Some (Some \<lparr>pb_Question = question, pb_Options = options, pb_ExpiresAt = expiresAt\<rparr>,
                                              if cleanBody \<noteq> [] \<and> after \<noteq> [] then cleanBody @ [CHR 0x0A] @ after
                                              else cleanBody @ after))"

definition ParsePoll :: "(nat \<Rightarrow> nat) \<Rightarrow> poll_clock \<Rightarrow> string \<Rightarrow> (poll_block option \<times> string) option" where
  "ParsePoll U C body =
     (case go_index (ToLower U body) ''[poll'' of
        None \<Rightarrow> Some (None, body)
      | Some start \<Rightarrow>
          (case go_slice body start (length body) of
             None \<Rightarrow> None
           | Some suffix \<Rightarrow>
               (case go_index suffix '']'' of
                  None \<Rightarrow> Some (None, body)
                | Some k \<Rightarrow>
                    (case pollTagOpenRe (take (k + 1) suffix) of
                       None \<Rightarrow> Some (None, body)
                     | Some value_text \<Rightarrow>
                         (case (if value_text \<noteq> [] then ParsePollExpires U C value_text else Inr 0) of
                            Inl e \<Rightarrow> Some (None, body)
                          | Inr expiresAt \<Rightarrow>
                              parse_poll_body U body start (start + k + 1) (drop (k + 1) suffix) expiresAt)))))"

section \<open>Quoted replies\<close>

definition MaxQuotedReplyLines :: nat where
  "MaxQuotedReplyLines = 24"

definition MaxQuotedReplyBytes :: nat where
  "MaxQuotedReplyBytes = 2400"

fun quote_lines :: "nat \<Rightarrow> string \<Rightarrow> string list \<Rightarrow> string" where
  "quote_lines i b [] = b"
| "quote_lines i b (line # rest) =
     (if i \<ge> MaxQuotedReplyLines \<or> length b + length line + 8 > MaxQuotedReplyBytes then b @ ''> ...'' @ [CHR 0x0A]
      else let line = TrimRight line [CHR 0x0D]
           in if line = [] then quote_lines (i + 1) (b @ ''>'' @ [CHR 0x0A]) rest
              else quote_lines (i + 1) (b @ ''> '' @ line @ [CHR 0x0A]) rest)"

definition FormatQuotedReplyPrefix :: "string \<Rightarrow> string \<Rightarrow> string" where
  "FormatQuotedReplyPrefix author body =
     (let author = TrimSpace author; author = (if author = [] then ''Unknown'' else author);
          body = TrimSpace body; body = (if body = [] then ''[empty article]'' else body)
      in quote_lines 0 (''> '' @ author @ '' wrote:'' @ [CHR 0x0A]) (split_on (CHR 0x0A) body) @ [CHR 0x0A])"

section \<open>Lemmas\<close>

subsection \<open>ASCII text\<close>

definition ascii :: "string \<Rightarrow> bool" where
  "ascii s \<longleftrightarrow> (\<forall>c \<in> set s. (of_char c :: nat) < 0x80)"

definition ascii_lower :: "char \<Rightarrow> char" where
  "ascii_lower c = (let n = of_char c :: nat in if 65 \<le> n \<and> n \<le> 90 then char_of (n + 32) else c)"

lemma ascii_simps [simp]:
  "ascii []" "ascii (c # s) \<longleftrightarrow> (of_char c :: nat) < 0x80 \<and> ascii s" "ascii (s @ t) \<longleftrightarrow> ascii s \<and> ascii t"
  by (auto simp: ascii_def)

lemma ToLower_Nil [simp]: "ToLower U [] = []"
  by (simp add: ToLower_def runes.simps)

lemma ToLower_ascii_Cons:
  assumes "(of_char c :: nat) < 0x80"
  shows "ToLower U (c # s) = ascii_lower c # ToLower U s"
proof -
  have "decode_rune (c # s) = (of_char c, 1)" using assms by (simp add: decode_rune_def byte_of_def)
  then have "ToLower U (c # s) = encode_rune (rune_lower U (of_char c)) @ ToLower U s"
    by (simp add: ToLower_def runes.simps [of "c # s"])
  moreover have "encode_rune (rune_lower U (of_char c)) = [ascii_lower c]"
    using assms by (auto simp: encode_rune_def rune_lower_def ascii_lower_def Let_def)
  ultimately show ?thesis by simp
qed

lemma ToLower_ascii: "ascii s \<Longrightarrow> ToLower U s = map ascii_lower s"
  by (induction s) (simp_all add: ToLower_ascii_Cons)

subsection \<open>Searching\<close>

lemma go_index_bound: "go_index s sub = Some i \<Longrightarrow> i + length sub \<le> length s"
proof (induction s arbitrary: i)
  case Nil
  then show ?case by (auto split: if_splits)
next
  case (Cons c s)
  show ?case
  proof (cases "HasPrefix (c # s) sub")
    case True
    then have "length sub \<le> length (c # s)" by (metis HasPrefix_def nat_le_linear take_all length_take min.absorb1 length_take min.cobounded1)
    then show ?thesis using Cons.prems True by simp
  next
    case False
    then show ?thesis using Cons by auto
  qed
qed

lemma go_index_prefix: "HasPrefix s sub \<Longrightarrow> go_index s sub = Some 0"
  by (cases s) (auto simp: HasPrefix_def)

lemma go_index_append:
  assumes "\<forall>k < length a. \<not> HasPrefix (drop k (a @ sub @ b)) sub"
  shows "go_index (a @ sub @ b) sub = Some (length a)"
  using assms
proof (induction a)
  case Nil
  then show ?case by (simp add: go_index_prefix)
next
  case (Cons c a)
  have "\<not> HasPrefix (c # a @ sub @ b) sub" using Cons.prems by (metis append_Cons drop0 length_greater_0_conv list.distinct(1))
  moreover have "\<forall>k < length a. \<not> HasPrefix (drop k (a @ sub @ b)) sub"
    using Cons.prems by (metis Suc_mono append_Cons drop_Suc_Cons length_Cons)
  ultimately show ?case using Cons.IH by simp
qed

lemma go_index_fresh:
  assumes "sub \<noteq> []" "hd sub \<notin> set a"
  shows "go_index (a @ sub @ b) sub = Some (length a)"
proof (rule go_index_append, intro allI impI)
  fix k assume k: "k < length a"
  then have "drop k (a @ sub @ b) = a ! k # drop (Suc k) (a @ sub @ b)"
    by (metis Cons_nth_drop_Suc length_append nth_append trans_less_add1)
  moreover have "a ! k \<noteq> hd sub" using assms(2) k by (metis nth_mem)
  ultimately show "\<not> HasPrefix (drop k (a @ sub @ b)) sub"
    using assms(1) by (cases sub) (auto simp: HasPrefix_def)
qed

lemma go_slice_suffix: "start \<le> length s \<Longrightarrow> go_slice s start (length s) = Some (drop start s)"
  by (simp add: go_slice_def)

lemma go_slice_middle: "go_slice (a @ m @ b) (length a) (length a + length m) = Some m"
  by (simp add: go_slice_def)

subsection \<open>Trimming\<close>

lemma length_trim_runes: "length (trim_runes ws s) \<le> length s"
  using trim_runes_suffix [of s ws] by (metis le_add2 length_append)

lemma length_TrimSpace: "length (TrimSpace s) \<le> length s"
  by (metis TrimSpace_def length_rev length_trim_runes order_trans)

lemma trim_runes_newline:
  "trim_runes go_space_runes (CHR 0x0A # s) = trim_runes go_space_runes s"
  "trim_runes (map rev go_space_runes) (CHR 0x0A # s) = trim_runes (map rev go_space_runes) s"
proof -
  have "find (\<lambda>w. w \<noteq> [] \<and> HasPrefix (CHR 0x0A # s) w) go_space_runes = Some [CHR 0x0A]"
    by (simp add: go_space_runes_def HasPrefix_def)
  then show "trim_runes go_space_runes (CHR 0x0A # s) = trim_runes go_space_runes s"
    by (simp add: trim_runes.simps [of go_space_runes "CHR 0x0A # s"])
  have "find (\<lambda>w. w \<noteq> [] \<and> HasPrefix (CHR 0x0A # s) w) (map rev go_space_runes) = Some [CHR 0x0A]"
    by (simp add: go_space_runes_def HasPrefix_def)
  then show "trim_runes (map rev go_space_runes) (CHR 0x0A # s) = trim_runes (map rev go_space_runes) s"
    by (simp add: trim_runes.simps [of "map rev go_space_runes" "CHR 0x0A # s"])
qed

lemma TrimSpace_newlines:
  assumes "s \<noteq> []" "plain_char (hd s)" "plain_char (last s)"
  shows "TrimSpace (CHR 0x0A # s @ [CHR 0x0A]) = s"
proof -
  have "no_lead go_space_runes (s @ [CHR 0x0A])"
    by (rule no_lead_plain) (use space_runes_not_plain assms in \<open>auto simp: list_all_iff\<close>)
  moreover have "no_lead (map rev go_space_runes) (rev s)"
    by (rule no_lead_plain) (use space_runes_not_plain assms in \<open>auto simp: list_all_iff hd_rev\<close>)
  ultimately show ?thesis by (simp add: TrimSpace_def trim_runes_newline trim_runes_id)
qed

subsection \<open>Poll lines\<close>

definition options_ok :: "string list \<Rightarrow> bool" where
  "options_ok os \<longleftrightarrow> length os \<le> maxPollOptions \<and> [] \<notin> set os"

lemma options_ok_append:
  "options_ok os \<Longrightarrow> length os < maxPollOptions \<Longrightarrow> options_ok (if opt \<noteq> [] then os @ [opt] else os)"
  by (auto simp: options_ok_def)

lemma poll_lines_ok: "options_ok os \<Longrightarrow> options_ok (snd (poll_lines ls q os))"
  by (induction ls arbitrary: q os) (simp_all add: Let_def options_ok_append)

text \<open>The text of a poll, and what its question and options must look like to be read back.\<close>

definition poll_markup :: "string \<Rightarrow> string list \<Rightarrow> string" where
  "poll_markup question options =
     ''[poll]'' @ [CHR 0x0A] @ question @ [CHR 0x0A] @ concat (map (\<lambda>opt. ''- '' @ opt @ [CHR 0x0A]) options) @ ''[/poll]''"

definition poll_line :: "string \<Rightarrow> bool" where
  "poll_line l \<longleftrightarrow> l \<noteq> [] \<and> ascii l \<and> plain_char (hd l) \<and> plain_char (last l) \<and> hd l \<noteq> CHR ''-'' \<and> hd l \<noteq> CHR ''*''
     \<and> CHR 0x0A \<notin> set l \<and> CHR ''['' \<notin> set l"

lemma TrimLeft_option: "poll_line l \<Longrightarrow> TrimLeft (''- '' @ l) ''-* '' = l"
  by (cases l) (auto simp: TrimLeft_def poll_line_def plain_char_def)

lemma poll_lines_options:
  assumes "list_all poll_line os" "q \<noteq> []" "length acc + length os \<le> maxPollOptions"
  shows "poll_lines (map (\<lambda>opt. ''- '' @ opt) os) q acc = (q, acc @ os)"
  using assms
proof (induction os arbitrary: acc)
  case (Cons l os)
  have "TrimSpace (''- '' @ l) = ''- '' @ l"
    by (rule TrimSpace_plain_ends) (use Cons.prems in \<open>auto simp: poll_line_def plain_char_def\<close>)
  with Cons show ?case using TrimLeft_option [of l] by (simp add: Let_def poll_line_def)
qed simp

fun poll_text :: "string \<Rightarrow> string list \<Rightarrow> string" where
  "poll_text q [] = q"
| "poll_text q (l # ls) = q @ CHR 0x0A # poll_text (''- '' @ l) ls"

lemma poll_text_newline:
  "poll_text q os @ [CHR 0x0A] = q @ [CHR 0x0A] @ concat (map (\<lambda>opt. ''- '' @ opt @ [CHR 0x0A]) os)"
  by (induction q os rule: poll_text.induct) auto

lemma split_poll_text:
  "CHR 0x0A \<notin> set q \<Longrightarrow> list_all poll_line os \<Longrightarrow> split_on (CHR 0x0A) (poll_text q os) = q # map (\<lambda>opt. ''- '' @ opt) os"
proof (induction q os rule: poll_text.induct)
  case (2 q l ls)
  then show ?case using split_on_append [of "CHR 0x0A" q] by (simp add: poll_line_def)
qed (simp add: split_on_none)

lemma poll_text_ends:
  "q \<noteq> [] \<Longrightarrow> plain_char (last q) \<Longrightarrow> list_all poll_line os \<Longrightarrow>
   poll_text q os \<noteq> [] \<and> hd (poll_text q os) = hd q \<and> plain_char (last (poll_text q os))"
  by (induction q os rule: poll_text.induct) (auto simp: poll_line_def)

lemma poll_text_chars:
  "list_all poll_line os \<Longrightarrow> CHR ''['' \<notin> set q \<Longrightarrow> CHR ''['' \<notin> set (poll_text q os)"
  "list_all poll_line os \<Longrightarrow> ascii q \<Longrightarrow> ascii (poll_text q os)"
  by (induction q os rule: poll_text.induct) (auto simp: poll_line_def)

lemma poll_markup_text: "poll_markup q os = ''[poll]'' @ CHR 0x0A # poll_text q os @ CHR 0x0A # poll_close"
proof -
  have "poll_markup q os = ''[poll]'' @ [CHR 0x0A] @ (poll_text q os @ [CHR 0x0A]) @ poll_close"
    unfolding poll_text_newline by (simp add: poll_markup_def poll_close_def)
  then show ?thesis by simp
qed

subsection \<open>The parser on ASCII text\<close>

lemma of_char_ascii_lower:
  "(of_char (ascii_lower c) :: nat) = (let n = of_char c in if 65 \<le> n \<and> n \<le> 90 then n + 32 else n)"
  by (simp add: ascii_lower_def Let_def)

lemma ascii_lower_bracket: "ascii_lower c = CHR ''['' \<Longrightarrow> c = CHR ''[''"
proof -
  assume "ascii_lower c = CHR ''[''"
  then have "(of_char (ascii_lower c) :: nat) = 91" by simp
  then have "(of_char c :: nat) = of_char (CHR ''['')"
    by (simp add: of_char_ascii_lower Let_def split: if_splits)
  then show ?thesis by (metis char_of_char)
qed

lemma length_poll_close [simp]: "length poll_close = 7"
  by (simp add: poll_close_def)

lemma parse_poll_body_ascii:
  assumes "ascii rest" "rest = drop afterTag body" "start \<le> afterTag" "afterTag \<le> length body"
  shows "\<exists>pb clean. parse_poll_body U body start afterTag rest expiresAt = Some (pb, clean) \<and>
           (case pb of None \<Rightarrow> clean = body
            | Some p \<Rightarrow> pb_Question p \<noteq> [] \<and> 2 \<le> length (pb_Options p) \<and> options_ok (pb_Options p)
                \<and> length clean + 6 + afterTag \<le> length body + start)"
proof (cases "case go_index rest poll_close of Some i \<Rightarrow> Some i | None \<Rightarrow> go_index (ToLower U rest) poll_close")
  case None
  then show ?thesis by (simp add: parse_poll_body_def)
next
  case (Some i)
  have len: "length (ToLower U rest) = length rest" by (simp add: ToLower_ascii assms(1))
  have "i + length poll_close \<le> length rest"
    using Some go_index_bound [of rest poll_close i] go_index_bound [of "ToLower U rest" poll_close i]
    by (auto simp: len split: option.splits)
  then have i: "i + afterTag + 7 \<le> length body" using assms(2,4) by simp
  define inner where "inner = TrimSpace (drop afterTag (take (i + afterTag) body))"
  define r where "r = poll_lines (split_on (CHR 0x0A) inner) [] []"
  have ok: "options_ok (snd r)" unfolding r_def by (rule poll_lines_ok) (simp add: options_ok_def)
  have slices: "go_slice body afterTag (i + afterTag) = Some (drop afterTag (take (i + afterTag) body))"
    "go_slice body (i + afterTag + 7) (length body) = Some (drop (i + afterTag + 7) body)"
    using i by (simp_all add: go_slice_def)
  have lens: "length (TrimSpace (take start body)) \<le> start" "length (TrimSpace (drop (i + afterTag + 7) body)) \<le> length body - (i + afterTag + 7)"
    by (metis length_TrimSpace length_take min.cobounded2 order_trans) (metis length_TrimSpace length_drop)
  show ?thesis
  proof (cases "inner = [] \<or> fst r = [] \<or> length (snd r) < 2")
    case True
    then show ?thesis using Some
      by (auto simp: parse_poll_body_def slices inner_def [symmetric] r_def [symmetric] Let_def split_beta)
  next
    case False
    let ?clean = "let c = TrimSpace (take start body); a = TrimSpace (drop (i + afterTag + 7) body)
                  in if c \<noteq> [] \<and> a \<noteq> [] then c @ [CHR 0x0A] @ a else c @ a"
    have "parse_poll_body U body start afterTag rest expiresAt =
            Some (Some \<lparr>pb_Question = fst r, pb_Options = snd r, pb_ExpiresAt = expiresAt\<rparr>, ?clean)"
      using Some False
      by (simp add: parse_poll_body_def slices inner_def [symmetric] r_def [symmetric] Let_def split_beta)
    moreover have "length ?clean + 6 + afterTag \<le> length body + start"
      using lens i unfolding Let_def length_append if_distrib [of length] by (simp only: split: if_split) auto
    ultimately show ?thesis using False ok by (simp add: Let_def)
  qed
qed

lemma ParsePoll_tag:
  assumes "ascii body" "go_index (ToLower U body) ''[poll'' = Some start"
  shows "start + 5 \<le> length body" "go_slice body start (length body) = Some (drop start body)"
proof -
  have "length (ToLower U body) = length body" by (simp add: ToLower_ascii assms(1))
  with go_index_bound [OF assms(2)] show "start + 5 \<le> length body" by simp
  then show "go_slice body start (length body) = Some (drop start body)" by (simp add: go_slice_suffix)
qed

lemma ascii_drop: "ascii s \<Longrightarrow> ascii (drop n s)"
  by (auto simp: ascii_def dest: in_set_dropD)

text \<open>
  On a body of ASCII characters the poll parser never panics. Either there is no poll and the body is returned
  unchanged, or the poll has a question and 2 to 20 options, none of them empty, and the body without the poll is shorter.
\<close>

theorem ParsePoll_ascii:
  assumes "ascii body"
  shows "\<exists>pb clean. ParsePoll U C body = Some (pb, clean) \<and>
           (case pb of None \<Rightarrow> clean = body
            | Some p \<Rightarrow> pb_Question p \<noteq> [] \<and> 2 \<le> length (pb_Options p) \<and> length (pb_Options p) \<le> 20
                \<and> [] \<notin> set (pb_Options p) \<and> length clean + 7 \<le> length body)"
proof (cases "go_index (ToLower U body) ''[poll''")
  case None
  then show ?thesis by (simp add: ParsePoll_def)
next
  case (Some start)
  note tag = ParsePoll_tag [OF assms Some]
  show ?thesis
  proof (cases "go_index (drop start body) '']''")
    case None
    then show ?thesis using Some tag by (simp add: ParsePoll_def)
  next
    case k: (Some k)
    have le: "start + k + 1 \<le> length body" using go_index_bound [OF k] tag(1) by simp
    have rest: "drop (k + 1) (drop start body) = drop (start + k + 1) body" by (simp add: ac_simps)
    define r where "r = (case pollTagOpenRe (take (k + 1) (drop start body)) of
        None \<Rightarrow> None
      | Some v \<Rightarrow> (case (if v \<noteq> [] then ParsePollExpires U C v else Inr 0) of Inl e \<Rightarrow> None | Inr t \<Rightarrow> Some t))"
    have "ParsePoll U C body = (case r of None \<Rightarrow> Some (None, body)
            | Some t \<Rightarrow> parse_poll_body U body start (start + k + 1) (drop (start + k + 1) body) t)"
      using Some tag k unfolding ParsePoll_def r_def rest by (simp add: add.commute split: option.split sum.split)
    moreover obtain pb clean where
      "parse_poll_body U body start (start + k + 1) (drop (start + k + 1) body) (the r) = Some (pb, clean)"
      "case pb of None \<Rightarrow> clean = body
       | Some p \<Rightarrow> pb_Question p \<noteq> [] \<and> 2 \<le> length (pb_Options p) \<and> options_ok (pb_Options p)
           \<and> length clean + 6 + (start + k + 1) \<le> length body + start"
      using parse_poll_body_ascii [of "drop (start + k + 1) body" "start + k + 1" body start U "the r", OF ascii_drop [OF assms] refl _ le]
      by auto
    ultimately show ?thesis by (cases r; cases pb) (simp_all add: options_ok_def maxPollOptions_def)
  qed
qed

theorem ParsePoll_ascii_witness:
  "ascii ''[poll] q'' \<and> (\<exists>pb clean. ParsePoll id \<lparr>pc_Now = 0, pc_ParseDuration = \<lambda>_. None, pc_Hours = \<lambda>_ _. None, pc_ParseTime = \<lambda>_ _ _. None\<rparr> ''[poll] q'' = Some (pb, clean))"
proof -
  have a: "ascii ''[poll] q''" by simp
  show ?thesis using ParsePoll_ascii [OF a] a by blast
qed



subsection \<open>A body on which the parser panics\<close>

text \<open>The letter A with stroke, U+023A, has two bytes; its lower case, U+2C65, has three.\<close>

lemma ToLower_stroke:
  assumes "U 0x23A = 0x2C65"
  shows "ToLower U ([CHR 0xC8, CHR 0xBA] @ s) = [CHR 0xE2, CHR 0xB1, CHR 0xA5] @ ToLower U s"
proof -
  have "decode_rune ([CHR 0xC8, CHR 0xBA] @ s) = (0x23A, 2)" by (simp add: decode_rune_def byte_of_def cont_byte_def)
  moreover have "encode_rune (rune_lower U 0x23A) = [CHR 0xE2, CHR 0xB1, CHR 0xA5]"
    using assms by (simp add: rune_lower_def encode_rune_def char_of_def) code_simp
  ultimately show ?thesis by (simp add: ToLower_def runes.simps [of "CHR 0xC8 # CHR 0xBA # s"])
qed

lemma ToLower_strokes:
  assumes "U 0x23A = 0x2C65"
  shows "ToLower U (concat (replicate n [CHR 0xC8, CHR 0xBA]) @ s) = concat (replicate n [CHR 0xE2, CHR 0xB1, CHR 0xA5]) @ ToLower U s"
  using ToLower_stroke [of U, OF assms] by (induction n) simp_all

text \<open>
  C25: The poll parser finds the opening tag in the lower-case copy of the body and slices the body itself at that position. A
  post of six or more letters A with stroke followed by an opening bracket and the word poll makes the slice go out of
  range: the parser panics.
\<close>

theorem ParsePoll_panics:
  assumes "U 0x23A = 0x2C65" "6 \<le> n"
  shows "ParsePoll U C (concat (replicate n [CHR 0xC8, CHR 0xBA]) @ ''[poll'') = None"
proof -
  let ?body = "concat (replicate n [CHR 0xC8, CHR 0xBA]) @ ''[poll''"
  let ?low = "concat (replicate n [CHR 0xE2, CHR 0xB1, CHR 0xA5])"
  have "ToLower U ?body = ?low @ ''[poll'' @ []"
    by (simp add: ToLower_strokes [of U, OF assms(1)] ToLower_ascii ascii_lower_def)
  moreover have "hd ''[poll'' \<notin> set ?low" by auto
  ultimately have "go_index (ToLower U ?body) ''[poll'' = Some (length ?low)"
    using go_index_fresh [of "''[poll''" ?low "[]"] by simp
  moreover have "length ?low = 3 * n" "length ?body = 2 * n + 5" by (simp_all add: length_concat sum_list_replicate)
  ultimately show ?thesis using assms(2) by (simp add: ParsePoll_def go_slice_def)
qed

theorem ParsePoll_panics_witness:
  "ParsePoll (\<lambda>r. if r = 0x23A then 0x2C65 else r) \<lparr>pc_Now = 0, pc_ParseDuration = \<lambda>_. None, pc_Hours = \<lambda>_ _. None, pc_ParseTime = \<lambda>_ _ _. None\<rparr>
     (concat (replicate 6 [CHR 0xC8, CHR 0xBA]) @ ''[poll'') = None"
  by (rule ParsePoll_panics) simp_all

end
