(* ===== verification/Board_Rules.thy ===== *)
theory Board_Rules
  imports Command_Worker Command_Classify
begin

text \<open>
  Who may do what on a board: the domain models of boards, posts, threads, accounts and polls
  (\<open>internal/core/boardmodel\<close>, \<open>postmodel\<close>, \<open>threadmodel\<close>, \<open>accountmodel/roles.go\<close>, \<open>pollmodel\<close>), the permission readers of
  \<open>internal/core/projections/readers.go\<close> and the rules built on them (\<open>internal/core/commandrules\<close>).

  A single SQL statement is a field of \<open>forum_db\<close>: it gives the scanned row, \<open>None\<close> for \<open>sql.ErrNoRows\<close>, or the text of the
  error. The Go code around the statements is modelled. Records carry the columns that the rules and decisions read.
\<close>

section \<open>Rows and statements\<close>

record user =
  user_ID :: string
  user_Name :: string
  user_Role :: string

definition User_IsMod :: "user \<Rightarrow> bool" where
  "User_IsMod u \<longleftrightarrow> user_Role u = ''moderator'' \<or> user_Role u = ''admin''"

definition User_IsAdmin :: "user \<Rightarrow> bool" where
  "User_IsAdmin u \<longleftrightarrow> user_Role u = ''admin''"

record board_settings =
  bs_BoardID :: string
  bs_AnonymousAllowed :: bool
  bs_ReadOnly :: bool
  bs_NoReply :: bool
  bs_AttachmentsAllowed :: bool
  bs_MailInAllowed :: bool
  bs_MemberReadMode :: bool
  bs_MemberPostMode :: bool

record thread =
  th_ID :: string
  th_Board :: string
  th_Author :: string
  th_AuthorID :: string
  th_Title :: string
  th_Locked :: bool
  th_CreatedAt :: int

record post =
  po_ID :: string
  po_Thread :: string
  po_Author :: string
  po_AuthorID :: string
  po_Body :: string
  po_ReplyTo :: string
  po_Version :: int
  po_Redacted :: bool
  po_Marked :: bool
  po_Recommended :: bool
  po_NoReply :: bool
  po_TeX :: bool
  po_MailBack :: bool
  po_CreatedAt :: int

record content_filter =
  cf_ID :: string
  cf_Pattern :: string
  cf_Scope :: string

record automod_rule =
  am_ID :: string
  am_Enabled :: bool
  am_MatchType :: string
  am_Pattern :: string
  am_Threshold :: int
  am_WindowSec :: int
  am_Action :: string
  am_DurationSec :: int
  am_Reason :: string

record signature_row =
  sg_RandomEnabled :: bool
  sg_ActiveCount :: int
  sg_Selected :: string
  sg_Bank :: string
  sg_Profile :: string

record review_target =
  rt_PostID :: string
  rt_ThreadID :: string
  rt_BoardID :: string
  rt_Status :: string
  rt_Public :: bool

record forum_db =
  q_user :: "string \<Rightarrow> string + user option"
  q_user_ref :: "string \<Rightarrow> string + user option"
  q_thread :: "string \<Rightarrow> string + thread option"
  q_post :: "string \<Rightarrow> string + post option"
  q_settings :: "string \<Rightarrow> string + board_settings option"
  q_board_exists :: "string \<Rightarrow> string + bool"
  q_board_name :: "string \<Rightarrow> string + string option"
  q_board_moderator :: "string \<Rightarrow> string \<Rightarrow> string + bool"
  q_board_member :: "string \<Rightarrow> string \<Rightarrow> string + bool"
  q_member_permission :: "string \<Rightarrow> string \<Rightarrow> string \<Rightarrow> string + bool"
  q_moderation_row :: "string \<Rightarrow> string \<Rightarrow> string + bool \<times> bool"
  q_sanction :: "string \<Rightarrow> string \<Rightarrow> int \<Rightarrow> string + string option"
  q_root_guards :: "string \<Rightarrow> string + (bool \<times> bool) option"
  q_root_post_id :: "string \<Rightarrow> string + string option"
  q_trust_level :: "string \<Rightarrow> string + int option"
  q_content_filters :: "string \<Rightarrow> string + content_filter list"
  q_automod_rules :: "string \<Rightarrow> string + automod_rule list"
  q_role :: "string \<Rightarrow> string + string option"
  q_delegated_row :: "string \<Rightarrow> string \<Rightarrow> string + (bool \<times> bool) option"
  q_user_created :: "string \<Rightarrow> string + int option"
  q_recent_posts :: "string \<Rightarrow> string \<Rightarrow> int \<Rightarrow> string + int"
  q_signature :: "string \<Rightarrow> string + signature_row"
  q_signature_at :: "string \<Rightarrow> int \<Rightarrow> string + string"
  q_category_position :: "string \<Rightarrow> string + int option"
  q_next_position :: "string \<Rightarrow> string + int"
  q_relationship :: "string \<Rightarrow> string \<Rightarrow> string \<Rightarrow> string + bool"
  q_mail_used :: "string \<Rightarrow> string + int"
  q_poll_of_post :: "string \<Rightarrow> string + string option"
  q_attachment_count :: "string \<Rightarrow> string + int"
  q_staged_blob :: "string \<Rightarrow> string + (string \<times> int) option"
  q_promoted_blob :: "string \<Rightarrow> string + (string \<times> int) option"
  q_review :: "string \<Rightarrow> string + review_target option"
  q_junk_posts :: "string \<Rightarrow> string + string list"
  q_junk_thread :: "string \<Rightarrow> string \<Rightarrow> string + string option"

section \<open>Errors\<close>

definition newErrDetail :: "string \<Rightarrow> string \<Rightarrow> bool \<Rightarrow> error_detail" where
  "newErrDetail code message retryable = \<lparr>ed_Code = code, ed_Message = message, ed_Retryable = retryable, ed_RetryAfterMs = 0\<rparr>"

definition internalErr :: "string \<Rightarrow> error_detail" where
  "internalErr err = newErrDetail ''internal_error'' err True"

abbreviation ErrForbidden :: string where "ErrForbidden \<equiv> ''forbidden''"
abbreviation ErrValidationFailed :: string where "ErrValidationFailed \<equiv> ''validation_failed''"
abbreviation ErrNotFound :: string where "ErrNotFound \<equiv> ''not_found''"
abbreviation ErrThreadLocked :: string where "ErrThreadLocked \<equiv> ''thread_locked''"
abbreviation ErrEditWindowExpired :: string where "ErrEditWindowExpired \<equiv> ''edit_window_expired''"
abbreviation ErrConflict :: string where "ErrConflict \<equiv> ''conflict''"
abbreviation ErrUnauthenticated :: string where "ErrUnauthenticated \<equiv> ''unauthenticated''"

text \<open>\<open>if cond { return err }; return nil\<close>.\<close>

definition fail_if :: "bool \<Rightarrow> error_detail \<Rightarrow> error_detail option" where
  "fail_if b e = (if b then Some e else None)"

lemma fail_if_None [simp]: "fail_if b e = None \<longleftrightarrow> \<not> b"
  by (simp add: fail_if_def)

section \<open>Board permissions\<close>

text \<open>Readers chain statements; an error ends the chain.\<close>

definition and_then :: "string + 'a \<Rightarrow> ('a \<Rightarrow> string + 'b) \<Rightarrow> string + 'b" where
  "and_then r k = (case r of Inl e \<Rightarrow> Inl e | Inr x \<Rightarrow> k x)"

lemma and_then_simps [simp]: "and_then (Inl e) k = Inl e" "and_then (Inr x) k = k x"
  by (simp_all add: and_then_def)

lemma and_then_Inr: "and_then r k = Inr y \<longleftrightarrow> (\<exists>x. r = Inr x \<and> k x = Inr y)"
  by (cases r) simp_all

definition Q_ActorCanModerateBoard :: "forum_db \<Rightarrow> user option \<Rightarrow> string \<Rightarrow> string + bool" where
  "Q_ActorCanModerateBoard db actor boardID =
     (case actor of None \<Rightarrow> Inr False
      | Some a \<Rightarrow> if User_IsMod a then Inr True else q_board_moderator db boardID (user_ID a))"

definition Q_ActorCanUseMemberBoard :: "forum_db \<Rightarrow> user option \<Rightarrow> string \<Rightarrow> string + bool" where
  "Q_ActorCanUseMemberBoard db actor boardID =
     and_then (Q_ActorCanModerateBoard db actor boardID) (\<lambda>can.
       if can then Inr True
       else case actor of None \<Rightarrow> Inr False | Some a \<Rightarrow> q_board_member db boardID (user_ID a))"

definition Q_ActorHasBoardCapability :: "forum_db \<Rightarrow> user option \<Rightarrow> string \<Rightarrow> string \<Rightarrow> string + bool" where
  "Q_ActorHasBoardCapability db actor boardID column =
     and_then (Q_ActorCanModerateBoard db actor boardID) (\<lambda>can.
       if can then Inr True
       else case actor of None \<Rightarrow> Inr False | Some a \<Rightarrow> q_member_permission db boardID (user_ID a) column)"

definition Q_ActorCanModerateBoardPosts :: "forum_db \<Rightarrow> user option \<Rightarrow> string \<Rightarrow> string + bool" where
  "Q_ActorCanModerateBoardPosts db actor boardID = Q_ActorHasBoardCapability db actor boardID ''can_moderate_posts''"

definition Q_ActorCanModerateBoardThreads :: "forum_db \<Rightarrow> user option \<Rightarrow> string \<Rightarrow> string + bool" where
  "Q_ActorCanModerateBoardThreads db actor boardID = Q_ActorHasBoardCapability db actor boardID ''can_moderate_threads''"

definition Q_ActorCanManageBoardMembers :: "forum_db \<Rightarrow> user option \<Rightarrow> string \<Rightarrow> string + bool" where
  "Q_ActorCanManageBoardMembers db actor boardID = Q_ActorHasBoardCapability db actor boardID ''can_manage_members''"

definition Q_ActorCanCurateBoard :: "forum_db \<Rightarrow> user option \<Rightarrow> string \<Rightarrow> string + bool" where
  "Q_ActorCanCurateBoard db actor boardID = Q_ActorHasBoardCapability db actor boardID ''can_curate''"

definition Q_ActorCanAnnounceBoard :: "forum_db \<Rightarrow> user option \<Rightarrow> string \<Rightarrow> string + bool" where
  "Q_ActorCanAnnounceBoard db actor boardID = Q_ActorHasBoardCapability db actor boardID ''can_announce''"

definition Q_ActorCanCurateBoardKind :: "forum_db \<Rightarrow> user option \<Rightarrow> string \<Rightarrow> string \<Rightarrow> string + bool" where
  "Q_ActorCanCurateBoardKind db actor boardID kind =
     and_then (Q_ActorCanCurateBoard db actor boardID) (\<lambda>can.
       if can \<or> kind \<noteq> ''announcement'' then Inr can else Q_ActorCanAnnounceBoard db actor boardID)"

text \<open>Whether the user moderates the board, and whether the user moderates its threads.\<close>

definition BoardThreadModerationPermissions :: "forum_db \<Rightarrow> string \<Rightarrow> string \<Rightarrow> string + bool \<times> bool" where
  "BoardThreadModerationPermissions db boardID userID =
     and_then (q_moderation_row db boardID userID) (\<lambda>(moderator, canModerateThreads). Inr (moderator, moderator \<or> canModerateThreads))"

definition BoardAllowsPublicSystemPost :: "forum_db \<Rightarrow> string \<Rightarrow> string + bool" where
  "BoardAllowsPublicSystemPost db boardID =
     (if TrimSpace boardID = [] then Inr True
      else and_then (q_settings db boardID) (\<lambda>settings.
             Inr (case settings of None \<Rightarrow> True | Some s \<Rightarrow> \<not> bs_MemberReadMode s)))"

definition BoardPermissionAllowed :: "string + bool \<Rightarrow> bool" where
  "BoardPermissionAllowed r \<longleftrightarrow> r = Inr True"

subsection \<open>The same questions on a loaded board\<close>

record access_actor =
  aa_ID :: string
  aa_Role :: string

record access_member =
  ac_UserID :: string
  ac_CanManageMembers :: bool
  ac_CanModeratePosts :: bool

record access_info =
  ai_MemberReadMode :: bool
  ai_GuestAccess :: string
  ai_Moderators :: "string list"
  ai_Members :: "access_member list"

definition AccessActor_IsMod :: "access_actor \<Rightarrow> bool" where
  "AccessActor_IsMod a \<longleftrightarrow> aa_Role a = ''moderator'' \<or> aa_Role a = ''admin''"

definition actorIsGuest :: "access_actor option \<Rightarrow> bool" where
  "actorIsGuest actor = (case actor of None \<Rightarrow> False | Some a \<Rightarrow> aa_Role a = ''guest'')"

definition ActorModeratesBoard :: "access_actor option \<Rightarrow> access_info option \<Rightarrow> bool" where
  "ActorModeratesBoard actor info =
     (case (actor, info) of
        (Some a, Some i) \<Rightarrow> AccessActor_IsMod a \<or> list_ex (\<lambda>m. m = aa_ID a) (ai_Moderators i)
      | _ \<Rightarrow> False)"

definition member_with :: "(access_member \<Rightarrow> bool) \<Rightarrow> access_actor option \<Rightarrow> access_info option \<Rightarrow> bool" where
  "member_with P actor info =
     (case (actor, info) of
        (Some a, Some i) \<Rightarrow> list_ex (\<lambda>m. ac_UserID m = aa_ID a \<and> P m) (ai_Members i)
      | _ \<Rightarrow> False)"

definition actorIsBoardMember :: "access_actor option \<Rightarrow> access_info option \<Rightarrow> bool" where
  "actorIsBoardMember actor info = member_with (\<lambda>m. True) actor info"

definition ActorCanReadBoard :: "access_actor option \<Rightarrow> access_info option \<Rightarrow> bool" where
  "ActorCanReadBoard actor info =
     (case info of
        None \<Rightarrow> False
      | Some i \<Rightarrow>
          if actorIsGuest actor
          then (if ai_GuestAccess i = ''public'' then True
                else if ai_GuestAccess i = ''hidden'' then False
                else \<not> ai_MemberReadMode i)
          else if \<not> ai_MemberReadMode i then True
          else ActorModeratesBoard actor info \<or> actorIsBoardMember actor info)"

definition ActorCanManageBoardMembers :: "access_actor option \<Rightarrow> access_info option \<Rightarrow> bool" where
  "ActorCanManageBoardMembers actor info \<longleftrightarrow>
     ActorModeratesBoard actor info \<or> member_with ac_CanManageMembers actor info"

definition ActorCanModerateBoardPosts :: "access_actor option \<Rightarrow> access_info option \<Rightarrow> bool" where
  "ActorCanModerateBoardPosts actor info \<longleftrightarrow>
     ActorModeratesBoard actor info \<or> member_with ac_CanModeratePosts actor info"

section \<open>Board policy\<close>

text \<open>\<open>PostPolicySettings\<close> is the part of the settings that the policy reads; the pointer is nil when the settings are.\<close>

definition AllowsMailIn :: "board_settings option \<Rightarrow> bool \<Rightarrow> bool" where
  "AllowsMailIn s canModerateBoard =
     (case s of None \<Rightarrow> True | Some p \<Rightarrow> bs_MailInAllowed p \<or> canModerateBoard)"

definition BlocksThreadCreation :: "board_settings option \<Rightarrow> bool \<Rightarrow> bool" where
  "BlocksThreadCreation s canModerateBoard =
     (case s of None \<Rightarrow> False | Some p \<Rightarrow> bs_ReadOnly p \<and> \<not> canModerateBoard)"

definition BlocksReply :: "board_settings option \<Rightarrow> bool \<Rightarrow> bool" where
  "BlocksReply s canModerateBoard =
     (case s of None \<Rightarrow> False | Some p \<Rightarrow> (bs_ReadOnly p \<or> bs_NoReply p) \<and> \<not> canModerateBoard)"

definition RequiresPostingMembership :: "board_settings option \<Rightarrow> bool" where
  "RequiresPostingMembership s =
     (case s of None \<Rightarrow> False | Some p \<Rightarrow> bs_MemberReadMode p \<or> bs_MemberPostMode p)"

definition RequiresReadMembership :: "board_settings option \<Rightarrow> bool" where
  "RequiresReadMembership s = (case s of None \<Rightarrow> False | Some p \<Rightarrow> bs_MemberReadMode p)"

definition member_access :: "bool \<Rightarrow> error_detail + bool \<Rightarrow> string \<Rightarrow> error_detail option" where
  "member_access required canUse message =
     (if \<not> required then None
      else case canUse of Inl e \<Rightarrow> Some e | Inr can \<Rightarrow> fail_if (\<not> can) (newErrDetail ErrForbidden message False))"

definition requirePostingMemberAccess :: "board_settings option \<Rightarrow> error_detail + bool \<Rightarrow> string \<Rightarrow> error_detail option" where
  "requirePostingMemberAccess settings canUse message = member_access (RequiresPostingMembership settings) canUse message"

definition requireMemberBoardReadAccess :: "board_settings option \<Rightarrow> string \<Rightarrow> error_detail + bool \<Rightarrow> error_detail option" where
  "requireMemberBoardReadAccess settings message canUse = member_access (RequiresReadMembership settings) canUse message"

definition requireThreadCreationBoardAccess :: "board_settings option \<Rightarrow> bool \<Rightarrow> error_detail + bool \<Rightarrow> error_detail option" where
  "requireThreadCreationBoardAccess settings canModerateBoard canUse =
     (if BlocksThreadCreation settings canModerateBoard then Some (newErrDetail ErrForbidden ''board is read-only'' False)
      else requirePostingMemberAccess settings canUse ''board members only'')"

definition requireReplyBoardAccess :: "board_settings option \<Rightarrow> bool \<Rightarrow> error_detail + bool \<Rightarrow> error_detail option" where
  "requireReplyBoardAccess settings canModerateBoard canUse =
     (if BlocksReply settings canModerateBoard then Some (newErrDetail ErrForbidden ''board is not accepting replies'' False)
      else requirePostingMemberAccess settings canUse ''board members only'')"

definition actorCanUseMemberBoardStrict :: "forum_db \<Rightarrow> user option \<Rightarrow> string \<Rightarrow> error_detail + bool" where
  "actorCanUseMemberBoardStrict db actor boardID =
     (case Q_ActorCanUseMemberBoard db actor boardID of Inl e \<Rightarrow> Inl (internalErr e) | Inr b \<Rightarrow> Inr b)"

definition RequireThreadCreationBoardAccess ::
  "forum_db \<Rightarrow> user option \<Rightarrow> string \<Rightarrow> board_settings option \<Rightarrow> bool \<Rightarrow> error_detail option" where
  "RequireThreadCreationBoardAccess db actor boardID settings canModerateBoard =
     requireThreadCreationBoardAccess settings canModerateBoard
       (Inr (BoardPermissionAllowed (Q_ActorCanUseMemberBoard db actor boardID)))"

definition RequireThreadCreationBoardAccessStrict ::
  "forum_db \<Rightarrow> user option \<Rightarrow> string \<Rightarrow> board_settings option \<Rightarrow> bool \<Rightarrow> error_detail option" where
  "RequireThreadCreationBoardAccessStrict db actor boardID settings canModerateBoard =
     requireThreadCreationBoardAccess settings canModerateBoard (actorCanUseMemberBoardStrict db actor boardID)"

definition RequireReplyBoardAccess ::
  "forum_db \<Rightarrow> user option \<Rightarrow> string \<Rightarrow> board_settings option \<Rightarrow> bool \<Rightarrow> error_detail option" where
  "RequireReplyBoardAccess db actor boardID settings canModerateBoard =
     requireReplyBoardAccess settings canModerateBoard
       (Inr (BoardPermissionAllowed (Q_ActorCanUseMemberBoard db actor boardID)))"

definition RequireReplyBoardAccessStrict ::
  "forum_db \<Rightarrow> user option \<Rightarrow> string \<Rightarrow> board_settings option \<Rightarrow> bool \<Rightarrow> error_detail option" where
  "RequireReplyBoardAccessStrict db actor boardID settings canModerateBoard =
     requireReplyBoardAccess settings canModerateBoard (actorCanUseMemberBoardStrict db actor boardID)"

section \<open>Posts\<close>

record post_actor =
  pa_ID :: string
  pa_Name :: string

definition postPolicyActor :: "user option \<Rightarrow> post_actor option" where
  "postPolicyActor actor = map_option (\<lambda>u. \<lparr>pa_ID = user_ID u, pa_Name = user_Name u\<rparr>) actor"

definition AuthoredBy :: "post_actor option \<Rightarrow> string \<Rightarrow> string \<Rightarrow> bool" where
  "AuthoredBy actor authorID authorName =
     (case actor of None \<Rightarrow> False
      | Some a \<Rightarrow> if authorID \<noteq> [] then authorID = pa_ID a else authorName = pa_Name a)"

definition AuthoredByID :: "post_actor option \<Rightarrow> string \<Rightarrow> bool" where
  "AuthoredByID actor authorID = (case actor of None \<Rightarrow> False | Some a \<Rightarrow> authorID \<noteq> [] \<and> authorID = pa_ID a)"

definition WithinAuthorEditWindow :: "int \<Rightarrow> int \<Rightarrow> int \<Rightarrow> bool" where
  "WithinAuthorEditWindow nowMS createdAt windowMS \<longleftrightarrow> wrap64 (nowMS - createdAt) < windowMS"

definition AuthorEditAllowed :: "bool \<Rightarrow> bool \<Rightarrow> bool \<Rightarrow> bool" where
  "AuthorEditAllowed canBypassAuthorWindow isAuthor withinWindow \<longleftrightarrow> canBypassAuthorWindow \<or> (isAuthor \<and> withinWindow)"

record flags =
  fl_Marked :: bool
  fl_Recommended :: bool
  fl_NoReply :: bool
  fl_TeX :: bool
  fl_MailBack :: bool

record flag_patch =
  fp_Marked :: "bool option"
  fp_Recommended :: "bool option"
  fp_NoReply :: "bool option"
  fp_TeX :: "bool option"
  fp_MailBack :: "bool option"

record flag_plan =
  pl_Flags :: flags
  pl_CuratorChange :: bool
  pl_ThreadModerationChange :: bool
  pl_AuthorMetadataChange :: bool

datatype flag_permission_failure =
  FlagPermissionOK | FlagPermissionCurator | FlagPermissionThreadModeration | FlagPermissionAuthorMetadata

text \<open>\<open>if patch.X != nil\<close>: the new value, and whether it differs from the current one.\<close>

definition patched :: "bool option \<Rightarrow> bool \<Rightarrow> bool" where
  "patched p current = (case p of None \<Rightarrow> current | Some b \<Rightarrow> b)"

definition PlanFlagUpdate :: "flags \<Rightarrow> flag_patch \<Rightarrow> flag_plan" where
  "PlanFlagUpdate current patch =
     \<lparr>pl_Flags = \<lparr>fl_Marked = patched (fp_Marked patch) (fl_Marked current),
                   fl_Recommended = patched (fp_Recommended patch) (fl_Recommended current),
                   fl_NoReply = patched (fp_NoReply patch) (fl_NoReply current),
                   fl_TeX = patched (fp_TeX patch) (fl_TeX current),
                   fl_MailBack = patched (fp_MailBack patch) (fl_MailBack current)\<rparr>,
      pl_CuratorChange = (patched (fp_Marked patch) (fl_Marked current) \<noteq> fl_Marked current
                          \<or> patched (fp_Recommended patch) (fl_Recommended current) \<noteq> fl_Recommended current),
      pl_ThreadModerationChange = (patched (fp_NoReply patch) (fl_NoReply current) \<noteq> fl_NoReply current),
      pl_AuthorMetadataChange = (patched (fp_TeX patch) (fl_TeX current) \<noteq> fl_TeX current
                          \<or> patched (fp_MailBack patch) (fl_MailBack current) \<noteq> fl_MailBack current)\<rparr>"

definition FlagPlan_HasChanges :: "flag_plan \<Rightarrow> bool" where
  "FlagPlan_HasChanges plan \<longleftrightarrow> pl_CuratorChange plan \<or> pl_ThreadModerationChange plan \<or> pl_AuthorMetadataChange plan"

definition FlagPlan_PermissionFailure :: "flag_plan \<Rightarrow> post_actor option \<Rightarrow> string \<Rightarrow> bool \<Rightarrow> bool \<Rightarrow> flag_permission_failure" where
  "FlagPlan_PermissionFailure plan actor authorID canCurate canModerateThread =
     (if pl_CuratorChange plan \<and> \<not> canCurate then FlagPermissionCurator
      else if pl_ThreadModerationChange plan \<and> \<not> canModerateThread then FlagPermissionThreadModeration
      else if pl_AuthorMetadataChange plan \<and> \<not> canModerateThread \<and> \<not> AuthoredByID actor authorID then FlagPermissionAuthorMetadata
      else FlagPermissionOK)"

definition RedactionKind :: "bool \<Rightarrow> bool \<Rightarrow> bool \<Rightarrow> string option" where
  "RedactionKind canModeratePosts isAuthor withinWindow =
     (if \<not> canModeratePosts \<and> \<not> (isAuthor \<and> withinWindow) then None
      else if \<not> canModeratePosts then Some ''junk''
      else Some ''recycle'')"

subsection \<open>What a reply refers to\<close>

record reply_target_plan =
  rp_EffectiveReplyTo :: string
  rp_QuoteParent :: bool
  rp_MailBackParent :: bool
  rp_NotifyParent :: bool
  rp_NeedsRootMailBack :: bool

datatype reply_target_failure =
  ReplyTargetMissingForQuote | ReplyTargetMissing | ReplyTargetWrongThread | ReplyTargetRedactedQuote | ReplyTargetNoReply

definition PlanReplyTarget ::
  "string \<Rightarrow> post option \<Rightarrow> string \<Rightarrow> bool \<Rightarrow> bool \<Rightarrow> reply_target_failure + reply_target_plan" where
  "PlanReplyTarget replyTo parent threadID quotePost canModerateThread =
     (if replyTo = []
      then (if quotePost then Inl ReplyTargetMissingForQuote
            else Inr \<lparr>rp_EffectiveReplyTo = [], rp_QuoteParent = False, rp_MailBackParent = False, rp_NotifyParent = False,
                       rp_NeedsRootMailBack = True\<rparr>)
      else case parent of
             None \<Rightarrow> Inl ReplyTargetMissing
           | Some p \<Rightarrow>
               if po_Thread p \<noteq> threadID then Inl ReplyTargetWrongThread
               else if quotePost \<and> po_Redacted p then Inl ReplyTargetRedactedQuote
               else if po_NoReply p \<and> \<not> canModerateThread then Inl ReplyTargetNoReply
               else Inr \<lparr>rp_EffectiveReplyTo = (if po_ReplyTo p \<noteq> [] then po_ReplyTo p else po_ID p),
                          rp_QuoteParent = quotePost, rp_MailBackParent = po_MailBack p, rp_NotifyParent = True,
                          rp_NeedsRootMailBack = False\<rparr>)"

fun replyTargetFailureError :: "reply_target_failure \<Rightarrow> error_detail" where
  "replyTargetFailureError ReplyTargetMissingForQuote = newErrDetail ErrValidationFailed ''replyTo is required for quoted replies'' False"
| "replyTargetFailureError ReplyTargetMissing = newErrDetail ErrNotFound ''replyTo post not found'' False"
| "replyTargetFailureError ReplyTargetWrongThread = newErrDetail ErrValidationFailed ''replyTo post belongs to another thread'' False"
| "replyTargetFailureError ReplyTargetRedactedQuote = newErrDetail ErrConflict ''cannot quote a redacted post'' False"
| "replyTargetFailureError ReplyTargetNoReply = newErrDetail ErrForbidden ''article is not accepting replies'' False"

section \<open>Rules\<close>

definition AuthorEditWindowExpiredError :: error_detail where
  "AuthorEditWindowExpiredError = newErrDetail ErrEditWindowExpired ''edit window has expired'' False"

definition RequirePostAuthorEditWindow :: "bool \<Rightarrow> bool \<Rightarrow> bool \<Rightarrow> error_detail option" where
  "RequirePostAuthorEditWindow canBypass isAuthor withinWindow =
     fail_if (\<not> AuthorEditAllowed canBypass isAuthor withinWindow) AuthorEditWindowExpiredError"

definition postPolicyFlags :: "post \<Rightarrow> flags" where
  "postPolicyFlags p = \<lparr>fl_Marked = po_Marked p, fl_Recommended = po_Recommended p, fl_NoReply = po_NoReply p,
     fl_TeX = po_TeX p, fl_MailBack = po_MailBack p\<rparr>"

definition RequirePostFlagPermissions :: "flag_plan \<Rightarrow> user option \<Rightarrow> post \<Rightarrow> bool \<Rightarrow> bool \<Rightarrow> error_detail option" where
  "RequirePostFlagPermissions plan actor p canCurate canModerateThread =
     (case FlagPlan_PermissionFailure plan (postPolicyActor actor) (po_AuthorID p) canCurate canModerateThread of
        FlagPermissionCurator \<Rightarrow> Some (newErrDetail ErrForbidden ''board curator permission required'' False)
      | FlagPermissionThreadModeration \<Rightarrow> Some (newErrDetail ErrForbidden ''board thread moderation permission required'' False)
      | FlagPermissionAuthorMetadata \<Rightarrow>
          Some (newErrDetail ErrForbidden ''post author or board thread moderation permission required'' False)
      | FlagPermissionOK \<Rightarrow> None)"

definition PlanPostRedaction :: "bool \<Rightarrow> bool \<Rightarrow> bool \<Rightarrow> error_detail + string" where
  "PlanPostRedaction canModeratePosts isAuthor withinWindow =
     (case RedactionKind canModeratePosts isAuthor withinWindow of
        None \<Rightarrow> Inl (newErrDetail ErrForbidden ''insufficient permissions to redact this post'' False)
      | Some kind \<Rightarrow> Inr kind)"

definition RequirePostNotRedacted :: "bool \<Rightarrow> string \<Rightarrow> error_detail option" where
  "RequirePostNotRedacted redacted message = fail_if redacted (newErrDetail ErrConflict message False)"

definition RequirePostRedacted :: "bool \<Rightarrow> string \<Rightarrow> error_detail option" where
  "RequirePostRedacted redacted message = fail_if (\<not> redacted) (newErrDetail ErrConflict message False)"

definition RequireThreadOpenForReply :: "bool \<Rightarrow> bool \<Rightarrow> error_detail option" where
  "RequireThreadOpenForReply locked canModerateBoard =
     fail_if (locked \<and> \<not> canModerateBoard) (newErrDetail ErrThreadLocked ''thread is locked'' False)"

definition RequireThreadStarterAcceptsReplies :: "bool \<Rightarrow> bool \<Rightarrow> error_detail option" where
  "RequireThreadStarterAcceptsReplies noReply canModerateThread =
     fail_if (noReply \<and> \<not> canModerateThread) (newErrDetail ErrForbidden ''thread starter is not accepting replies'' False)"

definition RequireThreadTitlePermission :: "bool \<Rightarrow> bool \<Rightarrow> bool \<Rightarrow> error_detail option" where
  "RequireThreadTitlePermission canModerateThread isAuthor withinWindow =
     (if canModerateThread then None
      else if \<not> isAuthor then Some (newErrDetail ErrForbidden ''thread author or board thread moderation permission required'' False)
      else if \<not> withinWindow then Some AuthorEditWindowExpiredError
      else None)"

definition RequireThreadModeration :: "bool \<Rightarrow> error_detail option" where
  "RequireThreadModeration can = fail_if (\<not> can) (newErrDetail ErrForbidden ''board thread moderation permission required'' False)"

definition RequireBoardPostModeration :: "bool \<Rightarrow> error_detail option" where
  "RequireBoardPostModeration can = fail_if (\<not> can) (newErrDetail ErrForbidden ''board post moderation permission required'' False)"

definition RequireAdminRole :: "bool \<Rightarrow> error_detail option" where
  "RequireAdminRole isAdmin = fail_if (\<not> isAdmin) (newErrDetail ErrForbidden ''admin role required'' False)"

definition RequireModeratorRole :: "bool \<Rightarrow> error_detail option" where
  "RequireModeratorRole isModerator = fail_if (\<not> isModerator) (newErrDetail ErrForbidden ''moderator role required'' False)"

definition RequireSanctionTargetAllowed :: "bool \<Rightarrow> bool \<Rightarrow> bool \<Rightarrow> error_detail option" where
  "RequireSanctionTargetAllowed actorIsAdmin targetIsAdmin targetIsModerator =
     (if targetIsAdmin then Some (newErrDetail ErrForbidden ''cannot sanction an admin'' False)
      else if targetIsModerator \<and> \<not> actorIsAdmin
      then Some (newErrDetail ErrForbidden ''only admins can sanction moderators'' False)
      else None)"

definition RequireClearSanctionTargetAllowed :: "bool \<Rightarrow> bool \<Rightarrow> error_detail option" where
  "RequireClearSanctionTargetAllowed actorIsAdmin targetIsModerator =
     fail_if (targetIsModerator \<and> \<not> actorIsAdmin)
       (newErrDetail ErrForbidden ''only admins can clear moderator sanctions'' False)"

definition RequireBoardSanctionScopePermission :: "forum_db \<Rightarrow> user option \<Rightarrow> string \<Rightarrow> error_detail option" where
  "RequireBoardSanctionScopePermission db actor boardID =
     (case q_board_name db boardID of
        Inl e \<Rightarrow> Some (internalErr e)
      | Inr None \<Rightarrow> Some (newErrDetail ErrNotFound ''board not found for scope'' False)
      | Inr (Some name) \<Rightarrow>
          fail_if (\<not> BoardPermissionAllowed (Q_ActorCanModerateBoardPosts db actor boardID))
            (newErrDetail ErrForbidden ''you do not moderate this board'' False))"

definition RequireOpenModerationReview :: "review_target option \<Rightarrow> error_detail option" where
  "RequireOpenModerationReview target =
     fail_if (case target of None \<Rightarrow> True | Some t \<Rightarrow> rt_Status t \<noteq> ''open'') (newErrDetail ErrNotFound ''review not found'' False)"

definition ActiveBoardSanctionError :: "string \<Rightarrow> error_detail" where
  "ActiveBoardSanctionError kind =
     newErrDetail (if kind = ''ban'' then ''banned'' else ''muted'') (''you are '' @ kind @ ''d in this board'') False"

definition RequireMinTrustForPoll :: "forum_db \<Rightarrow> user \<Rightarrow> int \<Rightarrow> string \<Rightarrow> error_detail option" where
  "RequireMinTrustForPoll db actor minLevel action =
     (if User_IsMod actor then None
      else case q_trust_level db (user_ID actor) of
             Inl e \<Rightarrow> Some (internalErr e)
           | Inr level \<Rightarrow>
               fail_if ((case level of None \<Rightarrow> 0 | Some l \<Rightarrow> l) < minLevel)
                 (newErrDetail ErrForbidden (action @ '' with poll requires trust level '' @ Itoa minLevel) False))"

definition existence_rule :: "string + bool \<Rightarrow> string \<Rightarrow> error_detail option" where
  "existence_rule r message =
     (case r of Inl e \<Rightarrow> Some (internalErr e) | Inr exists \<Rightarrow> fail_if (\<not> exists) (newErrDetail ErrNotFound message False))"

definition RequireDestinationBoard :: "forum_db \<Rightarrow> string \<Rightarrow> error_detail option" where
  "RequireDestinationBoard db boardID = existence_rule (q_board_exists db boardID) ''destination board not found''"

definition RequireBoard :: "forum_db \<Rightarrow> string \<Rightarrow> error_detail option" where
  "RequireBoard db boardID = existence_rule (q_board_exists db boardID) ''board not found''"

definition EnsureRangeBoardAccess :: "forum_db \<Rightarrow> user option \<Rightarrow> string \<Rightarrow> error_detail option" where
  "EnsureRangeBoardAccess db actor boardID =
     (case RequireBoard db boardID of
        Some e \<Rightarrow> Some e
      | None \<Rightarrow> (case Q_ActorCanModerateBoardPosts db actor boardID of
                   Inl e \<Rightarrow> Some (internalErr e)
                 | Inr can \<Rightarrow> RequireBoardPostModeration can))"

definition LoadRangePost :: "forum_db \<Rightarrow> string \<Rightarrow> string \<Rightarrow> error_detail + post \<times> thread" where
  "LoadRangePost db postID boardID =
     (case q_post db postID of
        Inl e \<Rightarrow> Inl (internalErr e)
      | Inr None \<Rightarrow> Inl (newErrDetail ErrNotFound (''post not found: '' @ postID) False)
      | Inr (Some p) \<Rightarrow>
          (case q_thread db (po_Thread p) of
             Inl e \<Rightarrow> Inl (internalErr e)
           | Inr t \<Rightarrow>
               (case t of
                  None \<Rightarrow> Inl (newErrDetail ErrNotFound (''post not found in board: '' @ postID) False)
                | Some th \<Rightarrow>
                    if th_Board th \<noteq> boardID then Inl (newErrDetail ErrNotFound (''post not found in board: '' @ postID) False)
                    else Inr (p, th))))"

definition JunkPostThreadID :: "forum_db \<Rightarrow> string \<Rightarrow> string \<Rightarrow> error_detail + string" where
  "JunkPostThreadID db postID boardID =
     (case q_junk_thread db postID boardID of
        Inl e \<Rightarrow> Inl (internalErr e)
      | Inr None \<Rightarrow> Inl (newErrDetail ErrNotFound (''junk post not found: '' @ postID) False)
      | Inr (Some threadID) \<Rightarrow> Inr threadID)"

text \<open>\<open>FindUserRef\<close> trims the reference and asks for nothing when it is empty.\<close>

definition ResolveUserRef :: "forum_db \<Rightarrow> string \<Rightarrow> error_detail + user" where
  "ResolveUserRef db ref =
     (case (if TrimSpace ref = [] then Inr None else q_user_ref db (TrimSpace ref)) of
        Inl e \<Rightarrow> Inl (internalErr e)
      | Inr None \<Rightarrow> Inl (newErrDetail ErrNotFound ''user not found'' False)
      | Inr (Some u) \<Rightarrow> Inr u)"

subsection \<open>The author shown on a post\<close>

definition ResolvePostAuthorIdentity :: "string \<Rightarrow> string \<Rightarrow> bool \<Rightarrow> bool \<Rightarrow> bool \<Rightarrow> string + string \<times> string" where
  "ResolvePostAuthorIdentity actorName actorID anonymous anonymousAllowed canModerateBoard =
     (if \<not> anonymous then Inr (actorName, actorID)
      else if \<not> anonymousAllowed \<and> \<not> canModerateBoard then Inl ''anonymous posting is not enabled for this board''
      else Inr (''Anonymous'', []))"

definition PostIdentity :: "user option \<Rightarrow> board_settings option \<Rightarrow> bool \<Rightarrow> bool \<Rightarrow> error_detail + string \<times> string" where
  "PostIdentity actor settings anonymous canModerateBoard =
     (let (actorName, actorID) = (case actor of None \<Rightarrow> ([], []) | Some a \<Rightarrow> (user_Name a, user_ID a));
          anonymousAllowed = (case settings of None \<Rightarrow> False | Some s \<Rightarrow> bs_AnonymousAllowed s)
      in case ResolvePostAuthorIdentity actorName actorID anonymous anonymousAllowed canModerateBoard of
           Inl msg \<Rightarrow> Inl (newErrDetail ErrForbidden msg False)
         | Inr r \<Rightarrow> Inr r)"

definition RequirePostAttachmentsAllowed :: "bool \<Rightarrow> bool \<Rightarrow> error_detail option" where
  "RequirePostAttachmentsAllowed allowed canModerateBoard =
     fail_if (\<not> allowed \<and> \<not> canModerateBoard) (newErrDetail ErrForbidden ''attachments are not enabled for this board'' False)"

end
