(* ===== verification/Post_Commands.thy ===== *)
theory Post_Commands
  imports Board_Rules
begin

text \<open>
  The commands on threads, posts and user sanctions: their payloads and validation (\<open>internal/proto/command.go\<close>) and the events
  they lead to, with the scopes the events are addressed to (\<open>internal/core/commandevents/events.go\<close>).

  A validation function returns the normalised payload together with a message, which is empty when the payload is accepted.
\<close>

section \<open>Fields\<close>

text \<open>The fields are passed by reference; here the trimmed fields are returned with the message.\<close>

definition normalizeRequiredFields :: "string \<Rightarrow> string list \<Rightarrow> string list \<times> string" where
  "normalizeRequiredFields requiredMessage vs =
     (let trimmed = map TrimSpace vs in (trimmed, if [] \<in> set trimmed then requiredMessage else []))"

definition normalizeLengthCappedString :: "string \<Rightarrow> nat \<Rightarrow> string \<Rightarrow> string \<times> string" where
  "normalizeLengthCappedString v max_len lengthMessage =
     (let v = TrimSpace v in (v, if length v > max_len then lengthMessage else []))"

definition normalizeRequiredLengthCappedString :: "string \<Rightarrow> string \<Rightarrow> nat \<Rightarrow> string \<Rightarrow> string \<times> string" where
  "normalizeRequiredLengthCappedString v requiredMessage max_len lengthMessage =
     (let v = TrimSpace v
      in (v, if v = [] then requiredMessage else if length v > max_len then lengthMessage else []))"

definition MaxPostBodyLength :: nat where
  "MaxPostBodyLength = 20000"

definition MaxThreadTitleLength :: nat where
  "MaxThreadTitleLength = 160"

definition MaxPostAttachments :: nat where
  "MaxPostAttachments = 8"

definition MaxModerationReasonLength :: nat where
  "MaxModerationReasonLength = 500"

definition MaxCommandRangeItems :: nat where
  "MaxCommandRangeItems = 100"

definition ValidatePostBodyLength :: "string \<Rightarrow> string" where
  "ValidatePostBodyLength body = (if length body > MaxPostBodyLength then ''body must be 20000 characters or less'' else [])"

definition ValidateThreadTitle :: "string \<Rightarrow> string" where
  "ValidateThreadTitle title =
     snd (normalizeRequiredLengthCappedString title ''title is required'' MaxThreadTitleLength ''title must be 160 characters or less'')"

definition NormalizeModerationReason :: "string \<Rightarrow> string \<times> string" where
  "NormalizeModerationReason reason =
     normalizeLengthCappedString reason MaxModerationReasonLength ''reason must be 500 characters or less''"

definition NormalizePostContentType :: "string \<Rightarrow> string" where
  "NormalizePostContentType contentType = (if contentType = ''ansi-art'' then ''ansi-art'' else ''markup'')"

subsection \<open>Ranges of posts\<close>

fun range_ids :: "string \<Rightarrow> string list \<Rightarrow> string list \<Rightarrow> string + string list" where
  "range_ids emptyMessage [] out = Inr out"
| "range_ids emptyMessage (raw # rest) out =
     (let i = TrimSpace raw
      in if i = [] then Inl emptyMessage
         else range_ids emptyMessage rest (if i \<in> set out then out else out @ [i]))"

definition normalizeCommandRangeIDs :: "string list \<Rightarrow> string \<Rightarrow> string \<Rightarrow> string \<Rightarrow> string + string list" where
  "normalizeCommandRangeIDs inputs requiredMessage lengthMessage emptyIDMessage =
     (if inputs = [] then Inl requiredMessage
      else if length inputs > MaxCommandRangeItems then Inl lengthMessage
      else range_ids emptyIDMessage inputs [])"

definition NormalizePostRangeIDs :: "string list \<Rightarrow> string + string list" where
  "NormalizePostRangeIDs inputs =
     normalizeCommandRangeIDs inputs ''posts are required'' ''post range can include at most 100 items'' ''post id cannot be empty''"

subsection \<open>Attachments\<close>

record attachment_payload =
  at_ID :: string
  at_Filename :: string
  at_ContentType :: string
  at_SizeBytes :: int
  at_URL :: string

definition NormalizeAttachmentPayload :: "attachment_payload \<Rightarrow> attachment_payload \<times> string" where
  "NormalizeAttachmentPayload a =
     (let (filename, filenameMsg) = normalizeRequiredLengthCappedString (at_Filename a) ''attachment filename is required'' 160
            ''attachment filename must be 160 characters or less'';
          (contentType, contentTypeMsg) = normalizeLengthCappedString (at_ContentType a) 120
            ''attachment content type must be 120 characters or less'';
          (url, urlMsg) = normalizeLengthCappedString (at_URL a) 500 ''attachment URL must be 500 characters or less''
      in (a\<lparr>at_Filename := filename, at_ContentType := contentType, at_URL := url\<rparr>,
          if filenameMsg \<noteq> [] then filenameMsg
          else if contentTypeMsg \<noteq> [] then contentTypeMsg
          else if urlMsg \<noteq> [] then urlMsg
          else if at_SizeBytes a < 0 then ''attachment size cannot be negative'' else []))"

fun normalize_attachments :: "attachment_payload list \<Rightarrow> attachment_payload list \<Rightarrow> string + attachment_payload list" where
  "normalize_attachments out [] = Inr out"
| "normalize_attachments out (item # rest) =
     (let (item, msg) = NormalizeAttachmentPayload item
      in if msg \<noteq> [] then Inl msg else normalize_attachments (out @ [item\<lparr>at_ID := []\<rparr>]) rest)"

definition ValidatePostAttachmentCount :: "int \<Rightarrow> string" where
  "ValidatePostAttachmentCount n =
     (if n > int MaxPostAttachments then ''a post can have at most 8 attachments'' else [])"

definition NormalizePostAttachments_proto :: "attachment_payload list \<Rightarrow> string + attachment_payload list" where
  "NormalizePostAttachments_proto inputs =
     (if inputs = [] then Inr []
      else let msg = ValidatePostAttachmentCount (int (length inputs))
           in if msg \<noteq> [] then Inl msg else normalize_attachments [] inputs)"

definition WithAttachmentIDs :: "attachment_payload list \<Rightarrow> (nat \<Rightarrow> string) \<Rightarrow> attachment_payload list" where
  "WithAttachmentIDs inputs idFor = map (\<lambda>(i, item). item\<lparr>at_ID := idFor i\<rparr>) (enumerate 0 inputs)"

definition NormalizePostAttachments ::
  "attachment_payload list \<Rightarrow> bool \<Rightarrow> bool \<Rightarrow> (nat \<Rightarrow> string) \<Rightarrow> error_detail + attachment_payload list" where
  "NormalizePostAttachments inputs allowed canModerateBoard idFor =
     (if inputs = [] then Inr []
      else case RequirePostAttachmentsAllowed allowed canModerateBoard of
             Some e \<Rightarrow> Inl e
           | None \<Rightarrow> (case NormalizePostAttachments_proto inputs of
                        Inl msg \<Rightarrow> Inl (newErrDetail ErrValidationFailed msg False)
                      | Inr attachments \<Rightarrow> Inr (WithAttachmentIDs attachments idFor)))"

definition RequirePostAttachmentCapacity :: "int \<Rightarrow> error_detail option" where
  "RequirePostAttachmentCapacity existingCount =
     (let msg = ValidatePostAttachmentCount (existingCount + 1)
      in fail_if (msg \<noteq> []) (newErrDetail ErrValidationFailed msg False))"

section \<open>Payloads\<close>

record create_thread =
  ct_Board :: string
  ct_Title :: string
  ct_Body :: string
  ct_ContentType :: string
  ct_Anonymous :: bool
  ct_Attachments :: "attachment_payload list"

definition NormalizeCreateThreadPayload :: "create_thread \<Rightarrow> create_thread \<times> string" where
  "NormalizeCreateThreadPayload p =
     (let (vs, msg) = normalizeRequiredFields ''board, title, and body are required'' [ct_Board p, ct_Title p];
          p = p\<lparr>ct_Board := vs ! 0, ct_Title := vs ! 1\<rparr>
      in if msg \<noteq> [] \<or> ct_Body p = [] then (p, ''board, title, and body are required'')
         else (p, ValidatePostBodyLength (ct_Body p)))"

record append_post =
  ap_Thread :: string
  ap_Body :: string
  ap_ReplyTo :: string
  ap_QuotePost :: bool
  ap_ContentType :: string
  ap_Anonymous :: bool
  ap_Attachments :: "attachment_payload list"

definition NormalizeAppendPostPayload :: "append_post \<Rightarrow> append_post \<times> string" where
  "NormalizeAppendPostPayload p =
     (let p = p\<lparr>ap_ReplyTo := TrimSpace (ap_ReplyTo p)\<rparr>;
          (vs, msg) = normalizeRequiredFields ''thread and body are required'' [ap_Thread p];
          p = p\<lparr>ap_Thread := vs ! 0\<rparr>
      in if msg \<noteq> [] \<or> ap_Body p = [] then (p, ''thread and body are required'')
         else (p, ValidatePostBodyLength (ap_Body p)))"

record attach_post =
  tp_ID :: string
  tp_Post :: string
  tp_Filename :: string
  tp_ContentType :: string
  tp_SizeBytes :: int
  tp_StagedBlobID :: string

definition NormalizeAttachPostPayload :: "attach_post \<Rightarrow> attach_post \<times> string" where
  "NormalizeAttachPostPayload p =
     (let p = p\<lparr>tp_ID := TrimSpace (tp_ID p), tp_Post := TrimSpace (tp_Post p), tp_StagedBlobID := TrimSpace (tp_StagedBlobID p)\<rparr>
      in if tp_Post p = [] \<or> TrimSpace (tp_Filename p) = [] then (p, ''post and filename are required'')
         else let (a, msg) = NormalizeAttachmentPayload
                    \<lparr>at_ID = [], at_Filename = tp_Filename p, at_ContentType = tp_ContentType p, at_SizeBytes = tp_SizeBytes p, at_URL = []\<rparr>
              in if msg \<noteq> [] then (p, msg)
                 else (p\<lparr>tp_Filename := at_Filename a, tp_ContentType := at_ContentType a\<rparr>, []))"

record edit_post =
  ep_Post :: string
  ep_Body :: string

definition NormalizeEditPostPayload :: "edit_post \<Rightarrow> edit_post \<times> string" where
  "NormalizeEditPostPayload p =
     (let (vs, msg) = normalizeRequiredFields ''post and body are required'' [ep_Post p];
          p = p\<lparr>ep_Post := vs ! 0\<rparr>
      in if msg \<noteq> [] \<or> ep_Body p = [] then (p, ''post and body are required'') else (p, []))"

record set_post_flag =
  sf_Post :: string
  sf_Patch :: flag_patch

definition NormalizeSetPostFlagPayload :: "set_post_flag \<Rightarrow> set_post_flag \<times> string" where
  "NormalizeSetPostFlagPayload p =
     (let p = p\<lparr>sf_Post := TrimSpace (sf_Post p)\<rparr>; f = sf_Patch p
      in (p, if sf_Post p = [] then ''post is required''
             else if fp_Marked f = None \<and> fp_Recommended f = None \<and> fp_NoReply f = None \<and> fp_TeX f = None \<and> fp_MailBack f = None
             then ''at least one article flag is required'' else []))"

text \<open>Redact, purge and flag payloads have a post and a reason; restore has the post only.\<close>

record post_reason =
  pr_Post :: string
  pr_Reason :: string

definition normalize_post_reason :: "post_reason \<Rightarrow> post_reason \<times> string" where
  "normalize_post_reason p =
     (let (vs, msg) = normalizeRequiredFields ''post is required'' [pr_Post p] in (p\<lparr>pr_Post := vs ! 0\<rparr>, msg))"

definition NormalizeRedactPostPayload :: "post_reason \<Rightarrow> post_reason \<times> string" where
  "NormalizeRedactPostPayload p = normalize_post_reason p"

definition NormalizePurgePostPayload :: "post_reason \<Rightarrow> post_reason \<times> string" where
  "NormalizePurgePostPayload p = normalize_post_reason p"

definition NormalizeFlagPostPayload :: "post_reason \<Rightarrow> post_reason \<times> string" where
  "NormalizeFlagPostPayload p = normalize_post_reason p"

definition NormalizeRestorePostPayload :: "string \<Rightarrow> string \<times> string" where
  "NormalizeRestorePostPayload p =
     (let (vs, msg) = normalizeRequiredFields ''post is required'' [p] in (vs ! 0, msg))"

record post_range =
  pg_Board :: string
  pg_Posts :: "string list"
  pg_Reason :: string

definition normalize_post_range :: "post_range \<Rightarrow> post_range \<times> string" where
  "normalize_post_range p =
     (let p = p\<lparr>pg_Board := TrimSpace (pg_Board p)\<rparr>
      in if pg_Board p = [] then (p, ''board is required'')
         else case NormalizePostRangeIDs (pg_Posts p) of
                Inl msg \<Rightarrow> (p, msg)
              | Inr posts \<Rightarrow> (p\<lparr>pg_Posts := posts\<rparr>, []))"

definition NormalizeRedactPostRangePayload :: "post_range \<Rightarrow> post_range \<times> string" where
  "NormalizeRedactPostRangePayload p = normalize_post_range p"

definition NormalizeRestorePostRangePayload :: "post_range \<Rightarrow> post_range \<times> string" where
  "NormalizeRestorePostRangePayload p = normalize_post_range p"

definition NormalizeClearBoardJunkPayload :: "post_range \<Rightarrow> post_range \<times> string" where
  "NormalizeClearBoardJunkPayload p =
     (let (vs, msg) = normalizeRequiredFields ''board is required'' [pg_Board p] in (p\<lparr>pg_Board := vs ! 0\<rparr>, msg))"

record set_thread_title =
  tt_Thread :: string
  tt_Title :: string

definition NormalizeSetThreadTitlePayload :: "set_thread_title \<Rightarrow> set_thread_title \<times> string" where
  "NormalizeSetThreadTitlePayload p =
     (let p = p\<lparr>tt_Thread := TrimSpace (tt_Thread p), tt_Title := TrimSpace (tt_Title p)\<rparr>
      in (p, if tt_Thread p = [] then ''thread is required'' else ValidateThreadTitle (tt_Title p)))"

record lock_thread =
  lt_Thread :: string
  lt_Locked :: bool

definition NormalizeLockThreadPayload :: "lock_thread \<Rightarrow> lock_thread \<times> string" where
  "NormalizeLockThreadPayload p =
     (let (vs, msg) = normalizeRequiredFields ''thread is required'' [lt_Thread p] in (p\<lparr>lt_Thread := vs ! 0\<rparr>, msg))"

record move_thread =
  mv_Thread :: string
  mv_ToBoard :: string

definition NormalizeMoveThreadPayload :: "move_thread \<Rightarrow> move_thread \<times> string" where
  "NormalizeMoveThreadPayload p =
     (let p = p\<lparr>mv_Thread := TrimSpace (mv_Thread p), mv_ToBoard := TrimSpace (mv_ToBoard p)\<rparr>
      in (p, if mv_Thread p = [] then ''thread is required''
             else if mv_ToBoard p = [] then ''destination board is required'' else []))"

record resolve_review =
  rr_Review :: string
  rr_Resolution :: string

definition NormalizeResolveReviewPayload :: "resolve_review \<Rightarrow> resolve_review \<times> string" where
  "NormalizeResolveReviewPayload p =
     (let (vs, msg) = normalizeRequiredFields ''review and resolution are required'' [rr_Review p, rr_Resolution p]
      in (p\<lparr>rr_Review := vs ! 0, rr_Resolution := vs ! 1\<rparr>, msg))"

record sanction =
  sn_User :: string
  sn_Kind :: string
  sn_Scope :: string
  sn_DurationSec :: int
  sn_Reason :: string

definition default_scope :: "sanction \<Rightarrow> sanction" where
  "default_scope p = (let scope = TrimSpace (sn_Scope p) in p\<lparr>sn_Scope := (if scope = [] then ''global'' else scope)\<rparr>)"

definition NormalizeSanctionUserPayload :: "sanction \<Rightarrow> sanction \<times> string" where
  "NormalizeSanctionUserPayload p =
     (let (reason, msg) = NormalizeModerationReason (sn_Reason p); p = p\<lparr>sn_Reason := reason\<rparr>
      in if msg \<noteq> [] then (p, msg)
         else let (vs, msg) = normalizeRequiredFields ''user is required'' [sn_User p]; p = p\<lparr>sn_User := vs ! 0\<rparr>
              in if msg \<noteq> [] then (p, msg)
                 else let p = p\<lparr>sn_Kind := TrimSpace (sn_Kind p)\<rparr>
                      in if sn_Kind p \<noteq> ''mute'' \<and> sn_Kind p \<noteq> ''ban'' then (p, ''kind must be \"mute\" or \"ban\"'')
                         else (default_scope p, []))"

text \<open>The clearing payload has no duration.\<close>

definition NormalizeClearUserSanctionPayload :: "sanction \<Rightarrow> sanction \<times> string" where
  "NormalizeClearUserSanctionPayload p =
     (let (vs, msg) = normalizeRequiredFields ''user is required'' [sn_User p]; p = p\<lparr>sn_User := vs ! 0\<rparr>
      in if msg \<noteq> [] then (p, msg)
         else let p = p\<lparr>sn_Kind := TrimSpace (sn_Kind p)\<rparr>
              in if sn_Kind p \<noteq> [] \<and> sn_Kind p \<noteq> ''mute'' \<and> sn_Kind p \<noteq> ''ban''
                 then (p, ''kind must be \"mute\", \"ban\", or empty'')
                 else let p = default_scope p; (reason, msg) = NormalizeModerationReason (sn_Reason p)
                      in (p\<lparr>sn_Reason := reason\<rparr>, msg))"

section \<open>Events\<close>

record post_appended =
  pp_ID :: string
  pp_Thread :: string
  pp_Author :: string
  pp_AuthorID :: string
  pp_Body :: string
  pp_RawBody :: string
  pp_PostCommitBody :: "string option"
  pp_PostCommitActorID :: string
  pp_PostCommitActorName :: string
  pp_Signature :: string
  pp_ContentType :: string
  pp_ReplyTo :: string
  pp_TeX :: bool
  pp_MailBack :: bool
  pp_SourcePost :: string
  pp_SourceThread :: string
  pp_SourceBoard :: string
  pp_SourceAuthor :: string
  pp_SourceAuthorID :: string
  pp_SourceTitle :: string
  pp_Attachments :: "attachment_payload list"
  pp_TS :: int

text \<open>The fields that a literal of the struct leaves out.\<close>

definition zero_post_appended :: post_appended where
  "zero_post_appended =
     \<lparr>pp_ID = [], pp_Thread = [], pp_Author = [], pp_AuthorID = [], pp_Body = [], pp_RawBody = [], pp_PostCommitBody = None,
      pp_PostCommitActorID = [], pp_PostCommitActorName = [], pp_Signature = [], pp_ContentType = [], pp_ReplyTo = [], pp_TeX = False,
      pp_MailBack = False, pp_SourcePost = [], pp_SourceThread = [], pp_SourceBoard = [], pp_SourceAuthor = [], pp_SourceAuthorID = [],
      pp_SourceTitle = [], pp_Attachments = [], pp_TS = 0\<rparr>"

text \<open>The payload types, each with its fields in the order in which the source declares them.\<close>

datatype event_payload =
    ThreadNewPayload string string string string string int
  | PostAppendedPayload post_appended
  | PostRedactedPayload string string string string string int
  | PostRestoredPayload string string string int
  | PostDeletionClearedPayload string string string string string int
  | PostAttachmentAddedPayload string string string string string int string string int
  | PostEditedPayload string string string int int
  | PostFlagsSetPayload string string flags string int
  | PostPurgedPayload string string string string int
  | ThreadTitleSetPayload string string string int
  | ThreadLockedPayload string bool string int
  | ThreadMovedPayload string string string string int
  | PostFlaggedPayload string string string string string string int
  | ReviewResolvedPayload string string string int
  | UserSanctionedPayload string string string int string string int
  | UserSanctionClearedPayload string string string string string int
  | BoardAutomodTriggeredPayload string string string string string string string string string int
  | BoardCreatedPayload string string string string int string int
  | MailSentPayload string string string "string list" "string list" string string string bool "attachment_payload list" int

type_synonym event_spec = "string list \<times> event_payload"

abbreviation board_scope :: "string \<Rightarrow> string" where "board_scope b \<equiv> ''board:'' @ b"
abbreviation thread_scope :: "string \<Rightarrow> string" where "thread_scope t \<equiv> ''thread:'' @ t"
abbreviation account_scope :: "string \<Rightarrow> string" where "account_scope u \<equiv> ''account:'' @ u"

definition ThreadNew :: "string \<Rightarrow> string \<Rightarrow> string \<Rightarrow> string \<Rightarrow> string \<Rightarrow> int \<Rightarrow> event_spec" where
  "ThreadNew threadID boardID authorName authorID title ts =
     ([board_scope boardID], ThreadNewPayload threadID boardID authorName authorID title ts)"

definition PostAppended :: "string \<Rightarrow> post_appended \<Rightarrow> event_spec" where
  "PostAppended boardID spec = ([board_scope boardID, thread_scope (pp_Thread spec)], PostAppendedPayload spec)"

definition PostRedacted :: "string \<Rightarrow> string \<Rightarrow> string \<Rightarrow> string \<Rightarrow> string \<Rightarrow> string \<Rightarrow> int \<Rightarrow> event_spec" where
  "PostRedacted postID threadID boardID by_id reason deletionKind ts =
     ([thread_scope threadID, board_scope boardID], PostRedactedPayload postID threadID by_id reason deletionKind ts)"

definition PostRestored :: "string \<Rightarrow> string \<Rightarrow> string \<Rightarrow> string \<Rightarrow> int \<Rightarrow> event_spec" where
  "PostRestored postID threadID boardID by_id ts =
     ([thread_scope threadID, board_scope boardID], PostRestoredPayload postID threadID by_id ts)"

definition PostDeletionCleared :: "string \<Rightarrow> string \<Rightarrow> string \<Rightarrow> string \<Rightarrow> string \<Rightarrow> int \<Rightarrow> event_spec" where
  "PostDeletionCleared postID threadID boardID kind by_id ts =
     ([thread_scope threadID, board_scope boardID], PostDeletionClearedPayload postID threadID boardID kind by_id ts)"

definition PostAttachmentAdded ::
  "string \<Rightarrow> string \<Rightarrow> string \<Rightarrow> string \<Rightarrow> string \<Rightarrow> string \<Rightarrow> int \<Rightarrow> string \<Rightarrow> string \<Rightarrow> int \<Rightarrow> event_spec" where
  "PostAttachmentAdded attachmentID postID threadID boardID filename contentType sizeBytes authorID stagedBlobID ts =
     ([board_scope boardID, thread_scope threadID],
      PostAttachmentAddedPayload attachmentID postID threadID filename contentType sizeBytes authorID stagedBlobID ts)"

definition PostEdited :: "string \<Rightarrow> string \<Rightarrow> string \<Rightarrow> string \<Rightarrow> int \<Rightarrow> int \<Rightarrow> event_spec" where
  "PostEdited postID threadID boardID body version ts =
     ([thread_scope threadID, board_scope boardID], PostEditedPayload postID threadID body version ts)"

definition PostFlagsSet :: "string \<Rightarrow> string \<Rightarrow> string \<Rightarrow> flags \<Rightarrow> string \<Rightarrow> int \<Rightarrow> event_spec" where
  "PostFlagsSet postID threadID boardID fl by_id ts =
     ([thread_scope threadID, board_scope boardID], PostFlagsSetPayload postID threadID fl by_id ts)"

definition PostPurged :: "string \<Rightarrow> string \<Rightarrow> string \<Rightarrow> string \<Rightarrow> string \<Rightarrow> int \<Rightarrow> event_spec" where
  "PostPurged postID threadID boardID by_id reason ts =
     ([thread_scope threadID, board_scope boardID], PostPurgedPayload postID threadID by_id reason ts)"

definition ThreadTitleSet :: "string \<Rightarrow> string \<Rightarrow> string \<Rightarrow> string \<Rightarrow> int \<Rightarrow> event_spec" where
  "ThreadTitleSet threadID boardID title by_id ts =
     ([board_scope boardID, thread_scope threadID], ThreadTitleSetPayload threadID title by_id ts)"

definition ThreadLocked :: "string \<Rightarrow> string \<Rightarrow> bool \<Rightarrow> string \<Rightarrow> int \<Rightarrow> event_spec" where
  "ThreadLocked threadID boardID locked by_id ts =
     ([board_scope boardID, thread_scope threadID], ThreadLockedPayload threadID locked by_id ts)"

definition ThreadMoved :: "string \<Rightarrow> string \<Rightarrow> string \<Rightarrow> string \<Rightarrow> int \<Rightarrow> event_spec" where
  "ThreadMoved threadID fromBoardID toBoardID by_id ts =
     ([board_scope fromBoardID, board_scope toBoardID], ThreadMovedPayload threadID fromBoardID toBoardID by_id ts)"

definition PostFlagged :: "string \<Rightarrow> string \<Rightarrow> string \<Rightarrow> string \<Rightarrow> string \<Rightarrow> string \<Rightarrow> int \<Rightarrow> event_spec" where
  "PostFlagged reviewID kind postID threadID reporter reason ts =
     ([''moderation:global''], PostFlaggedPayload reviewID kind postID threadID reporter reason ts)"

definition ReviewResolved :: "string \<Rightarrow> string \<Rightarrow> string \<Rightarrow> int \<Rightarrow> event_spec" where
  "ReviewResolved reviewID resolution by_id ts = ([''moderation:global''], ReviewResolvedPayload reviewID resolution by_id ts)"

definition UserSanctioned :: "string \<Rightarrow> string \<Rightarrow> string \<Rightarrow> string \<Rightarrow> int \<Rightarrow> string \<Rightarrow> string \<Rightarrow> int \<Rightarrow> event_spec" where
  "UserSanctioned accountUserID payloadUser kind scope durationSec by_id reason ts =
     ([account_scope accountUserID], UserSanctionedPayload payloadUser kind scope durationSec by_id reason ts)"

definition UserSanctionCleared :: "string \<Rightarrow> string \<Rightarrow> string \<Rightarrow> string \<Rightarrow> string \<Rightarrow> string \<Rightarrow> int \<Rightarrow> event_spec" where
  "UserSanctionCleared accountUserID payloadUser kind scope by_id reason ts =
     ([account_scope accountUserID], UserSanctionClearedPayload payloadUser kind scope by_id reason ts)"

definition BoardAutomodTriggered ::
  "string \<Rightarrow> string \<Rightarrow> string \<Rightarrow> string \<Rightarrow> string \<Rightarrow> string \<Rightarrow> string \<Rightarrow> string \<Rightarrow> string \<Rightarrow> int \<Rightarrow> event_spec" where
  "BoardAutomodTriggered auditID boardID ruleID matchType action targetUser postID threadID reason ts =
     ([''moderation:global''],
      BoardAutomodTriggeredPayload auditID boardID ruleID matchType action targetUser postID threadID reason ts)"

definition BoardCreated :: "string \<Rightarrow> string \<Rightarrow> string \<Rightarrow> string \<Rightarrow> int \<Rightarrow> string \<Rightarrow> int \<Rightarrow> event_spec" where
  "BoardCreated boardID name description parentID position by_id ts =
     ([board_scope boardID], BoardCreatedPayload boardID name description parentID position by_id ts)"

section \<open>Lemmas\<close>

lemma scan_board_first: "b \<noteq> [] \<Longrightarrow> scan_scopes ''board:'' (board_scope b # scopes) = Some b"
  using CutPrefix_append [of "''board:''" b] by simp

lemma scan_board_second: "b \<noteq> [] \<Longrightarrow> scan_scopes ''board:'' [thread_scope t, board_scope b] = Some b"
  using scan_board_first [of b "[]"] by (simp add: CutPrefix_def HasPrefix_def)

lemma EventPartitionFor_board:
  "scan_scopes ''board:'' scopes = Some b \<Longrightarrow> EventPartitionFor kind scopes = Partition PartitionBoard b"
  by (simp add: EventPartitionFor_def PartitionFromScopes_def scope_prefixes_def)

lemma EventPartitionFor_moderation: "EventPartitionFor kind [''moderation:global''] = DefaultPartition"
  by (simp add: EventPartitionFor_def PartitionFromScopes_def scope_prefixes_def CutPrefix_def HasPrefix_def)



end
