(* ===== verification/Automod.thy ===== *)
theory Automod
  imports Post_Text Post_Commands "HOL-Library.Sublist"
begin

text \<open>
  Automatic moderation: content matching (\<open>internal/core/automodmodel/content.go\<close>), the choice of the rule that applies to
  a post (\<open>internal/core/automod_eval.go\<close>) and the content filters (\<open>projections.MatchContentFilter\<close>).

  Package \<open>regexp\<close> and the complexity limit on rule patterns enter as the parameter \<open>regex\<close>: whether a pattern is
  allowed, compiles and matches a text.
\<close>

section \<open>Content rules\<close>

definition go_contains :: "string \<Rightarrow> string \<Rightarrow> bool" where
  "go_contains s sub \<longleftrightarrow> go_index s sub \<noteq> None"

text \<open>The best run, the current run and the previous rune, which is absent at first.\<close>

fun run_loop :: "nat list \<Rightarrow> nat \<Rightarrow> nat \<Rightarrow> nat option \<Rightarrow> nat" where
  "run_loop [] best run prev = best"
| "run_loop (c # cs) best run prev =
     (if prev = Some c \<and> c \<noteq> 32 \<and> c \<noteq> 10 \<and> c \<noteq> 9
      then run_loop cs (max best (run + 1)) (run + 1) prev
      else run_loop cs (max best 1) 1 (Some c))"

definition MaxConsecutiveRun :: "string \<Rightarrow> nat" where
  "MaxConsecutiveRun text_arg = run_loop (runes text_arg) 0 0 None"

function valid_utf8 :: "string \<Rightarrow> bool" where
  "valid_utf8 s =
     (if s = [] then True
      else if decode_rune s = (0xFFFD, 1) then False
      else valid_utf8 (drop (snd (decode_rune s)) s))"
  by pat_completeness auto
termination by (relation "measure length") (auto simp: decode_rune_width)

declare valid_utf8.simps [simp del]

definition MaxRegexInputBytes :: nat where
  "MaxRegexInputBytes = 16384"

function trim_invalid :: "string \<Rightarrow> string" where
  "trim_invalid b = (if b \<noteq> [] \<and> \<not> valid_utf8 b then trim_invalid (butlast b) else b)"
  by pat_completeness auto
termination by (relation "measure length") auto

declare trim_invalid.simps [simp del]

definition RegexInput :: "string \<Rightarrow> string" where
  "RegexInput text_arg =
     (if length text_arg \<le> MaxRegexInputBytes then text_arg else trim_invalid (take MaxRegexInputBytes text_arg))"

text \<open>A match of \<open>(?i)https?://\<close> at the head of the text: what follows it.\<close>

definition match_link :: "string \<Rightarrow> string option" where
  "match_link s =
     (case match_fold ''http'' s of
        None \<Rightarrow> None
      | Some r \<Rightarrow> (case match_fold ''s://'' r of Some r \<Rightarrow> Some r | None \<Rightarrow> match_fold ''://'' r))"

lemma match_fold_length: "match_fold l s = Some r \<Longrightarrow> length r + length l \<le> length s"
  by (induction l s arbitrary: r rule: match_fold.induct) (fastforce split: list.splits if_splits)+

lemma match_link_length: "match_link s = Some r \<Longrightarrow> length r < length s"
  by (auto simp: match_link_def simp del: match_fold.simps split: option.splits dest!: match_fold_length)

function LinkCount :: "string \<Rightarrow> nat" where
  "LinkCount s =
     (if s = [] then 0
      else case match_link s of Some r \<Rightarrow> Suc (LinkCount r) | None \<Rightarrow> LinkCount (tl s))"
  by pat_completeness auto
termination by (relation "measure length") (auto dest: match_link_length)

declare LinkCount.simps [simp del]

text \<open>The result is \<open>None\<close> for a match type that is not about content.\<close>

definition ContentRuleMatches ::
  "(nat \<Rightarrow> nat) \<Rightarrow> (string \<Rightarrow> string \<Rightarrow> bool) \<Rightarrow> string \<Rightarrow> string \<Rightarrow> int \<Rightarrow> string \<Rightarrow> bool option" where
  "ContentRuleMatches U regex matchType pattern threshold text_arg =
     (if matchType = ''keyword''
      then (let needle = ToLower U (TrimSpace pattern) in Some (needle \<noteq> [] \<and> go_contains (ToLower U text_arg) needle))
      else if matchType = ''regex'' then Some (regex pattern (RegexInput text_arg))
      else if matchType = ''repeated_text'' then Some (int (MaxConsecutiveRun text_arg) \<ge> threshold)
      else if matchType = ''link_count'' then Some (int (LinkCount text_arg) \<ge> threshold)
      else None)"

definition AutomodReason :: "string \<Rightarrow> string \<Rightarrow> string" where
  "AutomodReason reason ruleID =
     (let reason = TrimSpace reason in if reason \<noteq> [] then ''Automod: '' @ reason else ''Automod rule '' @ ruleID)"

section \<open>Choice of the rule\<close>

text \<open>A failing statement counts as a missing row here.\<close>

definition row_of :: "string + 'a option \<Rightarrow> 'a option" where
  "row_of r = (case r of Inr (Some x) \<Rightarrow> Some x | _ \<Rightarrow> None)"

definition userExemptFromAutomod :: "forum_db \<Rightarrow> string \<Rightarrow> string \<Rightarrow> bool" where
  "userExemptFromAutomod db boardID userID =
     (if TrimSpace userID = [] then False
      else if row_of (q_role db userID) \<in> {Some ''admin'', Some ''moderator''} then True
      else if q_board_moderator db boardID userID = Inr True then True
      else case row_of (q_delegated_row db boardID userID) of
             Some (posts, threads) \<Rightarrow> posts \<or> threads
           | None \<Rightarrow> False)"

text \<open>The age of the account in milliseconds, or \<open>None\<close> where the source has \<open>-1\<close>.\<close>

definition automodAccountAge :: "forum_db \<Rightarrow> int \<Rightarrow> string \<Rightarrow> int option" where
  "automodAccountAge db now userID =
     (if TrimSpace userID = [] then None
      else case row_of (q_user_created db userID) of
             None \<Rightarrow> None
           | Some created \<Rightarrow> if created \<le> 0 then None else Some (max 0 (now - created)))"

definition automodRecentPostCount :: "forum_db \<Rightarrow> string \<Rightarrow> string \<Rightarrow> int \<Rightarrow> int" where
  "automodRecentPostCount db boardID authorID sinceMS =
     (case q_recent_posts db boardID authorID sinceMS of Inl e \<Rightarrow> 0 | Inr n \<Rightarrow> n)"

definition automod_rule_matches ::
  "forum_db \<Rightarrow> (nat \<Rightarrow> nat) \<Rightarrow> (string \<Rightarrow> string \<Rightarrow> bool) \<Rightarrow> int \<Rightarrow> string \<Rightarrow> string \<Rightarrow> string \<Rightarrow> automod_rule \<Rightarrow> bool" where
  "automod_rule_matches db U regex now boardID text_arg authorID r =
     (case ContentRuleMatches U regex (am_MatchType r) (am_Pattern r) (am_Threshold r) text_arg of
        Some matched \<Rightarrow> matched
      | None \<Rightarrow>
          if am_MatchType r = ''account_age''
          then (case automodAccountAge db now authorID of None \<Rightarrow> False | Some age \<Rightarrow> age < am_Threshold r * 3600000)
          else if am_MatchType r = ''rate_threshold''
          then am_Threshold r \<ge> 1 \<and> am_WindowSec r \<ge> 1 \<and> TrimSpace authorID \<noteq> []
               \<and> automodRecentPostCount db boardID authorID (now - am_WindowSec r * 1000) \<ge> am_Threshold r
          else False)"

definition evaluateBoardAutomod ::
  "forum_db \<Rightarrow> (nat \<Rightarrow> nat) \<Rightarrow> (string \<Rightarrow> string \<Rightarrow> bool) \<Rightarrow> int \<Rightarrow> string \<Rightarrow> string \<Rightarrow> string \<Rightarrow> string + automod_rule option" where
  "evaluateBoardAutomod db U regex now boardID text_arg authorID =
     (if userExemptFromAutomod db boardID authorID then Inr None
      else and_then (q_automod_rules db boardID) (\<lambda>rules.
             Inr (find (\<lambda>r. am_Enabled r \<and> automod_rule_matches db U regex now boardID text_arg authorID r) rules)))"

text \<open>The actions of a rule, separated by commas.\<close>

definition ParseAutomodActions :: "string \<Rightarrow> string list" where
  "ParseAutomodActions s = filter (\<lambda>p. p \<noteq> []) (map TrimSpace (split_on (CHR '','') s))"

section \<open>Content filters\<close>

definition MatchContentFilter :: "forum_db \<Rightarrow> (nat \<Rightarrow> nat) \<Rightarrow> string \<Rightarrow> string \<Rightarrow> string + content_filter option" where
  "MatchContentFilter db U boardID text_arg =
     (let needle = ToLower U (TrimSpace text_arg)
      in if needle = [] then Inr None
         else and_then (q_content_filters db boardID) (\<lambda>rows.
                Inr (find (\<lambda>f. let pattern = ToLower U (TrimSpace (cf_Pattern f)) in pattern \<noteq> [] \<and> go_contains needle pattern) rows)))"

section \<open>Lemmas\<close>

abbreviation run_rune :: "nat \<Rightarrow> bool" where
  "run_rune c \<equiv> c \<noteq> 32 \<and> c \<noteq> 10 \<and> c \<noteq> 9"

lemma run_loop_spec:
  assumes "2 \<le> n" "run \<le> best" "prev \<noteq> None \<longrightarrow> 1 \<le> run"
  shows "n \<le> run_loop cs best run prev \<longleftrightarrow>
           n \<le> best \<or> (\<exists>c. prev = Some c \<and> run_rune c \<and> prefix (replicate (n - run) c) cs)
           \<or> (\<exists>c. run_rune c \<and> sublist (replicate n c) cs)"
  using assms(2,3)
proof (induction cs arbitrary: best run prev)
  case Nil
  then show ?case using assms(1) by auto
next
  case (Cons x cs)
  obtain m where m: "n = Suc m" "1 \<le> m" using assms(1) by (cases n) auto
  have sub: "sublist (replicate n c) (x # cs) \<longleftrightarrow> c = x \<and> prefix (replicate m c) cs \<or> sublist (replicate n c) cs" for c
    by (simp add: sublist_Cons_right m)
  show ?case
  proof (cases "prev = Some x \<and> run_rune x")
    case True
    have IH: "n \<le> run_loop (x # cs) best run prev \<longleftrightarrow>
        n \<le> max best (run + 1) \<or> prefix (replicate (n - (run + 1)) x) cs \<or> (\<exists>c. run_rune c \<and> sublist (replicate n c) cs)"
      using Cons.IH [of "run + 1" "max best (run + 1)" prev] True by auto
    show ?thesis
    proof (cases "n \<le> best")
      case False
      then have d: "n - run = Suc (n - (run + 1))" using Cons.prems(1) by simp
      have "prefix (replicate m x) cs \<Longrightarrow> prefix (replicate (n - (run + 1)) x) cs"
        using True m Cons.prems(2) by (metis Suc_eq_plus1 diff_Suc_Suc diff_le_self prefix_order.trans prefixI replicate_add le_add_diff_inverse2 add.commute)
      moreover have "n \<le> run + 1 \<Longrightarrow> prefix (replicate (n - (run + 1)) x) cs" by simp
      ultimately show ?thesis using IH True False by (auto simp: d sub le_max_iff_disj)
    qed (use IH in \<open>simp add: le_max_iff_disj\<close>)
  next
    case False
    have "n \<le> run_loop (x # cs) best run prev \<longleftrightarrow>
        n \<le> best \<or> run_rune x \<and> prefix (replicate m x) cs \<or> (\<exists>c. run_rune c \<and> sublist (replicate n c) cs)"
      using Cons.IH [of 1 "max best 1" "Some x"] False m by (auto simp: le_max_iff_disj)
    moreover have "\<not> n \<le> best \<Longrightarrow> prefix (replicate (n - run) c) (x # cs) \<Longrightarrow> c = x" for c
      using Cons.prems(1) by (cases "n - run") auto
    ultimately show ?thesis using False by (auto simp: sub)
  qed
qed

text \<open>
  The repeated-text measure of a post is the length of its longest run: for at least two, it reaches a threshold exactly
  when the text contains that many equal runes in a row, blanks, line breaks and tabs not counted.
\<close>

theorem MaxConsecutiveRun_longest:
  assumes "2 \<le> n"
  shows "n \<le> MaxConsecutiveRun s \<longleftrightarrow> (\<exists>c. c \<notin> {32, 10, 9} \<and> sublist (replicate n c) (runes s))"
  unfolding MaxConsecutiveRun_def using run_loop_spec [OF assms, of 0 0 None "runes s"] assms by auto

theorem MaxConsecutiveRun_longest_witness:
  "(2 :: nat) \<le> 3 \<and> (3 \<le> MaxConsecutiveRun ''aab!!!'' \<longleftrightarrow> (\<exists>c. c \<notin> {32, 10, 9} \<and> sublist (replicate 3 c) (runes ''aab!!!'')))"
  using MaxConsecutiveRun_longest [of 3 "''aab!!!''"] by simp

end
