(* ===== verification/Native_Decider.thy ===== *)
theory Native_Decider
  imports Automod Broker_Transaction
begin

text \<open>
  The parts of the broker-native command decider (\<open>internal/core/command_log_native_decider.go\<close>, with \<open>nativeAutomodEvents\<close> of
  \<open>automod_eval.go\<close>) that its commands share: identifiers, the actor, payloads, and the events that audit boards, content
  filters, automod and mail add to a decision. The decider turns a record of the command log into a reply and the events to
  append, reading the SQL projections and writing nothing.

  A decision has three outcomes: the run panics, the command is rejected with an error, or it is decided. The environment
  holds the database, the clock, the hash and the decoders of the payloads; it stands for \<open>e.core\<close> and package state.
\<close>

section \<open>Outcomes\<close>

datatype 'a decision = Panicked | Rejected error_detail | Decided 'a

text \<open>\<open>if errDetail := rule; errDetail != nil { return errDetail }\<close>, and the same for a value with an error.\<close>

definition demand :: "error_detail option \<Rightarrow> 'a decision \<Rightarrow> 'a decision" where
  "demand r k = (case r of Some e \<Rightarrow> Rejected e | None \<Rightarrow> k)"

definition obtain_or :: "error_detail + 'a \<Rightarrow> ('a \<Rightarrow> 'b decision) \<Rightarrow> 'b decision" where
  "obtain_or r k = (case r of Inl e \<Rightarrow> Rejected e | Inr x \<Rightarrow> k x)"

text \<open>\<open>if err != nil { return internal_error }\<close>, retryable.\<close>

definition load :: "string + 'a \<Rightarrow> ('a \<Rightarrow> 'b decision) \<Rightarrow> 'b decision" where
  "load r k = (case r of Inl e \<Rightarrow> Rejected (internalErr e) | Inr x \<Rightarrow> k x)"

definition present :: "'a option \<Rightarrow> error_detail \<Rightarrow> ('a \<Rightarrow> 'b decision) \<Rightarrow> 'b decision" where
  "present r e k = (case r of None \<Rightarrow> Rejected e | Some x \<Rightarrow> k x)"

definition and_decide :: "'a decision \<Rightarrow> ('a \<Rightarrow> 'b decision) \<Rightarrow> 'b decision" where
  "and_decide d k = (case d of Panicked \<Rightarrow> Panicked | Rejected e \<Rightarrow> Rejected e | Decided x \<Rightarrow> k x)"

text \<open>A call that may panic.\<close>

definition no_panic :: "'a option \<Rightarrow> ('a \<Rightarrow> 'b decision) \<Rightarrow> 'b decision" where
  "no_panic r k = (case r of None \<Rightarrow> Panicked | Some x \<Rightarrow> k x)"

text \<open>What must have happened before a decision was made.\<close>

named_theorems decided

lemma demand_Decided [decided]: "demand r k = Decided x \<longleftrightarrow> r = None \<and> k = Decided x"
  by (simp add: demand_def split: option.split)

lemma obtain_or_Decided [decided]: "obtain_or r k = Decided x \<longleftrightarrow> (\<exists>v. r = Inr v \<and> k v = Decided x)"
  by (simp add: obtain_or_def split: sum.split)

lemma load_Decided [decided]: "load r k = Decided x \<longleftrightarrow> (\<exists>v. r = Inr v \<and> k v = Decided x)"
  by (simp add: load_def split: sum.split)

lemma present_Decided [decided]: "present r e k = Decided x \<longleftrightarrow> (\<exists>v. r = Some v \<and> k v = Decided x)"
  by (simp add: present_def split: option.split)

lemma and_decide_Decided [decided]: "and_decide d k = Decided x \<longleftrightarrow> (\<exists>v. d = Decided v \<and> k v = Decided x)"
  by (simp add: and_decide_def split: decision.split)

lemma no_panic_Decided [decided]: "no_panic r k = Decided x \<longleftrightarrow> (\<exists>v. r = Some v \<and> k v = Decided x)"
  by (simp add: no_panic_def split: option.split)

section \<open>Environment\<close>

record payload_decoders =
  pd_CreateThread :: "string \<Rightarrow> create_thread option"
  pd_AppendPost :: "string \<Rightarrow> append_post option"
  pd_AttachPost :: "string \<Rightarrow> attach_post option"
  pd_EditPost :: "string \<Rightarrow> edit_post option"
  pd_SetPostFlag :: "string \<Rightarrow> set_post_flag option"
  pd_PostReason :: "string \<Rightarrow> post_reason option"
  pd_RestorePost :: "string \<Rightarrow> string option"
  pd_PostRange :: "string \<Rightarrow> post_range option"
  pd_SetThreadTitle :: "string \<Rightarrow> set_thread_title option"
  pd_LockThread :: "string \<Rightarrow> lock_thread option"
  pd_MoveThread :: "string \<Rightarrow> move_thread option"
  pd_ResolveReview :: "string \<Rightarrow> resolve_review option"
  pd_Sanction :: "string \<Rightarrow> sanction option"

record native_env =
  ne_db :: forum_db
  ne_now :: int
  ne_lower :: "nat \<Rightarrow> nat"
  ne_clock :: poll_clock
  ne_regex :: "string \<Rightarrow> string \<Rightarrow> bool"
  ne_sha256 :: "string \<Rightarrow> string"
  ne_unmarshal :: "string \<Rightarrow> json option"
  ne_decoders :: payload_decoders

section \<open>Records and identifiers\<close>

definition hex_digit :: "nat \<Rightarrow> char" where
  "hex_digit n = (if n < 10 then char_of (48 + n) else char_of (87 + n))"

definition hex_EncodeToString :: "string \<Rightarrow> string" where
  "hex_EncodeToString bytes = concat (map (\<lambda>c. let n = of_char c in [hex_digit (n div 16), hex_digit (n mod 16)]) bytes)"

definition record_bytes :: "command_log_record \<Rightarrow> string" where
  "record_bytes rec =
     (let p = Partition_Normalize (clr_Partition rec)
      in pKind p @ [CHR 0x00] @ pKey p @ [CHR 0x00] @ Itoa (clr_Offset rec) @ [CHR 0x00] @ clr_ActorID rec @ [CHR 0x00]
           @ clr_CID rec @ [CHR 0x00] @ clr_Command rec)"

definition stableCommandLogDecisionID :: "native_env \<Rightarrow> string \<Rightarrow> command_log_record \<Rightarrow> nat \<Rightarrow> string" where
  "stableCommandLogDecisionID E pre rec ordinal =
     pre @ hex_EncodeToString (take 12 (ne_sha256 E (record_bytes rec @ [CHR 0x00] @ Itoa (int ordinal))))"

text \<open>The first eight bytes of the hash as a number, modulo the count.\<close>

definition nativeSignatureOffset :: "native_env \<Rightarrow> command_log_record \<Rightarrow> int \<Rightarrow> int" where
  "nativeSignatureOffset E rec n =
     (if n \<le> 0 then 0
      else int (foldl (\<lambda>h c. h * 256 + of_char c) 0 (take 8 (ne_sha256 E (''signature'' @ [CHR 0x00] @ record_bytes rec)))) mod n)"

definition nativeRequireCommandLogPartition :: "command_log_record \<Rightarrow> partition \<Rightarrow> error_detail option" where
  "nativeRequireCommandLogPartition rec expected =
     (let p = Partition_Normalize (clr_Partition rec)
      in fail_if (p \<noteq> expected)
           (newErrDetail ErrValidationFailed
              (''command log partition mismatch: record='' @ pKind p @ ''/'' @ pKey p @ '' expected='' @ pKind expected @ ''/'' @ pKey expected)
              False))"

definition nativePartitionKeyOrGlobal :: "string \<Rightarrow> string" where
  "nativePartitionKeyOrGlobal key = (if key \<noteq> [] then key else PartitionGlobal)"

definition loadNativeDecisionActor :: "native_env \<Rightarrow> string \<Rightarrow> (user \<Rightarrow> 'a decision) \<Rightarrow> 'a decision" where
  "loadNativeDecisionActor E actorID k =
     (if TrimSpace actorID = [] then Rejected (newErrDetail ErrUnauthenticated ''command actor is required'' False)
      else load (q_user (ne_db E) (TrimSpace actorID)) (\<lambda>u.
             present u (newErrDetail ErrUnauthenticated ''command actor not found'' False) k))"

definition loadNativeDecisionActorForPartition ::
  "native_env \<Rightarrow> command_log_record \<Rightarrow> partition \<Rightarrow> (user \<Rightarrow> 'a decision) \<Rightarrow> 'a decision" where
  "loadNativeDecisionActorForPartition E rec expected k =
     demand (nativeRequireCommandLogPartition rec expected) (loadNativeDecisionActor E (clr_ActorID rec) k)"

definition loadNativeDecisionAdminForPartition ::
  "native_env \<Rightarrow> command_log_record \<Rightarrow> partition \<Rightarrow> (user \<Rightarrow> 'a decision) \<Rightarrow> 'a decision" where
  "loadNativeDecisionAdminForPartition E rec expected k =
     loadNativeDecisionActorForPartition E rec expected (\<lambda>actor. demand (RequireAdminRole (User_IsAdmin actor)) (k actor))"

lemma loadNativeDecisionActor_Decided [decided]:
  "loadNativeDecisionActor E actorID k = Decided x \<longleftrightarrow>
     TrimSpace actorID \<noteq> [] \<and> (\<exists>u. q_user (ne_db E) (TrimSpace actorID) = Inr (Some u) \<and> k u = Decided x)"
  by (auto simp: loadNativeDecisionActor_def decided)

lemma loadNativeDecisionActorForPartition_Decided [decided]:
  "loadNativeDecisionActorForPartition E rec expected k = Decided x \<longleftrightarrow>
     nativeRequireCommandLogPartition rec expected = None \<and> loadNativeDecisionActor E (clr_ActorID rec) k = Decided x"
  by (simp add: loadNativeDecisionActorForPartition_def decided)

lemma loadNativeDecisionAdminForPartition_Decided [decided]:
  "loadNativeDecisionAdminForPartition E rec expected k = Decided x \<longleftrightarrow>
     nativeRequireCommandLogPartition rec expected = None \<and>
     loadNativeDecisionActor E (clr_ActorID rec) (\<lambda>a. demand (RequireAdminRole (User_IsAdmin a)) (k a)) = Decided x"
  by (simp add: loadNativeDecisionAdminForPartition_def decided)

definition nativeDecodeRequiredCommandPayload ::
  "(string \<Rightarrow> 'p option) \<Rightarrow> command_log_record \<Rightarrow> string \<Rightarrow> ('p \<Rightarrow> 'a decision) \<Rightarrow> 'a decision" where
  "nativeDecodeRequiredCommandPayload decode rec invalidMessage k =
     (if clr_Offset rec \<le> 0 then Rejected (newErrDetail ErrValidationFailed ''command offset is required'' False)
      else present (decode (clr_Payload rec)) (newErrDetail ErrValidationFailed invalidMessage False) k)"

definition nativeDecodeNormalizedCommandPayload ::
  "(string \<Rightarrow> 'p option) \<Rightarrow> command_log_record \<Rightarrow> string \<Rightarrow> ('p \<Rightarrow> 'p \<times> string) \<Rightarrow> ('p \<Rightarrow> 'a decision) \<Rightarrow> 'a decision" where
  "nativeDecodeNormalizedCommandPayload decode rec invalidMessage norm_fn k =
     nativeDecodeRequiredCommandPayload decode rec invalidMessage (\<lambda>raw.
       let (p, msg) = norm_fn raw
       in if msg \<noteq> [] then Rejected (newErrDetail ErrValidationFailed msg False) else k p)"

lemma nativeDecodeNormalizedCommandPayload_Decided [decided]:
  "nativeDecodeNormalizedCommandPayload decode rec m norm_fn k = Decided x \<longleftrightarrow>
     clr_Offset rec > 0 \<and> (\<exists>raw p. decode (clr_Payload rec) = Some raw \<and> norm_fn raw = (p, []) \<and> k p = Decided x)"
proof (cases "decode (clr_Payload rec)")
  case (Some raw)
  then show ?thesis
    by (cases "norm_fn raw")
      (auto simp: nativeDecodeNormalizedCommandPayload_def nativeDecodeRequiredCommandPayload_def present_def)
qed (simp add: nativeDecodeNormalizedCommandPayload_def nativeDecodeRequiredCommandPayload_def present_def)

definition nativeCommandTimestamp :: "native_env \<Rightarrow> command_log_record \<Rightarrow> int" where
  "nativeCommandTimestamp E rec = (if clr_EnqueuedAt rec > 0 then clr_EnqueuedAt rec else ne_now E)"

definition nativeAuthorEditWindow_ms :: int where
  "nativeAuthorEditWindow_ms = 24 * 60 * 60 * 1000"

section \<open>Decisions and events\<close>

type_synonym native_event = "event_payload event_append"

record native_decision =
  nd_reply :: reply
  nd_events :: "native_event list"

definition nativeDecisionAckEvents :: "string \<Rightarrow> native_event list \<Rightarrow> native_decision decision" where
  "nativeDecisionAckEvents ack events =
     Decided \<lparr>nd_reply = \<lparr>rp_Result = Some \<lparr>ar_ID = ack, ar_Seq = 0, ar_Status = [], ar_CommandID = [], ar_CommandPartitionKind = [],
                ar_CommandPartitionKey = [], ar_CommandOffset = 0\<rparr>, rp_Err = None\<rparr>, nd_events = events\<rparr>"

definition nativeEvent :: "native_env \<Rightarrow> command_log_record \<Rightarrow> nat \<Rightarrow> string \<Rightarrow> event_spec \<Rightarrow> int \<Rightarrow> native_event" where
  "nativeEvent E rec ordinal kind spec ts =
     \<lparr>ea_ID = stableCommandLogDecisionID E ''evt_'' rec ordinal, ea_Kind = kind, ea_Scopes = fst spec, ea_Payload = snd spec,
      ea_CompatibilitySeq = 0, ea_PartitionOffset = 0, ea_TS = ts\<rparr>"

definition nativeDecisionAckEvent :: "string \<Rightarrow> native_event \<Rightarrow> native_decision decision" where
  "nativeDecisionAckEvent ack event = nativeDecisionAckEvents ack [event]"

subsection \<open>Generated posts on system boards\<close>

abbreviation nl :: string where "nl \<equiv> [CHR 0x0A]"

datatype generated_board_mode =
    GeneratedBoardNever
  | GeneratedBoardIfMissingCompact
  | GeneratedBoardIfMissingReserve
  | GeneratedBoardAlwaysNextPosition
  | GeneratedBoardAlwaysUpsert

record generated_post_spec =
  gp_BoardID :: string
  gp_BoardName :: string
  gp_Description :: string
  gp_ThreadID :: string
  gp_PostID :: string
  gp_Title :: string
  gp_Body :: string
  gp_BoardMode :: generated_board_mode

definition CategoryUpsertPosition :: "forum_db \<Rightarrow> string \<Rightarrow> string \<Rightarrow> string + int" where
  "CategoryUpsertPosition db categoryID parentID =
     and_then (q_category_position db categoryID) (\<lambda>position.
       case position of Some n \<Rightarrow> Inr n | None \<Rightarrow> q_next_position db parentID)"

definition nativeGeneratedSystemPostPosition :: "native_env \<Rightarrow> string \<Rightarrow> generated_board_mode \<Rightarrow> (int \<Rightarrow> 'a decision) \<Rightarrow> 'a decision" where
  "nativeGeneratedSystemPostPosition E boardID mode k =
     (if mode = GeneratedBoardAlwaysUpsert then load (CategoryUpsertPosition (ne_db E) boardID []) k
      else load (q_next_position (ne_db E) []) k)"

definition nativeGeneratedBoardCreatedEvent ::
  "native_env \<Rightarrow> command_log_record \<Rightarrow> user \<Rightarrow> generated_post_spec \<Rightarrow> int \<Rightarrow> int \<Rightarrow> nat \<Rightarrow> native_event" where
  "nativeGeneratedBoardCreatedEvent E rec actor spec position ts eventIndex =
     nativeEvent E rec eventIndex ''board.created''
       (BoardCreated (gp_BoardID spec) (gp_BoardName spec) (gp_Description spec) [] position (user_ID actor) ts) ts"

text \<open>The board event, if any, and the index of the thread event.\<close>

definition generated_board_events ::
  "native_env \<Rightarrow> command_log_record \<Rightarrow> user \<Rightarrow> generated_post_spec \<Rightarrow> int \<Rightarrow> nat \<Rightarrow> (native_event list \<times> nat \<Rightarrow> 'a decision) \<Rightarrow> 'a decision" where
  "generated_board_events E rec actor spec ts startIndex k =
     (let create = nativeGeneratedSystemPostPosition E (gp_BoardID spec) (gp_BoardMode spec) (\<lambda>position.
            k ([nativeGeneratedBoardCreatedEvent E rec actor spec position ts startIndex], startIndex + 1))
      in case gp_BoardMode spec of
           GeneratedBoardNever \<Rightarrow> k ([], startIndex)
         | GeneratedBoardIfMissingCompact \<Rightarrow>
             load (q_board_exists (ne_db E) (gp_BoardID spec)) (\<lambda>exists. if \<not> exists then create else k ([], startIndex))
         | GeneratedBoardIfMissingReserve \<Rightarrow>
             load (q_board_exists (ne_db E) (gp_BoardID spec)) (\<lambda>exists. if \<not> exists then create else k ([], startIndex + 1))
         | GeneratedBoardAlwaysNextPosition \<Rightarrow> create
         | GeneratedBoardAlwaysUpsert \<Rightarrow> create)"

definition generated_post :: "user \<Rightarrow> generated_post_spec \<Rightarrow> int \<Rightarrow> post_appended" where
  "generated_post actor spec ts =
     zero_post_appended\<lparr>pp_ID := gp_PostID spec, pp_Thread := gp_ThreadID spec, pp_Author := user_Name actor, pp_AuthorID := user_ID actor,
      pp_Body := gp_Body spec, pp_RawBody := gp_Body spec, pp_PostCommitBody := None, pp_PostCommitActorID := [], pp_PostCommitActorName := [],
      pp_Signature := [], pp_ContentType := ''markup'', pp_ReplyTo := [], pp_Attachments := [], pp_TS := ts\<rparr>"

definition nativeGeneratedSystemPostEvents ::
  "native_env \<Rightarrow> command_log_record \<Rightarrow> user \<Rightarrow> generated_post_spec \<Rightarrow> int \<Rightarrow> nat \<Rightarrow> native_event list decision" where
  "nativeGeneratedSystemPostEvents E rec actor spec ts startIndex =
     generated_board_events E rec actor spec ts startIndex (\<lambda>(events, threadEventIndex).
       Decided (events
         @ [nativeEvent E rec threadEventIndex ''thread.new''
              (ThreadNew (gp_ThreadID spec) (gp_BoardID spec) (user_Name actor) (user_ID actor) (gp_Title spec) ts) ts,
            nativeEvent E rec (threadEventIndex + 1) ''post.appended'' (PostAppended (gp_BoardID spec) (generated_post actor spec ts)) ts]))"

subsection \<open>Audit texts\<close>

definition FormatSanctionSystemBody ::
  "(nat \<Rightarrow> nat) \<Rightarrow> string \<Rightarrow> string \<Rightarrow> string \<Rightarrow> string \<Rightarrow> string \<Rightarrow> string \<Rightarrow> string \<Rightarrow> string" where
  "FormatSanctionSystemBody U action targetName sourceBoardName sourceBoardID kind actorName reason =
     ''# '' @ action @ nl @ nl @ ''- Action: '' @ ToLower U action @ nl @ ''- User: '' @ targetName @ nl
       @ ''- Board: '' @ sourceBoardName @ '' ('' @ sourceBoardID @ '')'' @ nl
       @ (if TrimSpace kind = [] then ''- Kind: all'' @ nl else ''- Kind: '' @ TrimSpace kind @ nl)
       @ ''- Actor: '' @ actorName @ nl
       @ (if TrimSpace reason \<noteq> [] then ''- Reason: '' @ TrimSpace reason @ nl else [])
       @ nl @ ''Generated public board-posting sanction record. Private moderation notes and article bodies are not mirrored.'' @ nl"

definition ModerationSystemTitle :: "string \<Rightarrow> string \<Rightarrow> string" where
  "ModerationSystemTitle action reviewID =
     (if action = ''resolve'' then ''Moderation resolved '' @ reviewID else ''Moderation flag '' @ reviewID)"

definition FormatModerationSystemBody :: "string \<Rightarrow> string \<Rightarrow> string \<Rightarrow> string \<Rightarrow> string \<Rightarrow> string \<Rightarrow> string" where
  "FormatModerationSystemBody action reviewID boardID threadID postID actorName =
     ''# '' @ ModerationSystemTitle action reviewID @ nl @ nl @ ''- Review: '' @ reviewID @ nl
       @ ''- Status: '' @ (if action = ''resolve'' then ''resolved'' else ''opened'') @ nl @ ''- Board: '' @ boardID @ nl
       @ ''- Thread: '' @ threadID @ nl @ ''- Post: '' @ postID @ nl @ ''- Actor: '' @ actorName @ nl @ nl
       @ ''Sensitive report and resolution text is kept in the moderator review queue.'' @ nl"

definition FormatContentFilterReviewBody ::
  "string \<Rightarrow> string \<Rightarrow> string \<Rightarrow> string \<Rightarrow> string \<Rightarrow> string \<Rightarrow> string \<Rightarrow> string \<Rightarrow> string" where
  "FormatContentFilterReviewBody title reviewID filterID filterScope boardID threadID postID publicAuthor =
     ''# '' @ title @ nl @ nl @ ''- Review: '' @ reviewID @ nl @ ''- Status: opened'' @ nl @ ''- Filter: '' @ filterID @ nl
       @ ''- Filter scope: '' @ filterScope @ nl @ ''- Board: '' @ boardID @ nl @ ''- Thread: '' @ threadID @ nl
       @ ''- Post: '' @ postID @ nl @ ''- Public author: '' @ publicAuthor @ nl @ nl
       @ ''Sensitive filter pattern and article body are kept out of this generated record.'' @ nl"

definition FormatArticleMailBackBody :: "string \<Rightarrow> string \<Rightarrow> string \<Rightarrow> string \<Rightarrow> string \<Rightarrow> string \<Rightarrow> string" where
  "FormatArticleMailBackBody boardID threadTitle originalPostID replyPostID replyAuthor replyBody =
     TrimSpace (''Article reply mail-back'' @ nl @ nl @ ''Board: '' @ boardID @ nl @ ''Thread: '' @ threadTitle @ nl
       @ ''Original post: '' @ originalPostID @ nl @ ''Reply post: '' @ replyPostID @ nl @ ''Reply author: '' @ replyAuthor @ nl @ nl
       @ replyBody)"

subsection \<open>Posts generated beside a decision\<close>

definition ModerationSystemPostIDs :: "string \<Rightarrow> string \<Rightarrow> string \<times> string" where
  "ModerationSystemPostIDs action reviewID = (''mod_'' @ action @ ''_thr_'' @ reviewID, ''mod_'' @ action @ ''_pst_'' @ reviewID)"

definition ContentFilterReviewPostIDs :: "string \<Rightarrow> string \<times> string" where
  "ContentFilterReviewPostIDs reviewID = (''filter_thr_'' @ reviewID, ''filter_pst_'' @ reviewID)"

definition ContentFilterReviewTitle :: "string \<Rightarrow> string" where
  "ContentFilterReviewTitle reviewID = ''Content filter review '' @ reviewID"

abbreviation ContentFilterSystemBoardID :: string where "ContentFilterSystemBoardID \<equiv> ''Filter''"
abbreviation ModerationSystemBoardID :: string where "ModerationSystemBoardID \<equiv> ''0moderation''"
abbreviation DenyPostSystemBoardID :: string where "DenyPostSystemBoardID \<equiv> ''denypost''"
abbreviation UndenyPostSystemBoardID :: string where "UndenyPostSystemBoardID \<equiv> ''undenypost''"

definition nativeSanctionSystemLogEvents ::
  "native_env \<Rightarrow> command_log_record \<Rightarrow> string \<Rightarrow> string \<Rightarrow> string \<Rightarrow> user \<Rightarrow> user \<Rightarrow> string \<Rightarrow> string \<Rightarrow> string \<Rightarrow> string \<Rightarrow> string
     \<Rightarrow> int \<Rightarrow> nat \<Rightarrow> native_event list decision" where
  "nativeSanctionSystemLogEvents E rec systemBoardID systemBoardName description actor target sourceBoardID sourceBoardName kind reason
       action ts startIndex =
     load (BoardAllowsPublicSystemPost (ne_db E) sourceBoardID) (\<lambda>emit.
       if \<not> emit then Decided []
       else nativeGeneratedSystemPostEvents E rec actor
              \<lparr>gp_BoardID = systemBoardID, gp_BoardName = systemBoardName, gp_Description = description,
               gp_ThreadID = stableCommandLogDecisionID E (systemBoardID @ ''_thr_'') rec startIndex,
               gp_PostID = stableCommandLogDecisionID E (systemBoardID @ ''_pst_'') rec startIndex,
               gp_Title = action @ '': '' @ user_Name target @ '' on '' @ sourceBoardID,
               gp_Body = FormatSanctionSystemBody (ne_lower E) action (user_Name target) sourceBoardName sourceBoardID kind (user_Name actor) reason,
               gp_BoardMode = GeneratedBoardAlwaysUpsert\<rparr> ts startIndex)"

definition nativeDenyPostSystemLogEvents ::
  "native_env \<Rightarrow> command_log_record \<Rightarrow> user \<Rightarrow> user \<Rightarrow> string \<Rightarrow> string \<Rightarrow> string \<Rightarrow> string \<Rightarrow> int \<Rightarrow> nat \<Rightarrow> native_event list decision" where
  "nativeDenyPostSystemLogEvents E rec actor target sourceBoardID sourceBoardName kind reason ts startIndex =
     nativeSanctionSystemLogEvents E rec DenyPostSystemBoardID DenyPostSystemBoardID ''Generated board posting deny records'' actor target
       sourceBoardID sourceBoardName kind reason ''Board posting denied'' ts startIndex"

definition nativeUndenyPostSystemLogEvents ::
  "native_env \<Rightarrow> command_log_record \<Rightarrow> user \<Rightarrow> user \<Rightarrow> string \<Rightarrow> string \<Rightarrow> string \<Rightarrow> string \<Rightarrow> int \<Rightarrow> nat \<Rightarrow> native_event list decision" where
  "nativeUndenyPostSystemLogEvents E rec actor target sourceBoardID sourceBoardName kind reason ts startIndex =
     nativeSanctionSystemLogEvents E rec UndenyPostSystemBoardID UndenyPostSystemBoardID ''Generated board posting restore records'' actor target
       sourceBoardID sourceBoardName kind reason ''Board posting restored'' ts startIndex"

definition nativeModerationSystemLogEvents ::
  "native_env \<Rightarrow> command_log_record \<Rightarrow> user \<Rightarrow> string \<Rightarrow> string \<Rightarrow> string \<Rightarrow> string \<Rightarrow> string \<Rightarrow> bool \<Rightarrow> int \<Rightarrow> nat \<Rightarrow> native_event list decision" where
  "nativeModerationSystemLogEvents E rec actor action reviewID postID threadID boardID publicBoard ts startIndex =
     (if \<not> publicBoard then Decided []
      else let (threadIDOut, postIDOut) = ModerationSystemPostIDs action reviewID
           in nativeGeneratedSystemPostEvents E rec actor
                \<lparr>gp_BoardID = ModerationSystemBoardID, gp_BoardName = ''0Moderation'', gp_Description = ''Generated moderation audit log'',
                 gp_ThreadID = threadIDOut, gp_PostID = postIDOut, gp_Title = ModerationSystemTitle action reviewID,
                 gp_Body = FormatModerationSystemBody action reviewID boardID threadID postID (user_Name actor),
                 gp_BoardMode = GeneratedBoardAlwaysNextPosition\<rparr> ts startIndex)"

definition content_filter_post_spec :: "string \<Rightarrow> content_filter \<Rightarrow> string \<Rightarrow> string \<Rightarrow> string \<Rightarrow> string \<Rightarrow> generated_post_spec" where
  "content_filter_post_spec publicAuthor filt reviewID postID threadID boardID =
     (let (threadIDOut, postIDOut) = ContentFilterReviewPostIDs reviewID; title = ContentFilterReviewTitle reviewID
      in \<lparr>gp_BoardID = ContentFilterSystemBoardID, gp_BoardName = ''Filter'', gp_Description = ''Generated content filter review log'',
          gp_ThreadID = threadIDOut, gp_PostID = postIDOut, gp_Title = title,
          gp_Body = FormatContentFilterReviewBody title reviewID (TrimSpace (cf_ID filt)) (TrimSpace (cf_Scope filt)) boardID threadID postID
            publicAuthor,
          gp_BoardMode = GeneratedBoardAlwaysNextPosition\<rparr>)"

definition nativeContentFilterReviewEvents ::
  "native_env \<Rightarrow> command_log_record \<Rightarrow> user \<Rightarrow> string \<Rightarrow> content_filter option \<Rightarrow> string \<Rightarrow> string \<Rightarrow> string \<Rightarrow> bool \<Rightarrow> int \<Rightarrow> nat
     \<Rightarrow> native_event list decision" where
  "nativeContentFilterReviewEvents E rec actor publicAuthor filt postID threadID boardID publicBoard ts startIndex =
     (case filt of
        None \<Rightarrow> Decided []
      | Some f \<Rightarrow>
          let reviewID = stableCommandLogDecisionID E ''rev_'' rec startIndex;
              flagged = nativeEvent E rec startIndex ''post.flagged''
                (PostFlagged reviewID ''content_filter'' postID threadID (user_ID actor) (''Matched content filter '' @ TrimSpace (cf_ID f)) ts) ts
          in if \<not> publicBoard then Decided [flagged]
             else and_decide (nativeGeneratedSystemPostEvents E rec actor
                    (content_filter_post_spec publicAuthor f reviewID postID threadID boardID) ts (startIndex + 1))
                    (\<lambda>generated. Decided (flagged # generated)))"

subsection \<open>Automod\<close>

definition automod_action_event ::
  "native_env \<Rightarrow> command_log_record \<Rightarrow> automod_rule \<Rightarrow> string \<Rightarrow> string \<Rightarrow> string \<Rightarrow> string \<Rightarrow> string \<Rightarrow> int \<Rightarrow> nat \<Rightarrow> string
     \<Rightarrow> native_event option" where
  "automod_action_event E rec rule reason actorID postID threadID boardID ts idx action =
     (if action = ''manual_review'' then
        Some (nativeEvent E rec idx ''post.flagged''
          (PostFlagged (stableCommandLogDecisionID E ''rev_'' rec idx) ''automod'' postID threadID ''automod'' reason ts) ts)
      else if action = ''redact'' then
        Some (nativeEvent E rec idx ''post.redacted'' (PostRedacted postID threadID boardID ''automod'' reason [] ts) ts)
      else if action = ''lock_thread'' then
        Some (nativeEvent E rec idx ''thread.locked'' (ThreadLocked threadID boardID True ''automod'' ts) ts)
      else if action = ''board_mute'' \<or> action = ''board_ban'' \<or> action = ''global_mute'' then
        Some (nativeEvent E rec idx ''user.sanctioned''
          (UserSanctioned actorID actorID (if action = ''board_ban'' then ''ban'' else ''mute'')
             (if action = ''global_mute'' then ''global'' else boardID) (am_DurationSec rule) ''automod'' reason ts) ts)
      else None)"

fun automod_action_events ::
  "native_env \<Rightarrow> command_log_record \<Rightarrow> automod_rule \<Rightarrow> string \<Rightarrow> string \<Rightarrow> string \<Rightarrow> string \<Rightarrow> string \<Rightarrow> int \<Rightarrow> nat \<Rightarrow> string list
     \<Rightarrow> native_event list" where
  "automod_action_events E rec rule reason actorID postID threadID boardID ts idx [] = []"
| "automod_action_events E rec rule reason actorID postID threadID boardID ts idx (action # rest) =
     (case automod_action_event E rec rule reason actorID postID threadID boardID ts idx action of
        None \<Rightarrow> automod_action_events E rec rule reason actorID postID threadID boardID ts idx rest
      | Some actionEvent \<Rightarrow>
          actionEvent
          # nativeEvent E rec (idx + 1) ''board.automod_triggered''
              (BoardAutomodTriggered (stableCommandLogDecisionID E ''amlog_'' rec (idx + 1)) boardID (am_ID rule) (am_MatchType rule) action
                 actorID postID threadID reason ts) ts
          # automod_action_events E rec rule reason actorID postID threadID boardID ts (idx + 2) rest)"

definition nativeAutomodEvents ::
  "native_env \<Rightarrow> command_log_record \<Rightarrow> string \<Rightarrow> string \<Rightarrow> string \<Rightarrow> string \<Rightarrow> string \<Rightarrow> int \<Rightarrow> nat \<Rightarrow> native_event list decision" where
  "nativeAutomodEvents E rec actorID postID threadID boardID text_arg ts startIndex =
     load (evaluateBoardAutomod (ne_db E) (ne_lower E) (ne_regex E) (ne_now E) boardID text_arg actorID) (\<lambda>rule.
       case rule of
         None \<Rightarrow> Decided []
       | Some r \<Rightarrow> Decided (automod_action_events E rec r (AutomodReason (am_Reason r) (am_ID r)) actorID postID threadID boardID ts startIndex
                             (ParseAutomodActions (am_Action r))))"

subsection \<open>Mail to the author of the article\<close>

definition DefaultMailQuotaBytes :: int where
  "DefaultMailQuotaBytes = 10 * 2 ^ 20"

definition MailQuotaAllows :: "forum_db \<Rightarrow> string \<Rightarrow> int \<Rightarrow> string + bool" where
  "MailQuotaAllows db userID addedBytes =
     (if addedBytes \<le> 0 \<or> TrimSpace userID = [] then Inr True
      else and_then (q_mail_used db userID) (\<lambda>used. Inr (wrap64 (used + addedBytes) \<le> DefaultMailQuotaBytes)))"

fun ensure_quota :: "forum_db \<Rightarrow> int \<Rightarrow> (string \<times> int) list \<Rightarrow> error_detail option" where
  "ensure_quota db addedPerCopy [] = None"
| "ensure_quota db addedPerCopy ((userID, copies) # rest) =
     (if TrimSpace userID = [] \<or> copies \<le> 0 then ensure_quota db addedPerCopy rest
      else case MailQuotaAllows db userID (wrap64 (addedPerCopy * copies)) of
             Inl e \<Rightarrow> Some (internalErr e)
           | Inr ok \<Rightarrow> if \<not> ok then Some (newErrDetail ErrValidationFailed (''mail quota exceeded for user '' @ userID) False)
                        else ensure_quota db addedPerCopy rest)"

definition EnsureMailQuota :: "forum_db \<Rightarrow> (string, int) gomap \<Rightarrow> int \<Rightarrow> error_detail option" where
  "EnsureMailQuota db copyCounts addedPerCopy = (if addedPerCopy \<le> 0 then None else ensure_quota db addedPerCopy copyCounts)"

definition MailMessageSize :: "string \<Rightarrow> string \<Rightarrow> attachment_payload list \<Rightarrow> int" where
  "MailMessageSize subject body attachments =
     (let bytes = foldl (\<lambda>n item. wrap64 (n + at_SizeBytes item)) (int (length subject + length body)) attachments
      in if bytes < 0 then 0 else bytes)"

definition mail_back_event ::
  "native_env \<Rightarrow> command_log_record \<Rightarrow> user \<Rightarrow> string \<Rightarrow> string \<Rightarrow> user \<Rightarrow> string \<Rightarrow> string \<Rightarrow> int \<Rightarrow> nat \<Rightarrow> native_event" where
  "mail_back_event E rec actor authorName authorID recipient subject body ts eventIndex =
     (let authorName = TrimSpace authorName; authorName = (if authorName = [] then user_Name actor else authorName)
      in nativeEvent E rec eventIndex ''mail.sent''
           ([account_scope (user_ID actor), account_scope (user_ID recipient)],
            MailSentPayload (stableCommandLogDecisionID E ''mail_'' rec eventIndex) authorID authorName [user_ID recipient] [user_Name recipient]
              subject body [] False [] ts) ts)"

definition nativeArticleMailBackEvent ::
  "native_env \<Rightarrow> command_log_record \<Rightarrow> user \<Rightarrow> string \<Rightarrow> string \<Rightarrow> thread \<Rightarrow> post option \<Rightarrow> string \<Rightarrow> string \<Rightarrow> int \<Rightarrow> nat
     \<Rightarrow> native_event option decision" where
  "nativeArticleMailBackEvent E rec actor authorName authorID th target replyPostID replyBody ts eventIndex =
     (case target of
        None \<Rightarrow> Decided None
      | Some t \<Rightarrow>
          let authorID = TrimSpace authorID
          in if \<not> po_MailBack t \<or> po_Redacted t \<or> authorID = [] \<or> TrimSpace (po_AuthorID t) = [] \<or> po_AuthorID t = authorID then Decided None
             else load (q_user (ne_db E) (po_AuthorID t)) (\<lambda>recipient.
                    case recipient of
                      None \<Rightarrow> Decided None
                    | Some r \<Rightarrow>
                        load (q_relationship (ne_db E) (user_ID r) (user_ID actor) ''ignore'') (\<lambda>ignored.
                          if ignored then Decided None
                          else let subject = ''Article reply: '' @ th_Title th;
                                   body = FormatArticleMailBackBody (th_Board th) (th_Title th) (po_ID t) replyPostID (user_Name actor) replyBody
                               in case EnsureMailQuota (ne_db E) [(user_ID r, 1)] (MailMessageSize subject body []) of
                                    Some e \<Rightarrow> if ed_Code e \<noteq> ErrValidationFailed then Rejected e else Decided None
                                  | None \<Rightarrow> Decided (Some (mail_back_event E rec actor authorName authorID r subject body ts eventIndex)))))"

subsection \<open>Signatures\<close>

definition MaxPostSignatureLength :: nat where
  "MaxPostSignatureLength = 500"

definition NormalizePostSignature :: "string \<Rightarrow> string" where
  "NormalizePostSignature signature = take MaxPostSignatureLength (TrimSpace signature)"

definition CurrentPostSignature :: "forum_db \<Rightarrow> string \<Rightarrow> (int \<Rightarrow> int) \<Rightarrow> string + string" where
  "CurrentPostSignature db authorID randomOffset =
     (let authorID = TrimSpace authorID
      in if authorID = [] then Inr []
         else and_then (q_signature db authorID) (\<lambda>row.
                if sg_RandomEnabled row \<and> sg_ActiveCount row > 0
                then and_then (q_signature_at db authorID (randomOffset (sg_ActiveCount row) mod sg_ActiveCount row)) (\<lambda>signature.
                       Inr (NormalizePostSignature signature))
                else if NormalizePostSignature (sg_Selected row) \<noteq> [] then Inr (NormalizePostSignature (sg_Selected row))
                else if NormalizePostSignature (sg_Bank row) \<noteq> [] then Inr (NormalizePostSignature (sg_Bank row))
                else Inr (NormalizePostSignature (sg_Profile row))))"

definition nativePostSignature :: "native_env \<Rightarrow> string \<Rightarrow> command_log_record \<Rightarrow> string + string" where
  "nativePostSignature E authorID rec = CurrentPostSignature (ne_db E) authorID (nativeSignatureOffset E rec)"

subsection \<open>Staged blobs\<close>

definition AttachmentBlobMetadataMatches :: "string \<Rightarrow> int \<Rightarrow> int \<Rightarrow> string \<Rightarrow> bool" where
  "AttachmentBlobMetadataMatches storedContentType storedSize expectedSize contentType =
     (if expectedSize \<ge> 0 \<and> storedSize \<noteq> expectedSize then False
      else TrimSpace contentType = [] \<or> storedContentType = TrimSpace contentType)"

definition PromotedAttachmentBlobMatches :: "forum_db \<Rightarrow> string \<Rightarrow> int \<Rightarrow> string \<Rightarrow> string + bool" where
  "PromotedAttachmentBlobMatches db attachmentID expectedSize contentType =
     and_then (q_promoted_blob db attachmentID) (\<lambda>row.
       case row of
         None \<Rightarrow> Inr False
       | Some (storedContentType, storedSize) \<Rightarrow>
           Inr (AttachmentBlobMetadataMatches storedContentType storedSize expectedSize contentType))"

definition nativeValidateStagedPostAttachmentBlob :: "native_env \<Rightarrow> string \<Rightarrow> string \<Rightarrow> int \<Rightarrow> string \<Rightarrow> error_detail option" where
  "nativeValidateStagedPostAttachmentBlob E stagedBlobID attachmentID expectedSize contentType =
     (let stagedBlobID = TrimSpace stagedBlobID
      in if stagedBlobID = [] then None
         else case q_staged_blob (ne_db E) stagedBlobID of
                Inl e \<Rightarrow> Some (internalErr e)
              | Inr None \<Rightarrow>
                  (case PromotedAttachmentBlobMatches (ne_db E) attachmentID expectedSize contentType of
                     Inl e \<Rightarrow> Some (internalErr e)
                   | Inr ok \<Rightarrow>
                       fail_if (\<not> ok) (newErrDetail ''blob_staging_required'' ''staged attachment blob is not available yet'' True))
              | Inr (Some (kind, stagedSize)) \<Rightarrow>
                  if kind \<noteq> ''post_attachment''
                  then Some (newErrDetail ErrValidationFailed ''staged attachment blob kind does not match post attachment'' False)
                  else fail_if (expectedSize \<ge> 0 \<and> stagedSize \<noteq> expectedSize)
                         (newErrDetail ErrValidationFailed
                            (''staged attachment blob mismatch: staged size '' @ Itoa stagedSize @ '' does not match command size ''
                               @ Itoa expectedSize) False))"

end
