(* ===== verification/Native_Commands.thy ===== *)
theory Native_Commands
  imports Native_Decider
begin

text \<open>
  The decisions of the native decider (\<open>internal/core/command_log_native_decider.go\<close>) on threads, posts, reviews and
  sanctions, the dispatch on the command, and the executor with its decision cache. The order of the checks is the order of
  the source, so the first failing check gives the error. The commands that are not modelled are the parameter \<open>others\<close> of
  \<open>decide\<close>.
\<close>

section \<open>Loading rows\<close>

definition get_post :: "native_env \<Rightarrow> string \<Rightarrow> (post \<Rightarrow> 'a decision) \<Rightarrow> 'a decision" where
  "get_post E postID k =
     load (q_post (ne_db E) postID) (\<lambda>p. present p (newErrDetail ErrNotFound ''post not found'' False) k)"

definition get_thread :: "native_env \<Rightarrow> string \<Rightarrow> (thread \<Rightarrow> 'a decision) \<Rightarrow> 'a decision" where
  "get_thread E threadID k =
     load (q_thread (ne_db E) threadID) (\<lambda>t. present t (newErrDetail ErrNotFound ''thread not found'' False) k)"

text \<open>Purging and flagging answer a missing thread with a retryable internal error.\<close>

definition get_thread_internal :: "native_env \<Rightarrow> string \<Rightarrow> (thread \<Rightarrow> 'a decision) \<Rightarrow> 'a decision" where
  "get_thread_internal E threadID k =
     load (q_thread (ne_db E) threadID) (\<lambda>t. present t (internalErr ''thread not found'') k)"

lemma get_row_Decided [decided]:
  "get_post E postID f = Decided x \<longleftrightarrow> (\<exists>p. q_post (ne_db E) postID = Inr (Some p) \<and> f p = Decided x)"
  "get_thread E threadID g = Decided x \<longleftrightarrow> (\<exists>t. q_thread (ne_db E) threadID = Inr (Some t) \<and> g t = Decided x)"
  "get_thread_internal E threadID g = Decided x \<longleftrightarrow> (\<exists>t. q_thread (ne_db E) threadID = Inr (Some t) \<and> g t = Decided x)"
  by (auto simp: get_post_def get_thread_def get_thread_internal_def decided)

definition ThreadRootPost :: "forum_db \<Rightarrow> string \<Rightarrow> string + post option" where
  "ThreadRootPost db threadID =
     and_then (q_root_post_id db threadID) (\<lambda>row. case row of None \<Rightarrow> Inr None | Some postID \<Rightarrow> q_post db postID)"

text \<open>The two flags of the first post of a thread, both false when there is none.\<close>

definition ThreadRootReplyGuardsForThread :: "forum_db \<Rightarrow> string \<Rightarrow> string + bool \<times> bool" where
  "ThreadRootReplyGuardsForThread db threadID =
     and_then (q_root_guards db threadID) (\<lambda>row. Inr (case row of None \<Rightarrow> (False, False) | Some g \<Rightarrow> g))"

definition active_sanction :: "native_env \<Rightarrow> string \<Rightarrow> string \<Rightarrow> string + string" where
  "active_sanction E userID boardID =
     and_then (q_sanction (ne_db E) userID boardID (ne_now E)) (\<lambda>row. Inr (case row of None \<Rightarrow> [] | Some kind \<Rightarrow> TrimSpace kind))"

record create_thread_context =
  cc_Actor :: "user option"
  cc_Settings :: "board_settings option"
  cc_CanModerateBoard :: bool
  cc_SanctionKind :: string

definition nativeCreateThreadDecisionContext :: "native_env \<Rightarrow> string \<Rightarrow> string \<Rightarrow> string + create_thread_context" where
  "nativeCreateThreadDecisionContext E actorID boardID =
     (let actorID = TrimSpace actorID; boardID = TrimSpace boardID;
          out = \<lparr>cc_Actor = None, cc_Settings = None, cc_CanModerateBoard = False, cc_SanctionKind = []\<rparr>
      in if actorID = [] then Inr out
         else and_then (q_user (ne_db E) actorID) (\<lambda>actor.
                case actor of
                  None \<Rightarrow> Inr out
                | Some a \<Rightarrow>
                    and_then (q_settings (ne_db E) boardID) (\<lambda>settings.
                    and_then (Q_ActorCanModerateBoard (ne_db E) (Some a) boardID) (\<lambda>can.
                    and_then (active_sanction E (user_ID a) boardID) (\<lambda>kind.
                      Inr \<lparr>cc_Actor = Some a, cc_Settings = settings, cc_CanModerateBoard = can, cc_SanctionKind = kind\<rparr>)))))"

record append_post_context =
  xc_Actor :: "user option"
  xc_Thread :: "thread option"
  xc_RootNoReply :: bool
  xc_RootMailBack :: bool
  xc_Settings :: "board_settings option"
  xc_CanModerateBoard :: bool
  xc_CanModerateThread :: bool
  xc_SanctionKind :: string

definition append_permissions :: "native_env \<Rightarrow> user \<Rightarrow> string \<Rightarrow> string + bool \<times> bool" where
  "append_permissions E actor boardID =
     (if User_IsMod actor then Inr (True, True) else BoardThreadModerationPermissions (ne_db E) boardID (user_ID actor))"

definition nativeAppendPostDecisionContext :: "native_env \<Rightarrow> string \<Rightarrow> string \<Rightarrow> string + append_post_context" where
  "nativeAppendPostDecisionContext E actorID threadID =
     (let actorID = TrimSpace actorID; threadID = TrimSpace threadID;
          out = \<lparr>xc_Actor = None, xc_Thread = None, xc_RootNoReply = False, xc_RootMailBack = False, xc_Settings = None,
                 xc_CanModerateBoard = False, xc_CanModerateThread = False, xc_SanctionKind = []\<rparr>
      in if actorID = [] then Inr out
         else and_then (q_user (ne_db E) actorID) (\<lambda>actor.
                case actor of
                  None \<Rightarrow> Inr out
                | Some a \<Rightarrow>
                    and_then (q_thread (ne_db E) threadID) (\<lambda>th.
                      case th of
                        None \<Rightarrow> Inr (out\<lparr>xc_Actor := Some a\<rparr>)
                      | Some t \<Rightarrow>
                          and_then (ThreadRootReplyGuardsForThread (ne_db E) (th_ID t)) (\<lambda>(noReply, mailBack).
                          and_then (q_settings (ne_db E) (th_Board t)) (\<lambda>settings.
                          and_then (append_permissions E a (th_Board t)) (\<lambda>(canBoard, canThread).
                          and_then (active_sanction E (user_ID a) (th_Board t)) (\<lambda>kind.
                            Inr \<lparr>xc_Actor = Some a, xc_Thread = Some t, xc_RootNoReply = noReply, xc_RootMailBack = mailBack,
                                 xc_Settings = settings, xc_CanModerateBoard = canBoard, xc_CanModerateThread = canThread,
                                 xc_SanctionKind = kind\<rparr>)))))))"

section \<open>Threads and posts\<close>

definition extractPoll :: "native_env \<Rightarrow> string \<Rightarrow> (poll_block option \<times> string \<Rightarrow> 'a decision) \<Rightarrow> 'a decision" where
  "extractPoll E body k = no_panic (ParsePoll (ne_lower E) (ne_clock E) body) k"

lemma extractPoll_Decided [decided]:
  "extractPoll E body k = Decided x \<longleftrightarrow> (\<exists>r. ParsePoll (ne_lower E) (ne_clock E) body = Some r \<and> k r = Decided x)"
  by (simp add: extractPoll_def decided)

text \<open>The trust check when a poll was taken out of the body, and the sanction check.\<close>

definition require_poll_trust :: "native_env \<Rightarrow> user \<Rightarrow> bool \<Rightarrow> string \<Rightarrow> error_detail option" where
  "require_poll_trust E actor pollStripped action =
     (if pollStripped then RequireMinTrustForPoll (ne_db E) actor 2 action else None)"

definition require_no_sanction :: "string \<Rightarrow> error_detail option" where
  "require_no_sanction kind = (if kind \<noteq> [] then Some (ActiveBoardSanctionError kind) else None)"

lemma require_no_sanction_None [simp]: "require_no_sanction kind = None \<longleftrightarrow> kind = []"
  by (simp add: require_no_sanction_def)

text \<open>The actor that the workers after the commit see when the author is hidden.\<close>

definition commit_actor :: "user \<Rightarrow> string \<Rightarrow> string \<Rightarrow> string \<times> string" where
  "commit_actor actor authorName authorID =
     (if authorID = [] \<and> user_ID actor \<noteq> [] then (user_ID actor, authorName) else ([], []))"

text \<open>The events that filters and automod add to those of a new post.\<close>

definition reaction_events ::
  "native_env \<Rightarrow> command_log_record \<Rightarrow> user \<Rightarrow> string \<Rightarrow> content_filter option \<Rightarrow> string \<Rightarrow> string \<Rightarrow> string \<Rightarrow> bool \<Rightarrow> string \<Rightarrow> int
     \<Rightarrow> native_event list \<Rightarrow> native_event list decision" where
  "reaction_events E rec actor authorName filt postID threadID boardID publicBoard text_arg ts events =
     and_decide (nativeContentFilterReviewEvents E rec actor authorName filt postID threadID boardID publicBoard ts (length events))
       (\<lambda>filterEvents.
          let events = events @ filterEvents
          in and_decide (nativeAutomodEvents E rec (user_ID actor) postID threadID boardID text_arg ts (length events))
               (\<lambda>automodEvents. Decided (events @ automodEvents)))"

definition create_thread_events ::
  "native_env \<Rightarrow> command_log_record \<Rightarrow> create_thread \<Rightarrow> string \<Rightarrow> user \<Rightarrow> string \<Rightarrow> string \<Rightarrow> attachment_payload list \<Rightarrow> string \<Rightarrow> int
     \<Rightarrow> native_event list" where
  "create_thread_events E rec p cleanBody actor authorName authorID attachments signature ts =
     (let threadID = stableCommandLogDecisionID E ''thr_'' rec 0; postID = stableCommandLogDecisionID E ''pst_'' rec 1;
          (postCommitActorID, postCommitActorName) = commit_actor actor authorName authorID
      in [nativeEvent E rec 0 ''thread.new'' (ThreadNew threadID (ct_Board p) authorName authorID (ct_Title p) ts) ts,
          nativeEvent E rec 1 ''post.appended''
            (PostAppended (ct_Board p)
               (zero_post_appended\<lparr>pp_ID := postID, pp_Thread := threadID, pp_Author := authorName, pp_AuthorID := authorID, pp_Body := cleanBody,
                pp_RawBody := ct_Body p, pp_PostCommitBody := None, pp_PostCommitActorID := postCommitActorID,
                pp_PostCommitActorName := postCommitActorName, pp_Signature := signature,
                pp_ContentType := NormalizePostContentType (ct_ContentType p), pp_ReplyTo := [], pp_Attachments := attachments, pp_TS := ts\<rparr>)) ts])"

definition decideCreateThread :: "native_env \<Rightarrow> command_log_record \<Rightarrow> native_decision decision" where
  "decideCreateThread E rec =
     nativeDecodeNormalizedCommandPayload (pd_CreateThread (ne_decoders E)) rec ''invalid createThread payload'' NormalizeCreateThreadPayload (\<lambda>p.
     extractPoll E (ct_Body p) (\<lambda>(pollBlock, cleanBody).
     demand (nativeRequireCommandLogPartition rec (Partition PartitionBoard (ct_Board p))) (
     demand (fail_if (TrimSpace (clr_ActorID rec) = []) (newErrDetail ErrUnauthenticated ''command actor is required'' False)) (
     load (nativeCreateThreadDecisionContext E (clr_ActorID rec) (ct_Board p)) (\<lambda>cx.
     present (cc_Actor cx) (newErrDetail ErrUnauthenticated ''command actor not found'' False) (\<lambda>actor.
     demand (require_poll_trust E actor (pollBlock \<noteq> None \<and> cleanBody \<noteq> ct_Body p) ''create thread'') (
     demand (require_no_sanction (cc_SanctionKind cx)) (
     present (cc_Settings cx) (newErrDetail ErrNotFound ''board not found'' False) (\<lambda>settings.
     demand (RequireThreadCreationBoardAccessStrict (ne_db E) (Some actor) (ct_Board p) (Some settings) (cc_CanModerateBoard cx)) (
     obtain_or (PostIdentity (Some actor) (Some settings) (ct_Anonymous p) (cc_CanModerateBoard cx)) (\<lambda>(authorName, authorID).
     obtain_or (NormalizePostAttachments (ct_Attachments p) (bs_AttachmentsAllowed settings) (cc_CanModerateBoard cx)
                  (\<lambda>i. stableCommandLogDecisionID E ''att_'' rec (100 + i))) (\<lambda>attachments.
     load (MatchContentFilter (ne_db E) (ne_lower E) (ct_Board p) (ct_Title p @ nl @ ct_Body p)) (\<lambda>contentFilter.
     load (nativePostSignature E authorID rec) (\<lambda>signature.
       let ts = nativeCommandTimestamp E rec; threadID = stableCommandLogDecisionID E ''thr_'' rec 0;
           postID = stableCommandLogDecisionID E ''pst_'' rec 1
       in and_decide (reaction_events E rec actor authorName contentFilter postID threadID (ct_Board p) (\<not> bs_MemberReadMode settings)
                        (ct_Title p @ nl @ ct_Body p) ts
                        (create_thread_events E rec p cleanBody actor authorName authorID attachments signature ts))
            (\<lambda>events. nativeDecisionAckEvents threadID events)))))))))))))))"

text \<open>What a reply quotes, whom it answers by mail, and its texts.\<close>

definition reply_parent :: "native_env \<Rightarrow> string \<Rightarrow> (post option \<Rightarrow> 'a decision) \<Rightarrow> 'a decision" where
  "reply_parent E replyTo k = (if replyTo \<noteq> [] then load (q_post (ne_db E) replyTo) k else k None)"

definition PlanPostReply ::
  "string \<Rightarrow> post option \<Rightarrow> string \<Rightarrow> bool \<Rightarrow> bool \<Rightarrow> error_detail + reply_target_plan" where
  "PlanPostReply replyTo parent threadID quotePost canModerateThread =
     (case PlanReplyTarget replyTo parent threadID quotePost canModerateThread of
        Inl failure \<Rightarrow> Inl (replyTargetFailureError failure)
      | Inr plan \<Rightarrow> Inr plan)"

definition mail_back_target ::
  "native_env \<Rightarrow> reply_target_plan \<Rightarrow> post option \<Rightarrow> bool \<Rightarrow> string \<Rightarrow> (post option \<Rightarrow> 'a decision) \<Rightarrow> 'a decision" where
  "mail_back_target E plan parent rootMailBack threadID k =
     (if rp_NeedsRootMailBack plan \<and> rootMailBack then load (ThreadRootPost (ne_db E) threadID) k
      else k (if rp_MailBackParent plan then parent else None))"

definition reply_texts :: "reply_target_plan \<Rightarrow> post option \<Rightarrow> string \<Rightarrow> string \<Rightarrow> string \<times> string \<times> string option" where
  "reply_texts plan parent cleanBody body =
     (case (if rp_QuoteParent plan then parent else None) of
        None \<Rightarrow> (cleanBody, body, None)
      | Some source \<Rightarrow>
          let quote_prefix = FormatQuotedReplyPrefix (po_Author source) (po_Body source)
          in (quote_prefix @ cleanBody, quote_prefix @ body, Some cleanBody))"

definition append_post_event ::
  "native_env \<Rightarrow> command_log_record \<Rightarrow> append_post \<Rightarrow> thread \<Rightarrow> user \<Rightarrow> string \<Rightarrow> string \<Rightarrow> string \<Rightarrow> string \<times> string \<times> string option
     \<Rightarrow> attachment_payload list \<Rightarrow> string \<Rightarrow> int \<Rightarrow> native_event" where
  "append_post_event E rec p th actor authorName authorID replyTo texts attachments signature ts =
     (let (cleanBody, rawBody, postCommitBody) = texts;
          (postCommitActorID, postCommitActorName) = commit_actor actor authorName authorID
      in nativeEvent E rec 0 ''post.appended''
           (PostAppended (th_Board th)
              (zero_post_appended\<lparr>pp_ID := stableCommandLogDecisionID E ''pst_'' rec 0, pp_Thread := th_ID th, pp_Author := authorName, pp_AuthorID := authorID,
               pp_Body := cleanBody, pp_RawBody := rawBody, pp_PostCommitBody := postCommitBody, pp_PostCommitActorID := postCommitActorID,
               pp_PostCommitActorName := postCommitActorName, pp_Signature := signature,
               pp_ContentType := NormalizePostContentType (ap_ContentType p), pp_ReplyTo := replyTo, pp_Attachments := attachments, pp_TS := ts\<rparr>)) ts)"

definition decideAppendPost :: "native_env \<Rightarrow> command_log_record \<Rightarrow> native_decision decision" where
  "decideAppendPost E rec =
     nativeDecodeNormalizedCommandPayload (pd_AppendPost (ne_decoders E)) rec ''invalid appendPost payload'' NormalizeAppendPostPayload (\<lambda>p.
     extractPoll E (ap_Body p) (\<lambda>(pollBlock, cleanBody).
     let part = Partition_Normalize (clr_Partition rec)
     in demand (fail_if (\<not> CommandPartitionMatchesAppendPostTarget (ne_unmarshal E) (clr_Command rec) (clr_Payload rec) part)
          (newErrDetail ErrValidationFailed
             (''command log partition mismatch: record='' @ pKind part @ ''/'' @ pKey part @ '' expected='' @ PartitionThread @ ''/'' @ ap_Thread p)
             False)) (
     demand (fail_if (TrimSpace (clr_ActorID rec) = []) (newErrDetail ErrUnauthenticated ''command actor is required'' False)) (
     load (nativeAppendPostDecisionContext E (clr_ActorID rec) (ap_Thread p)) (\<lambda>cx.
     present (xc_Actor cx) (newErrDetail ErrUnauthenticated ''command actor not found'' False) (\<lambda>actor.
     demand (require_poll_trust E actor (pollBlock \<noteq> None \<and> cleanBody \<noteq> ap_Body p) ''reply'') (
     present (xc_Thread cx) (newErrDetail ErrNotFound ''thread not found'' False) (\<lambda>th.
     present (xc_Settings cx) (newErrDetail ErrNotFound ''board not found'' False) (\<lambda>settings.
     demand (RequireThreadOpenForReply (th_Locked th) (xc_CanModerateBoard cx)) (
     demand (RequireReplyBoardAccessStrict (ne_db E) (Some actor) (th_Board th) (Some settings) (xc_CanModerateBoard cx)) (
     obtain_or (PostIdentity (Some actor) (Some settings) (ap_Anonymous p) (xc_CanModerateBoard cx)) (\<lambda>(authorName, authorID).
     obtain_or (NormalizePostAttachments (ap_Attachments p) (bs_AttachmentsAllowed settings) (xc_CanModerateBoard cx)
                  (\<lambda>i. stableCommandLogDecisionID E ''att_'' rec (100 + i))) (\<lambda>attachments.
     demand (RequireThreadStarterAcceptsReplies (xc_RootNoReply cx) (xc_CanModerateThread cx)) (
     reply_parent E (ap_ReplyTo p) (\<lambda>parent.
     obtain_or (PlanPostReply (ap_ReplyTo p) parent (th_ID th) (ap_QuotePost p) (xc_CanModerateThread cx)) (\<lambda>plan.
     mail_back_target E plan parent (xc_RootMailBack cx) (th_ID th) (\<lambda>target.
     demand (require_no_sanction (xc_SanctionKind cx)) (
       let texts = reply_texts plan parent cleanBody (ap_Body p); rawBody = fst (snd texts)
       in load (MatchContentFilter (ne_db E) (ne_lower E) (th_Board th) rawBody) (\<lambda>contentFilter.
          load (nativePostSignature E authorID rec) (\<lambda>signature.
            let ts = nativeCommandTimestamp E rec; postID = stableCommandLogDecisionID E ''pst_'' rec 0
            in and_decide (reaction_events E rec actor authorName contentFilter postID (th_ID th) (th_Board th)
                             (\<not> bs_MemberReadMode settings) rawBody ts
                             [append_post_event E rec p th actor authorName authorID (rp_EffectiveReplyTo plan) texts attachments signature ts])
                 (\<lambda>events.
                    and_decide (nativeArticleMailBackEvent E rec actor authorName authorID th target postID (fst texts) ts (length events))
                      (\<lambda>mailEvent.
                         nativeDecisionAckEvents postID (case mailEvent of None \<Rightarrow> events | Some e \<Rightarrow> events @ [e])))))))))))))))))))))))"

section \<open>Operations on one post\<close>

text \<open>The post and its thread, with the check on redaction in between.\<close>

definition post_and_thread :: "native_env \<Rightarrow> string \<Rightarrow> (post \<Rightarrow> error_detail option) \<Rightarrow> (post \<Rightarrow> thread \<Rightarrow> 'a decision) \<Rightarrow> 'a decision" where
  "post_and_thread E postID check k =
     get_post E postID (\<lambda>post. demand (check post) (get_thread E (po_Thread post) (k post)))"

lemma post_and_thread_Decided [decided]:
  "post_and_thread E postID check k = Decided x \<longleftrightarrow>
     (\<exists>post th. q_post (ne_db E) postID = Inr (Some post) \<and> check post = None \<and> q_thread (ne_db E) (po_Thread post) = Inr (Some th)
        \<and> k post th = Decided x)"
  by (auto simp: post_and_thread_def decided)

definition decideAttachPost :: "native_env \<Rightarrow> command_log_record \<Rightarrow> native_decision decision" where
  "decideAttachPost E rec =
     nativeDecodeNormalizedCommandPayload (pd_AttachPost (ne_decoders E)) rec ''invalid attachPost payload'' NormalizeAttachPostPayload (\<lambda>p.
     loadNativeDecisionActorForPartition E rec (Partition PartitionPost (tp_Post p)) (\<lambda>actor.
     post_and_thread E (tp_Post p) (\<lambda>post. RequirePostNotRedacted (po_Redacted post) ''cannot attach to a redacted post'') (\<lambda>post th.
     load (q_settings (ne_db E) (th_Board th)) (\<lambda>row.
     present row (newErrDetail ErrNotFound ''board not found'' False) (\<lambda>settings.
     demand (RequirePostAttachmentsAllowed (bs_AttachmentsAllowed settings) False) (
       let ts = nativeCommandTimestamp E rec
       in demand (RequirePostAuthorEditWindow False (AuthoredBy (postPolicyActor (Some actor)) (po_AuthorID post) (po_Author post))
                    (WithinAuthorEditWindow ts (po_CreatedAt post) nativeAuthorEditWindow_ms)) (
          load (q_attachment_count (ne_db E) (po_ID post)) (\<lambda>n.
          demand (RequirePostAttachmentCapacity n) (
            let attachmentID = (if tp_ID p = [] then stableCommandLogDecisionID E ''att_'' rec 0 else tp_ID p)
            in demand (nativeValidateStagedPostAttachmentBlob E (tp_StagedBlobID p) attachmentID (tp_SizeBytes p) (tp_ContentType p)) (
               nativeDecisionAckEvent attachmentID
                 (nativeEvent E rec 0 ''post.attachment_added''
                    (PostAttachmentAdded attachmentID (po_ID post) (th_ID th) (th_Board th) (tp_Filename p) (tp_ContentType p) (tp_SizeBytes p)
                       (user_ID actor) (tp_StagedBlobID p) ts) ts)))))))))))"

definition decideEditPost :: "native_env \<Rightarrow> command_log_record \<Rightarrow> native_decision decision" where
  "decideEditPost E rec =
     nativeDecodeNormalizedCommandPayload (pd_EditPost (ne_decoders E)) rec ''invalid editPost payload'' NormalizeEditPostPayload (\<lambda>p.
     extractPoll E (ep_Body p) (\<lambda>(pollBlock, cleanBody).
     demand (fail_if (pollBlock \<noteq> None) (newErrDetail ErrValidationFailed ''editing posts with poll markup is not supported'' False)) (
     loadNativeDecisionActorForPartition E rec (Partition PartitionPost (ep_Post p)) (\<lambda>actor.
     load (q_poll_of_post (ne_db E) (ep_Post p)) (\<lambda>found.
     demand (fail_if (found \<noteq> None) (newErrDetail ErrValidationFailed ''editing posts that contain a poll is not supported'' False)) (
     post_and_thread E (ep_Post p) (\<lambda>post. RequirePostNotRedacted (po_Redacted post) ''cannot edit a redacted post'') (\<lambda>post th.
       let ts = nativeCommandTimestamp E rec
       in demand (RequirePostAuthorEditWindow (User_IsMod actor) (AuthoredBy (postPolicyActor (Some actor)) (po_AuthorID post) (po_Author post))
                    (WithinAuthorEditWindow ts (po_CreatedAt post) nativeAuthorEditWindow_ms)) (
          nativeDecisionAckEvent (po_ID post)
            (nativeEvent E rec 0 ''post.edited''
               (PostEdited (po_ID post) (po_Thread post) (th_Board th) (ep_Body p) (wrap64 (po_Version post + 1)) ts) ts)))))))))"

definition decideSetPostFlag :: "native_env \<Rightarrow> command_log_record \<Rightarrow> native_decision decision" where
  "decideSetPostFlag E rec =
     nativeDecodeNormalizedCommandPayload (pd_SetPostFlag (ne_decoders E)) rec ''invalid setPostFlag payload'' NormalizeSetPostFlagPayload (\<lambda>p.
     loadNativeDecisionActorForPartition E rec (Partition PartitionPost (sf_Post p)) (\<lambda>actor.
     post_and_thread E (sf_Post p) (\<lambda>post. RequirePostNotRedacted (po_Redacted post) ''cannot flag a redacted post'') (\<lambda>post th.
       let plan = PlanFlagUpdate (postPolicyFlags post) (sf_Patch p)
       in load (if pl_ThreadModerationChange plan \<or> pl_AuthorMetadataChange plan
                then Q_ActorCanModerateBoardThreads (ne_db E) (Some actor) (th_Board th) else Inr False) (\<lambda>canModerateThread.
          load (if pl_CuratorChange plan then Q_ActorCanCurateBoard (ne_db E) (Some actor) (th_Board th) else Inr False) (\<lambda>canCurate.
          demand (RequirePostFlagPermissions plan (Some actor) post canCurate canModerateThread) (
            if \<not> FlagPlan_HasChanges plan then nativeDecisionAckEvents (po_ID post) []
            else let ts = nativeCommandTimestamp E rec
                 in nativeDecisionAckEvent (po_ID post)
                      (nativeEvent E rec 0 ''post.flags_set''
                         (PostFlagsSet (po_ID post) (po_Thread post) (th_Board th) (pl_Flags plan) (user_ID actor) ts) ts)))))))"

definition decideRedactPost :: "native_env \<Rightarrow> command_log_record \<Rightarrow> native_decision decision" where
  "decideRedactPost E rec =
     nativeDecodeNormalizedCommandPayload (pd_PostReason (ne_decoders E)) rec ''invalid redactPost payload'' NormalizeRedactPostPayload (\<lambda>p.
     loadNativeDecisionActorForPartition E rec (Partition PartitionPost (pr_Post p)) (\<lambda>actor.
     post_and_thread E (pr_Post p) (\<lambda>post. RequirePostNotRedacted (po_Redacted post) ''post is already redacted'') (\<lambda>post th.
     load (Q_ActorCanModerateBoardPosts (ne_db E) (Some actor) (th_Board th)) (\<lambda>canModeratePosts.
       let ts = nativeCommandTimestamp E rec
       in obtain_or (PlanPostRedaction canModeratePosts (AuthoredByID (postPolicyActor (Some actor)) (po_AuthorID post))
                       (WithinAuthorEditWindow ts (po_CreatedAt post) nativeAuthorEditWindow_ms)) (\<lambda>kind.
          nativeDecisionAckEvent (po_ID post)
            (nativeEvent E rec 0 ''post.redacted''
               (PostRedacted (po_ID post) (po_Thread post) (th_Board th) (user_ID actor) (pr_Reason p) [] ts) ts))))))"

definition decideRestorePost :: "native_env \<Rightarrow> command_log_record \<Rightarrow> native_decision decision" where
  "decideRestorePost E rec =
     nativeDecodeNormalizedCommandPayload (pd_RestorePost (ne_decoders E)) rec ''invalid restorePost payload'' NormalizeRestorePostPayload (\<lambda>postID.
     loadNativeDecisionActorForPartition E rec (Partition PartitionPost postID) (\<lambda>actor.
     post_and_thread E postID (\<lambda>post. RequirePostRedacted (po_Redacted post) ''post is not redacted'') (\<lambda>post th.
     load (Q_ActorCanModerateBoardPosts (ne_db E) (Some actor) (th_Board th)) (\<lambda>canModeratePosts.
     demand (RequireBoardPostModeration canModeratePosts) (
       let ts = nativeCommandTimestamp E rec
       in nativeDecisionAckEvent (po_ID post)
            (nativeEvent E rec 0 ''post.restored'' (PostRestored (po_ID post) (po_Thread post) (th_Board th) (user_ID actor) ts) ts))))))"

definition decidePurgePost :: "native_env \<Rightarrow> command_log_record \<Rightarrow> native_decision decision" where
  "decidePurgePost E rec =
     nativeDecodeNormalizedCommandPayload (pd_PostReason (ne_decoders E)) rec ''invalid purgePost payload'' NormalizePurgePostPayload (\<lambda>p.
     loadNativeDecisionAdminForPartition E rec (Partition PartitionPost (pr_Post p)) (\<lambda>actor.
     get_post E (pr_Post p) (\<lambda>post.
     get_thread_internal E (po_Thread post) (\<lambda>th.
       let ts = nativeCommandTimestamp E rec
       in nativeDecisionAckEvent (po_ID post)
            (nativeEvent E rec 0 ''post.purged''
               (PostPurged (po_ID post) (po_Thread post) (th_Board th) (user_ID actor) (pr_Reason p) ts) ts)))))"

section \<open>Ranges of posts\<close>

text \<open>One event per post, numbered by its position; the first failing post ends the command.\<close>

fun range_events :: "(nat \<Rightarrow> string \<Rightarrow> native_event decision) \<Rightarrow> nat \<Rightarrow> string list \<Rightarrow> native_event list decision" where
  "range_events step i [] = Decided []"
| "range_events step i (postID # rest) =
     and_decide (step i postID) (\<lambda>event. and_decide (range_events step (i + 1) rest) (\<lambda>events. Decided (event # events)))"

definition redact_range_step :: "native_env \<Rightarrow> command_log_record \<Rightarrow> user \<Rightarrow> post_range \<Rightarrow> nat \<Rightarrow> string \<Rightarrow> native_event decision" where
  "redact_range_step E rec actor p i postID =
     obtain_or (LoadRangePost (ne_db E) postID (pg_Board p)) (\<lambda>(post, th).
     demand (RequirePostNotRedacted (po_Redacted post) (''post is already redacted: '' @ postID)) (
       let ts = nativeCommandTimestamp E rec
       in Decided (nativeEvent E rec i ''post.redacted''
            (PostRedacted (po_ID post) (po_Thread post) (th_Board th) (user_ID actor) (pg_Reason p) ''recycle'' ts) ts)))"

definition decideRedactPostRange :: "native_env \<Rightarrow> command_log_record \<Rightarrow> native_decision decision" where
  "decideRedactPostRange E rec =
     nativeDecodeNormalizedCommandPayload (pd_PostRange (ne_decoders E)) rec ''invalid redactPostRange payload'' NormalizeRedactPostRangePayload (\<lambda>p.
     loadNativeDecisionActorForPartition E rec (Partition PartitionBoard (pg_Board p)) (\<lambda>actor.
     demand (EnsureRangeBoardAccess (ne_db E) (Some actor) (pg_Board p)) (
     and_decide (range_events (redact_range_step E rec actor p) 0 (pg_Posts p)) (\<lambda>events.
       nativeDecisionAckEvents (Itoa (int (length (pg_Posts p)))) events))))"

definition restore_range_step :: "native_env \<Rightarrow> command_log_record \<Rightarrow> user \<Rightarrow> post_range \<Rightarrow> nat \<Rightarrow> string \<Rightarrow> native_event decision" where
  "restore_range_step E rec actor p i postID =
     obtain_or (LoadRangePost (ne_db E) postID (pg_Board p)) (\<lambda>(post, th).
     demand (RequirePostRedacted (po_Redacted post) (''post is not redacted: '' @ postID)) (
       let ts = nativeCommandTimestamp E rec
       in Decided (nativeEvent E rec i ''post.restored''
            (PostRestored (po_ID post) (po_Thread post) (th_Board th) (user_ID actor) ts) ts)))"

definition decideRestorePostRange :: "native_env \<Rightarrow> command_log_record \<Rightarrow> native_decision decision" where
  "decideRestorePostRange E rec =
     nativeDecodeNormalizedCommandPayload (pd_PostRange (ne_decoders E)) rec ''invalid restorePostRange payload''
       NormalizeRestorePostRangePayload (\<lambda>p.
     loadNativeDecisionActorForPartition E rec (Partition PartitionBoard (pg_Board p)) (\<lambda>actor.
     demand (EnsureRangeBoardAccess (ne_db E) (Some actor) (pg_Board p)) (
     and_decide (range_events (restore_range_step E rec actor p) 0 (pg_Posts p)) (\<lambda>events.
       nativeDecisionAckEvents (Itoa (int (length (pg_Posts p)))) events))))"

definition BoardJunkPostIDs :: "forum_db \<Rightarrow> string \<Rightarrow> string list \<Rightarrow> error_detail + string list" where
  "BoardJunkPostIDs db boardID requested =
     (if requested \<noteq> []
      then (case NormalizePostRangeIDs requested of
              Inl msg \<Rightarrow> Inl (newErrDetail ErrValidationFailed msg False)
            | Inr ids \<Rightarrow> Inr ids)
      else (case q_junk_posts db boardID of Inl e \<Rightarrow> Inl (internalErr e) | Inr ids \<Rightarrow> Inr ids))"

definition clear_junk_step :: "native_env \<Rightarrow> command_log_record \<Rightarrow> user \<Rightarrow> post_range \<Rightarrow> nat \<Rightarrow> string \<Rightarrow> native_event decision" where
  "clear_junk_step E rec actor p i postID =
     obtain_or (JunkPostThreadID (ne_db E) postID (pg_Board p)) (\<lambda>threadID.
       let ts = nativeCommandTimestamp E rec
       in Decided (nativeEvent E rec i ''post.deletion_cleared''
            (PostDeletionCleared postID threadID (pg_Board p) ''junk'' (user_ID actor) ts) ts))"

definition decideClearBoardJunk :: "native_env \<Rightarrow> command_log_record \<Rightarrow> native_decision decision" where
  "decideClearBoardJunk E rec =
     nativeDecodeNormalizedCommandPayload (pd_PostRange (ne_decoders E)) rec ''invalid clearBoardJunk payload'' NormalizeClearBoardJunkPayload (\<lambda>p.
     loadNativeDecisionActorForPartition E rec (Partition PartitionBoard (pg_Board p)) (\<lambda>actor.
     demand (EnsureRangeBoardAccess (ne_db E) (Some actor) (pg_Board p)) (
     obtain_or (BoardJunkPostIDs (ne_db E) (pg_Board p) (pg_Posts p)) (\<lambda>postIDs.
     and_decide (range_events (clear_junk_step E rec actor p) 0 postIDs) (\<lambda>events.
       nativeDecisionAckEvents (Itoa (int (length postIDs))) events)))))"

section \<open>Operations on a thread\<close>

definition decideSetThreadTitle :: "native_env \<Rightarrow> command_log_record \<Rightarrow> native_decision decision" where
  "decideSetThreadTitle E rec =
     nativeDecodeNormalizedCommandPayload (pd_SetThreadTitle (ne_decoders E)) rec ''invalid setThreadTitle payload'' NormalizeSetThreadTitlePayload (\<lambda>p.
     loadNativeDecisionActorForPartition E rec (Partition PartitionThread (tt_Thread p)) (\<lambda>actor.
     get_thread E (tt_Thread p) (\<lambda>th.
       if th_Title th = tt_Title p then nativeDecisionAckEvents (th_ID th) []
       else load (Q_ActorCanModerateBoardThreads (ne_db E) (Some actor) (th_Board th)) (\<lambda>canModerateThread.
              let ts = nativeCommandTimestamp E rec
              in demand (RequireThreadTitlePermission canModerateThread
                           (AuthoredBy (postPolicyActor (Some actor)) (th_AuthorID th) (th_Author th))
                           (WithinAuthorEditWindow ts (th_CreatedAt th) nativeAuthorEditWindow_ms)) (
                 nativeDecisionAckEvent (th_ID th)
                   (nativeEvent E rec 0 ''thread.title_set'' (ThreadTitleSet (th_ID th) (th_Board th) (tt_Title p) (user_ID actor) ts) ts))))))"

definition decideLockThread :: "native_env \<Rightarrow> command_log_record \<Rightarrow> native_decision decision" where
  "decideLockThread E rec =
     nativeDecodeNormalizedCommandPayload (pd_LockThread (ne_decoders E)) rec ''invalid lockThread payload'' NormalizeLockThreadPayload (\<lambda>p.
     loadNativeDecisionActorForPartition E rec (Partition PartitionThread (lt_Thread p)) (\<lambda>actor.
     get_thread E (lt_Thread p) (\<lambda>th.
     load (Q_ActorCanModerateBoardThreads (ne_db E) (Some actor) (th_Board th)) (\<lambda>canModerateThread.
     demand (RequireThreadModeration canModerateThread) (
       let ts = nativeCommandTimestamp E rec
       in nativeDecisionAckEvent (th_ID th)
            (nativeEvent E rec 0 ''thread.locked'' (ThreadLocked (th_ID th) (th_Board th) (lt_Locked p) (user_ID actor) ts) ts))))))"

definition decideMoveThread :: "native_env \<Rightarrow> command_log_record \<Rightarrow> native_decision decision" where
  "decideMoveThread E rec =
     nativeDecodeNormalizedCommandPayload (pd_MoveThread (ne_decoders E)) rec ''invalid moveThread payload'' NormalizeMoveThreadPayload (\<lambda>p.
     loadNativeDecisionActorForPartition E rec (Partition PartitionThread (mv_Thread p)) (\<lambda>actor.
     get_thread E (mv_Thread p) (\<lambda>th.
     load (Q_ActorCanModerateBoardThreads (ne_db E) (Some actor) (th_Board th)) (\<lambda>canModerateThread.
     demand (RequireThreadModeration canModerateThread) (
     demand (RequireDestinationBoard (ne_db E) (mv_ToBoard p)) (
       let ts = nativeCommandTimestamp E rec
       in nativeDecisionAckEvent (th_ID th)
            (nativeEvent E rec 0 ''thread.moved'' (ThreadMoved (th_ID th) (th_Board th) (mv_ToBoard p) (user_ID actor) ts) ts)))))))"

section \<open>Reviews and sanctions\<close>

definition decideFlagPost :: "native_env \<Rightarrow> command_log_record \<Rightarrow> native_decision decision" where
  "decideFlagPost E rec =
     nativeDecodeNormalizedCommandPayload (pd_PostReason (ne_decoders E)) rec ''invalid flagPost payload'' NormalizeFlagPostPayload (\<lambda>p.
     loadNativeDecisionActorForPartition E rec (Partition PartitionPost (pr_Post p)) (\<lambda>actor.
     get_post E (pr_Post p) (\<lambda>post.
     get_thread_internal E (po_Thread post) (\<lambda>th.
     load (BoardAllowsPublicSystemPost (ne_db E) (th_Board th)) (\<lambda>publicBoard.
       let ts = nativeCommandTimestamp E rec; reviewID = stableCommandLogDecisionID E ''rev_'' rec 0;
           flagged = nativeEvent E rec 0 ''post.flagged''
             (PostFlagged reviewID ''post_flag'' (po_ID post) (po_Thread post) (user_ID actor) (pr_Reason p) ts) ts
       in and_decide (nativeModerationSystemLogEvents E rec actor ''flag'' reviewID (po_ID post) (po_Thread post) (th_Board th) publicBoard ts 1)
            (\<lambda>logEvents. nativeDecisionAckEvents reviewID (flagged # logEvents)))))))"

definition decideResolveReview :: "native_env \<Rightarrow> command_log_record \<Rightarrow> native_decision decision" where
  "decideResolveReview E rec =
     nativeDecodeNormalizedCommandPayload (pd_ResolveReview (ne_decoders E)) rec ''invalid resolveReview payload'' NormalizeResolveReviewPayload (\<lambda>p.
     loadNativeDecisionActorForPartition E rec (Partition PartitionReview (rr_Review p)) (\<lambda>actor.
     demand (RequireModeratorRole (User_IsMod actor)) (
     load (q_review (ne_db E) (rr_Review p)) (\<lambda>row.
     demand (RequireOpenModerationReview row) (
       let ts = nativeCommandTimestamp E rec;
           target = (case row of Some t \<Rightarrow> t | None \<Rightarrow> \<lparr>rt_PostID = [], rt_ThreadID = [], rt_BoardID = [], rt_Status = [], rt_Public = False\<rparr>);
           resolved = nativeEvent E rec 0 ''review.resolved'' (ReviewResolved (rr_Review p) (rr_Resolution p) (user_ID actor) ts) ts
       in and_decide (nativeModerationSystemLogEvents E rec actor ''resolve'' (rr_Review p) (rt_PostID target) (rt_ThreadID target)
                        (rt_BoardID target) (rt_Public target) ts 1)
            (\<lambda>logEvents. nativeDecisionAckEvents (rr_Review p) (resolved # logEvents)))))))"

definition nativeDecodeCommandPayloadMessage ::
  "(string \<Rightarrow> 'p option) \<Rightarrow> command_log_record \<Rightarrow> string \<Rightarrow> ('p \<Rightarrow> 'p \<times> string) \<Rightarrow> ('p \<times> string \<Rightarrow> 'a decision) \<Rightarrow> 'a decision" where
  "nativeDecodeCommandPayloadMessage decode rec invalidMessage norm_fn k =
     nativeDecodeRequiredCommandPayload decode rec invalidMessage (\<lambda>raw. k (norm_fn raw))"

lemma nativeDecodeCommandPayloadMessage_Decided [decided]:
  "nativeDecodeCommandPayloadMessage decode rec m norm_fn k = Decided x \<longleftrightarrow>
     clr_Offset rec > 0 \<and> (\<exists>raw. decode (clr_Payload rec) = Some raw \<and> k (norm_fn raw) = Decided x)"
  by (auto simp: nativeDecodeCommandPayloadMessage_def nativeDecodeRequiredCommandPayload_def present_def split: option.splits)

text \<open>The name of the board of a sanction, empty for a global one.\<close>

definition sanction_board :: "native_env \<Rightarrow> string \<Rightarrow> (string \<Rightarrow> 'a decision) \<Rightarrow> 'a decision" where
  "sanction_board E scope k =
     (if scope \<noteq> ''global''
      then load (q_board_name (ne_db E) scope) (\<lambda>row. present row (newErrDetail ErrNotFound ''board not found for scope'' False) k)
      else k [])"

lemma sanction_board_Decided [decided]:
  "sanction_board E scope k = Decided x \<longleftrightarrow>
     (if scope = ''global'' then k [] = Decided x else \<exists>name. q_board_name (ne_db E) scope = Inr (Some name) \<and> k name = Decided x)"
  by (auto simp: sanction_board_def decided)

definition decideSanctionUser :: "native_env \<Rightarrow> command_log_record \<Rightarrow> native_decision decision" where
  "decideSanctionUser E rec =
     nativeDecodeCommandPayloadMessage (pd_Sanction (ne_decoders E)) rec ''invalid sanctionUser payload'' NormalizeSanctionUserPayload (\<lambda>(p, msg).
     loadNativeDecisionActorForPartition E rec (Partition PartitionUser (nativePartitionKeyOrGlobal (sn_User p))) (\<lambda>actor.
     demand (RequireModeratorRole (User_IsMod actor)) (
     demand (fail_if (msg \<noteq> []) (newErrDetail ErrValidationFailed msg False)) (
     load (q_user (ne_db E) (sn_User p)) (\<lambda>row.
     present row (newErrDetail ErrNotFound ''user not found'' False) (\<lambda>target.
     demand (RequireSanctionTargetAllowed (User_IsAdmin actor) (User_IsAdmin target) (User_IsMod target)) (
     sanction_board E (sn_Scope p) (\<lambda>sourceBoardName.
       let ts = nativeCommandTimestamp E rec;
           sanctioned = nativeEvent E rec 0 ''user.sanctioned''
             (UserSanctioned (user_ID target) (user_ID target) (sn_Kind p) (sn_Scope p) (sn_DurationSec p) (user_ID actor) (sn_Reason p) ts) ts
       in and_decide (if sn_Scope p \<noteq> ''global''
                      then nativeDenyPostSystemLogEvents E rec actor target (sn_Scope p) sourceBoardName (sn_Kind p) (sn_Reason p) ts 1
                      else Decided [])
            (\<lambda>auditEvents. nativeDecisionAckEvents (stableCommandLogDecisionID E ''san_'' rec 0) (sanctioned # auditEvents))))))))))"

definition decideClearUserSanction :: "native_env \<Rightarrow> command_log_record \<Rightarrow> native_decision decision" where
  "decideClearUserSanction E rec =
     nativeDecodeCommandPayloadMessage (pd_Sanction (ne_decoders E)) rec ''invalid clearUserSanction payload''
       NormalizeClearUserSanctionPayload (\<lambda>(p, msg).
     loadNativeDecisionActorForPartition E rec (Partition PartitionUser (nativePartitionKeyOrGlobal (sn_User p))) (\<lambda>actor.
     demand (RequireModeratorRole (User_IsMod actor)) (
     demand (fail_if (msg \<noteq> []) (newErrDetail ErrValidationFailed msg False)) (
     obtain_or (ResolveUserRef (ne_db E) (sn_User p)) (\<lambda>target.
     demand (RequireClearSanctionTargetAllowed (User_IsAdmin actor) (User_IsMod target)) (
     sanction_board E (sn_Scope p) (\<lambda>sourceBoardName.
       let ts = nativeCommandTimestamp E rec;
           cleared = nativeEvent E rec 0 ''user.sanction_cleared''
             (UserSanctionCleared (user_ID target) (user_ID target) (sn_Kind p) (sn_Scope p) (user_ID actor) (sn_Reason p) ts) ts
       in and_decide (if sn_Scope p \<noteq> ''global''
                      then nativeUndenyPostSystemLogEvents E rec actor target (sn_Scope p) sourceBoardName (sn_Kind p) (sn_Reason p) ts 1
                      else Decided [])
            (\<lambda>auditEvents. nativeDecisionAckEvents (user_ID target) (cleared # auditEvents)))))))))"

section \<open>Dispatch\<close>

definition native_handlers :: "(string \<times> (native_env \<Rightarrow> command_log_record \<Rightarrow> native_decision decision)) list" where
  "native_handlers =
     [(''createThread'', decideCreateThread), (''appendPost'', decideAppendPost), (''attachPost'', decideAttachPost),
      (''editPost'', decideEditPost), (''setPostFlag'', decideSetPostFlag), (''redactPost'', decideRedactPost),
      (''restorePost'', decideRestorePost), (''redactPostRange'', decideRedactPostRange), (''restorePostRange'', decideRestorePostRange),
      (''clearBoardJunk'', decideClearBoardJunk), (''purgePost'', decidePurgePost), (''sanctionUser'', decideSanctionUser),
      (''clearUserSanction'', decideClearUserSanction), (''setThreadTitle'', decideSetThreadTitle), (''lockThread'', decideLockThread),
      (''moveThread'', decideMoveThread), (''flagPost'', decideFlagPost), (''resolveReview'', decideResolveReview)]"

text \<open>The executor without a core is \<open>None\<close>.\<close>

definition decide ::
  "(native_env \<Rightarrow> command_log_record \<Rightarrow> native_decision decision) \<Rightarrow> ctx \<Rightarrow> native_env option \<Rightarrow> command_log_record
     \<Rightarrow> (go_error \<Rightarrow> string) \<Rightarrow> native_decision decision" where
  "decide others ctx env rec error_text =
     (case ctx of
        Some e \<Rightarrow> Rejected (newErrDetail ''request_cancelled'' (error_text e) True)
      | None \<Rightarrow>
          (case env of
             None \<Rightarrow> Rejected (internalErr ''core is not initialized'')
           | Some E \<Rightarrow>
               (case map_of native_handlers (clr_Command rec) of
                  Some handle \<Rightarrow> handle E rec
                | None \<Rightarrow> others E rec)))"

section \<open>Executor\<close>

text \<open>The cache of decisions between execution and commit; a nil map is the empty one.\<close>

type_synonym decision_cache = "(partition \<times> int, native_decision) gomap"

definition nativeDecisionCacheKeyForRecord :: "command_log_record \<Rightarrow> (partition \<times> int) option" where
  "nativeDecisionCacheKeyForRecord rec =
     (let p = Partition_Normalize (clr_Partition rec)
      in if pKind p = [] \<or> pKey p = [] \<or> clr_Offset rec \<le> 0 then None else Some (p, clr_Offset rec))"

definition rememberDecision :: "command_log_record \<Rightarrow> native_decision \<Rightarrow> decision_cache \<Rightarrow> decision_cache" where
  "rememberDecision rec d cache =
     (case nativeDecisionCacheKeyForRecord rec of None \<Rightarrow> cache | Some key \<Rightarrow> gm_set key d cache)"

definition takeDecision :: "command_log_record \<Rightarrow> decision_cache \<Rightarrow> native_decision option \<times> decision_cache" where
  "takeDecision rec cache =
     (case nativeDecisionCacheKeyForRecord rec of
        None \<Rightarrow> (None, cache)
      | Some key \<Rightarrow> (case map_of cache key of
                       None \<Rightarrow> (None, cache)
                     | Some d \<Rightarrow> (Some d, AList.delete key cache)))"

text \<open>\<open>None\<close> is a panic.\<close>

definition ExecuteCommandLogRecord ::
  "(native_env \<Rightarrow> command_log_record \<Rightarrow> native_decision decision) \<Rightarrow> (go_error \<Rightarrow> string) \<Rightarrow> ctx \<Rightarrow> native_env option
     \<Rightarrow> command_log_record \<Rightarrow> decision_cache \<Rightarrow> (reply \<times> decision_cache) option" where
  "ExecuteCommandLogRecord others error_text ctx env rec cache =
     (case decide others ctx env rec error_text of
        Panicked \<Rightarrow> None
      | Rejected e \<Rightarrow> Some (\<lparr>rp_Result = None, rp_Err = Some e\<rparr>, cache)
      | Decided d \<Rightarrow> Some (nd_reply d, rememberDecision rec d cache))"

definition same_result :: "reply \<Rightarrow> native_decision \<Rightarrow> bool" where
  "same_result rp d =
     (case (rp_Result rp, rp_Result (nd_reply d)) of
        (Some a, Some b) \<Rightarrow> ar_ID a = ar_ID b
      | _ \<Rightarrow> False)"

definition DecideCommandLogEvents ::
  "(native_env \<Rightarrow> command_log_record \<Rightarrow> native_decision decision) \<Rightarrow> (go_error \<Rightarrow> string) \<Rightarrow> ctx \<Rightarrow> native_env option
     \<Rightarrow> command_log_record \<Rightarrow> reply \<Rightarrow> decision_cache \<Rightarrow> ((go_error + native_event list) \<times> decision_cache) option" where
  "DecideCommandLogEvents others error_text ctx env rec rp cache =
     (if rp_Err rp \<noteq> None then Some (Inr [], cache)
      else case takeDecision rec cache of
             (Some d, cache) \<Rightarrow>
               if \<not> same_result rp d
               then Some (Inl (Errorf ''native command decision: reply result does not match cached deterministic decision'' []), cache)
               else Some (Inr (nd_events d), cache)
           | (None, cache) \<Rightarrow>
               (case decide others ctx env rec error_text of
                  Panicked \<Rightarrow> None
                | Rejected e \<Rightarrow> Some (Inl (Errorf ''native command decision: %s: %s'' [Astr (ed_Code e), Astr (ed_Message e)]), cache)
                | Decided d \<Rightarrow>
                    if \<not> same_result rp d
                    then Some (Inl (Errorf ''native command decision: reply result does not match deterministic decision'' []), cache)
                    else Some (Inr (nd_events d), cache)))"

end
