(* ===== verification/Decider_Safety.thy ===== *)
theory Decider_Safety
  imports Native_Commands
begin

text \<open>
  Properties of the native decider. Decisions are reasoned about by a rule for each combinator: \<open>ensures P d\<close> says that the
  value of \<open>d\<close> satisfies \<open>P\<close> whenever \<open>d\<close> is decided, and each rule adds the outcome of the check to the assumptions.
\<close>

section \<open>A calculus of decisions\<close>

definition ensures :: "('a \<Rightarrow> bool) \<Rightarrow> 'a decision \<Rightarrow> bool" where
  "ensures P d \<longleftrightarrow> (\<forall>x. d = Decided x \<longrightarrow> P x)"

named_theorems ensure

lemma ensuresD: "ensures P d \<Longrightarrow> d = Decided x \<Longrightarrow> P x"
  by (simp add: ensures_def)

lemma ensures_mono: "ensures P d \<Longrightarrow> (\<And>x. P x \<Longrightarrow> Q x) \<Longrightarrow> ensures Q d"
  by (simp add: ensures_def)

lemma ensures_ends [ensure]:
  "ensures P (Rejected e)" "ensures P Panicked" "P x \<Longrightarrow> ensures P (Decided x)"
  by (simp_all add: ensures_def)

lemma ensures_demand [ensure]: "(r = None \<Longrightarrow> ensures P k) \<Longrightarrow> ensures P (demand r k)"
  by (simp add: ensures_def decided)

lemma ensures_obtain [ensure]: "(\<And>v. r = Inr v \<Longrightarrow> ensures P (f v)) \<Longrightarrow> ensures P (obtain_or r f)"
  by (auto simp: ensures_def decided)

lemma ensures_load [ensure]: "(\<And>v. r = Inr v \<Longrightarrow> ensures P (f v)) \<Longrightarrow> ensures P (load r f)"
  by (auto simp: ensures_def decided)

lemma ensures_present [ensure]: "(\<And>v. r = Some v \<Longrightarrow> ensures P (f v)) \<Longrightarrow> ensures P (present r e f)"
  by (auto simp: ensures_def decided)

lemma ensures_poll [ensure]:
  "(\<And>v. ParsePoll (ne_lower E) (ne_clock E) body = Some v \<Longrightarrow> ensures P (f v)) \<Longrightarrow> ensures P (extractPoll E body f)"
  by (auto simp: ensures_def decided)

lemma ensures_and_decide:
  "ensures Q d \<Longrightarrow> (\<And>v. Q v \<Longrightarrow> ensures P (f v)) \<Longrightarrow> ensures P (and_decide d f)"
  by (auto simp: ensures_def decided)

lemma ensures_prod [ensure]: "(\<And>a b. r = (a, b) \<Longrightarrow> ensures P (f a b)) \<Longrightarrow> ensures P (case r of (a, b) \<Rightarrow> f a b)"
  by (cases r) simp

lemma ensures_if [ensure]: "(b \<Longrightarrow> ensures P d) \<Longrightarrow> (\<not> b \<Longrightarrow> ensures P e) \<Longrightarrow> ensures P (if b then d else e)"
  by simp

lemma ensures_option [ensure]:
  "(r = None \<Longrightarrow> ensures P d) \<Longrightarrow> (\<And>v. r = Some v \<Longrightarrow> ensures P (f v)) \<Longrightarrow> ensures P (case r of None \<Rightarrow> d | Some v \<Rightarrow> f v)"
  by (cases r) simp_all

lemma ensures_payload [ensure]:
  "(\<And>raw p. clr_Offset rec > 0 \<Longrightarrow> decode (clr_Payload rec) = Some raw \<Longrightarrow> norm_fn raw = (p, []) \<Longrightarrow> ensures P (f p))
     \<Longrightarrow> ensures P (nativeDecodeNormalizedCommandPayload decode rec m norm_fn f)"
  by (auto simp: ensures_def decided)

lemma ensures_payload_message [ensure]:
  "(\<And>raw. clr_Offset rec > 0 \<Longrightarrow> decode (clr_Payload rec) = Some raw \<Longrightarrow> ensures P (f (norm_fn raw)))
     \<Longrightarrow> ensures P (nativeDecodeCommandPayloadMessage decode rec m norm_fn f)"
  by (auto simp: ensures_def decided)

lemma ensures_actor [ensure]:
  "(\<And>u. nativeRequireCommandLogPartition rec part = None \<Longrightarrow> q_user (ne_db E) (TrimSpace (clr_ActorID rec)) = Inr (Some u) \<Longrightarrow> ensures P (f u))
     \<Longrightarrow> ensures P (loadNativeDecisionActorForPartition E rec part f)"
  by (auto simp: ensures_def decided)

lemma ensures_admin [ensure]:
  "(\<And>u. nativeRequireCommandLogPartition rec part = None \<Longrightarrow> q_user (ne_db E) (TrimSpace (clr_ActorID rec)) = Inr (Some u)
      \<Longrightarrow> User_IsAdmin u \<Longrightarrow> ensures P (f u))
     \<Longrightarrow> ensures P (loadNativeDecisionAdminForPartition E rec part f)"
  by (auto simp: ensures_def decided RequireAdminRole_def)

lemma ensures_rows [ensure]:
  "(\<And>p. q_post (ne_db E) postID = Inr (Some p) \<Longrightarrow> ensures P (f p)) \<Longrightarrow> ensures P (get_post E postID f)"
  "(\<And>t. q_thread (ne_db E) threadID = Inr (Some t) \<Longrightarrow> ensures P (g t)) \<Longrightarrow> ensures P (get_thread E threadID g)"
  "(\<And>t. q_thread (ne_db E) threadID = Inr (Some t) \<Longrightarrow> ensures P (g t)) \<Longrightarrow> ensures P (get_thread_internal E threadID g)"
  "(\<And>p t. q_post (ne_db E) postID = Inr (Some p) \<Longrightarrow> check p = None \<Longrightarrow> q_thread (ne_db E) (po_Thread p) = Inr (Some t) \<Longrightarrow> ensures P (h p t))
     \<Longrightarrow> ensures P (post_and_thread E postID check h)"
  by (auto simp: ensures_def decided)

lemma ensures_sanction_board [ensure]:
  "(\<And>name. ensures P (f name)) \<Longrightarrow> ensures P (sanction_board E scope f)"
  by (auto simp: ensures_def decided split: if_splits)

lemma ensures_reply_parent [ensure]:
  "(\<And>parent. replyTo = [] \<and> parent = None \<or> replyTo \<noteq> [] \<and> q_post (ne_db E) replyTo = Inr parent \<Longrightarrow> ensures P (f parent))
     \<Longrightarrow> ensures P (reply_parent E replyTo f)"
  by (auto simp: reply_parent_def ensures_def decided)

lemma ensures_mail_back_target [ensure]:
  "(\<And>target. ensures P (f target)) \<Longrightarrow> ensures P (mail_back_target E plan parent rootMailBack threadID f)"
  by (auto simp: mail_back_target_def ensures_def decided)

section \<open>Numbering of the events\<close>

definition numbered :: "native_env \<Rightarrow> command_log_record \<Rightarrow> nat \<Rightarrow> native_event list \<Rightarrow> bool" where
  "numbered E rec n events \<longleftrightarrow> map ea_ID events = map (stableCommandLogDecisionID E ''evt_'' rec) [n..<n + length events]"

lemma numbered_Nil [simp]: "numbered E rec n []"
  by (simp add: numbered_def)

lemma nativeEvent_ID [simp]: "ea_ID (nativeEvent E rec i kind spec ts) = stableCommandLogDecisionID E ''evt_'' rec i"
  by (simp add: nativeEvent_def)

lemma numbered_Cons: "numbered E rec n (e # events) \<longleftrightarrow> ea_ID e = stableCommandLogDecisionID E ''evt_'' rec n \<and> numbered E rec (Suc n) events"
proof -
  have "[n..<n + length (e # events)] = n # [Suc n..<Suc n + length events]"
    using upt_conv_Cons [of n "n + length (e # events)"] by simp
  then show ?thesis unfolding numbered_def by simp
qed

lemma numbered_event [simp]: "numbered E rec n (nativeEvent E rec n kind spec ts # events) \<longleftrightarrow> numbered E rec (Suc n) events"
  by (simp add: numbered_Cons)

lemma numbered_append: "numbered E rec n (xs @ ys) \<longleftrightarrow> numbered E rec n xs \<and> numbered E rec (n + length xs) ys"
  by (induction xs arbitrary: n) (simp_all add: numbered_Cons)

lemma numbered_generated:
  "gp_BoardMode spec = GeneratedBoardAlwaysNextPosition \<or> gp_BoardMode spec = GeneratedBoardAlwaysUpsert
     \<Longrightarrow> ensures (numbered E rec n) (nativeGeneratedSystemPostEvents E rec actor spec ts n)"
  by (auto simp: nativeGeneratedSystemPostEvents_def generated_board_events_def nativeGeneratedSystemPostPosition_def
        nativeGeneratedBoardCreatedEvent_def Let_def ensures_def decided)

lemma numbered_sanction_log: "ensures (numbered E rec n) (nativeSanctionSystemLogEvents E rec b bn ds actor target sb sbn kind reason action ts n)"
  unfolding nativeSanctionSystemLogEvents_def by (intro ensure numbered_generated) simp_all

lemma numbered_moderation_log:
  "ensures (numbered E rec n) (nativeModerationSystemLogEvents E rec actor action reviewID postID threadID boardID public ts n)"
  unfolding nativeModerationSystemLogEvents_def Let_def by (intro ensure numbered_generated) simp_all

lemma numbered_content_filter:
  "ensures (numbered E rec n) (nativeContentFilterReviewEvents E rec actor publicAuthor filt postID threadID boardID public ts n)"
  unfolding nativeContentFilterReviewEvents_def Let_def
  by (intro ensure ensures_and_decide [where Q = "numbered E rec (Suc n)"])
    (use numbered_generated [of _ E rec "Suc n"] in \<open>auto simp: content_filter_post_spec_def Let_def split: prod.split\<close>)

lemma numbered_automod_actions:
  "numbered E rec n (automod_action_events E rec rule reason actorID postID threadID boardID ts n actions)"
proof (induction actions arbitrary: n)
  case (Cons action actions)
  have "automod_action_event E rec rule reason actorID postID threadID boardID ts n action = Some e
          \<Longrightarrow> ea_ID e = stableCommandLogDecisionID E ''evt_'' rec n" for e
    by (auto simp: automod_action_event_def split: if_splits)
  then show ?case using Cons.IH [of n] Cons.IH [of "n + 2"] by (simp add: numbered_Cons split: option.split)
qed simp

lemma numbered_automod: "ensures (numbered E rec n) (nativeAutomodEvents E rec actorID postID threadID boardID txt ts n)"
  unfolding nativeAutomodEvents_def by (intro ensure) (simp_all add: numbered_automod_actions)

lemma numbered_reactions:
  assumes "numbered E rec 0 events"
  shows "ensures (numbered E rec 0) (reaction_events E rec actor authorName filt postID threadID boardID public txt ts events)"
  unfolding reaction_events_def Let_def
  by (intro ensures_and_decide [OF numbered_content_filter] ensures_and_decide [OF numbered_automod] ensure)
    (use assms in \<open>simp add: numbered_append\<close>)

lemma numbered_mail_back:
  "ensures (\<lambda>e. numbered E rec n (case e of None \<Rightarrow> [] | Some x \<Rightarrow> [x]))
     (nativeArticleMailBackEvent E rec actor authorName authorID th target replyPostID replyBody ts n)"
  unfolding nativeArticleMailBackEvent_def Let_def by (intro ensure) (simp_all add: mail_back_event_def Let_def)

lemma numbered_range:
  assumes "\<And>i postID. ensures (\<lambda>e. ea_ID e = stableCommandLogDecisionID E ''evt_'' rec i) (step i postID)"
  shows "ensures (numbered E rec n) (range_events step n postIDs)"
proof (induction postIDs arbitrary: n)
  case (Cons postID postIDs)
  show ?case unfolding range_events.simps
    by (intro ensures_and_decide [OF assms] ensures_and_decide [OF Cons.IH] ensure) (simp add: numbered_Cons)
qed (simp add: ensures_def)

text \<open>A decision acknowledges the command and numbers its events from zero.\<close>

definition acknowledged :: "native_env \<Rightarrow> command_log_record \<Rightarrow> native_decision \<Rightarrow> bool" where
  "acknowledged E rec d \<longleftrightarrow>
     rp_Err (nd_reply d) = None \<and> rp_Result (nd_reply d) \<noteq> None \<and> clr_Offset rec > 0 \<and> numbered E rec 0 (nd_events d)"

lemma ack_events [ensure]:
  "P \<lparr>nd_reply = \<lparr>rp_Result = Some \<lparr>ar_ID = ack, ar_Seq = 0, ar_Status = [], ar_CommandID = [], ar_CommandPartitionKind = [],
        ar_CommandPartitionKey = [], ar_CommandOffset = 0\<rparr>, rp_Err = None\<rparr>, nd_events = events\<rparr>
     \<Longrightarrow> ensures P (nativeDecisionAckEvents ack events)"
  by (simp add: nativeDecisionAckEvents_def ensures_def)

lemma create_thread_events_numbered:
  "numbered E rec 0 (create_thread_events E rec p cleanBody actor authorName authorID attachments signature ts)"
  by (simp add: create_thread_events_def Let_def split: prod.split)

lemma append_post_event_numbered:
  "ea_ID (append_post_event E rec p th actor authorName authorID replyTo texts attachments signature ts) = stableCommandLogDecisionID E ''evt_'' rec 0"
  by (simp add: append_post_event_def Let_def split: prod.split)

lemma ack_event [ensure]:
  "ensures P (nativeDecisionAckEvents ack [event]) \<Longrightarrow> ensures P (nativeDecisionAckEvent ack event)"
  by (simp add: nativeDecisionAckEvent_def)

lemma acknowledged_create: "ensures (acknowledged E rec) (decideCreateThread E rec)"
  unfolding decideCreateThread_def Let_def
  by (intro ensure ensures_and_decide [OF numbered_reactions [OF create_thread_events_numbered]]) (simp_all add: acknowledged_def)

lemma acknowledged_append: "ensures (acknowledged E rec) (decideAppendPost E rec)"
  unfolding decideAppendPost_def Let_def
  by (intro ensure ensures_and_decide [OF numbered_reactions] ensures_and_decide [OF numbered_mail_back])
    (simp_all add: acknowledged_def numbered_Cons append_post_event_numbered numbered_append split: option.splits)

lemma acknowledged_single:
  "ensures (acknowledged E rec) (decideAttachPost E rec)" "ensures (acknowledged E rec) (decideEditPost E rec)"
  "ensures (acknowledged E rec) (decideSetPostFlag E rec)" "ensures (acknowledged E rec) (decideRedactPost E rec)"
  "ensures (acknowledged E rec) (decideRestorePost E rec)" "ensures (acknowledged E rec) (decidePurgePost E rec)"
  "ensures (acknowledged E rec) (decideSetThreadTitle E rec)" "ensures (acknowledged E rec) (decideLockThread E rec)"
  "ensures (acknowledged E rec) (decideMoveThread E rec)"
  unfolding decideAttachPost_def decideEditPost_def decideSetPostFlag_def decideRedactPost_def decideRestorePost_def decidePurgePost_def
    decideSetThreadTitle_def decideLockThread_def decideMoveThread_def Let_def
  by ((intro ensure; simp add: acknowledged_def)+)

lemma range_steps_numbered:
  "ensures (\<lambda>e. ea_ID e = stableCommandLogDecisionID E ''evt_'' rec i) (redact_range_step E rec actor p i postID)"
  "ensures (\<lambda>e. ea_ID e = stableCommandLogDecisionID E ''evt_'' rec i) (restore_range_step E rec actor p i postID)"
  "ensures (\<lambda>e. ea_ID e = stableCommandLogDecisionID E ''evt_'' rec i) (clear_junk_step E rec actor p i postID)"
  unfolding redact_range_step_def restore_range_step_def clear_junk_step_def Let_def by ((intro ensure; simp)+)

lemma range_acknowledged:
  assumes "clr_Offset rec > 0" "\<And>i postID. ensures (\<lambda>e. ea_ID e = stableCommandLogDecisionID E ''evt_'' rec i) (step i postID)"
  shows "ensures (acknowledged E rec) (and_decide (range_events step 0 postIDs) (\<lambda>events. nativeDecisionAckEvents ack events))"
  by (rule ensures_and_decide [OF numbered_range [OF assms(2)]]) (rule ack_events, use assms(1) in \<open>simp add: acknowledged_def\<close>)

lemma acknowledged_ranges:
  "ensures (acknowledged E rec) (decideRedactPostRange E rec)" "ensures (acknowledged E rec) (decideRestorePostRange E rec)"
  "ensures (acknowledged E rec) (decideClearBoardJunk E rec)"
  unfolding decideRedactPostRange_def decideRestorePostRange_def decideClearBoardJunk_def
  by (intro ensure range_acknowledged range_steps_numbered; assumption)+

lemma acknowledged_reviews:
  "ensures (acknowledged E rec) (decideFlagPost E rec)" "ensures (acknowledged E rec) (decideResolveReview E rec)"
  unfolding decideFlagPost_def decideResolveReview_def Let_def
  by ((intro ensure ensures_and_decide [OF numbered_moderation_log]; simp add: acknowledged_def)+)

lemma numbered_audit:
  "ensures (numbered E rec 1) (if b then nativeDenyPostSystemLogEvents E rec actor target sb sbn kind reason ts 1 else Decided [])"
  "ensures (numbered E rec 1) (if b then nativeUndenyPostSystemLogEvents E rec actor target sb sbn kind reason ts 1 else Decided [])"
  unfolding nativeDenyPostSystemLogEvents_def nativeUndenyPostSystemLogEvents_def
  by (intro ensure numbered_sanction_log numbered_Nil)+

lemma acknowledged_sanctions:
  "ensures (acknowledged E rec) (decideSanctionUser E rec)" "ensures (acknowledged E rec) (decideClearUserSanction E rec)"
  unfolding decideSanctionUser_def decideClearUserSanction_def Let_def
  by ((intro ensure ensures_and_decide [OF numbered_audit(1)] ensures_and_decide [OF numbered_audit(2)]; simp add: acknowledged_def)+)

lemmas acknowledged_all = acknowledged_create acknowledged_append acknowledged_single acknowledged_ranges acknowledged_reviews
  acknowledged_sanctions

lemma handler_acknowledged:
  assumes "map_of native_handlers (clr_Command rec) = Some handle" "handle E rec = Decided d"
  shows "acknowledged E rec d"
proof -
  have "(clr_Command rec, handle) \<in> set native_handlers" using assms(1) by (rule map_of_SomeD)
  then have "ensures (acknowledged E rec) (handle E rec)"
    by (auto simp: native_handlers_def acknowledged_all)
  then show ?thesis using assms(2) by (rule ensuresD)
qed

end
