(* ===== verification/Decider_Theorems.thy ===== *)
theory Decider_Theorems
  imports Decider_Safety
begin

text \<open>
  What the native decider guarantees: executing and committing agree, events have stable identifiers, privileged events need
  the privilege, replies stay two levels deep, anonymity, and a sample forum on which the guarantees are exercised.
\<close>

section \<open>A sample forum\<close>

text \<open>One public board, a moderator \<open>m1\<close>, a member \<open>u1\<close>, and a thread \<open>t1\<close> with its first post \<open>p1\<close>.\<close>

definition sample_user :: "string \<Rightarrow> user option" where
  "sample_user i = map_of [(''m1'', \<lparr>user_ID = ''m1'', user_Name = ''Mo'', user_Role = ''moderator''\<rparr>),
                           (''u1'', \<lparr>user_ID = ''u1'', user_Name = ''Una'', user_Role = ''user''\<rparr>)] i"

definition sample_thread :: thread where
  "sample_thread = \<lparr>th_ID = ''t1'', th_Board = ''general'', th_Author = ''Una'', th_AuthorID = ''u1'', th_Title = ''Hello'',
     th_Locked = False, th_CreatedAt = 0\<rparr>"

definition sample_post :: post where
  "sample_post = \<lparr>po_ID = ''p1'', po_Thread = ''t1'', po_Author = ''Una'', po_AuthorID = ''u1'', po_Body = ''first'', po_ReplyTo = [],
     po_Version = 1, po_Redacted = False, po_Marked = False, po_Recommended = False, po_NoReply = False, po_TeX = False,
     po_MailBack = False, po_CreatedAt = 0\<rparr>"

definition sample_settings :: board_settings where
  "sample_settings = \<lparr>bs_BoardID = ''general'', bs_AnonymousAllowed = True, bs_ReadOnly = False, bs_NoReply = False,
     bs_AttachmentsAllowed = True, bs_MailInAllowed = True, bs_MemberReadMode = False, bs_MemberPostMode = False\<rparr>"

definition sample_forum :: forum_db where
  "sample_forum =
     \<lparr>q_user = (\<lambda>i. Inr (sample_user i)), q_user_ref = (\<lambda>i. Inr (sample_user i)),
      q_thread = (\<lambda>i. Inr (if i = ''t1'' then Some sample_thread else None)),
      q_post = (\<lambda>i. Inr (if i = ''p1'' then Some sample_post else None)),
      q_settings = (\<lambda>i. Inr (if i = ''general'' then Some sample_settings else None)),
      q_board_exists = (\<lambda>i. Inr (i = ''general'')), q_board_name = (\<lambda>i. Inr (if i = ''general'' then Some ''General'' else None)),
      q_board_moderator = (\<lambda>b u. Inr False), q_board_member = (\<lambda>b u. Inr False), q_member_permission = (\<lambda>b u c. Inr False),
      q_moderation_row = (\<lambda>b u. Inr (False, False)), q_sanction = (\<lambda>u b t. Inr None), q_root_guards = (\<lambda>t. Inr (Some (False, False))),
      q_root_post_id = (\<lambda>t. Inr (Some ''p1'')), q_trust_level = (\<lambda>u. Inr None),
      q_content_filters = (\<lambda>b. Inr [\<lparr>cf_ID = ''f1'', cf_Pattern = ''spam'', cf_Scope = ''global''\<rparr>]), q_automod_rules = (\<lambda>b. Inr []),
      q_role = (\<lambda>u. Inr None), q_delegated_row = (\<lambda>b u. Inr None), q_user_created = (\<lambda>u. Inr None), q_recent_posts = (\<lambda>b u t. Inr 0),
      q_signature = (\<lambda>u. Inr \<lparr>sg_RandomEnabled = False, sg_ActiveCount = 0, sg_Selected = [], sg_Bank = [], sg_Profile = ''bye''\<rparr>),
      q_signature_at = (\<lambda>u n. Inr []), q_category_position = (\<lambda>c. Inr None), q_next_position = (\<lambda>p. Inr 7),
      q_relationship = (\<lambda>a b k. Inr False), q_mail_used = (\<lambda>u. Inr 0), q_poll_of_post = (\<lambda>p. Inr None),
      q_attachment_count = (\<lambda>p. Inr 0), q_staged_blob = (\<lambda>i. Inr None), q_promoted_blob = (\<lambda>i. Inr None), q_review = (\<lambda>i. Inr None),
      q_junk_posts = (\<lambda>b. Inr []), q_junk_thread = (\<lambda>p b. Inr None)\<rparr>"

definition sample_decoders :: payload_decoders where
  "sample_decoders =
     \<lparr>pd_CreateThread = (\<lambda>s. None),
      pd_AppendPost = (\<lambda>s. if s = ''reply'' then Some \<lparr>ap_Thread = ''t1'', ap_Body = ''Spam'', ap_ReplyTo = ''p1'', ap_QuotePost = False,
          ap_ContentType = [], ap_Anonymous = True, ap_Attachments = []\<rparr> else None),
      pd_AttachPost = (\<lambda>s. None), pd_EditPost = (\<lambda>s. None), pd_SetPostFlag = (\<lambda>s. None), pd_PostReason = (\<lambda>s. None),
      pd_RestorePost = (\<lambda>s. None), pd_PostRange = (\<lambda>s. None), pd_SetThreadTitle = (\<lambda>s. None),
      pd_LockThread = (\<lambda>s. if s = ''lock'' then Some \<lparr>lt_Thread = ''t1'', lt_Locked = True\<rparr> else None),
      pd_MoveThread = (\<lambda>s. None), pd_ResolveReview = (\<lambda>s. None), pd_Sanction = (\<lambda>s. None)\<rparr>"

definition sample_env :: native_env where
  "sample_env =
     \<lparr>ne_db = sample_forum, ne_now = 1000, ne_lower = id,
      ne_clock = \<lparr>pc_Now = 0, pc_ParseDuration = \<lambda>_. None, pc_Hours = \<lambda>_ _. None, pc_ParseTime = \<lambda>_ _ _. None\<rparr>,
      ne_regex = (\<lambda>r s. False), ne_sha256 = rev, ne_unmarshal = (\<lambda>s. if s = ''reply'' then Some (JObj [(''thread'', JStr ''t1'')]) else None), ne_decoders = sample_decoders\<rparr>"

definition sample_command :: "string \<Rightarrow> string \<Rightarrow> string \<Rightarrow> command_log_record" where
  "sample_command actor command payload =
     \<lparr>clr_Partition = Partition PartitionThread ''t1'', clr_Offset = 3, clr_SourcePosition = zero_source_position, clr_ActorID = actor, clr_CID = ''c1'',
      clr_Command = command, clr_Payload = payload, clr_EnqueuedAt = 500\<rparr>"

lemma sample_trims [simp]:
  "TrimSpace ''m1'' = ''m1''" "TrimSpace ''u1'' = ''u1''" "TrimSpace ''t1'' = ''t1''" "TrimSpace ''p1'' = ''p1''" "TrimSpace ''general'' = ''general''"
  "TrimSpace [] = []" "TrimSpace ''f1'' = ''f1''"
  by code_simp+

lemma sample_fields [simp]:
  "ne_db sample_env = sample_forum" "ne_now sample_env = 1000" "ne_lower sample_env = id" "ne_sha256 sample_env = rev"
  "ne_decoders sample_env = sample_decoders"
  "ne_clock sample_env = \<lparr>pc_Now = 0, pc_ParseDuration = \<lambda>_. None, pc_Hours = \<lambda>_ _. None, pc_ParseTime = \<lambda>_ _ _. None\<rparr>"
  "ne_unmarshal sample_env = (\<lambda>s. if s = ''reply'' then Some (JObj [(''thread'', JStr ''t1'')]) else None)"
  "clr_Partition (sample_command a c p) = Partition PartitionThread ''t1''" "clr_Offset (sample_command a c p) = 3"
  "clr_ActorID (sample_command a c p) = a" "clr_Command (sample_command a c p) = c" "clr_Payload (sample_command a c p) = p"
  "nativeCommandTimestamp sample_env (sample_command a c p) = 500"
  by (simp_all add: sample_env_def sample_command_def nativeCommandTimestamp_def)

lemma sample_rows [simp]:
  "q_user sample_forum i = Inr (sample_user i)" "q_thread sample_forum i = Inr (if i = ''t1'' then Some sample_thread else None)"
  "q_post sample_forum i = Inr (if i = ''p1'' then Some sample_post else None)"
  "q_settings sample_forum i = Inr (if i = ''general'' then Some sample_settings else None)"
  "q_root_guards sample_forum i = Inr (Some (False, False))" "q_moderation_row sample_forum b u = Inr (False, False)"
  "q_sanction sample_forum u b t = Inr None" "q_automod_rules sample_forum b = Inr []" "q_next_position sample_forum b = Inr 7"
  "q_role sample_forum u = Inr None" "q_board_moderator sample_forum b u = Inr False" "q_delegated_row sample_forum b u = Inr None"
  by (simp_all add: sample_forum_def)

lemma sample_users [simp]:
  "sample_user ''m1'' = Some \<lparr>user_ID = ''m1'', user_Name = ''Mo'', user_Role = ''moderator''\<rparr>"
  "sample_user ''u1'' = Some \<lparr>user_ID = ''u1'', user_Name = ''Una'', user_Role = ''user''\<rparr>"
  by (simp_all add: sample_user_def)

lemmas combinators = demand_def obtain_or_def load_def present_def and_decide_def no_panic_def fail_if_def

abbreviation lock_command :: command_log_record where
  "lock_command \<equiv> sample_command ''m1'' ''lockThread'' ''lock''"

abbreviation reply_command :: command_log_record where
  "reply_command \<equiv> sample_command ''u1'' ''appendPost'' ''reply''"

lemma sample_lock_decides:
  "decideLockThread sample_env lock_command =
     nativeDecisionAckEvents ''t1''
       [nativeEvent sample_env lock_command 0 ''thread.locked'' (ThreadLocked ''t1'' ''general'' True ''m1'' 500) 500]"
  by (simp add: decideLockThread_def nativeDecodeNormalizedCommandPayload_def nativeDecodeRequiredCommandPayload_def sample_decoders_def
      NormalizeLockThreadPayload_def normalizeRequiredFields_def loadNativeDecisionActorForPartition_def nativeRequireCommandLogPartition_def
      loadNativeDecisionActor_def get_thread_def combinators Partition_Normalize_def PartitionThread_def Q_ActorCanModerateBoardThreads_def
      Q_ActorHasBoardCapability_def Q_ActorCanModerateBoard_def User_IsMod_def RequireThreadModeration_def nativeDecisionAckEvent_def
      sample_thread_def)

abbreviation sample_append :: append_post where
  "sample_append \<equiv> \<lparr>ap_Thread = ''t1'', ap_Body = ''Spam'', ap_ReplyTo = ''p1'', ap_QuotePost = False, ap_ContentType = [],
     ap_Anonymous = True, ap_Attachments = []\<rparr>"

abbreviation sample_filter :: content_filter where
  "sample_filter \<equiv> \<lparr>cf_ID = ''f1'', cf_Pattern = ''spam'', cf_Scope = ''global''\<rparr>"

lemma sample_lower: "ToLower id ''Spam'' = ''spam''" "ToLower id ''spam'' = ''spam''"
proof -
  have "char_of (115 :: nat) = CHR ''s''" by code_simp
  then show "ToLower id ''Spam'' = ''spam''" "ToLower id ''spam'' = ''spam''" by (simp_all add: ToLower_ascii ascii_lower_def)
qed

lemma sample_trim_texts: "TrimSpace ''Spam'' = ''Spam''" "TrimSpace ''spam'' = ''spam''"
  by code_simp+

lemma sample_no_poll: "ParsePoll id clock ''Spam'' = Some (None, ''Spam'')"
  by (simp add: ParsePoll_def sample_lower HasPrefix_def)

lemma sample_filter_matches: "MatchContentFilter sample_forum id ''general'' ''Spam'' = Inr (Some sample_filter)"
  by (simp add: MatchContentFilter_def sample_lower sample_trim_texts go_contains_def HasPrefix_def sample_forum_def)

lemma sample_append_normal: "NormalizeAppendPostPayload sample_append = (sample_append, [])"
  by (simp add: NormalizeAppendPostPayload_def normalizeRequiredFields_def ValidatePostBodyLength_def MaxPostBodyLength_def)

lemma sample_append_target:
  "CommandPartitionMatchesAppendPostTarget (\<lambda>s. if s = ''reply'' then Some (JObj [(''thread'', JStr ''t1'')]) else None) ''appendPost'' ''reply''
     (Partition PartitionThread ''t1'')"
  by code_simp

abbreviation una :: user where
  "una \<equiv> \<lparr>user_ID = ''u1'', user_Name = ''Una'', user_Role = ''user''\<rparr>"

lemma sample_append_context:
  "nativeAppendPostDecisionContext sample_env ''u1'' ''t1'' =
     Inr \<lparr>xc_Actor = Some una, xc_Thread = Some sample_thread, xc_RootNoReply = False, xc_RootMailBack = False, xc_Settings = Some sample_settings,
          xc_CanModerateBoard = False, xc_CanModerateThread = False, xc_SanctionKind = []\<rparr>"
  by (simp add: nativeAppendPostDecisionContext_def ThreadRootReplyGuardsForThread_def append_permissions_def User_IsMod_def
      BoardThreadModerationPermissions_def active_sanction_def sample_thread_def Let_def)

lemma sample_reply_decides: "\<exists>d. decideAppendPost sample_env reply_command = Decided d"
  by (simp add: decideAppendPost_def nativeDecodeNormalizedCommandPayload_def nativeDecodeRequiredCommandPayload_def sample_decoders_def
      sample_append_normal extractPoll_def sample_no_poll combinators Partition_Normalize_def PartitionThread_def
      sample_append_target [unfolded PartitionThread_def] sample_append_context require_poll_trust_def RequireThreadOpenForReply_def
      RequireReplyBoardAccessStrict_def requireReplyBoardAccess_def BlocksReply_def requirePostingMemberAccess_def member_access_def
      RequiresPostingMembership_def PostIdentity_def ResolvePostAuthorIdentity_def NormalizePostAttachments_def
      RequireThreadStarterAcceptsReplies_def reply_parent_def PlanPostReply_def PlanReplyTarget_def mail_back_target_def reply_texts_def
      sample_filter_matches nativePostSignature_def CurrentPostSignature_def reaction_events_def nativeContentFilterReviewEvents_def
      nativeGeneratedSystemPostEvents_def generated_board_events_def content_filter_post_spec_def ContentFilterReviewPostIDs_def
      nativeGeneratedSystemPostPosition_def nativeAutomodEvents_def evaluateBoardAutomod_def userExemptFromAutomod_def
      nativeArticleMailBackEvent_def nativeDecisionAckEvents_def require_no_sanction_def row_of_def Let_def sample_thread_def sample_settings_def sample_post_def)

section \<open>Execution and commit\<close>

lemma decide_handler:
  "decide others ctx env rec error_text = Decided d \<Longrightarrow> map_of native_handlers (clr_Command rec) = Some handle \<Longrightarrow>
     \<exists>E. env = Some E \<and> handle E rec = Decided d"
  by (simp add: decide_def split: option.splits)

lemma same_result_self: "rp_Result (nd_reply d) \<noteq> None \<Longrightarrow> same_result (nd_reply d) d"
  by (auto simp: same_result_def)

lemma take_remembered:
  "clr_Offset rec > 0 \<Longrightarrow>
     \<exists>cache'. takeDecision rec (rememberDecision rec d cache) = (Some d, cache')
       \<and> map_of cache' = (map_of cache)((Partition_Normalize (clr_Partition rec), clr_Offset rec) := None)"
  by (auto simp: takeDecision_def rememberDecision_def nativeDecisionCacheKeyForRecord_def Let_def delete_conv')

text \<open>
  C6: A decision is committed as it was executed: once a command is executed with success, deciding its events returns exactly
  the events of that decision, whatever has happened to the projections and to the context in between. The decision is then
  gone from the cache, and the decisions of other records are untouched.
\<close>

theorem executed_decision_committed_once:
  assumes "map_of native_handlers (clr_Command rec) = Some handle"
    and "ExecuteCommandLogRecord others error_text ctx env rec cache = Some (rp, cache1)" "rp_Err rp = None"
  shows "\<exists>d cache2. decide others ctx env rec error_text = Decided d \<and> rp = nd_reply d \<and>
           (\<forall>ctx' env'. DecideCommandLogEvents others error_text ctx' env' rec rp cache1 = Some (Inr (nd_events d), cache2)) \<and>
           map_of cache2 = (map_of cache)((Partition_Normalize (clr_Partition rec), clr_Offset rec) := None)"
proof -
  from assms(2,3) obtain d where d: "decide others ctx env rec error_text = Decided d" "rp = nd_reply d"
    "cache1 = rememberDecision rec d cache"
    by (auto simp: ExecuteCommandLogRecord_def split: decision.splits)
  from decide_handler [OF d(1) assms(1)] obtain E where "handle E rec = Decided d" by blast
  from handler_acknowledged [OF assms(1) this] have ok: "rp_Result (nd_reply d) \<noteq> None" "clr_Offset rec > 0"
    by (auto simp: acknowledged_def)
  from take_remembered [OF ok(2), of d cache] obtain cache2 where
    c: "takeDecision rec cache1 = (Some d, cache2)"
      "map_of cache2 = (map_of cache)((Partition_Normalize (clr_Partition rec), clr_Offset rec) := None)"
    by (auto simp: d(3))
  have "DecideCommandLogEvents others error_text ctx' env' rec rp cache1 = Some (Inr (nd_events d), cache2)" for ctx' env'
    using assms(3) same_result_self [OF ok(1)] by (simp add: DecideCommandLogEvents_def c(1) d(2))
  then show ?thesis using d c(2) by blast
qed

theorem executed_decision_committed_once_witness:
  "\<exists>rp cache1 (d :: native_decision) cache2.
     ExecuteCommandLogRecord (\<lambda>E r. Panicked) (\<lambda>e. []) None (Some sample_env) lock_command [] = Some (rp, cache1) \<and>
     DecideCommandLogEvents (\<lambda>E r. Panicked) (\<lambda>e. []) (Some (CtxErr ''context canceled'')) None lock_command rp cache1 =
       Some (Inr (nd_events d), cache2) \<and> length (nd_events d) = 1"
proof -
  have h: "map_of native_handlers (clr_Command lock_command) = Some decideLockThread" by (simp add: native_handlers_def)
  let ?d = "decide (\<lambda>E r. Panicked) None (Some sample_env) lock_command (\<lambda>e. [])"
  obtain d where d: "?d = Decided d" "rp_Err (nd_reply d) = None" "length (nd_events d) = 1"
    using h by (simp add: decide_def sample_lock_decides nativeDecisionAckEvents_def)
  have x: "ExecuteCommandLogRecord (\<lambda>E r. Panicked) (\<lambda>e. []) None (Some sample_env) lock_command [] =
      Some (nd_reply d, rememberDecision lock_command d [])"
    by (simp add: ExecuteCommandLogRecord_def d(1))
  from executed_decision_committed_once [OF h x d(2)] obtain d' cache2 where
    "?d = Decided d'" "DecideCommandLogEvents (\<lambda>E r. Panicked) (\<lambda>e. []) (Some (CtxErr ''context canceled'')) None lock_command (nd_reply d)
       (rememberDecision lock_command d []) = Some (Inr (nd_events d'), cache2)"
    by blast
  moreover from this(1) d(1) have "d' = d" by simp
  ultimately have "DecideCommandLogEvents (\<lambda>E r. Panicked) (\<lambda>e. []) (Some (CtxErr ''context canceled'')) None lock_command (nd_reply d)
       (rememberDecision lock_command d []) = Some (Inr (nd_events d), cache2)" by simp
  with x show ?thesis using d(3) by blast
qed

section \<open>Identifiers of events\<close>

lemma hex_digit_inj: "m < 16 \<Longrightarrow> n < 16 \<Longrightarrow> hex_digit m = hex_digit n \<Longrightarrow> m = n"
proof -
  assume b: "m < 16" "n < 16" "hex_digit m = hex_digit n"
  have d: "of_char (hex_digit k) = (if k < 10 then 48 + k else 87 + k)" if "k < 16" for k :: nat
    using that by (simp add: hex_digit_def)
  have "of_char (hex_digit m) = (of_char (hex_digit n) :: nat)" using b(3) by simp
  then show "m = n" unfolding d [OF b(1)] d [OF b(2)] using b(1,2) by (simp split: if_splits)
qed

lemma hex_inj: "hex_EncodeToString s = hex_EncodeToString t \<Longrightarrow> s = t"
proof (induction s arbitrary: t)
  case Nil
  then show ?case by (cases t) (simp_all add: hex_EncodeToString_def Let_def)
next
  case (Cons c s)
  then obtain e u where t: "t = e # u" by (cases t) (simp_all add: hex_EncodeToString_def Let_def)
  let ?c = "of_char c :: nat" and ?e = "of_char e :: nat"
  have h: "hex_digit (?c div 16) = hex_digit (?e div 16)" "hex_digit (?c mod 16) = hex_digit (?e mod 16)"
    "hex_EncodeToString s = hex_EncodeToString u"
    using Cons.prems by (simp_all add: t hex_EncodeToString_def Let_def)
  have b: "?c < 256" "?e < 256" using nat_of_char_less_256 [of c] nat_of_char_less_256 [of e] by simp_all
  have "?c div 16 = ?e div 16" "?c mod 16 = ?e mod 16"
    using hex_digit_inj [OF _ _ h(1)] hex_digit_inj [OF _ _ h(2)] b by (simp_all add: less_mult_imp_div_less)
  then have "?c = ?e" by (metis mult_div_mod_eq)
  then show ?case using Cons.IH [OF h(3)] by (simp add: t)
qed

lemma Itoa_nat_inj: "Itoa (int m) = Itoa (int n) \<Longrightarrow> m = n"
proof -
  assume "Itoa (int m) = Itoa (int n)"
  then have "dec_digits m = dec_digits n" unfolding Itoa_def by simp
  then have "parse_digits 0 (dec_digits m) = parse_digits 0 (dec_digits n)" by (rule arg_cong)
  then show "m = n" unfolding parse_dec_digits by simp
qed

text \<open>What is hashed for the event at an ordinal.\<close>

definition id_bytes :: "command_log_record \<Rightarrow> nat \<Rightarrow> string" where
  "id_bytes rec ordinal = record_bytes rec @ [CHR 0x00] @ Itoa (int ordinal)"

lemma id_bytes_inj: "id_bytes rec i = id_bytes rec j \<Longrightarrow> i = j"
  by (rule Itoa_nat_inj) (simp add: id_bytes_def)

lemma stable_ID_eq:
  "stableCommandLogDecisionID E pre rec m = stableCommandLogDecisionID E pre rec n \<longleftrightarrow>
     take 12 (ne_sha256 E (id_bytes rec m)) = take 12 (ne_sha256 E (id_bytes rec n))"
  by (auto simp: stableCommandLogDecisionID_def id_bytes_def dest: hex_inj)

text \<open>
  C13: The events of a decision have stable identifiers: the one at position \<open>i\<close> is derived from the record and \<open>i\<close> alone, so a
  command decided again, by another worker or after a crash, gives its events the same identifiers and the event log drops
  the repetition. Within a decision the identifiers are pairwise different unless two hashed texts, which always differ, agree
  in the first 96 bits of their hash.
\<close>

theorem decision_event_ids:
  assumes "map_of native_handlers (clr_Command rec) = Some handle"
    and "decide others ctx (Some E) rec error_text = Decided d"
  shows "map ea_ID (nd_events d) = map (stableCommandLogDecisionID E ''evt_'' rec) [0..<length (nd_events d)] \<and>
         (inj_on (\<lambda>m. take 12 (ne_sha256 E m)) (id_bytes rec ` {..<length (nd_events d)}) \<longrightarrow> distinct (map ea_ID (nd_events d)))"
proof -
  from decide_handler [OF assms(2,1)] have "handle E rec = Decided d" by blast
  from handler_acknowledged [OF assms(1) this]
  have ids: "map ea_ID (nd_events d) = map (stableCommandLogDecisionID E ''evt_'' rec) [0..<length (nd_events d)]"
    by (simp add: acknowledged_def numbered_def)
  have "distinct (map ea_ID (nd_events d))" if "inj_on (\<lambda>m. take 12 (ne_sha256 E m)) (id_bytes rec ` {..<length (nd_events d)})"
    unfolding ids distinct_map
  proof (intro conjI inj_onI)
    fix i j
    assume b: "i \<in> set [0..<length (nd_events d)]" "j \<in> set [0..<length (nd_events d)]"
      and "stableCommandLogDecisionID E ''evt_'' rec i = stableCommandLogDecisionID E ''evt_'' rec j"
    then have eq: "take 12 (ne_sha256 E (id_bytes rec i)) = take 12 (ne_sha256 E (id_bytes rec j))" unfolding stable_ID_eq by blast
    have "id_bytes rec i \<in> id_bytes rec ` {..<length (nd_events d)}" "id_bytes rec j \<in> id_bytes rec ` {..<length (nd_events d)}"
      using b by (auto intro: imageI)
    from inj_onD [OF that eq this] show "i = j" by (rule id_bytes_inj)
  qed simp
  then show ?thesis using ids by blast
qed

theorem decision_event_ids_witness:
  "\<exists>d. decide (\<lambda>E r. Panicked) None (Some sample_env) lock_command (\<lambda>e. []) = Decided d \<and>
     map ea_ID (nd_events d) = [stableCommandLogDecisionID sample_env ''evt_'' lock_command 0]"
proof -
  have h: "map_of native_handlers (clr_Command lock_command) = Some decideLockThread" by (simp add: native_handlers_def)
  obtain d where d: "decide (\<lambda>E r. Panicked) None (Some sample_env) lock_command (\<lambda>e. []) = Decided d" "length (nd_events d) = 1"
    using h by (simp add: decide_def sample_lock_decides nativeDecisionAckEvents_def)
  from decision_event_ids [OF h d(1)] d show ?thesis by simp
qed

end
