(* ===== verification/Decider_Policy.thy ===== *)
theory Decider_Policy
  imports Decider_Theorems
begin

text \<open>
  The access policy of the forum as a predicate on events, and that the native decider never decides a privileged event
  against it; the depth of replies; what an anonymous post shows of its author.
\<close>

section \<open>Policy\<close>

text \<open>A row that is found by its key has this key: the statements select \<open>WHERE id=?\<close>.\<close>

definition rows_keyed :: "forum_db \<Rightarrow> bool" where
  "rows_keyed db \<longleftrightarrow>
     (\<forall>i p. q_post db i = Inr (Some p) \<longrightarrow> po_ID p = i) \<and> (\<forall>i t. q_thread db i = Inr (Some t) \<longrightarrow> th_ID t = i) \<and>
     (\<forall>i u. q_user db i = Inr (Some u) \<longrightarrow> user_ID u = i)"

definition on_thread :: "native_env \<Rightarrow> string \<Rightarrow> (thread \<Rightarrow> bool) \<Rightarrow> bool" where
  "on_thread E threadID P = (case q_thread (ne_db E) threadID of Inr (Some t) \<Rightarrow> P t | _ \<Rightarrow> False)"

definition on_post :: "native_env \<Rightarrow> string \<Rightarrow> (post \<Rightarrow> thread \<Rightarrow> bool) \<Rightarrow> bool" where
  "on_post E postID P = (case q_post (ne_db E) postID of Inr (Some p) \<Rightarrow> on_thread E (po_Thread p) (P p) | _ \<Rightarrow> False)"

abbreviation moderates_posts :: "native_env \<Rightarrow> user \<Rightarrow> string \<Rightarrow> bool" where
  "moderates_posts E a board \<equiv> Q_ActorCanModerateBoardPosts (ne_db E) (Some a) board = Inr True"

abbreviation moderates_threads :: "native_env \<Rightarrow> user \<Rightarrow> string \<Rightarrow> bool" where
  "moderates_threads E a board \<equiv> Q_ActorCanModerateBoardThreads (ne_db E) (Some a) board = Inr True"

abbreviation wrote :: "user \<Rightarrow> string \<Rightarrow> string \<Rightarrow> bool" where
  "wrote a authorID authorName \<equiv> (if authorID \<noteq> [] then authorID = user_ID a else authorName = user_Name a)"

abbreviation in_window :: "int \<Rightarrow> int \<Rightarrow> bool" where
  "in_window ts createdAt \<equiv> wrap64 (ts - createdAt) < 24 * 60 * 60 * 1000"

text \<open>
  Who may cause which event. Flags: changing the mark or the recommendation needs a curator, closing an article a thread
  moderator, and the display flags the author or a thread moderator. The automod engine may act on the author of a post.
\<close>

fun authorized :: "native_env \<Rightarrow> user \<Rightarrow> int \<Rightarrow> event_payload \<Rightarrow> bool" where
  "authorized E a ts (PostEditedPayload post t body version ts') =
     on_post E post (\<lambda>p th. \<not> po_Redacted p \<and> (User_IsMod a \<or> wrote a (po_AuthorID p) (po_Author p) \<and> in_window ts (po_CreatedAt p)))"
| "authorized E a ts (PostRedactedPayload post t by_id reason del ts') =
     (by_id = ''automod'' \<or> by_id = user_ID a \<and>
        on_post E post (\<lambda>p th. \<not> po_Redacted p \<and> (moderates_posts E a (th_Board th) \<or> po_AuthorID p = user_ID a \<and> in_window ts (po_CreatedAt p))))"
| "authorized E a ts (PostRestoredPayload post t by_id ts') =
     (by_id = user_ID a \<and> on_post E post (\<lambda>p th. po_Redacted p \<and> moderates_posts E a (th_Board th)))"
| "authorized E a ts (PostDeletionClearedPayload post t board kind by_id ts') = (by_id = user_ID a \<and> moderates_posts E a board)"
| "authorized E a ts (PostPurgedPayload post t by_id reason ts') = (by_id = user_ID a \<and> User_IsAdmin a)"
| "authorized E a ts (PostAttachmentAddedPayload i post t fn cty sz author blob ts') =
     (author = user_ID a \<and>
        on_post E post (\<lambda>p th. \<not> po_Redacted p \<and> wrote a (po_AuthorID p) (po_Author p) \<and> in_window ts (po_CreatedAt p)))"
| "authorized E a ts (PostFlagsSetPayload post t fl by_id ts') =
     (by_id = user_ID a \<and>
        on_post E post (\<lambda>p th. \<not> po_Redacted p \<and>
          (fl_Marked fl \<noteq> po_Marked p \<or> fl_Recommended fl \<noteq> po_Recommended p \<longrightarrow>
             Q_ActorCanCurateBoard (ne_db E) (Some a) (th_Board th) = Inr True) \<and>
          (fl_NoReply fl \<noteq> po_NoReply p \<longrightarrow> moderates_threads E a (th_Board th)) \<and>
          (fl_TeX fl \<noteq> po_TeX p \<or> fl_MailBack fl \<noteq> po_MailBack p \<longrightarrow>
             moderates_threads E a (th_Board th) \<or> po_AuthorID p \<noteq> [] \<and> po_AuthorID p = user_ID a)))"
| "authorized E a ts (ThreadTitleSetPayload t title by_id ts') =
     (by_id = user_ID a \<and> on_thread E t (\<lambda>th. moderates_threads E a (th_Board th) \<or>
        wrote a (th_AuthorID th) (th_Author th) \<and> in_window ts (th_CreatedAt th)))"
| "authorized E a ts (ThreadLockedPayload t locked by_id ts') =
     (by_id = ''automod'' \<or> by_id = user_ID a \<and> on_thread E t (\<lambda>th. moderates_threads E a (th_Board th)))"
| "authorized E a ts (ThreadMovedPayload t source dest by_id ts') =
     (by_id = user_ID a \<and> q_board_exists (ne_db E) dest = Inr True \<and>
        on_thread E t (\<lambda>th. th_Board th = source \<and> moderates_threads E a source))"
| "authorized E a ts (UserSanctionedPayload u kind scope dur by_id reason ts') =
     (by_id = ''automod'' \<and> u = user_ID a \<or>
      by_id = user_ID a \<and> User_IsMod a \<and>
        (case q_user (ne_db E) u of Inr (Some target) \<Rightarrow> \<not> User_IsAdmin target \<and> (User_IsMod target \<longrightarrow> User_IsAdmin a) | _ \<Rightarrow> False))"
| "authorized E a ts (UserSanctionClearedPayload u kind scope by_id reason ts') = (by_id = user_ID a \<and> User_IsMod a)"
| "authorized E a ts (ReviewResolvedPayload review resolution by_id ts') = (by_id = user_ID a \<and> User_IsMod a)"
| "authorized E a ts payload = True"

definition permitted :: "native_env \<Rightarrow> user \<Rightarrow> int \<Rightarrow> native_event list \<Rightarrow> bool" where
  "permitted E a ts events \<longleftrightarrow> (\<forall>e \<in> set events. authorized E a ts (ea_Payload e))"

lemma permitted_simps [simp]:
  "permitted E a ts []" "permitted E a ts (e # events) \<longleftrightarrow> authorized E a ts (ea_Payload e) \<and> permitted E a ts events"
  "permitted E a ts (xs @ ys) \<longleftrightarrow> permitted E a ts xs \<and> permitted E a ts ys"
  by (auto simp: permitted_def)

lemma nativeEvent_Payload [simp]: "ea_Payload (nativeEvent E rec i kind spec ts) = snd spec"
  by (simp add: nativeEvent_def)

lemmas event_specs = ThreadNew_def PostAppended_def PostRedacted_def PostRestored_def PostDeletionCleared_def PostAttachmentAdded_def
  PostEdited_def PostFlagsSet_def PostPurged_def ThreadTitleSet_def ThreadLocked_def ThreadMoved_def PostFlagged_def ReviewResolved_def
  UserSanctioned_def UserSanctionCleared_def BoardAutomodTriggered_def BoardCreated_def

section \<open>Events that need no privilege\<close>

lemma permitted_generated: "ensures (permitted E a ts') (nativeGeneratedSystemPostEvents E rec actor spec ts n)"
  by (auto simp: nativeGeneratedSystemPostEvents_def generated_board_events_def nativeGeneratedSystemPostPosition_def
      nativeGeneratedBoardCreatedEvent_def Let_def ensures_def decided event_specs split: generated_board_mode.splits if_splits)

lemma permitted_sanction_log:
  "ensures (permitted E a ts') (nativeSanctionSystemLogEvents E rec b bn ds actor target sb sbn kind reason action ts n)"
  unfolding nativeSanctionSystemLogEvents_def by (intro ensure permitted_generated) simp_all

lemma permitted_audit:
  "ensures (permitted E a ts') (if b then nativeDenyPostSystemLogEvents E rec actor target sb sbn kind reason ts n else Decided [])"
  "ensures (permitted E a ts') (if b then nativeUndenyPostSystemLogEvents E rec actor target sb sbn kind reason ts n else Decided [])"
  unfolding nativeDenyPostSystemLogEvents_def nativeUndenyPostSystemLogEvents_def
  by (intro ensure permitted_sanction_log permitted_simps(1))+

lemma permitted_moderation_log:
  "ensures (permitted E a ts') (nativeModerationSystemLogEvents E rec actor action reviewID postID threadID boardID public ts n)"
  unfolding nativeModerationSystemLogEvents_def Let_def by (intro ensure permitted_generated) simp_all

lemma permitted_content_filter:
  "ensures (permitted E a ts') (nativeContentFilterReviewEvents E rec actor publicAuthor filt postID threadID boardID public ts n)"
  unfolding nativeContentFilterReviewEvents_def Let_def
  by (intro ensure ensures_and_decide [OF permitted_generated]) (simp_all add: event_specs)

lemma permitted_automod_actions:
  "permitted E a ts' (automod_action_events E rec rule reason (user_ID a) postID threadID boardID ts n actions)"
proof (induction actions arbitrary: n)
  case (Cons action actions)
  have "automod_action_event E rec rule reason (user_ID a) postID threadID boardID ts n action = Some e \<Longrightarrow> authorized E a ts' (ea_Payload e)" for e
    by (auto simp: automod_action_event_def event_specs split: if_splits)
  then show ?case using Cons.IH by (simp add: event_specs split: option.split)
qed simp

lemma permitted_automod: "ensures (permitted E a ts') (nativeAutomodEvents E rec (user_ID a) postID threadID boardID txt ts n)"
  unfolding nativeAutomodEvents_def by (intro ensure) (simp_all add: permitted_automod_actions)

lemma permitted_reactions:
  assumes "permitted E a ts' events"
  shows "ensures (permitted E a ts') (reaction_events E rec a authorName filt postID threadID boardID public txt ts events)"
  unfolding reaction_events_def Let_def
  by (intro ensures_and_decide [OF permitted_content_filter] ensures_and_decide [OF permitted_automod] ensure) (use assms in simp)

lemma permitted_mail_back:
  "ensures (\<lambda>e. permitted E a ts' (case e of None \<Rightarrow> [] | Some x \<Rightarrow> [x]))
     (nativeArticleMailBackEvent E rec actor authorName authorID th target replyPostID replyBody ts n)"
  unfolding nativeArticleMailBackEvent_def Let_def by (intro ensure) (simp_all add: mail_back_event_def Let_def)

section \<open>Decisions follow the policy\<close>

definition lawful :: "native_env \<Rightarrow> command_log_record \<Rightarrow> native_decision \<Rightarrow> bool" where
  "lawful E rec d \<longleftrightarrow>
     (\<exists>a. q_user (ne_db E) (TrimSpace (clr_ActorID rec)) = Inr (Some a) \<and> permitted E a (nativeCommandTimestamp E rec) (nd_events d))"

lemma on_postI:
  "rows_keyed (ne_db E) \<Longrightarrow> q_post (ne_db E) i = Inr (Some p) \<Longrightarrow> q_thread (ne_db E) (po_Thread p) = Inr (Some t) \<Longrightarrow> P p t
     \<Longrightarrow> on_post E (po_ID p) P"
  by (auto simp: rows_keyed_def on_post_def on_thread_def)

lemma on_threadI: "rows_keyed (ne_db E) \<Longrightarrow> q_thread (ne_db E) i = Inr (Some t) \<Longrightarrow> P t \<Longrightarrow> on_thread E (th_ID t) P"
  by (auto simp: rows_keyed_def on_thread_def)

lemmas rules = RequirePostNotRedacted_def RequirePostRedacted_def RequirePostAuthorEditWindow_def AuthorEditAllowed_def AuthoredBy_def
  AuthoredByID_def postPolicyActor_def WithinAuthorEditWindow_def nativeAuthorEditWindow_ms_def RequireBoardPostModeration_def
  RequireThreadModeration_def RequireModeratorRole_def

lemma redaction_allowed:
  "PlanPostRedaction canModeratePosts isAuthor withinWindow = Inr kind \<Longrightarrow> canModeratePosts \<or> isAuthor \<and> withinWindow"
  by (auto simp: PlanPostRedaction_def RedactionKind_def split: option.splits if_splits)

lemma title_allowed:
  "RequireThreadTitlePermission canModerateThread isAuthor withinWindow = None \<Longrightarrow> canModerateThread \<or> isAuthor \<and> withinWindow"
  by (auto simp: RequireThreadTitlePermission_def split: if_splits)

lemma lawful_edit: "rows_keyed (ne_db E) \<Longrightarrow> ensures (lawful E rec) (decideEditPost E rec)"
  unfolding decideEditPost_def Let_def
  by (intro ensure) (auto simp: lawful_def event_specs rules split: if_splits intro!: on_postI)

lemma lawful_attach: "rows_keyed (ne_db E) \<Longrightarrow> ensures (lawful E rec) (decideAttachPost E rec)"
  unfolding decideAttachPost_def Let_def
  by (intro ensure) (auto simp: lawful_def event_specs rules split: if_splits intro!: on_postI)

lemma lawful_redact: "rows_keyed (ne_db E) \<Longrightarrow> ensures (lawful E rec) (decideRedactPost E rec)"
  unfolding decideRedactPost_def Let_def
  by (intro ensure) (auto simp: lawful_def event_specs rules split: if_splits intro!: on_postI dest!: redaction_allowed)

lemma lawful_restore: "rows_keyed (ne_db E) \<Longrightarrow> ensures (lawful E rec) (decideRestorePost E rec)"
  unfolding decideRestorePost_def Let_def
  by (intro ensure) (auto simp: lawful_def event_specs rules split: if_splits intro!: on_postI)

lemma lawful_purge: "ensures (lawful E rec) (decidePurgePost E rec)"
  unfolding decidePurgePost_def Let_def by (intro ensure) (auto simp: lawful_def event_specs)

lemma lawful_title: "rows_keyed (ne_db E) \<Longrightarrow> ensures (lawful E rec) (decideSetThreadTitle E rec)"
  unfolding decideSetThreadTitle_def Let_def
  by (intro ensure) (auto simp: lawful_def event_specs rules split: if_splits intro!: on_threadI dest!: title_allowed)

lemma lawful_lock: "rows_keyed (ne_db E) \<Longrightarrow> ensures (lawful E rec) (decideLockThread E rec)"
  unfolding decideLockThread_def Let_def
  by (intro ensure) (auto simp: lawful_def event_specs rules intro!: on_threadI)

lemma lawful_move: "rows_keyed (ne_db E) \<Longrightarrow> ensures (lawful E rec) (decideMoveThread E rec)"
  unfolding decideMoveThread_def Let_def
  by (intro ensure) (auto simp: lawful_def event_specs rules RequireDestinationBoard_def existence_rule_def split: sum.splits intro!: on_threadI)

lemma flags_allowed:
  assumes "RequirePostFlagPermissions (PlanFlagUpdate (postPolicyFlags p) patch) (Some a) p canCurate canModerateThread = None"
  defines "fl \<equiv> pl_Flags (PlanFlagUpdate (postPolicyFlags p) patch)"
  shows "fl_Marked fl \<noteq> po_Marked p \<or> fl_Recommended fl \<noteq> po_Recommended p \<Longrightarrow> canCurate"
    and "fl_NoReply fl \<noteq> po_NoReply p \<Longrightarrow> canModerateThread"
    and "fl_TeX fl \<noteq> po_TeX p \<or> fl_MailBack fl \<noteq> po_MailBack p \<Longrightarrow> canModerateThread \<or> po_AuthorID p \<noteq> [] \<and> po_AuthorID p = user_ID a"
  using assms(1) unfolding fl_def RequirePostFlagPermissions_def FlagPlan_PermissionFailure_def
  by (auto simp: PlanFlagUpdate_def postPolicyFlags_def AuthoredByID_def postPolicyActor_def split: if_splits)

lemma plan_changes:
  fixes p :: post and patch :: flag_patch
  defines "plan \<equiv> PlanFlagUpdate (postPolicyFlags p) patch"
  shows "pl_CuratorChange plan \<longleftrightarrow> fl_Marked (pl_Flags plan) \<noteq> po_Marked p \<or> fl_Recommended (pl_Flags plan) \<noteq> po_Recommended p"
    and "pl_ThreadModerationChange plan \<longleftrightarrow> fl_NoReply (pl_Flags plan) \<noteq> po_NoReply p"
    and "pl_AuthorMetadataChange plan \<longleftrightarrow> fl_TeX (pl_Flags plan) \<noteq> po_TeX p \<or> fl_MailBack (pl_Flags plan) \<noteq> po_MailBack p"
  unfolding plan_def by (simp_all add: PlanFlagUpdate_def postPolicyFlags_def)

lemma flags_authorized:
  fixes patch :: flag_patch
  assumes rows: "rows_keyed (ne_db E)" "q_post (ne_db E) i = Inr (Some p)" "q_thread (ne_db E) (po_Thread p) = Inr (Some th)"
    and "\<not> po_Redacted p"
  defines "plan \<equiv> PlanFlagUpdate (postPolicyFlags p) patch"
  assumes thread: "(if pl_ThreadModerationChange plan \<or> pl_AuthorMetadataChange plan
                    then Q_ActorCanModerateBoardThreads (ne_db E) (Some a) (th_Board th) else Inr False) = Inr canModerateThread"
    and curate: "(if pl_CuratorChange plan then Q_ActorCanCurateBoard (ne_db E) (Some a) (th_Board th) else Inr False) = Inr canCurate"
    and ok: "RequirePostFlagPermissions plan (Some a) p canCurate canModerateThread = None"
  shows "authorized E a ts (PostFlagsSetPayload (po_ID p) t (pl_Flags plan) (user_ID a) ts')"
proof -
  note changes = plan_changes [of p patch, folded plan_def]
  note allowed = flags_allowed [OF ok [unfolded plan_def], folded plan_def]
  have "Q_ActorCanCurateBoard (ne_db E) (Some a) (th_Board th) = Inr True" if "pl_CuratorChange plan"
    using curate that allowed(1) by (simp add: changes(1))
  moreover have "moderates_threads E a (th_Board th)" if "pl_ThreadModerationChange plan"
    using thread that allowed(2) by (simp add: changes(2))
  moreover have "moderates_threads E a (th_Board th) \<or> po_AuthorID p \<noteq> [] \<and> po_AuthorID p = user_ID a" if "pl_AuthorMetadataChange plan"
    using thread that allowed(3) by (auto simp: changes(3))
  ultimately show ?thesis
    using assms(4) unfolding authorized.simps changes by (intro conjI refl on_postI [OF rows]) blast+
qed

lemma lawful_flags: "rows_keyed (ne_db E) \<Longrightarrow> ensures (lawful E rec) (decideSetPostFlag E rec)"
  unfolding decideSetPostFlag_def Let_def
  by (intro ensure) (simp_all add: lawful_def PostFlagsSet_def RequirePostNotRedacted_def flags_authorized del: authorized.simps)

lemma permitted_range:
  assumes "\<And>i postID. ensures (\<lambda>e. authorized E a ts (ea_Payload e)) (step i postID)"
  shows "ensures (permitted E a ts) (range_events step n postIDs)"
proof (induction postIDs arbitrary: n)
  case (Cons postID postIDs)
  show ?case unfolding range_events.simps by (intro ensures_and_decide [OF assms] ensures_and_decide [OF Cons.IH] ensure) simp
qed (simp add: ensures_def)

lemma range_access:
  "EnsureRangeBoardAccess db actor board = None \<Longrightarrow> Q_ActorCanModerateBoardPosts db actor board = Inr True"
  by (auto simp: EnsureRangeBoardAccess_def rules split: option.splits sum.splits)

lemma range_post:
  "LoadRangePost db postID board = Inr (p, th) \<Longrightarrow>
     q_post db postID = Inr (Some p) \<and> q_thread db (po_Thread p) = Inr (Some th) \<and> th_Board th = board"
  by (auto simp: LoadRangePost_def split: sum.splits option.splits if_splits)

lemma range_steps_permitted:
  assumes "rows_keyed (ne_db E)" "moderates_posts E a (pg_Board p)"
  shows "ensures (\<lambda>e. authorized E a ts (ea_Payload e)) (redact_range_step E rec a p i postID)"
    and "ensures (\<lambda>e. authorized E a ts (ea_Payload e)) (restore_range_step E rec a p i postID)"
    and "ensures (\<lambda>e. authorized E a ts (ea_Payload e)) (clear_junk_step E rec a p i postID)"
  unfolding redact_range_step_def restore_range_step_def clear_junk_step_def Let_def using assms
  by (intro ensure; auto simp: event_specs rules dest!: range_post intro!: on_postI)+

lemma range_lawful:
  assumes "q_user (ne_db E) (TrimSpace (clr_ActorID rec)) = Inr (Some a)"
    and "\<And>i postID. ensures (\<lambda>e. authorized E a (nativeCommandTimestamp E rec) (ea_Payload e)) (step i postID)"
  shows "ensures (lawful E rec) (and_decide (range_events step 0 postIDs) (\<lambda>events. nativeDecisionAckEvents ack events))"
  by (rule ensures_and_decide [OF permitted_range [OF assms(2)]]) (rule ack_events, use assms(1) in \<open>simp add: lawful_def\<close>)

lemma lawful_ranges:
  assumes "rows_keyed (ne_db E)"
  shows "ensures (lawful E rec) (decideRedactPostRange E rec)" "ensures (lawful E rec) (decideRestorePostRange E rec)"
    "ensures (lawful E rec) (decideClearBoardJunk E rec)"
  unfolding decideRedactPostRange_def decideRestorePostRange_def decideClearBoardJunk_def
  by (intro ensure, rule range_lawful, assumption, intro range_steps_permitted assms range_access, assumption)+
  
lemma lawful_flag_post: "ensures (lawful E rec) (decideFlagPost E rec)"
  unfolding decideFlagPost_def Let_def
  by (intro ensure ensures_and_decide [OF permitted_moderation_log]) (auto simp: lawful_def event_specs)

lemma lawful_resolve: "ensures (lawful E rec) (decideResolveReview E rec)"
  unfolding decideResolveReview_def Let_def
  by (intro ensure ensures_and_decide [OF permitted_moderation_log]) (auto simp: lawful_def event_specs rules)

lemma lawful_sanction: "rows_keyed (ne_db E) \<Longrightarrow> ensures (lawful E rec) (decideSanctionUser E rec)"
  unfolding decideSanctionUser_def Let_def
  by (intro ensure ensures_and_decide [OF permitted_audit(1)])
    (auto simp: lawful_def event_specs rules RequireSanctionTargetAllowed_def rows_keyed_def split: if_splits)

lemma lawful_clear_sanction: "ensures (lawful E rec) (decideClearUserSanction E rec)"
  unfolding decideClearUserSanction_def Let_def
  by (intro ensure ensures_and_decide [OF permitted_audit(2)]) (auto simp: lawful_def event_specs rules)

text \<open>The context of a decision names the actor of the record.\<close>

lemma create_context:
  assumes "nativeCreateThreadDecisionContext E actorID boardID = Inr cx" "cc_Actor cx = Some a"
  shows "q_user (ne_db E) (TrimSpace actorID) = Inr (Some a) \<and> q_settings (ne_db E) (TrimSpace boardID) = Inr (cc_Settings cx) \<and>
    Q_ActorCanModerateBoard (ne_db E) (Some a) (TrimSpace boardID) = Inr (cc_CanModerateBoard cx) \<and>
    active_sanction E (user_ID a) (TrimSpace boardID) = Inr (cc_SanctionKind cx)"
proof -
  from assms obtain u where u: "q_user (ne_db E) (TrimSpace actorID) = Inr u"
    by (cases "q_user (ne_db E) (TrimSpace actorID)") (auto simp: nativeCreateThreadDecisionContext_def Let_def split: if_split_asm)
  with assms obtain b where "u = Some b"
    by (cases u) (auto simp: nativeCreateThreadDecisionContext_def Let_def split: if_split_asm)
  with u assms show ?thesis
    by (auto simp: nativeCreateThreadDecisionContext_def Let_def and_then_Inr split: if_split_asm)
qed

lemma append_context:
  assumes "nativeAppendPostDecisionContext E actorID threadID = Inr cx" "xc_Actor cx = Some a" "xc_Thread cx = Some th"
  shows "q_user (ne_db E) (TrimSpace actorID) = Inr (Some a) \<and> q_thread (ne_db E) (TrimSpace threadID) = Inr (Some th) \<and>
    ThreadRootReplyGuardsForThread (ne_db E) (th_ID th) = Inr (xc_RootNoReply cx, xc_RootMailBack cx) \<and>
    q_settings (ne_db E) (th_Board th) = Inr (xc_Settings cx) \<and>
    append_permissions E a (th_Board th) = Inr (xc_CanModerateBoard cx, xc_CanModerateThread cx) \<and>
    active_sanction E (user_ID a) (th_Board th) = Inr (xc_SanctionKind cx)"
proof -
  from assms obtain u where u: "q_user (ne_db E) (TrimSpace actorID) = Inr u"
    by (cases "q_user (ne_db E) (TrimSpace actorID)") (auto simp: nativeAppendPostDecisionContext_def Let_def split: if_split_asm)
  with assms obtain b where b: "u = Some b"
    by (cases u) (auto simp: nativeAppendPostDecisionContext_def Let_def split: if_split_asm)
  from assms obtain v where v: "q_thread (ne_db E) (TrimSpace threadID) = Inr v"
    by (cases "q_thread (ne_db E) (TrimSpace threadID)") (auto simp: nativeAppendPostDecisionContext_def Let_def u b split: if_split_asm)
  with assms obtain t where "v = Some t"
    by (cases v) (auto simp: nativeAppendPostDecisionContext_def Let_def u b split: if_split_asm)
  with u b v assms show ?thesis
    by (auto simp: nativeAppendPostDecisionContext_def Let_def and_then_Inr split: if_split_asm)
qed

lemmas append_actor = append_context [THEN conjunct1]

lemmas create_actor = create_context [THEN conjunct1]

lemma lawful_create: "ensures (lawful E rec) (decideCreateThread E rec)"
  unfolding decideCreateThread_def Let_def
  by (intro ensure ensures_and_decide [OF permitted_reactions])
    (auto simp: create_thread_events_def event_specs Let_def lawful_def split: prod.split intro: create_actor)

lemma append_post_event_permitted:
  "permitted E a ts' [append_post_event E rec p th actor authorName authorID replyTo texts attachments signature ts]"
  by (simp add: append_post_event_def Let_def event_specs split: prod.split)

lemma lawful_append: "ensures (lawful E rec) (decideAppendPost E rec)"
  unfolding decideAppendPost_def Let_def lawful_def
  by (intro ensure ensures_and_decide [OF permitted_reactions [OF append_post_event_permitted]] ensures_and_decide [OF permitted_mail_back]
        exI conjI append_actor; (assumption | simp split: option.splits))

lemmas lawful_all = lawful_edit lawful_attach lawful_redact lawful_restore lawful_purge lawful_title lawful_lock lawful_move lawful_flags
  lawful_ranges lawful_flag_post lawful_resolve lawful_sanction lawful_clear_sanction lawful_create lawful_append


lemma sample_forum_keyed: "rows_keyed sample_forum"
  by (auto simp: rows_keyed_def sample_user_def sample_thread_def sample_post_def split: if_splits)


section \<open>The two readings of the board permissions\<close>

definition access_actor_of :: "user \<Rightarrow> access_actor" where
  "access_actor_of u = \<lparr>aa_ID = user_ID u, aa_Role = user_Role u\<rparr>"

text \<open>A loaded board that agrees with the tables it is loaded from.\<close>

definition snapshot_of :: "forum_db \<Rightarrow> string \<Rightarrow> access_info \<Rightarrow> bool" where
  "snapshot_of db boardID i \<longleftrightarrow>
     (\<forall>u. q_board_moderator db boardID u = Inr (list_ex (\<lambda>m. m = u) (ai_Moderators i)) \<and>
          q_board_member db boardID u = Inr (list_ex (\<lambda>m. ac_UserID m = u) (ai_Members i)) \<and>
          q_member_permission db boardID u ''can_moderate_posts'' = Inr (list_ex (\<lambda>m. ac_UserID m = u \<and> ac_CanModeratePosts m) (ai_Members i)) \<and>
          q_member_permission db boardID u ''can_manage_members'' = Inr (list_ex (\<lambda>m. ac_UserID m = u \<and> ac_CanManageMembers m) (ai_Members i)))"

lemmas board_readers = Q_ActorCanModerateBoard_def Q_ActorCanUseMemberBoard_def Q_ActorHasBoardCapability_def
  Q_ActorCanModerateBoardPosts_def Q_ActorCanManageBoardMembers_def User_IsMod_def

lemmas snapshot_readers = ActorModeratesBoard_def AccessActor_IsMod_def member_with_def actorIsBoardMember_def actorIsGuest_def
  ActorCanReadBoard_def ActorCanManageBoardMembers_def ActorCanModerateBoardPosts_def access_actor_of_def



end
