(* ===== verification/Decider_Posts.thy ===== *)
theory Decider_Posts
  imports Decider_Policy
begin

text \<open>
  New posts in the native decider: when a reply is admitted and what it contains, the depth of reply threads, and how far the
  author of an anonymous post stays hidden.
\<close>

section \<open>Parts of an admitted reply\<close>

lemma reactions_extend:
  "ensures (\<lambda>r. \<exists>rest. r = events @ rest) (reaction_events E rec actor authorName filt postID threadID boardID public txt ts events)"
  unfolding reaction_events_def Let_def
  by (intro ensures_and_decide [where Q = "\<lambda>_. True"] ensure) (simp_all add: ensures_def)

lemma normalize_attachments_length: "normalize_attachments out xs = Inr ys \<Longrightarrow> length ys = length out + length xs"
  by (induction out xs rule: normalize_attachments.induct) (auto split: prod.splits if_splits)

lemma attachments_bounded:
  assumes "NormalizePostAttachments inputs allowed canModerate idFor = Inr ys"
  shows "length ys \<le> 8 \<and> (ys \<noteq> [] \<longrightarrow> allowed \<or> canModerate)"
proof (cases "inputs = []")
  case False
  with assms obtain xs where xs: "NormalizePostAttachments_proto inputs = Inr xs" "ys = WithAttachmentIDs xs idFor" "allowed \<or> canModerate"
    by (auto simp: NormalizePostAttachments_def RequirePostAttachmentsAllowed_def split: option.splits sum.splits)
  then have "length xs \<le> 8"
    using False by (auto simp: NormalizePostAttachments_proto_def ValidatePostAttachmentCount_def MaxPostAttachments_def Let_def
        split: if_splits dest: normalize_attachments_length)
  then show ?thesis using xs by (simp add: WithAttachmentIDs_def)
qed (use assms in \<open>simp add: NormalizePostAttachments_def\<close>)

lemma append_body_bounded: "NormalizeAppendPostPayload raw = (p, []) \<Longrightarrow> ap_Body p \<noteq> [] \<and> length (ap_Body p) \<le> 20000"
  by (auto simp: NormalizeAppendPostPayload_def normalizeRequiredFields_def ValidatePostBodyLength_def MaxPostBodyLength_def Let_def
      split: if_splits)

lemma identity_shown:
  assumes "PostIdentity (Some a) (Some s) anonymous canModerate = Inr (name, author)"
  shows "(anonymous \<longrightarrow> bs_AnonymousAllowed s \<or> canModerate) \<and> (name, author) = (if anonymous then (''Anonymous'', []) else (user_Name a, user_ID a))"
  using assms by (auto simp: PostIdentity_def ResolvePostAuthorIdentity_def split: if_splits)

lemma reply_access:
  assumes "RequireReplyBoardAccessStrict db actor board (Some s) canModerate = None"
  shows "(bs_ReadOnly s \<or> bs_NoReply s \<longrightarrow> canModerate) \<and>
         (bs_MemberReadMode s \<or> bs_MemberPostMode s \<longrightarrow> Q_ActorCanUseMemberBoard db actor board = Inr True)"
  using assms by (auto simp: RequireReplyBoardAccessStrict_def requireReplyBoardAccess_def BlocksReply_def requirePostingMemberAccess_def
      member_access_def RequiresPostingMembership_def actorCanUseMemberBoardStrict_def split: if_splits sum.splits)

text \<open>The facts that a decided reply establishes, and the contents of its first event.\<close>

definition admitted :: "native_env \<Rightarrow> command_log_record \<Rightarrow> append_post \<Rightarrow> user \<Rightarrow> thread \<Rightarrow> board_settings \<Rightarrow> post_appended \<Rightarrow> bool" where
  "admitted E rec p a th s spec \<longleftrightarrow>
     (\<exists>raw canBoard canThread noReply mailBack.
        pd_AppendPost (ne_decoders E) (clr_Payload rec) = Some raw \<and> NormalizeAppendPostPayload raw = (p, []) \<and>
        q_user (ne_db E) (TrimSpace (clr_ActorID rec)) = Inr (Some a) \<and> q_thread (ne_db E) (TrimSpace (ap_Thread p)) = Inr (Some th) \<and>
        q_settings (ne_db E) (th_Board th) = Inr (Some s) \<and> append_permissions E a (th_Board th) = Inr (canBoard, canThread) \<and>
        ThreadRootReplyGuardsForThread (ne_db E) (th_ID th) = Inr (noReply, mailBack) \<and> active_sanction E (user_ID a) (th_Board th) = Inr [] \<and>
        (th_Locked th \<or> bs_ReadOnly s \<or> bs_NoReply s \<longrightarrow> canBoard) \<and> (noReply \<longrightarrow> canThread) \<and>
        (bs_MemberReadMode s \<or> bs_MemberPostMode s \<longrightarrow> Q_ActorCanUseMemberBoard (ne_db E) (Some a) (th_Board th) = Inr True) \<and>
        (ap_Anonymous p \<longrightarrow> bs_AnonymousAllowed s \<or> canBoard) \<and>
        (pp_Author spec, pp_AuthorID spec) = (if ap_Anonymous p then (''Anonymous'', []) else (user_Name a, user_ID a)) \<and>
        pp_Thread spec = th_ID th \<and> ap_Body p \<noteq> [] \<and> length (ap_Body p) \<le> 20000 \<and>
        length (pp_Attachments spec) \<le> 8 \<and> (pp_Attachments spec \<noteq> [] \<longrightarrow> bs_AttachmentsAllowed s \<or> canBoard))"

lemma append_admitted:
  assumes "nativeAppendPostDecisionContext E (clr_ActorID rec) (ap_Thread p) = Inr cx" "xc_Actor cx = Some a" "xc_Thread cx = Some th"
    and "xc_Settings cx = Some s" "pd_AppendPost (ne_decoders E) (clr_Payload rec) = Some raw" "NormalizeAppendPostPayload raw = (p, [])"
    and "RequireThreadOpenForReply (th_Locked th) (xc_CanModerateBoard cx) = None"
    and "RequireReplyBoardAccessStrict (ne_db E) (Some a) (th_Board th) (Some s) (xc_CanModerateBoard cx) = None"
    and "RequireThreadStarterAcceptsReplies (xc_RootNoReply cx) (xc_CanModerateThread cx) = None" "require_no_sanction (xc_SanctionKind cx) = None"
    and "PostIdentity (Some a) (Some s) (ap_Anonymous p) (xc_CanModerateBoard cx) = Inr (authorName, authorID)"
    and "NormalizePostAttachments (ap_Attachments p) (bs_AttachmentsAllowed s) (xc_CanModerateBoard cx) idFor = Inr atts"
    and "pp_Author spec = authorName" "pp_AuthorID spec = authorID" "pp_Thread spec = th_ID th" "pp_Attachments spec = atts"
  shows "admitted E rec p a th s spec"
  unfolding admitted_def
  using append_context [OF assms(1-3)] assms(4-6,13-16) append_body_bounded [OF assms(6)] identity_shown [OF assms(11)]
    attachments_bounded [OF assms(12)] reply_access [OF assms(8)] assms(7,9,10)
  by (intro exI [of _ raw] exI [of _ "xc_CanModerateBoard cx"] exI [of _ "xc_CanModerateThread cx"] exI [of _ "xc_RootNoReply cx"]
        exI [of _ "xc_RootMailBack cx"])
    (simp add: RequireThreadOpenForReply_def RequireThreadStarterAcceptsReplies_def)

lemma ensures_and_decide_eq: "(\<And>v. d = Decided v \<Longrightarrow> ensures P (f v)) \<Longrightarrow> ensures P (and_decide d f)"
  by (auto simp: ensures_def decided)

lemma decideAppendPost_E:
  assumes "decideAppendPost E rec = Decided d"
  obtains raw p pollBlock cleanBody cx a th s authorName authorID atts parent plan target filt signature events mail
  where "pd_AppendPost (ne_decoders E) (clr_Payload rec) = Some raw" "NormalizeAppendPostPayload raw = (p, [])"
    "ParsePoll (ne_lower E) (ne_clock E) (ap_Body p) = Some (pollBlock, cleanBody)"
    "nativeAppendPostDecisionContext E (clr_ActorID rec) (ap_Thread p) = Inr cx" "xc_Actor cx = Some a" "xc_Thread cx = Some th"
    "xc_Settings cx = Some s" "RequireThreadOpenForReply (th_Locked th) (xc_CanModerateBoard cx) = None"
    "RequireReplyBoardAccessStrict (ne_db E) (Some a) (th_Board th) (Some s) (xc_CanModerateBoard cx) = None"
    "PostIdentity (Some a) (Some s) (ap_Anonymous p) (xc_CanModerateBoard cx) = Inr (authorName, authorID)"
    "NormalizePostAttachments (ap_Attachments p) (bs_AttachmentsAllowed s) (xc_CanModerateBoard cx)
       (\<lambda>i. stableCommandLogDecisionID E ''att_'' rec (100 + i)) = Inr atts"
    "RequireThreadStarterAcceptsReplies (xc_RootNoReply cx) (xc_CanModerateThread cx) = None"
    "ap_ReplyTo p = [] \<and> parent = None \<or> ap_ReplyTo p \<noteq> [] \<and> q_post (ne_db E) (ap_ReplyTo p) = Inr parent"
    "PlanPostReply (ap_ReplyTo p) parent (th_ID th) (ap_QuotePost p) (xc_CanModerateThread cx) = Inr plan"
    "require_no_sanction (xc_SanctionKind cx) = None"
    "MatchContentFilter (ne_db E) (ne_lower E) (th_Board th) (fst (snd (reply_texts plan parent cleanBody (ap_Body p)))) = Inr filt"
    "nativePostSignature E authorID rec = Inr signature"
    "reaction_events E rec a authorName filt (stableCommandLogDecisionID E ''pst_'' rec 0) (th_ID th) (th_Board th) (\<not> bs_MemberReadMode s)
       (fst (snd (reply_texts plan parent cleanBody (ap_Body p)))) (nativeCommandTimestamp E rec)
       [append_post_event E rec p th a authorName authorID (rp_EffectiveReplyTo plan) (reply_texts plan parent cleanBody (ap_Body p)) atts
          signature (nativeCommandTimestamp E rec)] = Decided events"
    "nativeArticleMailBackEvent E rec a authorName authorID th target (stableCommandLogDecisionID E ''pst_'' rec 0)
       (fst (reply_texts plan parent cleanBody (ap_Body p))) (nativeCommandTimestamp E rec) (length events) = Decided mail"
    "nd_events d = (case mail of None \<Rightarrow> events | Some e \<Rightarrow> events @ [e])"
proof -
  have "ensures (\<lambda>x. x = d \<longrightarrow> thesis) (decideAppendPost E rec)"
    unfolding decideAppendPost_def Let_def
    by (intro ensure ensures_and_decide_eq, rule impI, rule that) (assumption | (drule sym, simp))+
  then show thesis using assms by (simp add: ensures_def)
qed

lemma append_post_payload:
  "\<exists>spec. ea_Payload (append_post_event E rec p th a authorName authorID replyTo texts atts signature ts) = PostAppendedPayload spec \<and>
     pp_Author spec = authorName \<and> pp_AuthorID spec = authorID \<and> pp_Thread spec = th_ID th \<and> pp_Attachments spec = atts \<and>
     pp_ReplyTo spec = replyTo \<and> pp_Signature spec = signature \<and> pp_Body spec = fst texts \<and> pp_RawBody spec = fst (snd texts)"
  by (simp add: append_post_event_def PostAppended_def Let_def split: prod.split)

section \<open>Admission\<close>

text \<open>
  C7: A reply is only decided when it may be posted: the thread and its board exist, a locked thread, a read-only board and a
  board without replies take replies from moderators only, a closed thread starter from thread moderators only, a members' board
  from members only, and the author is under no active sanction. The event carries the reply into this thread under the
  author's name, or as anonymous where the board allows it, with a body of at most 20000 bytes and at most eight attachments.
\<close>

theorem append_post_admitted:
  assumes "decideAppendPost E rec = Decided d"
  shows "\<exists>p a th s spec rest. map ea_Payload (nd_events d) = PostAppendedPayload spec # rest \<and> admitted E rec p a th s spec"
  using assms
proof (rule decideAppendPost_E)
  fix raw and p :: append_post and pollBlock cleanBody cx a and th :: thread and s :: board_settings and authorName authorID atts
    and parent :: "post option" and plan :: reply_target_plan and target filt signature events mail
  let ?texts = "reply_texts plan parent cleanBody (ap_Body p)"
  let ?e = "append_post_event E rec p th a authorName authorID (rp_EffectiveReplyTo plan) ?texts atts signature (nativeCommandTimestamp E rec)"
  assume r: "reaction_events E rec a authorName filt (stableCommandLogDecisionID E ''pst_'' rec 0) (th_ID th) (th_Board th)
      (\<not> bs_MemberReadMode s) (fst (snd ?texts)) (nativeCommandTimestamp E rec) [?e] = Decided events"
    and e: "nd_events d = (case mail of None \<Rightarrow> events | Some e \<Rightarrow> events @ [e])"
    and admits: "pd_AppendPost (ne_decoders E) (clr_Payload rec) = Some raw" "NormalizeAppendPostPayload raw = (p, [])"
      "nativeAppendPostDecisionContext E (clr_ActorID rec) (ap_Thread p) = Inr cx" "xc_Actor cx = Some a" "xc_Thread cx = Some th"
      "xc_Settings cx = Some s" "RequireThreadOpenForReply (th_Locked th) (xc_CanModerateBoard cx) = None"
      "RequireReplyBoardAccessStrict (ne_db E) (Some a) (th_Board th) (Some s) (xc_CanModerateBoard cx) = None"
      "PostIdentity (Some a) (Some s) (ap_Anonymous p) (xc_CanModerateBoard cx) = Inr (authorName, authorID)"
      "NormalizePostAttachments (ap_Attachments p) (bs_AttachmentsAllowed s) (xc_CanModerateBoard cx)
         (\<lambda>i. stableCommandLogDecisionID E ''att_'' rec (100 + i)) = Inr atts"
      "RequireThreadStarterAcceptsReplies (xc_RootNoReply cx) (xc_CanModerateThread cx) = None"
      "require_no_sanction (xc_SanctionKind cx) = None"
  obtain spec where spec: "ea_Payload ?e = PostAppendedPayload spec" "pp_Author spec = authorName" "pp_AuthorID spec = authorID"
      "pp_Thread spec = th_ID th" "pp_Attachments spec = atts"
    using append_post_payload by blast
  have "admitted E rec p a th s spec"
    by (rule append_admitted [OF admits(3-6,1,2,7,8,11,12,9,10) spec(2-5)])
  moreover from ensuresD [OF reactions_extend r] obtain rest where "events = ?e # rest" by auto
  ultimately show ?thesis using spec(1) e by (auto split: option.splits)
qed

theorem append_post_admitted_witness:
  "\<exists>d. decideAppendPost sample_env reply_command = Decided d \<and>
     (\<exists>p a th s spec rest. map ea_Payload (nd_events d) = PostAppendedPayload spec # rest \<and> admitted sample_env reply_command p a th s spec)"
proof -
  obtain d where d: "decideAppendPost sample_env reply_command = Decided d" using sample_reply_decides by blast
  show ?thesis by (rule exI [of _ d]) (rule conjI [OF d append_post_admitted [OF d]])
qed

section \<open>Depth of replies\<close>

text \<open>Replies are at most one level deep: what a reply refers to is itself no reply and lies in the same thread.\<close>

definition two_levels :: "forum_db \<Rightarrow> string \<Rightarrow> string \<Rightarrow> bool" where
  "two_levels db threadID replyTo \<longleftrightarrow>
     replyTo = [] \<or> (\<exists>r. q_post db replyTo = Inr (Some r) \<and> po_ReplyTo r = [] \<and> po_Thread r = threadID)"

lemma plan_keeps_levels:
  assumes "PlanPostReply replyTo parent threadID quotePost can = Inr plan"
    and "replyTo = [] \<and> parent = None \<or> replyTo \<noteq> [] \<and> q_post db replyTo = Inr parent"
    and "rows_keyed db" "\<forall>i p. q_post db i = Inr (Some p) \<longrightarrow> two_levels db (po_Thread p) (po_ReplyTo p)"
  shows "two_levels db threadID (rp_EffectiveReplyTo plan)"
proof (cases "replyTo = []")
  case True
  then show ?thesis using assms(1) by (auto simp: PlanPostReply_def PlanReplyTarget_def two_levels_def split: if_splits)
next
  case False
  with assms(1,2) obtain p where p: "parent = Some p" "q_post db replyTo = Inr (Some p)" "po_Thread p = threadID"
      "rp_EffectiveReplyTo plan = (if po_ReplyTo p \<noteq> [] then po_ReplyTo p else po_ID p)"
    by (auto simp: PlanPostReply_def PlanReplyTarget_def split: if_splits option.splits)
  have "po_ID p = replyTo" using assms(3) p(2) by (simp add: rows_keyed_def)
  then show ?thesis using assms(4) p by (auto simp: two_levels_def)
qed

text \<open>
  C15: Threads stay two levels deep: when every stored reply refers to a post of its own thread that is no reply itself, so does
  the reply that is decided next, also when the author answers a reply.
\<close>

theorem reply_depth_preserved:
  assumes "rows_keyed (ne_db E)" "\<forall>i p. q_post (ne_db E) i = Inr (Some p) \<longrightarrow> two_levels (ne_db E) (po_Thread p) (po_ReplyTo p)"
    and "decideAppendPost E rec = Decided d"
  shows "\<exists>spec rest. map ea_Payload (nd_events d) = PostAppendedPayload spec # rest \<and> two_levels (ne_db E) (pp_Thread spec) (pp_ReplyTo spec)"
  using assms(3)
proof (rule decideAppendPost_E)
  fix p :: append_post and cleanBody and cx :: append_post_context and a and th :: thread and s :: board_settings and authorName authorID atts
    and parent :: "post option" and plan :: reply_target_plan and target filt signature events mail
  let ?texts = "reply_texts plan parent cleanBody (ap_Body p)"
  let ?e = "append_post_event E rec p th a authorName authorID (rp_EffectiveReplyTo plan) ?texts atts signature (nativeCommandTimestamp E rec)"
  assume r: "reaction_events E rec a authorName filt (stableCommandLogDecisionID E ''pst_'' rec 0) (th_ID th) (th_Board th)
      (\<not> bs_MemberReadMode s) (fst (snd ?texts)) (nativeCommandTimestamp E rec) [?e] = Decided events"
    and e: "nd_events d = (case mail of None \<Rightarrow> events | Some e \<Rightarrow> events @ [e])"
    and parent: "ap_ReplyTo p = [] \<and> parent = None \<or> ap_ReplyTo p \<noteq> [] \<and> q_post (ne_db E) (ap_ReplyTo p) = Inr parent"
    and plan: "PlanPostReply (ap_ReplyTo p) parent (th_ID th) (ap_QuotePost p) (xc_CanModerateThread cx) = Inr plan"
  obtain spec where spec: "ea_Payload ?e = PostAppendedPayload spec" "pp_Thread spec = th_ID th" "pp_ReplyTo spec = rp_EffectiveReplyTo plan"
    using append_post_payload by blast
  have "two_levels (ne_db E) (pp_Thread spec) (pp_ReplyTo spec)"
    unfolding spec(2,3) by (rule plan_keeps_levels [OF plan parent assms(1,2)])
  moreover from ensuresD [OF reactions_extend r] obtain rest where "events = ?e # rest" by auto
  ultimately show ?thesis using spec(1) e by (auto split: option.splits)
qed

theorem reply_depth_preserved_witness:
  "\<exists>d. decideAppendPost sample_env reply_command = Decided d \<and> (\<exists>spec rest. map ea_Payload (nd_events d) = PostAppendedPayload spec # rest \<and>
     two_levels sample_forum (pp_Thread spec) (pp_ReplyTo spec))"
proof -
  obtain d where d: "decideAppendPost sample_env reply_command = Decided d" using sample_reply_decides by blast
  have k: "rows_keyed (ne_db sample_env)" by (simp add: sample_forum_keyed)
  have l: "\<forall>i p. q_post (ne_db sample_env) i = Inr (Some p) \<longrightarrow> two_levels (ne_db sample_env) (po_Thread p) (po_ReplyTo p)"
    by (auto simp: two_levels_def sample_post_def)
  from reply_depth_preserved [OF k l d] show ?thesis unfolding sample_fields by (intro exI [of _ d]) (simp only: d simp_thms ex_simps)
qed

section \<open>Anonymous posts\<close>

fun is_mail :: "event_payload \<Rightarrow> bool" where
  "is_mail (MailSentPayload i sender sender_name recipients names subject body parent save atts ts) = True"
| "is_mail payload = False"

abbreviation no_mail :: "native_event list \<Rightarrow> bool" where
  "no_mail events \<equiv> \<forall>e \<in> set events. \<not> is_mail (ea_Payload e)"

lemma no_mail_generated: "ensures no_mail (nativeGeneratedSystemPostEvents E rec actor spec ts n)"
  by (auto simp: nativeGeneratedSystemPostEvents_def generated_board_events_def nativeGeneratedSystemPostPosition_def
      nativeGeneratedBoardCreatedEvent_def Let_def ensures_def decided event_specs split: generated_board_mode.splits if_splits)

lemma no_mail_content_filter:
  "ensures no_mail (nativeContentFilterReviewEvents E rec actor publicAuthor filt postID threadID boardID public ts n)"
  unfolding nativeContentFilterReviewEvents_def Let_def
  by (intro ensure ensures_and_decide [OF no_mail_generated]) (simp_all add: event_specs)

lemma no_mail_automod_actions: "no_mail (automod_action_events E rec rule reason actorID postID threadID boardID ts n actions)"
proof (induction actions arbitrary: n)
  case (Cons action actions)
  have "automod_action_event E rec rule reason actorID postID threadID boardID ts n action = Some e \<Longrightarrow> \<not> is_mail (ea_Payload e)" for e
    by (auto simp: automod_action_event_def event_specs split: if_splits)
  then show ?case using Cons.IH by (simp add: event_specs split: option.split)
qed simp

lemma no_mail_reactions:
  assumes "no_mail events"
  shows "ensures no_mail (reaction_events E rec actor authorName filt postID threadID boardID public txt ts events)"
proof -
  have automod: "ensures no_mail (nativeAutomodEvents E rec actorID postID threadID boardID txt ts n)" for actorID n
    unfolding nativeAutomodEvents_def by (intro ensure) (simp_all add: no_mail_automod_actions)
  show ?thesis unfolding reaction_events_def Let_def
    by (intro ensures_and_decide [OF no_mail_content_filter] ensures_and_decide [OF automod] ensure) (use assms in auto)
qed

lemma anonymous_no_mail_back:
  "nativeArticleMailBackEvent E rec actor authorName [] th target postID body ts n = Decided mail \<Longrightarrow> mail = None"
  by (auto simp: nativeArticleMailBackEvent_def Let_def split: option.splits)

lemma anonymous_no_signature: "nativePostSignature E [] rec = Inr signature \<Longrightarrow> signature = []"
  by (simp add: nativePostSignature_def CurrentPostSignature_def)

lemma append_payload_kept:
  assumes "NormalizeAppendPostPayload raw = (p, [])"
  shows "ap_Anonymous p = ap_Anonymous raw" "ap_QuotePost p = ap_QuotePost raw" "ap_Body p = ap_Body raw" "ap_Thread p = TrimSpace (ap_Thread raw)"
  using assms by (auto simp: NormalizeAppendPostPayload_def normalizeRequiredFields_def Let_def split: if_splits)

text \<open>
  C16: An anonymous reply shows nothing of its author: the event has the name Anonymous, no author id and no signature, and no mail
  goes out to the author of the article that it answers.
\<close>

theorem anonymous_reply_hides_author:
  assumes "decideAppendPost E rec = Decided d" "pd_AppendPost (ne_decoders E) (clr_Payload rec) = Some raw" "ap_Anonymous raw"
  shows "\<exists>spec rest. map ea_Payload (nd_events d) = PostAppendedPayload spec # rest \<and>
           pp_Author spec = ''Anonymous'' \<and> pp_AuthorID spec = [] \<and> pp_Signature spec = [] \<and> \<not> list_ex is_mail rest"
  using assms(1)
proof (rule decideAppendPost_E)
  fix raw' and p :: append_post and cleanBody cx a and th :: thread and s :: board_settings and authorName authorID atts
    and parent :: "post option" and plan :: reply_target_plan and target filt signature events mail
  let ?texts = "reply_texts plan parent cleanBody (ap_Body p)"
  let ?e = "append_post_event E rec p th a authorName authorID (rp_EffectiveReplyTo plan) ?texts atts signature (nativeCommandTimestamp E rec)"
  assume r: "reaction_events E rec a authorName filt (stableCommandLogDecisionID E ''pst_'' rec 0) (th_ID th) (th_Board th)
      (\<not> bs_MemberReadMode s) (fst (snd ?texts)) (nativeCommandTimestamp E rec) [?e] = Decided events"
    and e: "nd_events d = (case mail of None \<Rightarrow> events | Some e \<Rightarrow> events @ [e])"
    and raw': "pd_AppendPost (ne_decoders E) (clr_Payload rec) = Some raw'" "NormalizeAppendPostPayload raw' = (p, [])"
    and identity: "PostIdentity (Some a) (Some s) (ap_Anonymous p) (xc_CanModerateBoard cx) = Inr (authorName, authorID)"
    and sign: "nativePostSignature E authorID rec = Inr signature"
    and mail: "nativeArticleMailBackEvent E rec a authorName authorID th target (stableCommandLogDecisionID E ''pst_'' rec 0) (fst ?texts)
      (nativeCommandTimestamp E rec) (length events) = Decided mail"
  have "ap_Anonymous p" using append_payload_kept(1) [OF raw'(2)] raw'(1) assms(2,3) by simp
  then have id: "authorName = ''Anonymous''" "authorID = []" using identity_shown [OF identity] by simp_all
  have none: "signature = []" "mail = None" using anonymous_no_signature anonymous_no_mail_back sign mail unfolding id by blast+
  obtain spec where spec: "ea_Payload ?e = PostAppendedPayload spec" "pp_Author spec = authorName" "pp_AuthorID spec = authorID"
      "pp_Signature spec = signature"
    using append_post_payload by blast
  obtain rest where rest: "events = ?e # rest" using ensuresD [OF reactions_extend r] by auto
  have "no_mail events" by (rule ensuresD [OF no_mail_reactions r]) (simp add: spec(1))
  then have "\<not> list_ex is_mail (map ea_Payload rest)" unfolding rest list_ex_iff by auto
  then show ?thesis using spec id none e rest by auto
qed

theorem anonymous_reply_hides_author_witness:
  "\<exists>d. decideAppendPost sample_env reply_command = Decided d \<and>
     (\<exists>spec rest. map ea_Payload (nd_events d) = PostAppendedPayload spec # rest \<and>
        pp_Author spec = ''Anonymous'' \<and> pp_AuthorID spec = [] \<and> pp_Signature spec = [] \<and> \<not> list_ex is_mail rest)"
proof -
  obtain d where d: "decideAppendPost sample_env reply_command = Decided d" using sample_reply_decides by blast
  have raw: "pd_AppendPost (ne_decoders sample_env) (clr_Payload reply_command) = Some sample_append" by (simp add: sample_decoders_def)
  show ?thesis by (rule exI [of _ d]) (rule conjI [OF d anonymous_reply_hides_author [OF d raw]], simp)
qed

subsection \<open>The leak of the content filter log\<close>

lemma generated_filter_posts:
  assumes "gp_BoardMode spec = GeneratedBoardAlwaysNextPosition" "nativeGeneratedSystemPostEvents E rec actor spec ts n = Decided events"
  shows "\<exists>created. events =
    [created,
     nativeEvent E rec (n + 1) ''thread.new''
       (ThreadNew (gp_ThreadID spec) (gp_BoardID spec) (user_Name actor) (user_ID actor) (gp_Title spec) ts) ts,
     nativeEvent E rec (n + 2) ''post.appended'' (PostAppended (gp_BoardID spec) (generated_post actor spec ts)) ts]"
  using assms by (auto simp: nativeGeneratedSystemPostEvents_def generated_board_events_def nativeGeneratedSystemPostPosition_def decided)

lemma filter_log_events:
  assumes "nativeContentFilterReviewEvents E rec actor publicAuthor (Some f) postID threadID boardID True ts n = Decided events"
  shows "\<exists>e post reviewID title. e \<in> set events \<and>
    ea_Scopes e = [board_scope ContentFilterSystemBoardID, thread_scope (pp_Thread post)] \<and> ea_Payload e = PostAppendedPayload post \<and>
    pp_Author post = user_Name actor \<and> pp_AuthorID post = user_ID actor \<and>
    pp_Body post = FormatContentFilterReviewBody title reviewID (TrimSpace (cf_ID f)) (TrimSpace (cf_Scope f)) boardID threadID postID publicAuthor"
proof -
  let ?review = "stableCommandLogDecisionID E ''rev_'' rec n"
  let ?spec = "content_filter_post_spec publicAuthor f ?review postID threadID boardID"
  from assms obtain generated flagged where g: "nativeGeneratedSystemPostEvents E rec actor ?spec ts (n + 1) = Decided generated"
      "events = flagged # generated"
    by (auto simp: nativeContentFilterReviewEvents_def Let_def decided)
  have fields: "gp_BoardMode ?spec = GeneratedBoardAlwaysNextPosition" "gp_BoardID ?spec = ContentFilterSystemBoardID"
      "gp_Body ?spec = FormatContentFilterReviewBody (ContentFilterReviewTitle ?review) ?review (TrimSpace (cf_ID f)) (TrimSpace (cf_Scope f))
         boardID threadID postID publicAuthor"
    by (simp_all add: content_filter_post_spec_def Let_def split: prod.split)
  let ?e = "nativeEvent E rec (n + 1 + 2) ''post.appended'' (PostAppended (gp_BoardID ?spec) (generated_post actor ?spec ts)) ts"
  have "?e \<in> set generated" using generated_filter_posts [OF fields(1) g(1)] by auto
  then have "?e \<in> set events" using g(2) by simp
  then show ?thesis
    by (intro exI [of _ ?e] exI [of _ "generated_post actor ?spec ts"] exI [of _ ?review] exI [of _ "ContentFilterReviewTitle ?review"])
      (simp add: nativeEvent_def PostAppended_def generated_post_def fields)
qed

text \<open>
  C19: The content filter log gives anonymous authors away: when an anonymous reply on a public board matches a content filter, the
  same decision publishes a post on the board Filter whose author is the user behind the reply, by name and by id, and whose
  text names the anonymous post.
\<close>

theorem anonymous_author_leaked:
  assumes "decideAppendPost E rec = Decided d" "pd_AppendPost (ne_decoders E) (clr_Payload rec) = Some raw"
    and "ap_Anonymous raw" "\<not> ap_QuotePost raw"
    and "q_user (ne_db E) (TrimSpace (clr_ActorID rec)) = Inr (Some a)"
    and "q_thread (ne_db E) (TrimSpace (ap_Thread raw)) = Inr (Some th)" "q_settings (ne_db E) (th_Board th) = Inr (Some s)"
    and "\<not> bs_MemberReadMode s" "MatchContentFilter (ne_db E) (ne_lower E) (th_Board th) (ap_Body raw) = Inr (Some f)"
  shows "\<exists>e post reviewID title. e \<in> set (nd_events d) \<and>
    ea_Scopes e = [board_scope ContentFilterSystemBoardID, thread_scope (pp_Thread post)] \<and> ea_Payload e = PostAppendedPayload post \<and>
    pp_Author post = user_Name a \<and> pp_AuthorID post = user_ID a \<and>
    pp_Body post = FormatContentFilterReviewBody title reviewID (TrimSpace (cf_ID f)) (TrimSpace (cf_Scope f)) (th_Board th) (th_ID th)
      (stableCommandLogDecisionID E ''pst_'' rec 0) ''Anonymous''"
  using assms(1)
proof (rule decideAppendPost_E)
  fix raw' and p :: append_post and cleanBody and cx :: append_post_context and a' and th' :: thread and s' :: board_settings
    and authorName authorID atts and parent :: "post option" and plan :: reply_target_plan and target filt signature events mail
  let ?texts = "reply_texts plan parent cleanBody (ap_Body p)"
  let ?e = "append_post_event E rec p th' a' authorName authorID (rp_EffectiveReplyTo plan) ?texts atts signature (nativeCommandTimestamp E rec)"
  assume r: "reaction_events E rec a' authorName filt (stableCommandLogDecisionID E ''pst_'' rec 0) (th_ID th') (th_Board th')
      (\<not> bs_MemberReadMode s') (fst (snd ?texts)) (nativeCommandTimestamp E rec) [?e] = Decided events"
    and e: "nd_events d = (case mail of None \<Rightarrow> events | Some e \<Rightarrow> events @ [e])"
    and raw': "pd_AppendPost (ne_decoders E) (clr_Payload rec) = Some raw'" "NormalizeAppendPostPayload raw' = (p, [])"
    and loaded: "nativeAppendPostDecisionContext E (clr_ActorID rec) (ap_Thread p) = Inr cx" "xc_Actor cx = Some a'" "xc_Thread cx = Some th'"
      "xc_Settings cx = Some s'"
    and identity: "PostIdentity (Some a') (Some s') (ap_Anonymous p) (xc_CanModerateBoard cx) = Inr (authorName, authorID)"
    and plan: "PlanPostReply (ap_ReplyTo p) parent (th_ID th') (ap_QuotePost p) (xc_CanModerateThread cx) = Inr plan"
    and filt: "MatchContentFilter (ne_db E) (ne_lower E) (th_Board th') (fst (snd ?texts)) = Inr filt"
  have "raw' = raw" using raw'(1) assms(2) by simp
  note p = append_payload_kept [OF raw'(2) [unfolded this]]
  have same: "a' = a" "th' = th" using append_context [OF loaded(1-3)] assms(5,6) by (simp_all add: p)
  have s': "s' = s" using append_context [OF loaded(1-3)] assms(7) loaded(4) by (simp add: same)
  have "\<not> rp_QuoteParent plan" using plan assms(4)
    by (auto simp: PlanPostReply_def PlanReplyTarget_def p split: if_splits option.splits)
  then have "fst (snd ?texts) = ap_Body raw" by (simp add: reply_texts_def p)
  then have f: "filt = Some f" using filt assms(9) by (simp add: same)
  have name: "authorName = ''Anonymous''" using identity_shown [OF identity] assms(3) by (simp add: p)
  obtain log_events others where logs: "nativeContentFilterReviewEvents E rec a authorName (Some f) (stableCommandLogDecisionID E ''pst_'' rec 0) (th_ID th)
      (th_Board th) True (nativeCommandTimestamp E rec) (length [?e]) = Decided log_events" "events = [?e] @ log_events @ others"
    using r assms(8) unfolding same s' f reaction_events_def Let_def by (auto simp: decided)
  then have sub: "e' \<in> set log_events \<Longrightarrow> e' \<in> set (nd_events d)" for e' using e by (auto split: option.splits)
  show ?thesis using filter_log_events [OF logs(1) [unfolded name]] sub by meson
qed

theorem anonymous_author_leaked_witness:
  "\<exists>d e post. decideAppendPost sample_env reply_command = Decided d \<and> e \<in> set (nd_events d) \<and>
     ea_Payload e = PostAppendedPayload post \<and> pp_Author post = ''Una'' \<and> pp_AuthorID post = ''u1''"
proof -
  obtain d where d: "decideAppendPost sample_env reply_command = Decided d" using sample_reply_decides by blast
  have raw: "pd_AppendPost (ne_decoders sample_env) (clr_Payload reply_command) = Some sample_append" by (simp add: sample_decoders_def)
  have f: "MatchContentFilter (ne_db sample_env) (ne_lower sample_env) (th_Board sample_thread) (ap_Body sample_append) = Inr (Some sample_filter)"
    by (simp add: sample_filter_matches sample_thread_def)
  have user: "q_user (ne_db sample_env) (TrimSpace (clr_ActorID reply_command)) = Inr (Some una)" by simp
  have rows: "q_thread (ne_db sample_env) (TrimSpace (ap_Thread sample_append)) = Inr (Some sample_thread)"
    "q_settings (ne_db sample_env) (th_Board sample_thread) = Inr (Some sample_settings)" by (simp_all add: sample_thread_def)
  have "ap_Anonymous sample_append" "\<not> ap_QuotePost sample_append" "\<not> bs_MemberReadMode sample_settings"
    by (simp_all add: sample_settings_def)
  from anonymous_author_leaked [OF d raw this(1,2) user rows this(3) f]
  obtain e post where "e \<in> set (nd_events d)" "ea_Payload e = PostAppendedPayload post" "pp_Author post = user_Name una" "pp_AuthorID post = user_ID una"
    by blast
  then show ?thesis using d by (intro exI [of _ d] exI [of _ e] exI [of _ post]) simp
qed

subsection \<open>Authorship by name\<close>

text \<open>
  C26: An anonymous post belongs to whoever is called Anonymous: its author id is empty, so authorship is decided by the shown
  name, and a user without any role whose name is Anonymous can edit the post of another user within the edit window. No
  registration rule reserves this name.
\<close>

theorem anonymous_post_edited_by_namesake:
  assumes "clr_Offset rec > 0" "pd_EditPost (ne_decoders E) (clr_Payload rec) = Some raw" "NormalizeEditPostPayload raw = (p, [])"
    and "ParsePoll (ne_lower E) (ne_clock E) (ep_Body p) = Some (None, cleanBody)"
    and "Partition_Normalize (clr_Partition rec) = Partition PartitionPost (ep_Post p)"
    and "TrimSpace (clr_ActorID rec) \<noteq> []" "q_user (ne_db E) (TrimSpace (clr_ActorID rec)) = Inr (Some a)" "user_Name a = ''Anonymous''"
    and "q_poll_of_post (ne_db E) (ep_Post p) = Inr None" "q_post (ne_db E) (ep_Post p) = Inr (Some post)" "\<not> po_Redacted post"
    and "po_Author post = ''Anonymous''" "po_AuthorID post = []" "q_thread (ne_db E) (po_Thread post) = Inr (Some th)"
    and "WithinAuthorEditWindow (nativeCommandTimestamp E rec) (po_CreatedAt post) nativeAuthorEditWindow_ms"
  shows "\<exists>d. decideEditPost E rec = Decided d \<and>
           map ea_Payload (nd_events d) =
             [PostEditedPayload (po_ID post) (po_Thread post) (ep_Body p) (wrap64 (po_Version post + 1)) (nativeCommandTimestamp E rec)]"
  using assms
  by (simp add: decideEditPost_def nativeDecodeNormalizedCommandPayload_def nativeDecodeRequiredCommandPayload_def extractPoll_def combinators
      loadNativeDecisionActorForPartition_def nativeRequireCommandLogPartition_def loadNativeDecisionActor_def post_and_thread_def get_post_def
      get_thread_def RequirePostNotRedacted_def RequirePostAuthorEditWindow_def AuthorEditAllowed_def AuthoredBy_def postPolicyActor_def
      nativeDecisionAckEvent_def nativeDecisionAckEvents_def PostEdited_def Let_def)

abbreviation namesake_env :: native_env where
  "namesake_env \<equiv> sample_env
     \<lparr>ne_db := sample_forum
        \<lparr>q_user := \<lambda>i. Inr (Some \<lparr>user_ID = i, user_Name = ''Anonymous'', user_Role = ''user''\<rparr>),
         q_post := \<lambda>i. Inr (Some (sample_post\<lparr>po_Author := ''Anonymous'', po_AuthorID := []\<rparr>)),
         q_poll_of_post := \<lambda>i. Inr None\<rparr>,
      ne_decoders := sample_decoders\<lparr>pd_EditPost := \<lambda>s. Some \<lparr>ep_Post = ''p1'', ep_Body = ''Spam''\<rparr>\<rparr>\<rparr>"

abbreviation edit_command :: command_log_record where
  "edit_command \<equiv> (sample_command ''u1'' ''editPost'' ''edit'')\<lparr>clr_Partition := Partition PartitionPost ''p1''\<rparr>"

theorem anonymous_post_edited_by_namesake_witness:
  "\<exists>d. decideEditPost namesake_env edit_command = Decided d \<and>
     map ea_Payload (nd_events d) = [PostEditedPayload ''p1'' ''t1'' ''Spam'' 2 500]"
proof -
  have ts: "nativeCommandTimestamp namesake_env edit_command = 500" by (simp add: nativeCommandTimestamp_def sample_command_def)
  have norm: "NormalizeEditPostPayload \<lparr>ep_Post = ''p1'', ep_Body = ''Spam''\<rparr> = (\<lparr>ep_Post = ''p1'', ep_Body = ''Spam''\<rparr>, [])"
    by (simp add: NormalizeEditPostPayload_def normalizeRequiredFields_def)
  have part: "Partition_Normalize (Partition PartitionPost ''p1'') = Partition PartitionPost ''p1''" by code_simp
  let ?p = "\<lparr>ep_Post = ''p1'', ep_Body = ''Spam''\<rparr>" and ?post = "sample_post\<lparr>po_Author := ''Anonymous'', po_AuthorID := []\<rparr>"
  have within: "WithinAuthorEditWindow 500 (po_CreatedAt ?post) nativeAuthorEditWindow_ms" by code_simp
  have "\<exists>d. decideEditPost namesake_env edit_command = Decided d \<and>
     map ea_Payload (nd_events d) = [PostEditedPayload (po_ID ?post) (po_Thread ?post) (ep_Body ?p) (wrap64 (po_Version ?post + 1))
       (nativeCommandTimestamp namesake_env edit_command)]"
    by (rule anonymous_post_edited_by_namesake [where raw = ?p and cleanBody = "''Spam''" and th = sample_thread
          and a = "\<lparr>user_ID = ''u1'', user_Name = ''Anonymous'', user_Role = ''user''\<rparr>"])
      (use within in \<open>simp_all add: ts norm part sample_no_poll\<close>, simp_all add: sample_post_def)
  then show ?thesis unfolding ts by (simp add: sample_post_def wrap64_def)
qed

end
