(* ===== verification/Spec2Isabelle.thy ===== *)
theory Spec2Isabelle
  imports Event_Parity Worker_Safety Broker_Transaction Event_Bus Rate_Limiter Projection_Worker Decider_Posts
begin

text \<open>
  Verification of the message paths and the command decisions of budgie-bbs, a bulletin board server written in Go.

  \<^bold>\<open>The program.\<close> A client's command is routed to a partition (board, thread, user, ...) and produced to a partitioned
  command log. A worker that owns the partition fetches the records after the committed offset, executes them and commits.
  Execution decides the command: it validates the payload, reads the projections, applies the rules of the forum and gives
  a reply and events. The events are appended to a partitioned event store; with a broker, the events and the commit go
  into one transaction. A projection worker replays the event store partition by partition into SQL views. Events are also
  published on a bus, and every live connection keeps a cursor by which it skips what it has sent and repairs what it
  has missed. A new event log is first written in the shadow of the old one and promoted after a parity check. The login
  paths are guarded by a rate limiter.

  \<^bold>\<open>Theories.\<close> Paths are relative to \<open>src/internal\<close>.

  \<^item> \<open>Go_Prelude\<close>: errors, contexts, receivers, 64-bit wrap-around, the string, number, hash, map and sort functions of the
    Go library that the code uses. The contract of a comparison function is the locale \<open>sort_less\<close>.
  \<^item> \<open>Log_Partition\<close> (\<open>core/logmodel/partition.go\<close>, \<open>offset_snapshot.go\<close>): partitions, their normal form and order, offset
    listings, lag and projection targets.
  \<^item> \<open>Subject_Codec\<close> (\<open>core/logmodel/subjects.go\<close>): base64 tokens and broker subjects; locale \<open>token_codec\<close>.
  \<^item> \<open>Command_Classify\<close> (\<open>core/logmodel/classify.go\<close>, \<open>hot_threads.go\<close>, routing in \<open>core/core.go\<close>): which partition a
    command belongs to, the split of hot threads, and that a routed record passes the writer's validation.
  \<^item> \<open>Partition_Assignment\<close> (\<open>core/logmodel/ownership.go\<close>, \<open>assigners.go\<close>): the hash assigner and the snapshot assigner;
    no partition has two owners.
  \<^item> \<open>Command_Records\<close> (\<open>source_position.go\<close>, \<open>receipts.go\<close>, \<open>records.go\<close> of \<open>core/logmodel\<close>): positions, receipts and
    message ids.
  \<^item> \<open>Command_Log\<close>, \<open>Event_Store\<close> (\<open>core/partitioned_log.go\<close>): the in-memory logs. Invariants of all reachable states,
    idempotent production, exactly-once consumption, paging.
  \<^item> \<open>Event_Parity\<close> (\<open>core/partitioned_log.go\<close>): shadow writing, the parity check of a window, the runner with checkpoints
    and the promotion check; locales \<open>paged_event_log\<close> and \<open>paged_promotion\<close>.
  \<^item> \<open>Command_Worker\<close>, \<open>Worker_Safety\<close> (\<open>core/command_log_worker.go\<close>): the worker over arbitrary logs, assigners, claimers,
    executors and finalizers, and what it keeps: order, commit only after success, ownership before every effect.
  \<^item> \<open>Broker_Records\<close>, \<open>Broker_Command_Log\<close>, \<open>Broker_Event_Log\<close>, \<open>Broker_Transaction\<close> (\<open>core/logmodel/broker_records.go\<close>,
    \<open>broker_messages.go\<close>, \<open>core/broker_command_log.go\<close>, \<open>broker_event_log.go\<close>, \<open>command_event_transaction.go\<close>): the adapters
    over a broker client and the in-memory reference clients. The adapters refine the in-memory logs; transactions are
    atomic, idempotent and, for new events, always accepted; the adapter accepts no answer that differs from the request.
    The contract of a transactional store is the locale \<open>transaction_store\<close>.
  \<^item> \<open>Stream_Cursor\<close> (\<open>proto/wire.go\<close>, \<open>proto/event.go\<close>, \<open>core/log.go\<close>, \<open>core/core.go\<close>, \<open>core/stream_delivery.go\<close>,
    \<open>wsapi/conn.go\<close>, \<open>httpapi/events.go\<close>): cursors, replay from the event table, delivery with gap repair. What is sent is
    in order and without repetition; gaps are repaired completely within the replay limit; two situations in which
    events are lost.
  \<^item> \<open>Event_Bus\<close> (\<open>core/pubsub.go\<close>): subscriptions and publishing, and a step relation for their concurrent use; bounded
    buffers, the effect of a publish, and the interleaving that panics.
  \<^item> \<open>Rate_Limiter\<close> (\<open>ratelimit/ratelimit.go\<close>): failures, lockouts, pruning. When a key is locked, for how long at least
    and at most.
  \<^item> \<open>Projection_Worker\<close> (\<open>core/event_store_materializer.go\<close>, \<open>core/logmodel/watermarks.go\<close>,
    \<open>core/projections/watermarks.go\<close>): materialization of a partition in one transaction with its watermark, and the drain
    loop, which ends and catches up.

  \<^item> \<open>Post_Text\<close> (\<open>core/commandparse/parse.go\<close>, quotes in \<open>proto/command.go\<close>): poll markup and quoted replies on bytes and
    runes. Polls are read back as written; on which bodies the parser panics.
  \<^item> \<open>Board_Rules\<close> (\<open>core/boardmodel\<close>, \<open>postmodel\<close>, \<open>threadmodel\<close>, \<open>accountmodel/roles.go\<close>, \<open>core/commandrules\<close>, the permission
    readers of \<open>core/projections/readers.go\<close>): who may do what on a board.
  \<^item> \<open>Post_Commands\<close> (\<open>proto/command.go\<close>, \<open>core/commandevents\<close>): payloads, their normal forms, events and their scopes.
  \<^item> \<open>Automod\<close> (\<open>core/automodmodel\<close>, \<open>core/automod_eval.go\<close>): content filters and the choice of the automod rule.
  \<^item> \<open>Native_Decider\<close>, \<open>Native_Commands\<close> (\<open>core/command_log_native_decider.go\<close>): the decider of the command log: identifiers,
    generated posts, filters and automod actions; the decisions of 18 commands, the dispatch and the decision cache.
  \<^item> \<open>Decider_Safety\<close>: one rule per combinator for what a decision ensures, and the numbering of events.
    \<open>Decider_Theorems\<close>: a decision is committed as executed, identifiers are stable. \<open>Decider_Policy\<close>: the access policy as a
    predicate on events, which no decision violates; the two readings of the board permissions agree. \<open>Decider_Posts\<close>:
    admission and depth of replies, anonymity and its two holes.

  \<^bold>\<open>Conventions.\<close> A struct is a record whose fields carry a prefix, a method \<open>T.M\<close> is \<open>T_M\<close> (or a short prefix for the body
  after the nil checks, as in \<open>mcl_produce\<close>). A nil receiver is \<open>None\<close>. An error is a value of \<open>go_error\<close> with its format
  string and arguments; fallible functions return \<open>go_error + 'a\<close>. Decisions have the outcomes panic, rejection and value;
  code that returns early on a failed check passes the rest of the function to \<open>demand\<close>, \<open>load\<close> or \<open>present\<close>. A Go map is an association list read through
  \<open>gm_get\<close>, \<open>gm_has\<close> and \<open>gm_set\<close>. Integers are unbounded with \<open>wrap64\<close> where the source adds. Methods that hold their
  mutex throughout are one step. \<open>time.Now\<close> and fresh ids are arguments.

  \<^bold>\<open>Parameters and their laws.\<close> JSON: \<open>json_codec\<close> with \<open>codec_stable\<close>, \<open>payload_codec_ok\<close>, the record codecs with
  \<open>record_codec_ok\<close>, \<open>event_codec_ok\<close>, \<open>command_codec_ok\<close>; each law is shown to hold for a concrete codec. SQL: \<open>event_db\<close>
  with \<open>event_db_ok\<close> (selection and order of the rows of a table), \<open>projection_sql\<close> (statements that may fail), \<open>forum_db\<close> (one field
  per statement of the decider) with \<open>rows_keyed\<close> (a row found by its id has this id). The decider takes the time, SHA-256,
  the Unicode case table, time formats, regular expressions and the payload decoders from \<open>native_env\<close>. Broker
  clients, executors, claimers, transports and the shared store of the rate limiter are method tables over a state.

  \<^bold>\<open>Loops.\<close> No fuel is used. Loops over slices are structural recursion. The paging loops (\<open>replay_pages\<close>,
  \<open>readiness_windows\<close>, \<open>drain_loop\<close>) are partial functions into \<open>option\<close>, where \<open>None\<close> is a loop that does not end; that
  they return is part of the theorems about them.

  \<^bold>\<open>Concurrency.\<close> The worker theorems hold for one goroutine per partition, with the other writers' effects on logs and
  claims arbitrary between its calls. The parity theorems read the stores at one moment. The bus is the one component
  whose operations are interleaved step by step.

  \<^bold>\<open>Not modelled.\<close> The SQL statements of the handlers, projections, derived views, outbox and migrations, and the
  PostgreSQL batch path of the projection worker: what they do is the database's. Network and terminal input and output
  (HTTP, WebSocket frames, NNTP, SSH). The adapters of Kafka, NATS and Redis, which are clients of external systems; the
  reference clients state their contract. Timer loops, \<open>drainPartitionsConcurrently\<close>, metrics and logging. The decisions on
  boards, memberships, roles, mail, digests, favourites and notices are the parameter \<open>others\<close> of the dispatch; they are next
  in the plan, with the remaining payloads and rules.
\<close>

end
